(* ===== verification/Prelude.thy ===== *)
theory Prelude
  imports Main "HOL-Library.Word"
begin

text \<open>
  Shared vocabulary of the development: the machine integer types of
  \<^verbatim>\<open>src/common/base/types.h\<close>, the byte images of machine words as the
  host's memcpy produces them (a little-endian host), the wrap-around of
  \<^verbatim>\<open>size_t\<close> and of the atomic counters, and the collections of facts that the
  component theories add to.

  Conventions used by every theory: an \<open>int64\<close> or \<open>int32\<close> that the code only stores
  and compares is an \<open>int\<close>; an atomic counter wraps explicitly (\<open>wrap64\<close>); a
  \<open>size_t\<close> is a \<open>nat\<close>, with \<open>size_sub\<close> where the code subtracts two of them;
  a value whose bits matter is a \<open>word\<close> of its width. A result \<open>None\<close> is
  behaviour that C++ leaves undefined, an assertion that aborts, or a thread that never
  returns; each definition says which.
\<close>

unbundle bit_operations_syntax

type_synonym byte = "8 word"
type_synonym uint8 = "8 word"
type_synonym uint16 = "16 word"
type_synonym uint32 = "32 word"
type_synonym uint64 = "64 word"

named_theorems model_defs "unfolding rules of the operations"
named_theorems content_simps "what each operation does to the abstract contents"
named_theorems inv_intros "operations preserve their component's invariant"

subsection \<open>Wrap-around\<close>

definition size_sub :: "nat \<Rightarrow> nat \<Rightarrow> nat" where
  "size_sub a b = (if b \<le> a then a - b else 2 ^ 64 + a - b)"

lemma size_sub_le [simp]: "b \<le> a \<Longrightarrow> size_sub a b = a - b"
  by (simp add: size_sub_def)

lemma size_sub_underflow: "a < b \<Longrightarrow> b \<le> a + 1024 \<Longrightarrow> 2 ^ 63 < size_sub a b"
  by (simp add: size_sub_def)

definition wrap64 :: "int \<Rightarrow> int" where
  "wrap64 n = (n + 2 ^ 63) mod 2 ^ 64 - 2 ^ 63"

lemma wrap64_small [simp]: "- (2 ^ 63) \<le> n \<Longrightarrow> n < 2 ^ 63 \<Longrightarrow> wrap64 n = n"
  by (simp add: wrap64_def)

lemma wrap64_range: "- (2 ^ 63) \<le> wrap64 n \<and> wrap64 n < 2 ^ 63"
proof -
  have "0 \<le> (n + 2 ^ 63) mod (2::int) ^ 64" "(n + 2 ^ 63) mod (2::int) ^ 64 < 2 ^ 64"
    by (simp_all del: power_numeral)
  then show ?thesis by (simp add: wrap64_def)
qed

text \<open>The division and remainder of C++ on signed integers, rounding towards zero.\<close>

definition cdiv :: "int \<Rightarrow> int \<Rightarrow> int" where
  "cdiv a b = sgn a * sgn b * (\<bar>a\<bar> div \<bar>b\<bar>)"

definition cmod :: "int \<Rightarrow> int \<Rightarrow> int" where
  "cmod a b = a - b * cdiv a b"

lemma cdiv_nonneg [simp]: "0 \<le> a \<Longrightarrow> 0 < b \<Longrightarrow> cdiv a b = a div b"
  by (cases "a = 0") (simp_all add: cdiv_def)

lemma cmod_nonneg [simp]: "0 \<le> a \<Longrightarrow> 0 < b \<Longrightarrow> cmod a b = a mod b"
  by (simp add: cmod_def minus_mult_div_eq_mod)

text \<open>An \<open>int32\<close> result; signed overflow is undefined.\<close>

definition fits32 :: "int \<Rightarrow> bool" where
  "fits32 n \<longleftrightarrow> - (2 ^ 31) \<le> n \<and> n < 2 ^ 31"

subsection \<open>Lists\<close>

lemma take_drop_append_exact [simp]:
  "length xs = n \<Longrightarrow> take n (xs @ ys) = xs"
  "length xs = n \<Longrightarrow> drop n (xs @ ys) = ys"
  by auto

lemma filter_eq_self: "(\<And>x. x \<in> set xs \<Longrightarrow> P x) \<Longrightarrow> filter P xs = xs"
  by (induction xs) auto

lemma filter_eq_Nil: "(\<And>x. x \<in> set xs \<Longrightarrow> \<not> P x) \<Longrightarrow> filter P xs = []"
  by (induction xs) auto

subsection \<open>Byte images of words\<close>

text \<open>
  \<open>le_bytes w\<close> is what \<^verbatim>\<open>memcpy(dst, &w, sizeof w)\<close> stores on the
  little-endian hosts the server is built for, \<open>of_le_bytes\<close> what
  \<^verbatim>\<open>memcpy(&w, src, sizeof w)\<close> loads.
\<close>

definition le_bytes :: "'a::len word \<Rightarrow> byte list" where
  "le_bytes w = map (\<lambda>i. ucast (drop_bit (8 * i) w)) [0..<LENGTH('a) div 8]"

fun of_le_bytes :: "byte list \<Rightarrow> 'a::len word" where
  "of_le_bytes [] = 0"
| "of_le_bytes (b # bs) = ucast b OR push_bit 8 (of_le_bytes bs)"

lemma length_le_bytes [simp]: "length (le_bytes (w :: 'a::len word)) = LENGTH('a) div 8"
  by (simp add: le_bytes_def)

lemma bit_of_le_bytes:
  "bit (of_le_bytes bs :: 'a::len word) n \<longleftrightarrow>
     n < LENGTH('a) \<and> n div 8 < length bs \<and> bit (bs ! (n div 8)) (n mod 8)"
proof (induction bs arbitrary: n)
  case Nil
  then show ?case by simp
next
  case (Cons b bs)
  show ?case
  proof (cases "n < 8")
    case True
    then show ?thesis by (auto simp: bit_simps)
  next
    case False
    then obtain m where m: "n = m + 8" by (metis add.commute le_Suc_ex not_less)
    have "\<not> bit b (m + 8)" using bit_imp_le_length[of b "m + 8"] by auto
    moreover have "(m + 8) div 8 = Suc (m div 8)" by simp
    ultimately show ?thesis using Cons[of m] by (auto simp: m bit_simps)
  qed
qed

lemma of_le_bytes_le_bytes:
  assumes "8 dvd LENGTH('a)"
  shows "of_le_bytes (le_bytes (w :: 'a::len word)) = w"
proof (rule bit_word_eqI)
  fix n assume n: "n < LENGTH('a)"
  with assms have d: "n div 8 < LENGTH('a) div 8" by (auto elim: dvdE)
  have "bit (le_bytes w ! (n div 8)) (n mod 8) \<longleftrightarrow> bit w n"
    using d by (auto simp: le_bytes_def bit_simps)
  with n d show "bit (of_le_bytes (le_bytes w) :: 'a word) n \<longleftrightarrow> bit w n"
    by (simp add: bit_of_le_bytes)
qed

lemma of_le_bytes_8 [simp]: "of_le_bytes (le_bytes (w :: 8 word)) = w"
  and of_le_bytes_16 [simp]: "of_le_bytes (le_bytes (w2 :: 16 word)) = w2"
  and of_le_bytes_32 [simp]: "of_le_bytes (le_bytes (w4 :: 32 word)) = w4"
  and of_le_bytes_64 [simp]: "of_le_bytes (le_bytes (w8 :: 64 word)) = w8"
  by (simp_all add: of_le_bytes_le_bytes)

text \<open>Network byte order: the most significant byte first.\<close>

definition be_bytes :: "'a::len word \<Rightarrow> byte list" where
  "be_bytes w = rev (le_bytes w)"

definition of_be_bytes :: "byte list \<Rightarrow> 'a::len word" where
  "of_be_bytes bs = of_le_bytes (rev bs)"

lemma length_be_bytes [simp]: "length (be_bytes (w :: 'a::len word)) = LENGTH('a) div 8"
  by (simp add: be_bytes_def)

lemma of_be_bytes_be_bytes: "8 dvd LENGTH('a) \<Longrightarrow> of_be_bytes (be_bytes (w :: 'a::len word)) = w"
  by (simp add: be_bytes_def of_be_bytes_def of_le_bytes_le_bytes)

end
