(* ===== verification/Buffer.thy ===== *)
theory Buffer
  imports Prelude "HOL-Library.Monad_Syntax"
begin

text \<open>
  \<^verbatim>\<open>src/common/base/buffer.h\<close> and \<^verbatim>\<open>buffer.cpp\<close>: the byte buffer every
  connection reads into and writes from. The vector is the list \<open>store\<close>, the two
  indices are \<open>readerIndex\<close> and \<open>writerIndex\<close>. A memory access outside the vector
  is \<open>None\<close>; reads between \<open>writerIndex\<close> and the end of the vector see stale bytes,
  as in the code. The abstract view is \<open>Buffer_content\<close>, the readable bytes, a byte
  queue: the locale \<open>byte_queue\<close> states that contract and is interpreted on the
  buffer's own operations.
\<close>

subsection \<open>State and operations\<close>

record buffer =
  store :: "byte list"
  readerIndex :: nat
  writerIndex :: nat

definition kInitialSize :: nat where "kInitialSize = 1024"
definition kCheapPrepend :: nat where "kCheapPrepend = 8"

definition Buffer_new :: "nat \<Rightarrow> buffer" where
  "Buffer_new initialSize =
     \<lparr>store = replicate (kCheapPrepend + initialSize) 0,
      readerIndex = kCheapPrepend, writerIndex = kCheapPrepend\<rparr>"

definition Buffer_default :: buffer where
  "Buffer_default = Buffer_new kInitialSize"

text \<open>The moved-from vector is empty; the result is the new buffer and what is left of the old.\<close>

definition Buffer_move :: "buffer \<Rightarrow> buffer \<times> buffer" where
  "Buffer_move other =
     (other, \<lparr>store = [], readerIndex = kCheapPrepend, writerIndex = kCheapPrepend\<rparr>)"

text \<open>Assignment; \<open>same\<close> is the test for an assignment to itself.\<close>

definition Buffer_move_assign :: "bool \<Rightarrow> buffer \<Rightarrow> buffer \<Rightarrow> buffer \<times> buffer" where
  "Buffer_move_assign same b other =
     (if same then (b, other)
      else (other, \<lparr>store = [], readerIndex = kCheapPrepend, writerIndex = kCheapPrepend\<rparr>))"

definition Buffer_readableBytes :: "buffer \<Rightarrow> nat" where
  "Buffer_readableBytes b = size_sub (writerIndex b) (readerIndex b)"

definition Buffer_writableBytes :: "buffer \<Rightarrow> nat" where
  "Buffer_writableBytes b = size_sub (length (store b)) (writerIndex b)"

definition Buffer_prependableBytes :: "buffer \<Rightarrow> nat" where
  "Buffer_prependableBytes b = readerIndex b"

text \<open>Reading \<open>n\<close> bytes from \<^verbatim>\<open>peek()\<close>.\<close>

definition Buffer_peek :: "buffer \<Rightarrow> nat \<Rightarrow> byte list option" where
  "Buffer_peek b n =
     (if readerIndex b + n \<le> length (store b)
      then Some (take n (drop (readerIndex b) (store b))) else None)"

text \<open>Copying bytes into the vector at an offset.\<close>

definition Buffer_poke :: "buffer \<Rightarrow> nat \<Rightarrow> byte list \<Rightarrow> buffer option" where
  "Buffer_poke b off bs =
     (if off + length bs \<le> length (store b)
      then Some (b\<lparr>store := take off (store b) @ bs @ drop (off + length bs) (store b)\<rparr>)
      else None)"

fun search_crlf :: "byte list \<Rightarrow> nat option" where
  "search_crlf (a # c # xs) =
     (if a = 13 \<and> c = 10 then Some 0 else map_option Suc (search_crlf (c # xs)))"
| "search_crlf _ = None"

text \<open>The offset of the match from \<^verbatim>\<open>peek()\<close>, \<open>None\<close> for the null pointer.\<close>

definition Buffer_findCRLF :: "buffer \<Rightarrow> nat option" where
  "Buffer_findCRLF b =
     search_crlf (take (Buffer_readableBytes b) (drop (readerIndex b) (store b)))"

definition Buffer_retrieveAll :: "buffer \<Rightarrow> buffer" where
  "Buffer_retrieveAll b = b\<lparr>readerIndex := kCheapPrepend, writerIndex := kCheapPrepend\<rparr>"

definition Buffer_retrieve :: "buffer \<Rightarrow> nat \<Rightarrow> buffer" where
  "Buffer_retrieve b len =
     (if len < Buffer_readableBytes b then b\<lparr>readerIndex := readerIndex b + len\<rparr>
      else Buffer_retrieveAll b)"

definition Buffer_retrieveAsString :: "buffer \<Rightarrow> nat \<Rightarrow> (byte list \<times> buffer) option" where
  "Buffer_retrieveAsString b len =
     do { result \<leftarrow> Buffer_peek b len; Some (result, Buffer_retrieve b len) }"

definition Buffer_retrieveAllAsString :: "buffer \<Rightarrow> (byte list \<times> buffer) option" where
  "Buffer_retrieveAllAsString b = Buffer_retrieveAsString b (Buffer_readableBytes b)"

definition Buffer_hasWritten :: "buffer \<Rightarrow> nat \<Rightarrow> buffer" where
  "Buffer_hasWritten b len = b\<lparr>writerIndex := writerIndex b + len\<rparr>"

definition vector_resize :: "nat \<Rightarrow> byte list \<Rightarrow> byte list" where
  "vector_resize n xs = take n xs @ replicate (n - length xs) 0"

definition Buffer_makeSpace :: "buffer \<Rightarrow> nat \<Rightarrow> buffer option" where
  "Buffer_makeSpace b len =
     (if Buffer_writableBytes b + Buffer_prependableBytes b < len + kCheapPrepend
      then Some (b\<lparr>store := vector_resize (writerIndex b + len) (store b)\<rparr>)
      else do {
        let readable = Buffer_readableBytes b;
        bs \<leftarrow> Buffer_peek b readable;
        b' \<leftarrow> Buffer_poke b kCheapPrepend bs;
        Some (b'\<lparr>readerIndex := kCheapPrepend, writerIndex := kCheapPrepend + readable\<rparr>) })"

definition Buffer_ensureWritableBytes :: "buffer \<Rightarrow> nat \<Rightarrow> buffer option" where
  "Buffer_ensureWritableBytes b len =
     (if Buffer_writableBytes b < len then Buffer_makeSpace b len else Some b)"

definition Buffer_append :: "buffer \<Rightarrow> byte list \<Rightarrow> buffer option" where
  "Buffer_append b bs =
     do { b1 \<leftarrow> Buffer_ensureWritableBytes b (length bs);
          b2 \<leftarrow> Buffer_poke b1 (writerIndex b1) bs;
          Some (Buffer_hasWritten b2 (length bs)) }"

definition Buffer_prepend :: "buffer \<Rightarrow> byte list \<Rightarrow> buffer option" where
  "Buffer_prepend b bs =
     (if length bs \<le> readerIndex b
      then Buffer_poke (b\<lparr>readerIndex := readerIndex b - length bs\<rparr>)
             (readerIndex b - length bs) bs
      else None)"

definition hton32 :: "uint32 \<Rightarrow> uint32" where
  "hton32 v = (drop_bit 24 v) OR ((drop_bit 8 v) AND 0xFF00)
            OR ((push_bit 8 v) AND 0xFF0000) OR (push_bit 24 v)"

definition ntoh32 :: "uint32 \<Rightarrow> uint32" where
  "ntoh32 v = hton32 v"

definition Buffer_readBytes :: "buffer \<Rightarrow> nat \<Rightarrow> (byte list \<times> buffer) option" where
  "Buffer_readBytes b len =
     do { bs \<leftarrow> Buffer_peek b len; Some (bs, Buffer_retrieve b len) }"

definition Buffer_readUInt32 :: "buffer \<Rightarrow> (uint32 \<times> buffer) option" where
  "Buffer_readUInt32 b =
     do { bs \<leftarrow> Buffer_peek b 4;
          let result = ntoh32 (of_le_bytes bs);
          Some (result, Buffer_retrieve b 4) }"

definition Buffer_readInt32 :: "buffer \<Rightarrow> (uint32 \<times> buffer) option" where
  "Buffer_readInt32 b =
     do { bs \<leftarrow> Buffer_peek b 4;
          let result = ntoh32 (of_le_bytes bs);
          Some (result, Buffer_retrieve b 4) }"

definition Buffer_peekInt32 :: "buffer \<Rightarrow> uint32 option" where
  "Buffer_peekInt32 b = do { bs \<leftarrow> Buffer_peek b 4; Some (ntoh32 (of_le_bytes bs)) }"

definition Buffer_writeUInt32 :: "buffer \<Rightarrow> uint32 \<Rightarrow> buffer option" where
  "Buffer_writeUInt32 b value = Buffer_append b (le_bytes (hton32 value))"

definition Buffer_writeInt32 :: "buffer \<Rightarrow> uint32 \<Rightarrow> buffer option" where
  "Buffer_writeInt32 b value = Buffer_append b (le_bytes (hton32 value))"

definition Buffer_swap :: "buffer \<Rightarrow> buffer \<Rightarrow> buffer \<times> buffer" where
  "Buffer_swap b other = (other, b)"

definition Buffer_shrink :: "buffer \<Rightarrow> nat \<Rightarrow> buffer option" where
  "Buffer_shrink b reserve =
     do { other \<leftarrow> Buffer_ensureWritableBytes Buffer_default (Buffer_readableBytes b + reserve);
          bs \<leftarrow> Buffer_peek b (Buffer_readableBytes b);
          other' \<leftarrow> Buffer_append other bs;
          Some (fst (Buffer_swap b other')) }"

definition Buffer_capacity :: "buffer \<Rightarrow> nat" where
  "Buffer_capacity b = length (store b)"

text \<open>
  \<^verbatim>\<open>readFd\<close>: \<open>Inl errno\<close> for a failed \<^verbatim>\<open>readv\<close>, \<open>Inr bs\<close> for the bytes it
  scattered over the writable part of the vector and the 64 KiB stack buffer. The result is
  the buffer, the return value and the saved errno.
\<close>

definition readFd_extra :: nat where "readFd_extra = 65536"

definition Buffer_readFd :: "buffer \<Rightarrow> int + byte list \<Rightarrow> (buffer \<times> int \<times> int option) option" where
  "Buffer_readFd b readv = (case readv of
     Inl errno \<Rightarrow> Some (b, -1, Some errno)
   | Inr bs \<Rightarrow>
       (let writable = Buffer_writableBytes b; n = length bs in
        do { b1 \<leftarrow> Buffer_poke b (writerIndex b) (take writable bs);
             if n \<le> writable then Some (Buffer_hasWritten b1 n, int n, None)
             else do {
               let b2 = Buffer_hasWritten b1 writable;
               b3 \<leftarrow> Buffer_append b2 (drop writable bs);
               Some (b3, int n, None) } }))"

subsection \<open>Invariant and abstract contents\<close>

definition Buffer_inv :: "buffer \<Rightarrow> bool" where
  "Buffer_inv b \<longleftrightarrow>
     8 \<le> length (store b) \<and> readerIndex b \<le> writerIndex b \<and> writerIndex b \<le> length (store b)"

definition Buffer_content :: "buffer \<Rightarrow> byte list" where
  "Buffer_content b = take (writerIndex b - readerIndex b) (drop (readerIndex b) (store b))"

lemmas buffer_sizes =
  Buffer_readableBytes_def Buffer_writableBytes_def Buffer_prependableBytes_def
  kCheapPrepend_def kInitialSize_def

lemma Buffer_new_inv [simp]: "Buffer_inv (Buffer_new n)"
  and Buffer_new_content [simp]: "Buffer_content (Buffer_new n) = []"
  by (simp_all add: Buffer_inv_def Buffer_content_def Buffer_new_def buffer_sizes)

lemma Buffer_default_inv [simp]: "Buffer_inv Buffer_default"
  and Buffer_default_content [simp]: "Buffer_content Buffer_default = []"
  by (simp_all add: Buffer_default_def)

lemma length_content [content_simps]:
  "Buffer_inv b \<Longrightarrow> length (Buffer_content b) = Buffer_readableBytes b"
  by (auto simp: Buffer_inv_def Buffer_content_def buffer_sizes)

lemma readableBytes_eq: "Buffer_inv b \<Longrightarrow> Buffer_readableBytes b = length (Buffer_content b)"
  by (simp add: length_content)

lemma retrieveAll_inv [inv_intros]: "Buffer_inv b \<Longrightarrow> Buffer_inv (Buffer_retrieveAll b)"
  and retrieveAll_content [content_simps]: "Buffer_content (Buffer_retrieveAll b) = []"
  by (auto simp: Buffer_retrieveAll_def Buffer_inv_def Buffer_content_def buffer_sizes)

lemma retrieve_inv [inv_intros]: "Buffer_inv b \<Longrightarrow> Buffer_inv (Buffer_retrieve b n)"
  by (auto simp: Buffer_retrieve_def retrieveAll_inv)
     (auto simp: Buffer_inv_def buffer_sizes)

lemma retrieve_content [content_simps]:
  assumes "Buffer_inv b"
  shows "Buffer_content (Buffer_retrieve b n) = drop n (Buffer_content b)"
proof (cases "n < Buffer_readableBytes b")
  case True
  with assms show ?thesis
    by (auto simp: Buffer_retrieve_def Buffer_content_def Buffer_inv_def buffer_sizes
        drop_take add.commute)
next
  case False
  with assms show ?thesis
    by (simp add: Buffer_retrieve_def retrieveAll_content length_content)
qed

lemma peek_content [content_simps]:
  "Buffer_inv b \<Longrightarrow> n \<le> length (Buffer_content b) \<Longrightarrow>
     Buffer_peek b n = Some (take n (Buffer_content b))"
  by (auto simp: Buffer_peek_def Buffer_content_def Buffer_inv_def min_def split: if_splits)

lemma poke_Some:
  "off + length bs \<le> length (store b) \<Longrightarrow>
     Buffer_poke b off bs
       = Some (b\<lparr>store := take off (store b) @ bs @ drop (off + length bs) (store b)\<rparr>)"
  by (simp add: Buffer_poke_def)

lemma length_vector_resize [simp]: "length (vector_resize n xs) = n"
  by (simp add: vector_resize_def)

lemma take_vector_resize: "m \<le> n \<Longrightarrow> m \<le> length xs \<Longrightarrow> take m (vector_resize n xs) = take m xs"
  by (simp add: vector_resize_def min_def)

text \<open>
  The compaction branch of \<^verbatim>\<open>makeSpace\<close> only ever moves bytes towards the front: a
  buffer whose reader stands in the prepend area always takes the resizing branch, so
  \<^verbatim>\<open>std::copy\<close> never has its destination inside its source.
\<close>

lemma makeSpace_copies_down:
  "Buffer_inv b \<Longrightarrow> Buffer_writableBytes b < n \<Longrightarrow>
     \<not> Buffer_writableBytes b + Buffer_prependableBytes b < n + kCheapPrepend \<Longrightarrow>
     kCheapPrepend < readerIndex b"
  by (simp add: buffer_sizes)

lemma makeSpace_spec:
  assumes inv: "Buffer_inv b" and short: "Buffer_writableBytes b < n"
  shows "\<exists>b'. Buffer_makeSpace b n = Some b' \<and> Buffer_inv b' \<and>
    Buffer_content b' = Buffer_content b \<and> n \<le> length (store b') - writerIndex b'"
proof (cases "Buffer_writableBytes b + Buffer_prependableBytes b < n + kCheapPrepend")
  case True
  from inv short have "writerIndex b \<le> length (store b)" "length (store b) < writerIndex b + n"
    by (auto simp: Buffer_inv_def buffer_sizes)
  with inv have "Buffer_content (b\<lparr>store := vector_resize (writerIndex b + n) (store b)\<rparr>)
      = Buffer_content b"
    by (simp add: Buffer_content_def Buffer_inv_def vector_resize_def)
  with True inv \<open>length (store b) < writerIndex b + n\<close> show ?thesis
    by (simp add: Buffer_makeSpace_def Buffer_inv_def)
next
  case False
  let ?r = "Buffer_readableBytes b"
  from inv short False have len: "8 + ?r + n \<le> length (store b)"
    by (auto simp: Buffer_inv_def buffer_sizes)
  from inv have bs: "Buffer_peek b ?r = Some (Buffer_content b)"
    by (simp add: peek_content length_content)
  from inv have lc: "length (Buffer_content b) = ?r" by (rule length_content)
  let ?b = "b\<lparr>store := take 8 (store b) @ Buffer_content b @ drop (8 + ?r) (store b),
              readerIndex := 8, writerIndex := 8 + ?r\<rparr>"
  have "Buffer_makeSpace b n = Some ?b"
    using False len by (simp add: Buffer_makeSpace_def bs poke_Some kCheapPrepend_def lc Let_def)
  moreover have "Buffer_inv ?b" "Buffer_content ?b = Buffer_content b"
    using len lc by (simp_all add: Buffer_inv_def Buffer_content_def[of ?b])
  moreover have "n \<le> length (store ?b) - writerIndex ?b" using len lc by simp
  ultimately show ?thesis by blast
qed

lemma ensureWritableBytes_spec:
  assumes "Buffer_inv b"
  shows "\<exists>b'. Buffer_ensureWritableBytes b n = Some b' \<and> Buffer_inv b' \<and>
    Buffer_content b' = Buffer_content b \<and> n \<le> length (store b') - writerIndex b'"
proof (cases "Buffer_writableBytes b < n")
  case True
  with makeSpace_spec[OF assms True] show ?thesis by (simp add: Buffer_ensureWritableBytes_def)
next
  case False
  with assms show ?thesis
    by (auto simp: Buffer_ensureWritableBytes_def Buffer_writableBytes_def Buffer_inv_def)
qed

lemma write_at_end:
  assumes "Buffer_inv b" "length bs \<le> length (store b) - writerIndex b"
  shows "\<exists>b'. Buffer_poke b (writerIndex b) bs = Some b' \<and>
    Buffer_inv (Buffer_hasWritten b' (length bs)) \<and>
    Buffer_content (Buffer_hasWritten b' (length bs)) = Buffer_content b @ bs"
proof -
  let ?s = "store b" and ?w = "writerIndex b" and ?r = "readerIndex b"
  have fits: "?w + length bs \<le> length ?s" "?r \<le> ?w" "?w \<le> length ?s" "8 \<le> length ?s"
    using assms by (auto simp: Buffer_inv_def)
  let ?s' = "take ?w ?s @ bs @ drop (?w + length bs) ?s"
  have "drop ?r ?s' = take (?w - ?r) (drop ?r ?s) @ bs @ drop (?w + length bs) ?s"
    using fits by (simp add: drop_take)
  moreover have "length (take (?w - ?r) (drop ?r ?s)) = ?w - ?r" using fits by simp
  moreover have "?w + length bs - ?r = (?w - ?r) + length bs" using fits by simp
  ultimately have "take (?w + length bs - ?r) (drop ?r ?s') = take (?w - ?r) (drop ?r ?s) @ bs"
    by simp
  with fits show ?thesis
    by (simp add: poke_Some Buffer_hasWritten_def Buffer_inv_def Buffer_content_def)
qed

lemma append_spec:
  assumes "Buffer_inv b"
  shows "\<exists>b'. Buffer_append b bs = Some b' \<and> Buffer_inv b' \<and>
    Buffer_content b' = Buffer_content b @ bs"
proof -
  from ensureWritableBytes_spec[OF assms, of "length bs"] obtain b1 where
    b1: "Buffer_ensureWritableBytes b (length bs) = Some b1" "Buffer_inv b1"
      "Buffer_content b1 = Buffer_content b" "length bs \<le> length (store b1) - writerIndex b1"
    by blast
  from write_at_end[OF b1(2,4)] show ?thesis
    by (auto simp: Buffer_append_def b1(1,3))
qed

lemma retrieveAsString_spec:
  assumes "Buffer_inv b" "n \<le> length (Buffer_content b)"
  shows "\<exists>b'. Buffer_retrieveAsString b n = Some (take n (Buffer_content b), b') \<and>
    Buffer_inv b' \<and> Buffer_content b' = drop n (Buffer_content b)"
  using assms by (simp add: Buffer_retrieveAsString_def content_simps retrieve_inv)

subsection \<open>Network byte order\<close>

lemma bit_mask_FF00: "bit (0xFF00 :: uint32) n \<longleftrightarrow> 8 \<le> n \<and> n < 16"
proof -
  have "(0xFF00 :: uint32) = push_bit 8 (mask 8)" by (simp add: mask_eq_exp_minus_1)
  then show ?thesis by (simp only: bit_push_bit_iff bit_mask_iff) auto
qed

lemma bit_mask_FF0000: "bit (0xFF0000 :: uint32) n \<longleftrightarrow> 16 \<le> n \<and> n < 24"
proof -
  have "(0xFF0000 :: uint32) = push_bit 16 (mask 8)" by (simp add: mask_eq_exp_minus_1)
  then show ?thesis by (simp only: bit_push_bit_iff bit_mask_iff) auto
qed

lemma bit_hton32:
  "bit (hton32 v) n \<longleftrightarrow>
     bit v (24 + n) \<or> bit v (8 + n) \<and> 8 \<le> n \<and> n < 16 \<or>
     8 \<le> n \<and> n < 32 \<and> bit v (n - 8) \<and> 16 \<le> n \<and> n < 24 \<or> 24 \<le> n \<and> n < 32 \<and> bit v (n - 24)"
  by (simp only: hton32_def bit_or_iff bit_and_iff bit_push_bit_iff bit_drop_bit_eq comp_apply
      bit_mask_FF00 bit_mask_FF0000) auto

lemma bit32_out: "32 \<le> n \<Longrightarrow> \<not> bit (v :: uint32) n"
  using bit_imp_le_length[of v n] by auto

lemma hton32_bytes: "le_bytes (hton32 v) = be_bytes v"
proof -
  have up: "[0..<4] = [0, 1, 2, 3::nat]" by (simp add: upt_rec)
  have "(ucast (drop_bit k (hton32 v)) :: byte) = ucast (drop_bit (24 - k) v)"
    if "k \<in> {0, 8, 16, 24}" for k
    using that by (auto intro!: bit_word_eqI simp: bit_hton32 bit_unsigned_iff bit_drop_bit_eq bit32_out)
  from this[of 0] this[of 8] this[of 16] this[of 24] show ?thesis
    by (simp add: le_bytes_def be_bytes_def up)
qed

subsection \<open>The contract: a queue of bytes\<close>

locale byte_queue =
  fixes content :: "'b \<Rightarrow> byte list"
    and inv :: "'b \<Rightarrow> bool"
    and put :: "'b \<Rightarrow> byte list \<Rightarrow> 'b option"
    and get :: "'b \<Rightarrow> nat \<Rightarrow> (byte list \<times> 'b) option"
  assumes put_law: "inv b \<Longrightarrow> \<exists>b'. put b bs = Some b' \<and> inv b' \<and> content b' = content b @ bs"
    and get_law: "inv b \<Longrightarrow> n \<le> length (content b) \<Longrightarrow>
      \<exists>b'. get b n = Some (take n (content b), b') \<and> inv b' \<and> content b' = drop n (content b)"
begin

lemma get_front:
  assumes "inv b" "content b = xs @ rest"
  shows "\<exists>b'. get b (length xs) = Some (xs, b') \<and> inv b' \<and> content b' = rest"
  using get_law[OF assms(1), of "length xs"] assms(2) by simp

lemma put_then_get:
  assumes "inv b"
  shows "\<exists>b1 b2 b3. put b xs = Some b1 \<and> get b1 (length (content b)) = Some (content b, b2) \<and>
    get b2 (length xs) = Some (xs, b3) \<and> inv b3 \<and> content b3 = []"
proof -
  from put_law[OF assms] obtain b1
    where b1: "put b xs = Some b1" "inv b1" "content b1 = content b @ xs" by blast
  from get_front[OF b1(2,3)] obtain b2
    where b2: "get b1 (length (content b)) = Some (content b, b2)" "inv b2" "content b2 = xs @ []"
    by auto
  from get_front[OF b2(2,3)] b1(1) b2(1) show ?thesis by blast
qed

fun puts :: "'b \<Rightarrow> byte list list \<Rightarrow> 'b option" where
  "puts b [] = Some b"
| "puts b (xs # xss) = do { b' \<leftarrow> put b xs; puts b' xss }"

lemma puts_law:
  "inv b \<Longrightarrow> \<exists>b'. puts b xss = Some b' \<and> inv b' \<and> content b' = content b @ concat xss"
proof (induction xss arbitrary: b)
  case Nil
  then show ?case by simp
next
  case (Cons xs xss)
  from put_law[OF Cons.prems] obtain b1
    where b1: "put b xs = Some b1" "inv b1" "content b1 = content b @ xs" by blast
  from Cons.IH[OF b1(2)] b1 show ?case by auto
qed

end

interpretation bq: byte_queue Buffer_content Buffer_inv Buffer_append Buffer_retrieveAsString
  by unfold_locales (simp_all add: append_spec retrieveAsString_spec)

subsection \<open>Writers and readers\<close>

text \<open>
  \<open>appends b bs r\<close>: the writer returned a buffer holding \<open>bs\<close> after what \<open>b\<close> held.
  \<open>reads v rest r\<close>: the reader returned \<open>v\<close> and left \<open>rest\<close>. Both compose along the
  code's sequences of calls.
\<close>

definition appends :: "buffer \<Rightarrow> byte list \<Rightarrow> buffer option \<Rightarrow> bool" where
  "appends b bs r \<longleftrightarrow>
     (\<exists>b'. r = Some b' \<and> Buffer_inv b' \<and> Buffer_content b' = Buffer_content b @ bs)"

definition reads :: "'v \<Rightarrow> byte list \<Rightarrow> ('v \<times> buffer) option \<Rightarrow> bool" where
  "reads v rest r \<longleftrightarrow> (\<exists>b'. r = Some (v, b') \<and> Buffer_inv b' \<and> Buffer_content b' = rest)"

lemma appends_append [intro]: "Buffer_inv b \<Longrightarrow> appends b bs (Buffer_append b bs)"
  by (simp add: appends_def append_spec)

lemma appends_bind:
  "appends b xs r \<Longrightarrow> (\<And>b'. Buffer_inv b' \<Longrightarrow> appends b' ys (f b')) \<Longrightarrow> appends b (xs @ ys) (r \<bind> f)"
  by (fastforce simp: appends_def)

lemma reads_Some [simp]: "reads v rest (Some (w, b)) \<longleftrightarrow> w = v \<and> Buffer_inv b \<and> Buffer_content b = rest"
  by (auto simp: reads_def)

lemma reads_bind:
  "reads v rest r \<Longrightarrow>
    (\<And>b'. Buffer_inv b' \<Longrightarrow> Buffer_content b' = rest \<Longrightarrow> reads w rest' (f (v, b'))) \<Longrightarrow>
    reads w rest' (r \<bind> f)"
  by (fastforce simp: reads_def)

lemma peek_front:
  "Buffer_inv b \<Longrightarrow> Buffer_content b = bs @ rest \<Longrightarrow> length bs = n \<Longrightarrow>
     Buffer_peek b n = Some bs"
  by (simp add: peek_content)

lemma readBytes_reads:
  "Buffer_inv b \<Longrightarrow> Buffer_content b = bs @ rest \<Longrightarrow> length bs = n \<Longrightarrow>
     reads bs rest (Buffer_readBytes b n)"
  by (simp add: Buffer_readBytes_def peek_front retrieve_inv retrieve_content)

lemma ntoh32_be [simp]: "ntoh32 (of_le_bytes (be_bytes v)) = v"
proof -
  have "le_bytes (ntoh32 (of_le_bytes (be_bytes v))) = le_bytes v"
    unfolding ntoh32_def hton32_bytes
    by (metis be_bytes_def hton32_bytes of_le_bytes_32 rev_rev_ident)
  then show ?thesis by (metis of_le_bytes_32)
qed

lemma writeUInt32_appends [intro]: "Buffer_inv b \<Longrightarrow> appends b (be_bytes v) (Buffer_writeUInt32 b v)"
  by (auto simp: Buffer_writeUInt32_def hton32_bytes)

lemma readUInt32_reads:
  "Buffer_inv b \<Longrightarrow> Buffer_content b = be_bytes v @ rest \<Longrightarrow> reads v rest (Buffer_readUInt32 b)"
  by (simp add: Buffer_readUInt32_def peek_front[where bs = "be_bytes v"] retrieve_inv
      retrieve_content Let_def)

lemma peekInt32_front:
  "Buffer_inv b \<Longrightarrow> Buffer_content b = be_bytes v @ rest \<Longrightarrow> Buffer_peekInt32 b = Some v"
  by (simp add: Buffer_peekInt32_def peek_front[where bs = "be_bytes v"])

subsection \<open>The remaining operations\<close>

lemma prepend_content:
  assumes inv: "Buffer_inv b" and fits: "length bs \<le> readerIndex b"
  shows "\<exists>b'. Buffer_prepend b bs = Some b' \<and> Buffer_inv b' \<and>
    Buffer_content b' = bs @ Buffer_content b"
proof -
  let ?s = "store b" and ?w = "writerIndex b" and ?o = "readerIndex b - length bs"
  have r: "readerIndex b = ?o + length bs" "?o + length bs \<le> ?w" "?w \<le> length ?s"
    using fits inv by (auto simp: Buffer_inv_def)
  have "drop ?o (take ?o ?s @ bs @ drop (?o + length bs) ?s) = bs @ drop (?o + length bs) ?s"
    using r by simp
  moreover have "?w - ?o = length bs + (?w - (?o + length bs))" using r by simp
  ultimately show ?thesis
    using r inv by (simp add: Buffer_prepend_def poke_Some Buffer_inv_def Buffer_content_def)
qed

lemma shrink_content:
  assumes "Buffer_inv b"
  shows "\<exists>b'. Buffer_shrink b k = Some b' \<and> Buffer_inv b' \<and> Buffer_content b' = Buffer_content b"
proof -
  obtain o1 where o1: "Buffer_ensureWritableBytes Buffer_default (Buffer_readableBytes b + k) = Some o1"
      "Buffer_inv o1" "Buffer_content o1 = []"
    using ensureWritableBytes_spec[OF Buffer_default_inv, of "Buffer_readableBytes b + k"] by auto
  from append_spec[OF o1(2), of "Buffer_content b"] obtain o2
    where "Buffer_append o1 (Buffer_content b) = Some o2" "Buffer_inv o2"
      "Buffer_content o2 = Buffer_content b" using o1(3) by auto
  then show ?thesis
    using assms o1(1) by (simp add: Buffer_shrink_def peek_content readableBytes_eq Buffer_swap_def)
qed

lemma search_crlf_Some:
  "search_crlf xs = Some i \<Longrightarrow>
     Suc i < length xs \<and> xs ! i = 13 \<and> xs ! Suc i = 10 \<and>
     (\<forall>j<i. \<not> (xs ! j = 13 \<and> xs ! Suc j = 10))"
proof (induction xs arbitrary: i rule: search_crlf.induct)
  case (1 a c xs)
  then show ?case by (auto split: if_splits simp: less_Suc_eq_0_disj)
qed auto

lemma search_crlf_None:
  "search_crlf xs = None \<longleftrightarrow> (\<forall>i. Suc i < length xs \<longrightarrow> \<not> (xs ! i = 13 \<and> xs ! Suc i = 10))"
proof (induction xs rule: search_crlf.induct)
  case (1 a c xs)
  show ?case
  proof (cases "a = 13 \<and> c = 10")
    case True
    then show ?thesis by (auto intro!: exI[of _ 0])
  next
    case False
    then have "search_crlf (a # c # xs) = None \<longleftrightarrow>
        (\<forall>i. Suc i < length (c # xs) \<longrightarrow> \<not> ((c # xs) ! i = 13 \<and> (c # xs) ! Suc i = 10))"
      using 1[OF False] False by auto
    also have "\<dots> \<longleftrightarrow> (\<forall>i. Suc i < length (a # c # xs) \<longrightarrow>
        \<not> ((a # c # xs) ! i = 13 \<and> (a # c # xs) ! Suc i = 10))"
      (is "?L \<longleftrightarrow> ?R")
    proof
      assume L: ?L
      show ?R
      proof (intro allI impI)
        fix i assume i: "Suc i < length (a # c # xs)"
        show "\<not> ((a # c # xs) ! i = 13 \<and> (a # c # xs) ! Suc i = 10)"
          using False L i by (cases i) auto
      qed
    next
      assume R: ?R
      show ?L
      proof (intro allI impI)
        fix i assume "Suc i < length (c # xs)"
        then show "\<not> ((c # xs) ! i = 13 \<and> (c # xs) ! Suc i = 10)"
          using R[THEN spec, of "Suc i"] by auto
      qed
    qed
    finally show ?thesis .
  qed
qed auto

lemma findCRLF_content: "Buffer_inv b \<Longrightarrow> Buffer_findCRLF b = search_crlf (Buffer_content b)"
  by (simp add: Buffer_findCRLF_def Buffer_content_def Buffer_inv_def Buffer_readableBytes_def)

lemma readFd_content:
  assumes inv: "Buffer_inv b"
  shows "\<exists>b' n. Buffer_readFd b (Inr bs) = Some (b', n, None) \<and> n = int (length bs) \<and>
    Buffer_inv b' \<and> Buffer_content b' = Buffer_content b @ bs"
proof -
  let ?w = "Buffer_writableBytes b"
  from inv have w: "?w = length (store b) - writerIndex b"
    by (simp add: Buffer_writableBytes_def Buffer_inv_def)
  from write_at_end[OF inv, of "take ?w bs"] w obtain b1 where
    b1: "Buffer_poke b (writerIndex b) (take ?w bs) = Some b1"
      "Buffer_inv (Buffer_hasWritten b1 (length (take ?w bs)))"
      "Buffer_content (Buffer_hasWritten b1 (length (take ?w bs))) = Buffer_content b @ take ?w bs"
    by auto
  show ?thesis
  proof (cases "length bs \<le> ?w")
    case True
    with b1 show ?thesis by (simp add: Buffer_readFd_def Let_def)
  next
    case False
    then have "length (take ?w bs) = ?w" by simp
    with b1 append_spec[of "Buffer_hasWritten b1 ?w" "drop ?w bs"] False show ?thesis
      by (auto simp: Buffer_readFd_def Let_def)
  qed
qed

subsection \<open>Properties\<close>

text \<open>
  C2: Appending bytes to a well-formed buffer always succeeds, whether the bytes fit, the
  contents are moved to the front or the vector grows: the readable bytes become the old
  ones followed by the new ones, and the buffer stays well-formed. Retrieving \<open>n\<close> bytes
  removes exactly the first \<open>n\<close>.
\<close>

theorem Buffer_fifo:
  assumes "Buffer_inv b"
  shows "\<exists>b'. Buffer_append b bs = Some b' \<and> Buffer_inv b' \<and>
    Buffer_content b' = Buffer_content b @ bs \<and>
    Buffer_content (Buffer_retrieve b' n) = drop n (Buffer_content b @ bs)"
  using bq.put_law[OF assms, of bs] retrieve_content by metis

lemma Buffer_fifo_witness:
  "\<exists>b'. Buffer_append Buffer_default [1, 2, 3] = Some b' \<and> Buffer_inv b' \<and>
    Buffer_content b' = Buffer_content Buffer_default @ [1, 2, 3] \<and>
    Buffer_content (Buffer_retrieve b' 2) = drop 2 (Buffer_content Buffer_default @ [1, 2, 3])"
  by (rule Buffer_fifo) simp

text \<open>
  \<^verbatim>\<open>readFd\<close> appends exactly the bytes the kernel delivered, in order, whether they
  fit the writable part of the vector or spill into the stack buffer, and returns their
  number.
\<close>

theorem readFd_appends:
  assumes "Buffer_inv b" and "length bs \<le> Buffer_writableBytes b + readFd_extra"
  shows "\<exists>b'. Buffer_readFd b (Inr bs) = Some (b', int (length bs), None) \<and>
    Buffer_inv b' \<and> Buffer_content b' = Buffer_content b @ bs"
  using readFd_content[OF assms(1)] by blast

lemma readFd_appends_witness:
  "\<exists>b'. Buffer_readFd (Buffer_new 2) (Inr [1, 2, 3]) = Some (b', int (length [1, 2, 3 :: byte]), None) \<and>
    Buffer_inv b' \<and> Buffer_content b' = Buffer_content (Buffer_new 2) @ [1, 2, 3]"
  by (rule readFd_appends) (simp_all add: readFd_extra_def)

text \<open>
  \<^verbatim>\<open>findCRLF\<close> returns the position of the first CR LF pair among the readable
  bytes, and the null pointer exactly when there is none.
\<close>

theorem findCRLF_first:
  assumes "Buffer_inv b"
  shows "case Buffer_findCRLF b of
      Some i \<Rightarrow> Suc i < length (Buffer_content b) \<and> Buffer_content b ! i = 13 \<and>
        Buffer_content b ! Suc i = 10 \<and>
        (\<forall>j<i. \<not> (Buffer_content b ! j = 13 \<and> Buffer_content b ! Suc j = 10))
    | None \<Rightarrow> (\<forall>i. Suc i < length (Buffer_content b) \<longrightarrow>
        \<not> (Buffer_content b ! i = 13 \<and> Buffer_content b ! Suc i = 10))"
  using search_crlf_Some[of "Buffer_content b"] search_crlf_None[of "Buffer_content b"]
  by (simp add: findCRLF_content[OF assms] split: option.splits)

lemma findCRLF_first_witness:
  "\<exists>b. Buffer_inv b \<and> Buffer_content b = [65, 13, 10] \<and> Buffer_findCRLF b = Some 1 \<and>
     Buffer_content b ! 1 = 13"
proof -
  obtain b where b: "Buffer_inv b" "Buffer_content b = [65, 13, 10]"
    using append_spec[OF Buffer_default_inv, of "[65, 13, 10]"] by auto
  have "Buffer_findCRLF b = Some 1" using b by (simp add: findCRLF_content)
  with b findCRLF_first[OF b(1)] show ?thesis by auto
qed

lemma Buffer_move_assign_moves:
  "Buffer_move_assign False b other = Buffer_move other" "Buffer_move_assign True b b = (b, b)"
  by (simp_all add: Buffer_move_assign_def Buffer_move_def)

text \<open>
  A moved-from buffer is unusable: its indices stand past the end of the vector the move
  emptied, its \<^verbatim>\<open>writableBytes\<close> wraps to almost 2 to the 64, so
  \<^verbatim>\<open>ensureWritableBytes\<close> never grows it and appending any byte writes outside the
  vector.
\<close>

theorem moved_from_buffer_unusable:
  assumes "bs \<noteq> []" and "length bs < 2 ^ 63"
  shows "Buffer_append (snd (Buffer_move b)) bs = None \<and>
    2 ^ 63 < Buffer_writableBytes (snd (Buffer_move b))"
  using assms
  by (simp add: Buffer_append_def Buffer_ensureWritableBytes_def Buffer_writableBytes_def
      Buffer_move_def kCheapPrepend_def size_sub_def Buffer_poke_def)

lemma moved_from_buffer_unusable_witness:
  "Buffer_append (snd (Buffer_move Buffer_default)) [1] = None \<and>
    2 ^ 63 < Buffer_writableBytes (snd (Buffer_move Buffer_default))"
  by (rule moved_from_buffer_unusable) simp_all

end
