(* ===== verification/BufferStream.thy ===== *)
theory BufferStream
  imports Buffer
begin

text \<open>
  \<^verbatim>\<open>src/common/network/buffer_stream.h\<close>: the typed input and output streams over a
  buffer. A stream only holds a reference to its buffer, so each operation is a function on
  the buffer. Signed values are carried as the word of their bits, floating-point values as
  the bits the code's \<^verbatim>\<open>reinterpret_cast\<close> moves.
\<close>

subsection \<open>Byte order\<close>

definition hton16 :: "uint16 \<Rightarrow> uint16" where
  "hton16 v = (drop_bit 8 v) OR (push_bit 8 v)"

definition hton64 :: "uint64 \<Rightarrow> uint64" where
  "hton64 v =
     ((drop_bit 56 v) AND 0x00000000000000FF) OR
     ((drop_bit 40 v) AND 0x000000000000FF00) OR
     ((drop_bit 24 v) AND 0x0000000000FF0000) OR
     ((drop_bit 8 v)  AND 0x00000000FF000000) OR
     ((push_bit 8 v)  AND 0x000000FF00000000) OR
     ((push_bit 24 v) AND 0x0000FF0000000000) OR
     ((push_bit 40 v) AND 0x00FF000000000000) OR
     ((push_bit 56 v) AND 0xFF00000000000000)"

definition ntoh16 :: "uint16 \<Rightarrow> uint16" where
  "ntoh16 v = (drop_bit 8 v) OR (push_bit 8 v)"

definition ntoh64 :: "uint64 \<Rightarrow> uint64" where
  "ntoh64 v =
     ((drop_bit 56 v) AND 0x00000000000000FF) OR
     ((drop_bit 40 v) AND 0x000000000000FF00) OR
     ((drop_bit 24 v) AND 0x0000000000FF0000) OR
     ((drop_bit 8 v)  AND 0x00000000FF000000) OR
     ((push_bit 8 v)  AND 0x000000FF00000000) OR
     ((push_bit 24 v) AND 0x0000FF0000000000) OR
     ((push_bit 40 v) AND 0x00FF000000000000) OR
     ((push_bit 56 v) AND 0xFF00000000000000)"

subsection \<open>The input stream\<close>

definition Stream_readInt8 :: "buffer \<Rightarrow> (uint8 \<times> buffer) option" where
  "Stream_readInt8 b =
     (let b1 = Buffer_retrieve b (if 1 \<le> Buffer_readableBytes b then 1 else 0)
      in do { bs \<leftarrow> Buffer_peek b1 1; Some (of_le_bytes bs, Buffer_retrieve b1 1) })"

definition Stream_readInt16 :: "buffer \<Rightarrow> (uint16 \<times> buffer) option" where
  "Stream_readInt16 b =
     do { bs \<leftarrow> Buffer_peek b 2; Some (ntoh16 (of_le_bytes bs), Buffer_retrieve b 2) }"

definition Stream_readInt32 :: "buffer \<Rightarrow> (uint32 \<times> buffer) option" where
  "Stream_readInt32 b = Buffer_readInt32 b"

definition Stream_readInt64 :: "buffer \<Rightarrow> (uint64 \<times> buffer) option" where
  "Stream_readInt64 b =
     do { bs \<leftarrow> Buffer_peek b 8; Some (ntoh64 (of_le_bytes bs), Buffer_retrieve b 8) }"

definition Stream_readUInt8 :: "buffer \<Rightarrow> (uint8 \<times> buffer) option" where
  "Stream_readUInt8 b =
     do { bs \<leftarrow> Buffer_peek b 1; Some (of_le_bytes bs, Buffer_retrieve b 1) }"

definition Stream_readUInt16 :: "buffer \<Rightarrow> (uint16 \<times> buffer) option" where
  "Stream_readUInt16 b =
     do { bs \<leftarrow> Buffer_peek b 2; Some (ntoh16 (of_le_bytes bs), Buffer_retrieve b 2) }"

definition Stream_readUInt32 :: "buffer \<Rightarrow> (uint32 \<times> buffer) option" where
  "Stream_readUInt32 b = Buffer_readUInt32 b"

definition Stream_readUInt64 :: "buffer \<Rightarrow> (uint64 \<times> buffer) option" where
  "Stream_readUInt64 b =
     do { bs \<leftarrow> Buffer_peek b 8; Some (ntoh64 (of_le_bytes bs), Buffer_retrieve b 8) }"

definition Stream_readFloat :: "buffer \<Rightarrow> (uint32 \<times> buffer) option" where
  "Stream_readFloat b = Stream_readUInt32 b"

definition Stream_readDouble :: "buffer \<Rightarrow> (uint64 \<times> buffer) option" where
  "Stream_readDouble b = Stream_readUInt64 b"

definition Stream_readStringWithLen :: "buffer \<Rightarrow> uint32 \<Rightarrow> (byte list \<times> buffer) option" where
  "Stream_readStringWithLen b len =
     do { str \<leftarrow> Buffer_peek b (unat len); Some (str, Buffer_retrieve b (unat len)) }"

definition Stream_readString :: "buffer \<Rightarrow> (byte list \<times> buffer) option" where
  "Stream_readString b =
     do { (len, b1) \<leftarrow> Stream_readUInt16 b;
          str \<leftarrow> Buffer_peek b1 (unat len);
          Some (str, Buffer_retrieve b1 (unat len)) }"

definition Stream_readBytes :: "buffer \<Rightarrow> nat \<Rightarrow> (byte list \<times> buffer) option" where
  "Stream_readBytes b len =
     do { bs \<leftarrow> Buffer_peek b len; Some (bs, Buffer_retrieve b len) }"

subsection \<open>The output stream\<close>

definition Stream_writeInt8 :: "buffer \<Rightarrow> uint8 \<Rightarrow> buffer option" where
  "Stream_writeInt8 b value = Buffer_append b (le_bytes value)"

definition Stream_writeInt16 :: "buffer \<Rightarrow> uint16 \<Rightarrow> buffer option" where
  "Stream_writeInt16 b value = Buffer_append b (le_bytes (hton16 value))"

definition Stream_writeInt32 :: "buffer \<Rightarrow> uint32 \<Rightarrow> buffer option" where
  "Stream_writeInt32 b value = Buffer_writeInt32 b value"

definition Stream_writeInt64 :: "buffer \<Rightarrow> uint64 \<Rightarrow> buffer option" where
  "Stream_writeInt64 b value = Buffer_append b (le_bytes (hton64 value))"

definition Stream_writeUInt8 :: "buffer \<Rightarrow> uint8 \<Rightarrow> buffer option" where
  "Stream_writeUInt8 b value = Buffer_append b (le_bytes value)"

definition Stream_writeUInt16 :: "buffer \<Rightarrow> uint16 \<Rightarrow> buffer option" where
  "Stream_writeUInt16 b value = Buffer_append b (le_bytes (hton16 value))"

definition Stream_writeUInt32 :: "buffer \<Rightarrow> uint32 \<Rightarrow> buffer option" where
  "Stream_writeUInt32 b value = Buffer_writeUInt32 b value"

definition Stream_writeUInt64 :: "buffer \<Rightarrow> uint64 \<Rightarrow> buffer option" where
  "Stream_writeUInt64 b value = Buffer_append b (le_bytes (hton64 value))"

definition Stream_writeFloat :: "buffer \<Rightarrow> uint32 \<Rightarrow> buffer option" where
  "Stream_writeFloat b bits = Stream_writeUInt32 b bits"

definition Stream_writeDouble :: "buffer \<Rightarrow> uint64 \<Rightarrow> buffer option" where
  "Stream_writeDouble b bits = Stream_writeUInt64 b bits"

definition Stream_writeString :: "buffer \<Rightarrow> byte list \<Rightarrow> buffer option" where
  "Stream_writeString b value =
     do { b1 \<leftarrow> Stream_writeUInt16 b (of_nat (length value)); Buffer_append b1 value }"

definition Stream_writeBytes :: "buffer \<Rightarrow> byte list \<Rightarrow> buffer option" where
  "Stream_writeBytes b data = Buffer_append b data"

subsection \<open>The wire image is big-endian\<close>

lemma bit_byte_mask:
  "bit (push_bit k (mask 8) :: 'a::len word) n \<longleftrightarrow> k \<le> n \<and> n < LENGTH('a) \<and> n < k + 8"
  by (auto simp: bit_push_bit_iff bit_mask_iff)

lemma byte_masks_64:
  "(0x00000000000000FF :: uint64) = push_bit 0 (mask 8)"
  "(0x000000000000FF00 :: uint64) = push_bit 8 (mask 8)"
  "(0x0000000000FF0000 :: uint64) = push_bit 16 (mask 8)"
  "(0x00000000FF000000 :: uint64) = push_bit 24 (mask 8)"
  "(0x000000FF00000000 :: uint64) = push_bit 32 (mask 8)"
  "(0x0000FF0000000000 :: uint64) = push_bit 40 (mask 8)"
  "(0x00FF000000000000 :: uint64) = push_bit 48 (mask 8)"
  "(0xFF00000000000000 :: uint64) = push_bit 56 (mask 8)"
  by (simp_all add: mask_eq_exp_minus_1)

lemma bit_hton64:
  assumes "n < 64"
  shows "bit (hton64 v) n \<longleftrightarrow> bit v (56 - 8 * (n div 8) + n mod 8)"
proof -
  have "n div 8 < 8" using assms by simp
  moreover have "n = 8 * (n div 8) + n mod 8" by simp
  ultimately obtain q r where n: "n = 8 * q + r" "q < 8" "r < 8" "n div 8 = q" "n mod 8 = r"
    by (metis mod_less_divisor zero_less_numeral)
  from n(2) consider "q = 0" | "q = 1" | "q = 2" | "q = 3" | "q = 4" | "q = 5" | "q = 6" | "q = 7"
    by linarith
  then show ?thesis
    by cases (use n in \<open>simp_all only: hton64_def byte_masks_64 bit_or_iff bit_and_iff
      bit_push_bit_iff bit_drop_bit_eq comp_apply bit_mask_iff\<close>; use n in \<open>auto simp: add.commute\<close>)+
qed

lemma bit64_out: "64 \<le> n \<Longrightarrow> \<not> bit (v :: uint64) n"
  using bit_imp_le_length[of v n] by auto

lemma hton64_bytes: "le_bytes (hton64 v) = be_bytes v"
proof (rule nth_equalityI)
  fix i assume "i < length (le_bytes (hton64 v))"
  then have i: "i < 8" by simp
  have "(ucast (drop_bit (8 * i) (hton64 v)) :: byte) = ucast (drop_bit (8 * (7 - i)) v)"
  proof (rule bit_word_eqI)
    fix n assume n: "n < LENGTH(8)"
    have "(8 * i + n) div 8 = i" "(8 * i + n) mod 8 = n" using n by auto
    moreover have "56 - 8 * i + n = 8 * (7 - i) + n" using i by simp
    ultimately have "bit (hton64 v) (8 * i + n) = bit v (8 * (7 - i) + n)"
      using bit_hton64[of "8 * i + n" v] i n by simp
    with n show "bit (ucast (drop_bit (8 * i) (hton64 v)) :: byte) n =
        bit (ucast (drop_bit (8 * (7 - i)) v) :: byte) n"
      by (simp add: bit_unsigned_iff bit_drop_bit_eq)
  qed
  moreover have "[0..<8] ! (7 - i) = 7 - i" using i by (subst nth_upt) auto
  ultimately show "le_bytes (hton64 v) ! i = be_bytes v ! i"
    using i by (simp add: le_bytes_def be_bytes_def rev_nth)
qed simp

lemma bit16_out: "16 \<le> n \<Longrightarrow> \<not> bit (v :: uint16) n"
  using bit_imp_le_length[of v n] by auto

lemma hton16_bytes: "le_bytes (hton16 v) = be_bytes v"
proof -
  have up: "[0..<2] = [0, 1::nat]" by (simp add: upt_rec)
  have "bit (hton16 v) n \<longleftrightarrow> bit v (8 + n) \<or> 8 \<le> n \<and> n < 16 \<and> bit v (n - 8)" for n
    by (simp only: hton16_def bit_or_iff bit_push_bit_iff bit_drop_bit_eq comp_apply) auto
  then have "(ucast (hton16 v) :: byte) = ucast (drop_bit 8 v)"
    and "(ucast (drop_bit 8 (hton16 v)) :: byte) = ucast v"
    by (auto intro!: bit_word_eqI simp: bit_unsigned_iff bit_drop_bit_eq bit16_out)
  then show ?thesis by (simp add: le_bytes_def be_bytes_def up)
qed

lemma ntoh16_hton16: "ntoh16 v = hton16 v" and ntoh64_hton64: "ntoh64 w = hton64 w"
  by (simp_all add: ntoh16_def hton16_def ntoh64_def hton64_def)

lemma ntoh16_be [simp]: "ntoh16 (of_le_bytes (be_bytes v)) = v"
proof -
  have "le_bytes (hton16 (of_le_bytes (be_bytes v))) = le_bytes v"
    by (metis be_bytes_def hton16_bytes of_le_bytes_16 rev_rev_ident)
  then show ?thesis by (metis ntoh16_hton16 of_le_bytes_16)
qed

lemma ntoh64_be [simp]: "ntoh64 (of_le_bytes (be_bytes v)) = v"
proof -
  have "le_bytes (hton64 (of_le_bytes (be_bytes v))) = le_bytes v"
    by (metis be_bytes_def hton64_bytes of_le_bytes_64 rev_rev_ident)
  then show ?thesis by (metis ntoh64_hton64 of_le_bytes_64)
qed

lemma be_bytes_8 [simp]: "be_bytes (v :: uint8) = [v]"
  by (simp add: be_bytes_def le_bytes_def)

lemma le_bytes_8 [simp]: "le_bytes (v :: uint8) = [v]"
  by (simp add: le_bytes_def)

lemma of_le_bytes_single [simp]: "(of_le_bytes [v] :: uint8) = v"
  by simp

subsection \<open>Each writer and each reader\<close>

lemmas stream_writer_defs =
  Stream_writeInt8_def Stream_writeInt16_def Stream_writeInt32_def Stream_writeInt64_def
  Stream_writeUInt8_def Stream_writeUInt16_def Stream_writeUInt32_def Stream_writeUInt64_def
  Stream_writeFloat_def Stream_writeDouble_def Stream_writeBytes_def
  Buffer_writeInt32_def Buffer_writeUInt32_def hton16_bytes hton32_bytes hton64_bytes

lemma stream_writers_append:
  assumes "Buffer_inv b"
  shows "appends b (be_bytes v8) (Stream_writeInt8 b v8)"
    and "appends b (be_bytes v8) (Stream_writeUInt8 b v8)"
    and "appends b (be_bytes v16) (Stream_writeInt16 b v16)"
    and "appends b (be_bytes v16) (Stream_writeUInt16 b v16)"
    and "appends b (be_bytes v32) (Stream_writeInt32 b v32)"
    and "appends b (be_bytes v32) (Stream_writeUInt32 b v32)"
    and "appends b (be_bytes v64) (Stream_writeInt64 b v64)"
    and "appends b (be_bytes v64) (Stream_writeUInt64 b v64)"
    and "appends b bs (Stream_writeBytes b bs)"
  using assms by (auto simp: stream_writer_defs)

lemma writeString_appends:
  assumes "Buffer_inv b"
  shows "appends b (be_bytes (of_nat (length s) :: uint16) @ s) (Stream_writeString b s)"
  unfolding Stream_writeString_def
  by (rule appends_bind[OF stream_writers_append(4)[OF assms]]) auto

lemma read_front:
  fixes v :: "'a::len word"
  assumes "Buffer_inv b" "Buffer_content b = be_bytes v @ rest" "f (be_bytes v) = w"
    "n = LENGTH('a) div 8"
  shows "reads w rest (do { bs \<leftarrow> Buffer_peek b n; Some (f bs, Buffer_retrieve b n) })"
  using assms by (simp add: peek_front[where bs = "be_bytes v"] retrieve_inv retrieve_content)

lemma stream_readers_read:
  assumes "Buffer_inv b"
  shows "Buffer_content b = be_bytes v8 @ rest \<Longrightarrow> reads v8 rest (Stream_readUInt8 b)"
    and "Buffer_content b = be_bytes v16 @ rest \<Longrightarrow> reads v16 rest (Stream_readUInt16 b)"
    and "Buffer_content b = be_bytes v16 @ rest \<Longrightarrow> reads v16 rest (Stream_readInt16 b)"
    and "Buffer_content b = be_bytes v32 @ rest \<Longrightarrow> reads v32 rest (Stream_readUInt32 b)"
    and "Buffer_content b = be_bytes v32 @ rest \<Longrightarrow> reads v32 rest (Stream_readInt32 b)"
    and "Buffer_content b = be_bytes v64 @ rest \<Longrightarrow> reads v64 rest (Stream_readUInt64 b)"
    and "Buffer_content b = be_bytes v64 @ rest \<Longrightarrow> reads v64 rest (Stream_readInt64 b)"
proof -
  have i32: "Buffer_readInt32 b = Buffer_readUInt32 b"
    by (simp add: Buffer_readInt32_def Buffer_readUInt32_def)
  show "Buffer_content b = be_bytes v8 @ rest \<Longrightarrow> reads v8 rest (Stream_readUInt8 b)"
    unfolding Stream_readUInt8_def by (rule read_front[OF assms, where v = v8]) simp_all
  show "Buffer_content b = be_bytes v16 @ rest \<Longrightarrow> reads v16 rest (Stream_readUInt16 b)"
    unfolding Stream_readUInt16_def by (rule read_front[OF assms]) auto
  show "Buffer_content b = be_bytes v16 @ rest \<Longrightarrow> reads v16 rest (Stream_readInt16 b)"
    unfolding Stream_readInt16_def by (rule read_front[OF assms]) auto
  show "Buffer_content b = be_bytes v32 @ rest \<Longrightarrow> reads v32 rest (Stream_readUInt32 b)"
    unfolding Stream_readUInt32_def by (rule readUInt32_reads[OF assms])
  show "Buffer_content b = be_bytes v32 @ rest \<Longrightarrow> reads v32 rest (Stream_readInt32 b)"
    unfolding Stream_readInt32_def i32 by (rule readUInt32_reads[OF assms])
  show "Buffer_content b = be_bytes v64 @ rest \<Longrightarrow> reads v64 rest (Stream_readUInt64 b)"
    unfolding Stream_readUInt64_def by (rule read_front[OF assms]) auto
  show "Buffer_content b = be_bytes v64 @ rest \<Longrightarrow> reads v64 rest (Stream_readInt64 b)"
    unfolding Stream_readInt64_def by (rule read_front[OF assms]) auto
qed

lemma readString_reads:
  assumes inv: "Buffer_inv b" and c: "Buffer_content b = be_bytes (of_nat n :: uint16) @ xs"
    and n: "n mod 65536 \<le> length xs"
  shows "reads (take (n mod 65536) xs) (drop (n mod 65536) xs) (Stream_readString b)"
proof -
  have u: "unat (of_nat n :: uint16) = n mod 65536" by (simp add: unat_of_nat)
  show ?thesis
    unfolding Stream_readString_def
  proof (rule reads_bind[OF stream_readers_read(2)[OF inv c]])
    fix b' assume "Buffer_inv b'" "Buffer_content b' = xs"
    then show "reads (take (n mod 65536) xs) (drop (n mod 65536) xs)
        (case (of_nat n :: uint16, b') of (len, b1) \<Rightarrow>
           do { str \<leftarrow> Buffer_peek b1 (unat len); Some (str, Buffer_retrieve b1 (unat len)) })"
      using n by (simp add: u peek_content retrieve_inv retrieve_content)
  qed
qed

subsection \<open>Message bodies: sequences of typed fields\<close>

text \<open>A message body is written as a sequence of typed values and read back by type.\<close>

datatype field =
    FU8 uint8 | FI16 uint16 | FU16 uint16 | FI32 uint32 | FU32 uint32 | FI64 uint64 | FU64 uint64
  | FString "byte list"

fun write_field :: "field \<Rightarrow> buffer \<Rightarrow> buffer option" where
  "write_field (FU8 v) b = Stream_writeUInt8 b v"
| "write_field (FI16 v) b = Stream_writeInt16 b v"
| "write_field (FU16 v) b = Stream_writeUInt16 b v"
| "write_field (FI32 v) b = Stream_writeInt32 b v"
| "write_field (FU32 v) b = Stream_writeUInt32 b v"
| "write_field (FI64 v) b = Stream_writeInt64 b v"
| "write_field (FU64 v) b = Stream_writeUInt64 b v"
| "write_field (FString s) b = Stream_writeString b s"

text \<open>The argument only fixes the type to read.\<close>

fun read_field :: "field \<Rightarrow> buffer \<Rightarrow> (field \<times> buffer) option" where
  "read_field (FU8 _) b = map_option (apfst FU8) (Stream_readUInt8 b)"
| "read_field (FI16 _) b = map_option (apfst FI16) (Stream_readInt16 b)"
| "read_field (FU16 _) b = map_option (apfst FU16) (Stream_readUInt16 b)"
| "read_field (FI32 _) b = map_option (apfst FI32) (Stream_readInt32 b)"
| "read_field (FU32 _) b = map_option (apfst FU32) (Stream_readUInt32 b)"
| "read_field (FI64 _) b = map_option (apfst FI64) (Stream_readInt64 b)"
| "read_field (FU64 _) b = map_option (apfst FU64) (Stream_readUInt64 b)"
| "read_field (FString _) b = map_option (apfst FString) (Stream_readString b)"

fun write_fields :: "field list \<Rightarrow> buffer \<Rightarrow> buffer option" where
  "write_fields [] b = Some b"
| "write_fields (f # fs) b = do { b' \<leftarrow> write_field f b; write_fields fs b' }"

fun read_fields :: "field list \<Rightarrow> buffer \<Rightarrow> (field list \<times> buffer) option" where
  "read_fields [] b = Some ([], b)"
| "read_fields (f # fs) b =
     do { (v, b') \<leftarrow> read_field f b; (vs, b'') \<leftarrow> read_fields fs b'; Some (v # vs, b'') }"

fun field_bytes :: "field \<Rightarrow> byte list" where
  "field_bytes (FU8 v) = be_bytes v"
| "field_bytes (FI16 v) = be_bytes v"
| "field_bytes (FU16 v) = be_bytes v"
| "field_bytes (FI32 v) = be_bytes v"
| "field_bytes (FU32 v) = be_bytes v"
| "field_bytes (FI64 v) = be_bytes v"
| "field_bytes (FU64 v) = be_bytes v"
| "field_bytes (FString s) = be_bytes (of_nat (length s) :: uint16) @ s"

fun field_fits :: "field \<Rightarrow> bool" where
  "field_fits (FString s) \<longleftrightarrow> length s < 65536"
| "field_fits _ \<longleftrightarrow> True"

lemma reads_map:
  "reads v rest r \<Longrightarrow> reads (g v) rest (map_option (apfst g) r)"
  by (auto simp: reads_def)

lemma write_field_appends: "Buffer_inv b \<Longrightarrow> appends b (field_bytes f) (write_field f b)"
  by (cases f) (simp_all add: stream_writers_append[simplified] writeString_appends)

lemma read_field_reads:
  assumes "Buffer_inv b" "Buffer_content b = field_bytes f @ rest" "field_fits f"
  shows "reads f rest (read_field f b)"
proof (cases f)
  case (FString s)
  with assms readString_reads[of b "length s" "s @ rest"] show ?thesis
    by (auto intro: reads_map)
qed (use assms in \<open>auto intro!: reads_map stream_readers_read\<close>)

lemma write_fields_appends:
  "Buffer_inv b \<Longrightarrow> appends b (concat (map field_bytes fs)) (write_fields fs b)"
proof (induction fs arbitrary: b)
  case Nil
  then show ?case by (simp add: appends_def)
next
  case (Cons f fs)
  then show ?case
    using appends_bind[OF write_field_appends[OF Cons.prems, of f]] by simp
qed

lemma read_fields_read:
  "Buffer_inv b \<Longrightarrow> Buffer_content b = concat (map field_bytes fs) @ rest \<Longrightarrow>
     \<forall>f\<in>set fs. field_fits f \<Longrightarrow> reads fs rest (read_fields fs b)"
proof (induction fs arbitrary: b)
  case Nil
  then show ?case by simp
next
  case (Cons f fs)
  then have "reads f (concat (map field_bytes fs) @ rest) (read_field f b)"
    by (intro read_field_reads) auto
  then obtain b' where b': "read_field f b = Some (f, b')" "Buffer_inv b'"
      "Buffer_content b' = concat (map field_bytes fs) @ rest"
    by (auto simp: reads_def)
  with Cons.IH[of b'] Cons.prems obtain b'' where "read_fields fs b' = Some (fs, b'')"
      "Buffer_inv b''" "Buffer_content b'' = rest"
    by (auto simp: reads_def)
  with b'(1) show ?case by simp
qed

subsection \<open>Properties\<close>



text \<open>
  \<^verbatim>\<open>writeString\<close> keeps only 16 bits of the length: reading back a string of any
  length from an empty buffer returns its first (length mod 65536) bytes and leaves the
  other bytes in the buffer, where the next read takes them for the next field.
\<close>

theorem writeString_readString:
  assumes "Buffer_inv b" and "Buffer_content b = []"
  shows "\<exists>b1 b2. Stream_writeString b s = Some b1 \<and>
    Stream_readString b1 = Some (take (length s mod 65536) s, b2) \<and>
    Buffer_content b2 = drop (length s mod 65536) s"
proof -
  from writeString_appends[OF assms(1), of s] assms(2) obtain b1 where
    "Stream_writeString b s = Some b1" "Buffer_inv b1"
    "Buffer_content b1 = be_bytes (of_nat (length s) :: uint16) @ s"
    by (auto simp: appends_def)
  with readString_reads[OF this(2,3)] show ?thesis by (auto simp: reads_def)
qed

lemma writeString_readString_witness:
  "\<exists>b1 b2. Stream_writeString Buffer_default (replicate 65537 65) = Some b1 \<and>
    Stream_readString b1 = Some ([65], b2) \<and> Buffer_content b2 = replicate 65536 65"
  using writeString_readString[of Buffer_default "replicate 65537 65"]
  by (simp add: take_replicate min_def)

lemma readInt8_skips:
  assumes inv: "Buffer_inv b" and c: "Buffer_content b = x # y # rest"
  shows "reads y rest (Stream_readInt8 b)"
proof -
  from inv c have "1 \<le> Buffer_readableBytes b" by (simp add: readableBytes_eq)
  moreover from inv c have "Buffer_content (Buffer_retrieve b 1) = be_bytes y @ rest"
    by (simp add: retrieve_content)
  ultimately show ?thesis
    unfolding Stream_readInt8_def Let_def
    by (simp only: if_True) (rule read_front[OF retrieve_inv[OF inv], where v = y]; simp)
qed

text \<open>
  \<^verbatim>\<open>readInt8\<close> is not the inverse of \<^verbatim>\<open>writeInt8\<close>: of two values written
  to an empty buffer the first read returns the second one, because the reader advances
  once before it copies and once after.
\<close>

theorem readInt8_skips_first:
  assumes "Buffer_inv b" and "Buffer_content b = []"
  shows "\<exists>b1 b2 b3. Stream_writeInt8 b x = Some b1 \<and> Stream_writeInt8 b1 y = Some b2 \<and>
    Stream_readInt8 b2 = Some (y, b3) \<and> Buffer_content b3 = []"
proof -
  from stream_writers_append(1)[OF assms(1), of x] assms(2) obtain b1 where
    b1: "Stream_writeInt8 b x = Some b1" "Buffer_inv b1" "Buffer_content b1 = [x]"
    by (auto simp: appends_def)
  from stream_writers_append(1)[OF b1(2), of y] b1(3) obtain b2 where
    b2: "Stream_writeInt8 b1 y = Some b2" "Buffer_inv b2" "Buffer_content b2 = [x, y]"
    by (auto simp: appends_def)
  from readInt8_skips[OF b2(2,3)] b1(1) b2(1) show ?thesis by (auto simp: reads_def)
qed

lemma readInt8_skips_first_witness:
  "\<exists>b1 b2 b3. Stream_writeInt8 Buffer_default 1 = Some b1 \<and> Stream_writeInt8 b1 2 = Some b2 \<and>
    Stream_readInt8 b2 = Some (2, b3) \<and> Buffer_content b3 = []"
  by (rule readInt8_skips_first) simp_all

end
