(* ===== verification/Codec.thy ===== *)
theory Codec
  imports BufferStream
begin

text \<open>
  \<^verbatim>\<open>src/core/message\<close>: the message header, the message factory and the two codecs.
  The subclasses of \<^verbatim>\<open>Message\<close> are not part of the repository, so the three virtual
  functions a codec calls are the fields of \<open>message_class\<close>, a parameter of the codecs;
  what a subclass owes its callers is the predicate \<open>codec_message\<close>.
\<close>

subsection \<open>Constants of \<^verbatim>\<open>types.h\<close>\<close>

definition MAGIC_NUMBER :: uint32 where "MAGIC_NUMBER = 0x4C475356"
definition PROTOCOL_VERSION :: uint8 where "PROTOCOL_VERSION = 1"
definition HEADER_SIZE :: uint32 where "HEADER_SIZE = 13"

lemmas protocol_constants = MAGIC_NUMBER_def PROTOCOL_VERSION_def HEADER_SIZE_def

subsection \<open>Messages, header and factory\<close>

record 'm message_class =
  messageId :: "'m \<Rightarrow> uint32"
  serialize :: "'m \<Rightarrow> buffer \<Rightarrow> buffer option"
  deserialize :: "'m \<Rightarrow> buffer \<Rightarrow> (bool \<times> 'm \<times> buffer) option"

record message_header =
  hdr_magic :: uint32
  hdr_version :: uint8
  hdr_length :: uint32
  hdr_messageId :: uint32

definition MessageHeader_new :: message_header where
  "MessageHeader_new =
     \<lparr>hdr_magic = MAGIC_NUMBER, hdr_version = PROTOCOL_VERSION, hdr_length = 0, hdr_messageId = 0\<rparr>"

definition MessageHeader_serialize :: "message_header \<Rightarrow> buffer \<Rightarrow> buffer option" where
  "MessageHeader_serialize h b =
     do { b1 \<leftarrow> Buffer_writeUInt32 b (hdr_magic h);
          b2 \<leftarrow> Buffer_append b1 [hdr_version h];
          b3 \<leftarrow> Buffer_writeUInt32 b2 (hdr_length h);
          Buffer_writeUInt32 b3 (hdr_messageId h) }"

definition MessageHeader_deserialize ::
    "message_header \<Rightarrow> buffer \<Rightarrow> (bool \<times> message_header \<times> buffer) option" where
  "MessageHeader_deserialize h b =
     (if Buffer_readableBytes b < unat HEADER_SIZE then Some (False, h, b)
      else do {
        (m, b1) \<leftarrow> Buffer_readUInt32 b;
        (v, b2) \<leftarrow> Buffer_readBytes b1 1;
        (l, b3) \<leftarrow> Buffer_readUInt32 b2;
        (i, b4) \<leftarrow> Buffer_readUInt32 b3;
        let h' = \<lparr>hdr_magic = m, hdr_version = hd v, hdr_length = l, hdr_messageId = i\<rparr>;
        Some (m = MAGIC_NUMBER \<and> hd v = PROTOCOL_VERSION, h', b4) })"

text \<open>A creator is the message it makes; \<open>None\<close> is a creator that returns a null pointer.\<close>

type_synonym 'm factory = "uint32 \<rightharpoonup> 'm option"

definition MessageFactory_registerMessage :: "'m factory \<Rightarrow> uint32 \<Rightarrow> 'm option \<Rightarrow> 'm factory" where
  "MessageFactory_registerMessage creators mid creator = creators(mid \<mapsto> creator)"

definition MessageFactory_createMessage :: "'m factory \<Rightarrow> uint32 \<Rightarrow> 'm option" where
  "MessageFactory_createMessage creators mid =
     (case creators mid of Some creator \<Rightarrow> creator | None \<Rightarrow> None)"

subsection \<open>\<^verbatim>\<open>DefaultCodec\<close>\<close>

definition DefaultCodec_encode ::
    "'m message_class \<Rightarrow> 'm \<Rightarrow> buffer \<Rightarrow> (bool \<times> buffer) option" where
  "DefaultCodec_encode cls msg b =
     do { body \<leftarrow> serialize cls msg Buffer_default;
          let h = MessageHeader_new
                \<lparr>hdr_messageId := messageId cls msg,
                 hdr_length := HEADER_SIZE + of_nat (Buffer_readableBytes body)\<rparr>;
          b1 \<leftarrow> MessageHeader_serialize h b;
          bs \<leftarrow> Buffer_peek body (Buffer_readableBytes body);
          b2 \<leftarrow> Buffer_append b1 bs;
          Some (True, b2) }"

definition DefaultCodec_decode ::
    "'m message_class \<Rightarrow> 'm factory \<Rightarrow> buffer \<Rightarrow> ('m option \<times> buffer) option" where
  "DefaultCodec_decode cls fac b =
     (if Buffer_readableBytes b < unat HEADER_SIZE then Some (None, b)
      else do {
        let oldReadable = Buffer_readableBytes b;
        (ok, h, b1) \<leftarrow> MessageHeader_deserialize MessageHeader_new b;
        if \<not> ok then Some (None, b1)
        else if Buffer_readableBytes b1 < unat (hdr_length h - HEADER_SIZE)
        then Some (None, Buffer_retrieve b1 (size_sub oldReadable (Buffer_readableBytes b1)))
        else (case MessageFactory_createMessage fac (hdr_messageId h) of
            None \<Rightarrow> Some (None, b1)
          | Some m0 \<Rightarrow> do {
              (ok', m, b2) \<leftarrow> deserialize cls m0 b1;
              Some (if ok' then Some m else None, b2) }) })"

definition DefaultCodec_getMessageLength :: "buffer \<Rightarrow> (uint32 option \<times> buffer) option" where
  "DefaultCodec_getMessageLength b =
     (if Buffer_readableBytes b < unat HEADER_SIZE then Some (None, b)
      else do {
        (ok, h, b1) \<leftarrow> MessageHeader_deserialize MessageHeader_new b;
        Some (if ok then Some (hdr_length h) else None, b1) })"

subsection \<open>\<^verbatim>\<open>LengthFieldCodec\<close>\<close>

definition LengthFieldCodec_encode ::
    "'m message_class \<Rightarrow> 'm \<Rightarrow> buffer \<Rightarrow> (bool \<times> buffer) option" where
  "LengthFieldCodec_encode cls msg b =
     do { body \<leftarrow> serialize cls msg Buffer_default;
          b1 \<leftarrow> Buffer_writeUInt32 b (HEADER_SIZE + of_nat (Buffer_readableBytes body));
          b2 \<leftarrow> Buffer_writeUInt32 b1 (messageId cls msg);
          bs \<leftarrow> Buffer_peek body (Buffer_readableBytes body);
          b3 \<leftarrow> Buffer_append b2 bs;
          Some (True, b3) }"

definition LengthFieldCodec_decode ::
    "'m message_class \<Rightarrow> 'm factory \<Rightarrow> buffer \<Rightarrow> ('m option \<times> buffer) option" where
  "LengthFieldCodec_decode cls fac b =
     (if Buffer_readableBytes b < 8 then Some (None, b)
      else do {
        (len, b1) \<leftarrow> Buffer_readUInt32 b;
        (msgId, b2) \<leftarrow> Buffer_readUInt32 b1;
        if Buffer_readableBytes b2 < unat (len - 8) then Some (None, b2)
        else (case MessageFactory_createMessage fac msgId of
            None \<Rightarrow> Some (None, b2)
          | Some m0 \<Rightarrow> do {
              (ok, m, b3) \<leftarrow> deserialize cls m0 b2;
              Some (if ok then Some m else None, b3) }) })"

definition LengthFieldCodec_getMessageLength :: "buffer \<Rightarrow> uint32 option option" where
  "LengthFieldCodec_getMessageLength b =
     (if Buffer_readableBytes b < 4 then Some None
      else do { l \<leftarrow> Buffer_peekInt32 b; Some (Some l) })"

subsection \<open>The header on the wire\<close>

definition header_bytes :: "message_header \<Rightarrow> byte list" where
  "header_bytes h =
     be_bytes (hdr_magic h) @ [hdr_version h] @ be_bytes (hdr_length h) @ be_bytes (hdr_messageId h)"

lemma length_header_bytes [simp]: "length (header_bytes h) = 13"
  by (simp add: header_bytes_def)

lemma header_serialize_appends:
  "Buffer_inv b \<Longrightarrow> appends b (header_bytes h) (MessageHeader_serialize h b)"
  unfolding MessageHeader_serialize_def header_bytes_def
  by (intro appends_bind writeUInt32_appends appends_append)

lemma header_deserialize_reads:
  assumes inv: "Buffer_inv b" and c: "Buffer_content b = header_bytes h @ rest"
  shows "\<exists>b'. MessageHeader_deserialize h0 b =
      Some (hdr_magic h = MAGIC_NUMBER \<and> hdr_version h = PROTOCOL_VERSION, h, b') \<and>
    Buffer_inv b' \<and> Buffer_content b' = rest"
proof -
  let ?r1 = "[hdr_version h] @ be_bytes (hdr_length h) @ be_bytes (hdr_messageId h) @ rest"
  have n: "\<not> Buffer_readableBytes b < unat HEADER_SIZE"
    using inv c by (simp add: readableBytes_eq HEADER_SIZE_def)
  have "Buffer_content b = be_bytes (hdr_magic h) @ ?r1" using c by (simp add: header_bytes_def)
  from readUInt32_reads[OF inv this] obtain b1 where
    b1: "Buffer_readUInt32 b = Some (hdr_magic h, b1)" "Buffer_inv b1" "Buffer_content b1 = ?r1"
    by (auto simp: reads_def)
  from readBytes_reads[OF b1(2,3)] obtain b2 where
    b2: "Buffer_readBytes b1 1 = Some ([hdr_version h], b2)" "Buffer_inv b2"
      "Buffer_content b2 = be_bytes (hdr_length h) @ be_bytes (hdr_messageId h) @ rest"
    by (auto simp: reads_def)
  from readUInt32_reads[OF b2(2,3)] obtain b3 where
    b3: "Buffer_readUInt32 b2 = Some (hdr_length h, b3)" "Buffer_inv b3"
      "Buffer_content b3 = be_bytes (hdr_messageId h) @ rest"
    by (auto simp: reads_def)
  from readUInt32_reads[OF b3(2,3)] obtain b4 where
    b4: "Buffer_readUInt32 b3 = Some (hdr_messageId h, b4)" "Buffer_inv b4" "Buffer_content b4 = rest"
    by (auto simp: reads_def)
  show ?thesis
    using n b1 b2 b3 b4 by (simp add: MessageHeader_deserialize_def Let_def)
qed

subsection \<open>Frames\<close>

text \<open>
  What a message subclass owes the codecs: \<open>serialize\<close> appends \<open>body\<close> to an empty buffer,
  the factory makes an object of the message's id, and that object's \<open>deserialize\<close> reads
  \<open>body\<close> back, whatever follows it in the buffer. The frame length must fit 32 bits.
\<close>

definition codec_message :: "'m message_class \<Rightarrow> 'm factory \<Rightarrow> 'm \<Rightarrow> byte list \<Rightarrow> bool" where
  "codec_message cls fac m body \<longleftrightarrow>
     length body + 13 < 2 ^ 32 \<and>
     appends Buffer_default body (serialize cls m Buffer_default) \<and>
     (\<exists>m0. MessageFactory_createMessage fac (messageId cls m) = Some m0 \<and>
        (\<forall>b rest. Buffer_inv b \<longrightarrow> Buffer_content b = body @ rest \<longrightarrow>
           (\<exists>b'. deserialize cls m0 b = Some (True, m, b') \<and> Buffer_inv b' \<and>
              Buffer_content b' = rest)))"

definition frame_header :: "'m message_class \<Rightarrow> 'm \<Rightarrow> byte list \<Rightarrow> message_header" where
  "frame_header cls m body = MessageHeader_new
     \<lparr>hdr_messageId := messageId cls m, hdr_length := HEADER_SIZE + of_nat (length body)\<rparr>"

definition frame :: "'m message_class \<Rightarrow> 'm \<Rightarrow> byte list \<Rightarrow> byte list" where
  "frame cls m body = header_bytes (frame_header cls m body) @ body"

lemma frame_header_simps [simp]:
  "hdr_magic (frame_header cls m body) = MAGIC_NUMBER"
  "hdr_version (frame_header cls m body) = PROTOCOL_VERSION"
  "hdr_messageId (frame_header cls m body) = messageId cls m"
  "hdr_length (frame_header cls m body) = HEADER_SIZE + of_nat (length body)"
  by (simp_all add: frame_header_def MessageHeader_new_def)

lemma codec_messageE:
  assumes "codec_message cls fac m body"
  obtains m0 body_buf where
    "length body + 13 < 2 ^ 32"
    "serialize cls m Buffer_default = Some body_buf" "Buffer_inv body_buf"
    "Buffer_content body_buf = body"
    "MessageFactory_createMessage fac (messageId cls m) = Some m0"
    "\<And>b rest. Buffer_inv b \<Longrightarrow> Buffer_content b = body @ rest \<Longrightarrow>
       \<exists>b'. deserialize cls m0 b = Some (True, m, b') \<and> Buffer_inv b' \<and> Buffer_content b' = rest"
  using assms by (auto simp: codec_message_def appends_def)

lemma unat_body_length: "n + 13 < 2 ^ 32 \<Longrightarrow> unat (of_nat n :: uint32) = n"
  by (simp add: unat_of_nat)

lemma DefaultCodec_encode_frame:
  assumes m: "codec_message cls fac m body" and inv: "Buffer_inv b"
  shows "\<exists>b'. DefaultCodec_encode cls m b = Some (True, b') \<and> Buffer_inv b' \<and>
    Buffer_content b' = Buffer_content b @ frame cls m body"
proof -
  from m obtain m0 sb where sb: "serialize cls m Buffer_default = Some sb" "Buffer_inv sb"
      "Buffer_content sb = body"
    by (rule codec_messageE)
  from header_serialize_appends[OF inv, of "frame_header cls m body"] obtain b1 where
    b1: "MessageHeader_serialize (frame_header cls m body) b = Some b1" "Buffer_inv b1"
      "Buffer_content b1 = Buffer_content b @ header_bytes (frame_header cls m body)"
    by (auto simp: appends_def)
  from append_spec[OF b1(2), of body] b1 sb show ?thesis
    by (auto simp: DefaultCodec_encode_def readableBytes_eq peek_content frame_def Let_def
        frame_header_def)
qed

lemma DefaultCodec_decode_frame:
  assumes m: "codec_message cls fac m body" and inv: "Buffer_inv b"
    and c: "Buffer_content b = frame cls m body @ rest"
  shows "\<exists>b'. DefaultCodec_decode cls fac b = Some (Some m, b') \<and> Buffer_inv b' \<and>
    Buffer_content b' = rest"
proof -
  from m obtain m0 where len: "length body + 13 < 2 ^ 32"
    and fac: "MessageFactory_createMessage fac (messageId cls m) = Some m0"
    and des: "\<forall>b rest. Buffer_inv b \<longrightarrow> Buffer_content b = body @ rest \<longrightarrow>
       (\<exists>b'. deserialize cls m0 b = Some (True, m, b') \<and> Buffer_inv b' \<and> Buffer_content b' = rest)"
    by (auto simp: codec_message_def)
  from c have "Buffer_content b = header_bytes (frame_header cls m body) @ body @ rest"
    by (simp add: frame_def)
  from header_deserialize_reads[OF inv this] obtain b1 where
    b1: "MessageHeader_deserialize MessageHeader_new b = Some (True, frame_header cls m body, b1)"
      "Buffer_inv b1" "Buffer_content b1 = body @ rest" by auto
  from des[rule_format, OF b1(2,3)] obtain b2 where
    "deserialize cls m0 b1 = Some (True, m, b2)" "Buffer_inv b2" "Buffer_content b2 = rest" by auto
  moreover have "\<not> Buffer_readableBytes b < unat HEADER_SIZE"
    using inv c by (simp add: readableBytes_eq frame_def HEADER_SIZE_def)
  moreover have "\<not> Buffer_readableBytes b1 < unat (of_nat (length body) :: uint32)"
    using b1 len by (simp add: readableBytes_eq unat_body_length)
  ultimately show ?thesis
    using b1 fac by (simp add: DefaultCodec_decode_def Let_def)
qed

fun encode_all :: "'m message_class \<Rightarrow> 'm list \<Rightarrow> buffer \<Rightarrow> buffer option" where
  "encode_all cls [] b = Some b"
| "encode_all cls (m # ms) b = do { (_, b') \<leftarrow> DefaultCodec_encode cls m b; encode_all cls ms b' }"

fun decode_n :: "'m message_class \<Rightarrow> 'm factory \<Rightarrow> nat \<Rightarrow> buffer \<Rightarrow> ('m option list \<times> buffer) option" where
  "decode_n cls fac 0 b = Some ([], b)"
| "decode_n cls fac (Suc n) b =
     do { (m, b') \<leftarrow> DefaultCodec_decode cls fac b;
          (ms, b'') \<leftarrow> decode_n cls fac n b';
          Some (m # ms, b'') }"

lemma encode_all_frames:
  "Buffer_inv b \<Longrightarrow> \<forall>m\<in>set ms. codec_message cls fac m (body m) \<Longrightarrow>
     \<exists>b'. encode_all cls ms b = Some b' \<and> Buffer_inv b' \<and>
       Buffer_content b' = Buffer_content b @ concat (map (\<lambda>m. frame cls m (body m)) ms)"
proof (induction ms arbitrary: b)
  case Nil
  then show ?case by simp
next
  case (Cons m ms)
  then obtain b1 where b1: "DefaultCodec_encode cls m b = Some (True, b1)" "Buffer_inv b1"
      "Buffer_content b1 = Buffer_content b @ frame cls m (body m)"
    using DefaultCodec_encode_frame[of cls fac m "body m" b] by auto
  with Cons.IH[OF b1(2)] Cons.prems show ?case by auto
qed

lemma decode_n_frames:
  "Buffer_inv b \<Longrightarrow> \<forall>m\<in>set ms. codec_message cls fac m (body m) \<Longrightarrow>
     Buffer_content b = concat (map (\<lambda>m. frame cls m (body m)) ms) @ rest \<Longrightarrow>
     \<exists>b'. decode_n cls fac (length ms) b = Some (map Some ms, b') \<and> Buffer_inv b' \<and>
       Buffer_content b' = rest"
proof (induction ms arbitrary: b)
  case Nil
  then show ?case by simp
next
  case (Cons m ms)
  then obtain b1 where b1: "DefaultCodec_decode cls fac b = Some (Some m, b1)" "Buffer_inv b1"
      "Buffer_content b1 = concat (map (\<lambda>m. frame cls m (body m)) ms) @ rest"
    using DefaultCodec_decode_frame[of cls fac m "body m" b] by fastforce
  with Cons.IH[OF b1(2) _ b1(3)] Cons.prems show ?case by auto
qed

subsection \<open>Properties\<close>

text \<open>
  Messages encoded one after the other into an empty buffer by \<^verbatim>\<open>DefaultCodec\<close>
  are decoded from it in the same order, each decode taking exactly its own frame, for any
  number of messages whose subclass keeps the codec's contract.
\<close>

theorem DefaultCodec_stream_roundtrip:
  assumes "Buffer_inv b" and "Buffer_content b = []"
    and "\<forall>m\<in>set ms. codec_message cls fac m (body m)"
  shows "\<exists>b1 b2. encode_all cls ms b = Some b1 \<and>
    decode_n cls fac (length ms) b1 = Some (map Some ms, b2) \<and> Buffer_content b2 = []"
proof -
  from encode_all_frames[OF assms(1,3)] assms(2) obtain b1 where
    "encode_all cls ms b = Some b1" "Buffer_inv b1"
    "Buffer_content b1 = concat (map (\<lambda>m. frame cls m (body m)) ms) @ []" by auto
  with decode_n_frames[OF this(2) assms(3) this(3)] show ?thesis by auto
qed

text \<open>A concrete subclass: a heartbeat that carries one 32-bit number.\<close>

definition heartbeat_class :: "uint32 message_class" where
  "heartbeat_class = \<lparr>messageId = (\<lambda>_. 1003), serialize = (\<lambda>v b. Stream_writeUInt32 b v),
     deserialize = (\<lambda>_ b. map_option (\<lambda>(v, b'). (True, v, b')) (Stream_readUInt32 b))\<rparr>"

definition heartbeat_factory :: "uint32 factory" where
  "heartbeat_factory = MessageFactory_registerMessage Map.empty 1003 (Some 0)"

lemma heartbeat_codec: "codec_message heartbeat_class heartbeat_factory v (be_bytes v)"
proof -
  have "\<exists>b'. deserialize heartbeat_class 0 b = Some (True, v, b') \<and> Buffer_inv b' \<and>
      Buffer_content b' = rest"
    if "Buffer_inv b" "Buffer_content b = be_bytes v @ rest" for b rest
    using stream_readers_read(4)[OF that] by (auto simp: heartbeat_class_def reads_def)
  moreover have "appends Buffer_default (be_bytes v) (serialize heartbeat_class v Buffer_default)"
    by (simp add: heartbeat_class_def stream_writers_append)
  ultimately show ?thesis
    by (auto simp: codec_message_def heartbeat_factory_def heartbeat_class_def
        MessageFactory_createMessage_def MessageFactory_registerMessage_def)
qed

lemma DefaultCodec_stream_roundtrip_witness:
  "\<exists>b1 b2. encode_all heartbeat_class [7, 8] Buffer_default = Some b1 \<and>
    decode_n heartbeat_class heartbeat_factory (length [7, 8 :: uint32]) b1
      = Some (map Some [7, 8], b2) \<and> Buffer_content b2 = []"
  by (rule DefaultCodec_stream_roundtrip[where body = be_bytes]) (simp_all add: heartbeat_codec)

text \<open>
  When only part of a frame has arrived, \<^verbatim>\<open>DefaultCodec::decode\<close> returns no
  message, but it does not restore the read pointer: the 13 header bytes are gone, and the
  "restoring" \<^verbatim>\<open>retrieve\<close> drops up to 13 bytes of the body as well, so the frame can
  never be completed.
\<close>

theorem DefaultCodec_partial_frame_lost:
  assumes "Buffer_inv b" and "codec_message cls fac m body"
    and "Buffer_content b = take n (frame cls m body)" and "13 \<le> n" and "n < 13 + length body"
  shows "\<exists>b'. DefaultCodec_decode cls fac b = Some (None, b') \<and>
    Buffer_content b' = drop 26 (Buffer_content b)"
proof -
  let ?h = "frame_header cls m body" and ?k = "n - 13"
  have len: "length body + 13 < 2 ^ 32" using assms(2) by (simp add: codec_message_def)
  have c: "Buffer_content b = header_bytes ?h @ take ?k body"
    using assms(3,4) by (simp add: frame_def)
  from header_deserialize_reads[OF assms(1) c] obtain b1 where
    b1: "MessageHeader_deserialize MessageHeader_new b = Some (True, ?h, b1)" "Buffer_inv b1"
      "Buffer_content b1 = take ?k body" by auto
  have r: "Buffer_readableBytes b = n" "Buffer_readableBytes b1 = n - 13"
    using assms(1,4,5) b1 c by (simp_all add: readableBytes_eq)
  have k: "n - 13 < length body" using assms(4,5) by linarith
  have "DefaultCodec_decode cls fac b = Some (None, Buffer_retrieve b1 13)"
    using b1 r assms(4) k len
    by (simp add: DefaultCodec_decode_def Let_def HEADER_SIZE_def unat_body_length)
  moreover have "drop 26 (Buffer_content b) = drop 13 (Buffer_content b1)"
    using b1(3) c by simp
  ultimately show ?thesis using b1(2) by (simp add: retrieve_content)
qed

lemma DefaultCodec_partial_frame_lost_witness:
  "\<exists>b b'. Buffer_content b = take 15 (frame heartbeat_class 7 (be_bytes (7 :: uint32))) \<and>
    DefaultCodec_decode heartbeat_class heartbeat_factory b = Some (None, b') \<and>
    Buffer_content b' = []"
proof -
  let ?f = "frame heartbeat_class 7 (be_bytes (7 :: uint32))"
  obtain b where b: "Buffer_inv b" "Buffer_content b = take 15 ?f"
    using append_spec[OF Buffer_default_inv, of "take 15 ?f"] by auto
  obtain b' where "DefaultCodec_decode heartbeat_class heartbeat_factory b = Some (None, b')"
      "Buffer_content b' = drop 26 (Buffer_content b)"
    using DefaultCodec_partial_frame_lost[OF b(1) heartbeat_codec b(2)] by auto
  with b show ?thesis by auto
qed

text \<open>
  Asking \<^verbatim>\<open>DefaultCodec\<close> for the length of the message at the front of a buffer
  reports the frame length but removes the header from the buffer, so the frame can no
  longer be decoded; \<^verbatim>\<open>LengthFieldCodec\<close> peeks and leaves the buffer alone.
\<close>

theorem getMessageLength_consumes_header:
  assumes "Buffer_inv b" and "codec_message cls fac m body"
    and "Buffer_content b = frame cls m body @ rest"
  shows "\<exists>b'. DefaultCodec_getMessageLength b = Some (Some (of_nat (13 + length body)), b') \<and>
    Buffer_content b' = body @ rest"
proof -
  have c: "Buffer_content b = header_bytes (frame_header cls m body) @ body @ rest"
    using assms(3) by (simp add: frame_def)
  from header_deserialize_reads[OF assms(1) c] obtain b1 where
    b1: "MessageHeader_deserialize MessageHeader_new b = Some (True, frame_header cls m body, b1)"
      "Buffer_content b1 = body @ rest" by auto
  have "\<not> Buffer_readableBytes b < unat HEADER_SIZE"
    using assms(1) c by (simp add: readableBytes_eq HEADER_SIZE_def)
  with b1 show ?thesis by (simp add: DefaultCodec_getMessageLength_def HEADER_SIZE_def)
qed

lemma getMessageLength_consumes_header_witness:
  "\<exists>b b'. Buffer_content b = frame heartbeat_class 7 (be_bytes (7 :: uint32)) @ [9] \<and>
    DefaultCodec_getMessageLength b = Some (Some 17, b') \<and>
    Buffer_content b' = be_bytes (7 :: uint32) @ [9]"
proof -
  let ?f = "frame heartbeat_class 7 (be_bytes (7 :: uint32)) @ [9]"
  obtain b where b: "Buffer_inv b" "Buffer_content b = ?f"
    using append_spec[OF Buffer_default_inv, of ?f] by auto
  from getMessageLength_consumes_header[OF b(1) heartbeat_codec b(2)] b show ?thesis by auto
qed

text \<open>
  \<^verbatim>\<open>LengthFieldCodec\<close> cannot decode its own frames: the encoder counts a 13-byte
  header in the length it writes, the decoder an 8-byte one, so a complete frame alone in the
  buffer is taken for an incomplete one, and its 8 header bytes are lost.
\<close>

theorem LengthFieldCodec_rejects_own_frame:
  assumes "Buffer_inv b" and "Buffer_content b = []" and "codec_message cls fac m body"
  shows "\<exists>b1 b2. LengthFieldCodec_encode cls m b = Some (True, b1) \<and>
    LengthFieldCodec_decode cls fac b1 = Some (None, b2) \<and> Buffer_content b2 = body"
proof -
  from assms(3) obtain m0 sb where len: "length body + 13 < 2 ^ 32"
    and sb: "serialize cls m Buffer_default = Some sb" "Buffer_inv sb" "Buffer_content sb = body"
    by (rule codec_messageE)
  let ?l = "HEADER_SIZE + of_nat (length body)"
  have app: "appends b (be_bytes ?l @ be_bytes (messageId cls m) @ body)
      (do { b1 \<leftarrow> Buffer_writeUInt32 b ?l; b2 \<leftarrow> Buffer_writeUInt32 b1 (messageId cls m);
            Buffer_append b2 body })"
    using assms(1) by (intro appends_bind writeUInt32_appends appends_append)
  then obtain b1 where enc: "LengthFieldCodec_encode cls m b = Some (True, b1)" "Buffer_inv b1"
      "Buffer_content b1 = be_bytes ?l @ be_bytes (messageId cls m) @ body"
    using sb assms(2)
    by (auto simp: LengthFieldCodec_encode_def appends_def readableBytes_eq peek_content bind_eq_Some_conv)
  from readUInt32_reads[OF enc(2,3)] obtain b2 where b2: "Buffer_readUInt32 b1 = Some (?l, b2)"
      "Buffer_inv b2" "Buffer_content b2 = be_bytes (messageId cls m) @ body"
    by (auto simp: reads_def)
  from readUInt32_reads[OF b2(2,3)] obtain b3 where b3:
      "Buffer_readUInt32 b2 = Some (messageId cls m, b3)" "Buffer_inv b3" "Buffer_content b3 = body"
    by (auto simp: reads_def)
  have "?l - 8 = of_nat (length body + 5)" by (simp add: HEADER_SIZE_def)
  with len have u: "unat (?l - 8) = length body + 5" by (simp only: unat_of_nat) simp
  have "\<not> Buffer_readableBytes b1 < 8" "Buffer_readableBytes b3 < unat (?l - 8)"
    using enc b3 unfolding u by (simp_all add: readableBytes_eq)
  with b2 b3 have "LengthFieldCodec_decode cls fac b1 = Some (None, b3)"
    by (simp add: LengthFieldCodec_decode_def)
  with enc(1) b3(3) show ?thesis by auto
qed

lemma LengthFieldCodec_rejects_own_frame_witness:
  "\<exists>b1 b2. LengthFieldCodec_encode heartbeat_class 7 Buffer_default = Some (True, b1) \<and>
    LengthFieldCodec_decode heartbeat_class heartbeat_factory b1 = Some (None, b2) \<and>
    Buffer_content b2 = be_bytes (7 :: uint32)"
  by (rule LengthFieldCodec_rejects_own_frame) (simp_all add: heartbeat_codec)

end
