(* ===== verification/Registry.thy ===== *)
theory Registry
  imports Prelude
begin

text \<open>
  The contract of the server's id-keyed tables (handlers, routes, message creators, roles,
  battles, scenes): a lookup returns what the last store under that key put there, and
  nothing after a removal. The message dispatcher (\<^verbatim>\<open>src/core/message/dispatcher.cpp\<close>)
  and the gateway's router (\<^verbatim>\<open>src/gateway/message_router.cpp\<close>) are such tables and
  are modelled here.
\<close>

subsection \<open>Keyed stores\<close>

locale keyed_store =
  fixes find :: "'s \<Rightarrow> 'k \<Rightarrow> 'v option"
    and put :: "'s \<Rightarrow> 'k \<Rightarrow> 'v \<Rightarrow> 's"
  assumes find_put: "find (put s k v) k' = (if k' = k then Some v else find s k')"
begin

fun put_all :: "'s \<Rightarrow> ('k \<times> 'v) list \<Rightarrow> 's" where
  "put_all s [] = s"
| "put_all s ((k, v) # kvs) = put_all (put s k v) kvs"

lemma find_put_all:
  "find (put_all s kvs) k = (case map_of (rev kvs) k of Some v \<Rightarrow> Some v | None \<Rightarrow> find s k)"
proof (induction kvs arbitrary: s)
  case Nil
  then show ?case by simp
next
  case (Cons kv kvs)
  then show ?case
    by (cases kv) (auto simp: find_put map_add_def split: option.splits)
qed

lemma last_put_wins: "find (put_all s (kvs @ [(k, v)])) k = Some v"
  by (simp add: find_put_all)

lemma put_other: "k' \<noteq> k \<Longrightarrow> find (put s k v) k' = find s k'"
  by (simp add: find_put)

end

text \<open>A cache of objects that carry their own key, with removal.\<close>

locale object_cache =
  fixes key :: "'v \<Rightarrow> 'k" and find :: "'s \<Rightarrow> 'k \<Rightarrow> 'v option" and put :: "'s \<Rightarrow> 'v \<Rightarrow> 's"
    and del :: "'s \<Rightarrow> 'k \<Rightarrow> 's"
  assumes find_put: "find (put s v) k = (if k = key v then Some v else find s k)"
    and find_del: "find (del s k) k' = (if k' = k then None else find s k')"
begin

lemma put_del: "find (del (put s v) (key v)) k = (if k = key v then None else find s k)"
  by (simp add: find_del find_put)

lemma del_twice: "find (del (del s k) k) k' = find (del s k) k'"
  by (simp add: find_del)

text \<open>An object is found under its own key only.\<close>

definition self_keyed :: "'s \<Rightarrow> bool" where
  "self_keyed s \<longleftrightarrow> (\<forall>k v. find s k = Some v \<longrightarrow> key v = k)"

lemma self_keyed_put: "self_keyed s \<Longrightarrow> self_keyed (put s v)"
  by (auto simp: self_keyed_def find_put)

lemma self_keyed_del: "self_keyed s \<Longrightarrow> self_keyed (del s k)"
  by (auto simp: self_keyed_def find_del split: if_splits)

end

subsection \<open>\<^verbatim>\<open>MessageDispatcher\<close> and \<^verbatim>\<open>MessageRouter\<close>\<close>

text \<open>
  A handler is a function of the session, the message and the state it acts on; the
  dispatcher looks the message's id up and calls what it finds.
\<close>

type_synonym ('s, 'm, 'st) handler = "'s \<Rightarrow> 'm \<Rightarrow> 'st \<Rightarrow> 'st"
type_synonym ('s, 'm, 'st) handlers = "uint32 \<rightharpoonup> ('s, 'm, 'st) handler"

definition MessageDispatcher_registerHandler ::
    "('s, 'm, 'st) handlers \<Rightarrow> uint32 \<Rightarrow> ('s, 'm, 'st) handler \<Rightarrow> ('s, 'm, 'st) handlers" where
  "MessageDispatcher_registerHandler hs mid h = hs(mid \<mapsto> h)"

definition MessageDispatcher_dispatch ::
    "('m \<Rightarrow> uint32) \<Rightarrow> ('s, 'm, 'st) handlers \<Rightarrow> 's \<Rightarrow> 'm \<Rightarrow> 'st \<Rightarrow> 'st" where
  "MessageDispatcher_dispatch msgId hs session msg st =
     (case hs (msgId msg) of Some h \<Rightarrow> h session msg st | None \<Rightarrow> st)"

definition MessageDispatcher_hasHandler :: "('s, 'm, 'st) handlers \<Rightarrow> uint32 \<Rightarrow> bool" where
  "MessageDispatcher_hasHandler hs mid \<longleftrightarrow> hs mid \<noteq> None"

definition HandlerRegistrar ::
    "('s, 'm, 'st) handlers \<Rightarrow> uint32 \<Rightarrow> ('s, 'm, 'st) handler \<Rightarrow> ('s, 'm, 'st) handlers" where
  "HandlerRegistrar hs mid h = MessageDispatcher_registerHandler hs mid h"

definition MessageRouter_registerRoute ::
    "('s, 'm, 'st) handlers \<Rightarrow> uint32 \<Rightarrow> ('s, 'm, 'st) handler \<Rightarrow> ('s, 'm, 'st) handlers" where
  "MessageRouter_registerRoute routes msgId h = routes(msgId \<mapsto> h)"

definition MessageRouter_route ::
    "('m \<Rightarrow> uint32) \<Rightarrow> ('s, 'm, 'st) handlers \<Rightarrow> 's \<Rightarrow> 'm \<Rightarrow> 'st \<Rightarrow> 'st" where
  "MessageRouter_route msgId routes session msg st =
     (case routes (msgId msg) of Some h \<Rightarrow> h session msg st | None \<Rightarrow> st)"

definition handler_of :: "('s, 'm, 'st) handlers \<Rightarrow> uint32 \<Rightarrow> ('s, 'm, 'st) handler option" where
  "handler_of hs mid = hs mid"

interpretation dispatcher: keyed_store handler_of MessageDispatcher_registerHandler
  by unfold_locales (simp add: handler_of_def MessageDispatcher_registerHandler_def)

interpretation router: keyed_store handler_of MessageRouter_registerRoute
  by unfold_locales (simp add: handler_of_def MessageRouter_registerRoute_def)

text \<open>
  After any sequence of registrations, dispatching a message runs exactly the handler
  registered last under the message's id, and changes nothing when none was registered; the
  gateway's router behaves the same way on the same registrations.
\<close>

theorem dispatch_runs_last_registered:
  "MessageDispatcher_dispatch msgId (dispatcher.put_all Map.empty regs) session msg st =
     (case map_of (rev regs) (msgId msg) of Some h \<Rightarrow> h session msg st | None \<Rightarrow> st) \<and>
   MessageRouter_route msgId (router.put_all Map.empty regs) session msg st =
     MessageDispatcher_dispatch msgId (dispatcher.put_all Map.empty regs) session msg st"
proof -
  have "dispatcher.put_all Map.empty regs (msgId msg) = map_of (rev regs) (msgId msg)"
    using dispatcher.find_put_all[of Map.empty regs "msgId msg"]
    by (simp add: handler_of_def split: option.splits)
  moreover have "router.put_all Map.empty regs (msgId msg) = map_of (rev regs) (msgId msg)"
    using router.find_put_all[of Map.empty regs "msgId msg"]
    by (simp add: handler_of_def split: option.splits)
  ultimately show ?thesis
    by (simp add: MessageDispatcher_dispatch_def MessageRouter_route_def)
qed

end
