(* ===== verification/Session.thy ===== *)
theory Session
  imports Codec
begin

text \<open>
  \<^verbatim>\<open>src/core/session\<close>: the session object, the session manager with its three
  indices, and the session pool. Sessions are shared objects: the manager, the modules and
  the connection all hold pointers to them, so the manager's state has an explicit store
  \<open>objects\<close>, a pointer is an index into it, and the table \<open>sessions\<close> maps ids to pointers.
  What a session does to its connection is returned as a list of \<open>conn_effect\<close>. The
  manager's mutex is taken once by every operation, so each operation is one atomic step.
\<close>

subsection \<open>Sessions\<close>

datatype session_state =
  kNone | kConnecting | kConnected | kLogined | kPlaying | kClosing | kClosed

record session =
  sid :: int
  playerId :: int
  roleId :: int
  sstate :: session_state
  connection :: "nat option"
  token :: string
  lastHeartbeat :: int
  loginTime :: int
  loginIp :: string
  context_data :: "nat option"

datatype conn_effect = ConnSend nat "byte list" | ConnShutdown nat | ConnForceClose nat

definition Session_new :: "int \<Rightarrow> int \<Rightarrow> session" where
  "Session_new i now =
     \<lparr>sid = i, playerId = 0, roleId = 0, sstate = kConnecting, connection = None, token = [],
      lastHeartbeat = now, loginTime = 0, loginIp = [], context_data = None\<rparr>"

definition Session_destroy :: "session \<Rightarrow> conn_effect list" where
  "Session_destroy s = (case connection s of Some c \<Rightarrow> [ConnForceClose c] | None \<Rightarrow> [])"

definition Session_send_data :: "session \<Rightarrow> byte list \<Rightarrow> conn_effect list" where
  "Session_send_data s data =
     (case connection s of
        Some c \<Rightarrow> (if sstate s \<noteq> kClosed then [ConnSend c data] else [])
      | None \<Rightarrow> [])"

definition Session_send :: "'m message_class \<Rightarrow> session \<Rightarrow> 'm \<Rightarrow> conn_effect list option" where
  "Session_send cls s msg =
     (case connection s of
        Some c \<Rightarrow>
          (if sstate s \<noteq> kClosed
           then do { b \<leftarrow> serialize cls msg Buffer_default;
                     bs \<leftarrow> Buffer_peek b (Buffer_readableBytes b);
                     Some [ConnSend c bs] }
           else Some [])
      | None \<Rightarrow> Some [])"

definition Session_close :: "session \<Rightarrow> session \<times> conn_effect list" where
  "Session_close s =
     (s\<lparr>sstate := kClosing\<rparr>, case connection s of Some c \<Rightarrow> [ConnShutdown c] | None \<Rightarrow> [])"

definition Session_updateHeartbeat :: "session \<Rightarrow> int \<Rightarrow> session" where
  "Session_updateHeartbeat s now = s\<lparr>lastHeartbeat := now\<rparr>"

definition Session_isHeartbeatTimeout :: "session \<Rightarrow> int \<Rightarrow> int \<Rightarrow> bool" where
  "Session_isHeartbeatTimeout s now timeoutMs \<longleftrightarrow> timeoutMs < now - lastHeartbeat s"

definition Session_setPlayerId :: "session \<Rightarrow> int \<Rightarrow> session" where
  "Session_setPlayerId s p = s\<lparr>playerId := p\<rparr>"

definition Session_setRoleId :: "session \<Rightarrow> int \<Rightarrow> session" where
  "Session_setRoleId s r = s\<lparr>roleId := r\<rparr>"

definition Session_setToken :: "session \<Rightarrow> string \<Rightarrow> session" where
  "Session_setToken s t = s\<lparr>token := t\<rparr>"

definition Session_setLoginTime :: "session \<Rightarrow> int \<Rightarrow> session" where
  "Session_setLoginTime s t = s\<lparr>loginTime := t\<rparr>"

definition Session_setLoginIp :: "session \<Rightarrow> string \<Rightarrow> session" where
  "Session_setLoginIp s ip = s\<lparr>loginIp := ip\<rparr>"

lemmas session_setters [simp] =
  Session_setPlayerId_def Session_setRoleId_def Session_setToken_def Session_setLoginTime_def
  Session_setLoginIp_def

subsection \<open>The session manager\<close>

record session_manager =
  objects :: "session list"
  nextSessionId :: int
  sessions :: "int \<rightharpoonup> nat"
  playerSessions :: "int \<rightharpoonup> int"
  roleSessions :: "int \<rightharpoonup> int"

definition SessionManager_init :: session_manager where
  "SessionManager_init =
     \<lparr>objects = [], nextSessionId = 0, sessions = Map.empty, playerSessions = Map.empty,
      roleSessions = Map.empty\<rparr>"

text \<open>The session object behind a pointer, and a write through one.\<close>

definition deref :: "session_manager \<Rightarrow> nat \<Rightarrow> session" where
  "deref sm r = objects sm ! r"

definition set_object :: "session_manager \<Rightarrow> nat \<Rightarrow> session \<Rightarrow> session_manager" where
  "set_object sm r s = sm\<lparr>objects := (objects sm)[r := s]\<rparr>"

definition SessionManager_createSession :: "session_manager \<Rightarrow> int \<Rightarrow> nat \<times> session_manager" where
  "SessionManager_createSession sm now =
     (let i = wrap64 (nextSessionId sm + 1); r = length (objects sm)
      in (r, sm\<lparr>nextSessionId := i, objects := objects sm @ [Session_new i now],
                sessions := (sessions sm)(i \<mapsto> r)\<rparr>))"

definition SessionManager_getSession :: "session_manager \<Rightarrow> int \<Rightarrow> nat option" where
  "SessionManager_getSession sm sessionId = sessions sm sessionId"

definition SessionManager_getSessionByPlayerId :: "session_manager \<Rightarrow> int \<Rightarrow> nat option" where
  "SessionManager_getSessionByPlayerId sm pid =
     (case playerSessions sm pid of Some i \<Rightarrow> sessions sm i | None \<Rightarrow> None)"

definition SessionManager_getSessionByRoleId :: "session_manager \<Rightarrow> int \<Rightarrow> nat option" where
  "SessionManager_getSessionByRoleId sm rid =
     (case roleSessions sm rid of Some i \<Rightarrow> sessions sm i | None \<Rightarrow> None)"

definition SessionManager_removeSession :: "session_manager \<Rightarrow> int \<Rightarrow> session_manager" where
  "SessionManager_removeSession sm sessionId =
     (case sessions sm sessionId of
        None \<Rightarrow> sm
      | Some r \<Rightarrow>
          (let s = deref sm r in
           sm\<lparr>playerSessions := (if 0 < playerId s then (playerSessions sm)(playerId s := None)
                                 else playerSessions sm),
              roleSessions := (if 0 < roleId s then (roleSessions sm)(roleId s := None)
                               else roleSessions sm),
              sessions := (sessions sm)(sessionId := None)\<rparr>))"

definition SessionManager_bindPlayer :: "session_manager \<Rightarrow> int \<Rightarrow> int \<Rightarrow> bool \<times> session_manager" where
  "SessionManager_bindPlayer sm sessionId pid =
     (case sessions sm sessionId of
        None \<Rightarrow> (False, sm)
      | Some r \<Rightarrow>
          if playerSessions sm pid \<noteq> None \<and> playerSessions sm pid \<noteq> Some sessionId
          then (False, sm)
          else (True, (set_object sm r (Session_setPlayerId (deref sm r) pid))
                        \<lparr>playerSessions := (playerSessions sm)(pid \<mapsto> sessionId)\<rparr>))"

definition SessionManager_bindRole :: "session_manager \<Rightarrow> int \<Rightarrow> int \<Rightarrow> bool \<times> session_manager" where
  "SessionManager_bindRole sm sessionId rid =
     (case sessions sm sessionId of
        None \<Rightarrow> (False, sm)
      | Some r \<Rightarrow>
          if roleSessions sm rid \<noteq> None \<and> roleSessions sm rid \<noteq> Some sessionId
          then (False, sm)
          else (True, (set_object sm r (Session_setRoleId (deref sm r) rid))
                        \<lparr>roleSessions := (roleSessions sm)(rid \<mapsto> sessionId)\<rparr>))"

definition SessionManager_unbindPlayer :: "session_manager \<Rightarrow> int \<Rightarrow> session_manager" where
  "SessionManager_unbindPlayer sm pid =
     (case playerSessions sm pid of
        None \<Rightarrow> sm
      | Some i \<Rightarrow>
          (let sm' = (case sessions sm i of
                        Some r \<Rightarrow> set_object sm r (Session_setPlayerId (deref sm r) 0)
                      | None \<Rightarrow> sm)
           in sm'\<lparr>playerSessions := (playerSessions sm')(pid := None)\<rparr>))"

definition SessionManager_unbindRole :: "session_manager \<Rightarrow> int \<Rightarrow> session_manager" where
  "SessionManager_unbindRole sm rid =
     (case roleSessions sm rid of
        None \<Rightarrow> sm
      | Some i \<Rightarrow>
          (let sm' = (case sessions sm i of
                        Some r \<Rightarrow> set_object sm r (Session_setRoleId (deref sm r) 0)
                      | None \<Rightarrow> sm)
           in sm'\<lparr>roleSessions := (roleSessions sm')(rid := None)\<rparr>))"

definition SessionManager_sessionCount :: "session_manager \<Rightarrow> nat" where
  "SessionManager_sessionCount sm = card (dom (sessions sm))"

definition SessionManager_onlinePlayerCount :: "session_manager \<Rightarrow> nat" where
  "SessionManager_onlinePlayerCount sm = card (dom (playerSessions sm))"

definition SessionManager_hasSession :: "session_manager \<Rightarrow> int \<Rightarrow> bool" where
  "SessionManager_hasSession sm sessionId \<longleftrightarrow> sessions sm sessionId \<noteq> None"

definition SessionManager_isPlayerOnline :: "session_manager \<Rightarrow> int \<Rightarrow> bool" where
  "SessionManager_isPlayerOnline sm pid \<longleftrightarrow> playerSessions sm pid \<noteq> None"

text \<open>\<open>order\<close> is the order in which the hash map is iterated.\<close>

fun SessionManager_broadcast ::
    "'m message_class \<Rightarrow> session_manager \<Rightarrow> 'm \<Rightarrow> int list \<Rightarrow> conn_effect list option" where
  "SessionManager_broadcast cls sm msg [] = Some []"
| "SessionManager_broadcast cls sm msg (i # order) =
     (case sessions sm i of
        None \<Rightarrow> SessionManager_broadcast cls sm msg order
      | Some r \<Rightarrow>
          do { es \<leftarrow> (if sstate (deref sm r) = kPlaying then Session_send cls (deref sm r) msg
                      else Some []);
               rest \<leftarrow> SessionManager_broadcast cls sm msg order;
               Some (es @ rest) })"

definition Server_onNewConnection :: "session_manager \<Rightarrow> string \<Rightarrow> int \<Rightarrow> session_manager" where
  "Server_onNewConnection sm peerIp now =
     (let (r, sm') = SessionManager_createSession sm now
      in set_object sm' r (Session_setLoginIp (deref sm' r) peerIp))"

subsection \<open>The session pool\<close>

record session_pool =
  pool_objects :: "session list"
  pool :: "nat list"
  pool_capacity :: nat
  pool_nextId :: int

definition SessionPool_allocate :: "session_pool \<Rightarrow> int \<Rightarrow> nat \<times> session_pool" where
  "SessionPool_allocate sp now =
     (let i = wrap64 (pool_nextId sp + 1)
      in (length (pool_objects sp),
          sp\<lparr>pool_nextId := i, pool_objects := pool_objects sp @ [Session_new i now]\<rparr>))"

fun SessionPool_preallocate :: "session_pool \<Rightarrow> nat \<Rightarrow> int \<Rightarrow> session_pool" where
  "SessionPool_preallocate sp 0 now = sp"
| "SessionPool_preallocate sp (Suc n) now =
     (let (r, sp') = SessionPool_allocate sp now
      in SessionPool_preallocate (sp'\<lparr>pool := pool sp' @ [r]\<rparr>) n now)"

definition SessionPool_new :: "nat \<Rightarrow> int \<Rightarrow> session_pool" where
  "SessionPool_new initialSize now =
     SessionPool_preallocate
       \<lparr>pool_objects = [], pool = [], pool_capacity = initialSize, pool_nextId = 0\<rparr>
       initialSize now"

definition SessionPool_acquire :: "session_pool \<Rightarrow> int \<Rightarrow> nat \<times> session_pool" where
  "SessionPool_acquire sp now =
     (let sp1 = (if pool sp = [] then SessionPool_preallocate sp (pool_capacity sp) now else sp)
      in if pool sp1 = [] then SessionPool_allocate sp1 now
         else (last (pool sp1), sp1\<lparr>pool := butlast (pool sp1)\<rparr>))"

definition SessionPool_release :: "session_pool \<Rightarrow> nat option \<Rightarrow> session_pool" where
  "SessionPool_release sp p =
     (case p of
        None \<Rightarrow> sp
      | Some r \<Rightarrow>
          sp\<lparr>pool_objects := (pool_objects sp)
               [r := (pool_objects sp ! r)\<lparr>playerId := 0, roleId := 0, sstate := kNone,
                       token := [], context_data := None\<rparr>],
             pool := pool sp @ [r]\<rparr>)"

definition SessionPool_size :: "session_pool \<Rightarrow> nat" where
  "SessionPool_size sp = length (pool sp)"

subsection \<open>Invariant of the manager\<close>

text \<open>
  Every table entry points at the session of that id; a live session with a player (role)
  is found under that player (role).
\<close>

definition sm_ids :: "session_manager \<Rightarrow> bool" where
  "sm_ids sm \<longleftrightarrow> 0 \<le> nextSessionId sm \<and> nextSessionId sm < 2 ^ 63 \<and>
     (\<forall>i r. sessions sm i = Some r \<longrightarrow>
        r < length (objects sm) \<and> sid (deref sm r) = i \<and> 0 < i \<and> i \<le> nextSessionId sm)"

definition sm_players :: "session_manager \<Rightarrow> bool" where
  "sm_players sm \<longleftrightarrow> (\<forall>i r. sessions sm i = Some r \<longrightarrow> 0 < playerId (deref sm r) \<longrightarrow>
     playerSessions sm (playerId (deref sm r)) = Some i)"

definition sm_roles :: "session_manager \<Rightarrow> bool" where
  "sm_roles sm \<longleftrightarrow> (\<forall>i r. sessions sm i = Some r \<longrightarrow> 0 < roleId (deref sm r) \<longrightarrow>
     roleSessions sm (roleId (deref sm r)) = Some i)"

definition sm_inv :: "session_manager \<Rightarrow> bool" where
  "sm_inv sm \<longleftrightarrow> sm_ids sm \<and> sm_players sm \<and> sm_roles sm"

lemma deref_set_object:
  "r < length (objects sm) \<Longrightarrow> deref (set_object sm r s) r' = (if r' = r then s else deref sm r')"
  by (simp add: deref_def set_object_def nth_list_update)

lemma set_object_frame [simp]:
  "sessions (set_object sm r s) = sessions sm"
  "playerSessions (set_object sm r s) = playerSessions sm"
  "roleSessions (set_object sm r s) = roleSessions sm"
  "nextSessionId (set_object sm r s) = nextSessionId sm"
  "length (objects (set_object sm r s)) = length (objects sm)"
  by (simp_all add: set_object_def)

lemma deref_update [simp]:
  "deref (sm\<lparr>sessions := a\<rparr>) r = deref sm r"
  "deref (sm\<lparr>playerSessions := b\<rparr>) r = deref sm r"
  "deref (sm\<lparr>roleSessions := b\<rparr>) r = deref sm r"
  "deref (sm\<lparr>nextSessionId := n\<rparr>) r = deref sm r"
  by (simp_all add: deref_def)

lemma sm_ids_pointer: "sm_ids sm \<Longrightarrow> sessions sm i = Some r \<Longrightarrow> r < length (objects sm)"
  by (auto simp: sm_ids_def)

lemma sm_ids_inj: "sm_ids sm \<Longrightarrow> sessions sm i = Some r \<Longrightarrow> sessions sm j = Some r \<Longrightarrow> i = j"
  by (auto simp: sm_ids_def)

lemmas sm_inv_defs = sm_inv_def sm_ids_def sm_players_def sm_roles_def

lemma sm_inv_init: "sm_inv SessionManager_init"
  by (simp add: sm_inv_defs SessionManager_init_def)

lemma sm_inv_create:
  assumes "sm_inv sm" and "nextSessionId sm < 2 ^ 63 - 1"
  shows "sm_inv (snd (SessionManager_createSession sm now))"
proof -
  let ?i = "nextSessionId sm + 1" and ?r = "length (objects sm)"
  have w: "wrap64 ?i = ?i" using assms by (auto simp: sm_inv_defs)
  have old: "deref (sm\<lparr>nextSessionId := ?i, objects := objects sm @ [Session_new ?i now],
        sessions := (sessions sm)(?i \<mapsto> ?r)\<rparr>) r = deref sm r" if "r < ?r" for r
    using that by (simp add: deref_def nth_append)
  have new: "deref (sm\<lparr>nextSessionId := ?i, objects := objects sm @ [Session_new ?i now],
        sessions := (sessions sm)(?i \<mapsto> ?r)\<rparr>) ?r = Session_new ?i now"
    by (simp add: deref_def)
  show ?thesis
    using assms old new unfolding SessionManager_createSession_def Let_def w
    by (fastforce simp: sm_inv_defs Session_new_def split: if_splits)
qed

lemma sm_inv_parts:
  "sm_inv sm \<Longrightarrow> sm_ids sm" "sm_inv sm \<Longrightarrow> sm_players sm" "sm_inv sm \<Longrightarrow> sm_roles sm"
  by (simp_all add: sm_inv_def)

lemma sm_inv_tables [simp]:
  "sm_ids (sm\<lparr>playerSessions := m\<rparr>) = sm_ids sm"
  "sm_ids (sm\<lparr>roleSessions := m\<rparr>) = sm_ids sm"
  "sm_players (sm\<lparr>roleSessions := m\<rparr>) = sm_players sm"
  "sm_roles (sm\<lparr>playerSessions := m\<rparr>) = sm_roles sm"
  by (simp_all add: sm_ids_def sm_players_def sm_roles_def)

lemma sm_ids_set_object:
  "sm_ids sm \<Longrightarrow> r < length (objects sm) \<Longrightarrow> sid s' = sid (deref sm r) \<Longrightarrow>
    sm_ids (set_object sm r s')"
  by (simp add: sm_ids_def deref_set_object)

lemma sm_players_set_object:
  "sm_players sm \<Longrightarrow> r < length (objects sm) \<Longrightarrow> playerId s' = playerId (deref sm r) \<Longrightarrow>
    sm_players (set_object sm r s')"
  by (simp add: sm_players_def deref_set_object)

lemma sm_roles_set_object:
  "sm_roles sm \<Longrightarrow> r < length (objects sm) \<Longrightarrow> roleId s' = roleId (deref sm r) \<Longrightarrow>
    sm_roles (set_object sm r s')"
  by (simp add: sm_roles_def deref_set_object)

lemmas set_object_intros = sm_ids_set_object sm_players_set_object sm_roles_set_object

lemma sm_inv_set_object:
  assumes "sm_inv sm" "r < length (objects sm)"
    and "sid s' = sid (deref sm r)" "playerId s' = playerId (deref sm r)"
      "roleId s' = roleId (deref sm r)"
  shows "sm_inv (set_object sm r s')"
  using assms by (simp add: sm_inv_def set_object_intros)

lemma sm_players_bound:
  "sm_players sm \<Longrightarrow> sessions sm i = Some r \<Longrightarrow> 0 < playerId (deref sm r) \<Longrightarrow>
    playerSessions sm (playerId (deref sm r)) = Some i"
  by (simp add: sm_players_def)

lemma sm_roles_bound:
  "sm_roles sm \<Longrightarrow> sessions sm i = Some r \<Longrightarrow> 0 < roleId (deref sm r) \<Longrightarrow>
    roleSessions sm (roleId (deref sm r)) = Some i"
  by (simp add: sm_roles_def)

lemma sm_ids_drop: "sm_ids sm \<Longrightarrow> sm_ids (sm\<lparr>sessions := (sessions sm)(i := None)\<rparr>)"
  by (simp add: sm_ids_def)

lemma sm_players_drop:
  assumes "sm_players sm" "sessions sm i = Some r"
  shows "sm_players (sm\<lparr>playerSessions := (if 0 < playerId (deref sm r)
           then (playerSessions sm)(playerId (deref sm r) := None) else playerSessions sm),
         roleSessions := m, sessions := (sessions sm)(i := None)\<rparr>)"
  unfolding sm_players_def
proof (intro allI impI)
  fix j r'
  let ?sm = "sm\<lparr>playerSessions := (if 0 < playerId (deref sm r)
           then (playerSessions sm)(playerId (deref sm r) := None) else playerSessions sm),
         roleSessions := m, sessions := (sessions sm)(i := None)\<rparr>"
  assume j: "sessions ?sm j = Some r'" and p: "0 < playerId (deref ?sm r')"
  then have "j \<noteq> i" "sessions sm j = Some r'" by (auto split: if_splits)
  moreover from this have "playerSessions sm (playerId (deref sm r')) = Some j"
    using assms(1) p by (simp add: sm_players_bound)
  moreover have "playerId (deref sm r') \<noteq> playerId (deref sm r)" if "0 < playerId (deref sm r)"
    using calculation sm_players_bound[OF assms that] by auto
  ultimately show "playerSessions ?sm (playerId (deref ?sm r')) = Some j" by simp
qed

lemma sm_roles_drop:
  assumes "sm_roles sm" "sessions sm i = Some r"
  shows "sm_roles (sm\<lparr>playerSessions := m, roleSessions := (if 0 < roleId (deref sm r)
           then (roleSessions sm)(roleId (deref sm r) := None) else roleSessions sm),
         sessions := (sessions sm)(i := None)\<rparr>)"
  unfolding sm_roles_def
proof (intro allI impI)
  fix j r'
  let ?sm = "sm\<lparr>playerSessions := m, roleSessions := (if 0 < roleId (deref sm r)
           then (roleSessions sm)(roleId (deref sm r) := None) else roleSessions sm),
         sessions := (sessions sm)(i := None)\<rparr>"
  assume j: "sessions ?sm j = Some r'" and p: "0 < roleId (deref ?sm r')"
  then have "j \<noteq> i" "sessions sm j = Some r'" by (auto split: if_splits)
  moreover from this have "roleSessions sm (roleId (deref sm r')) = Some j"
    using assms(1) p by (simp add: sm_roles_bound)
  moreover have "roleId (deref sm r') \<noteq> roleId (deref sm r)" if "0 < roleId (deref sm r)"
    using calculation sm_roles_bound[OF assms that] by auto
  ultimately show "roleSessions ?sm (roleId (deref ?sm r')) = Some j" by simp
qed

lemma sm_inv_remove:
  assumes "sm_inv sm"
  shows "sm_inv (SessionManager_removeSession sm i)"
proof (cases "sessions sm i")
  case None
  then show ?thesis using assms by (simp add: SessionManager_removeSession_def)
next
  case (Some r)
  have "sm_ids (SessionManager_removeSession sm i)"
    using sm_inv_parts(1)[OF assms] Some
    by (simp add: SessionManager_removeSession_def Let_def sm_ids_def)
  then show ?thesis
    using sm_players_drop[OF sm_inv_parts(2)[OF assms] Some]
      sm_roles_drop[OF sm_inv_parts(3)[OF assms] Some] Some
    by (simp add: sm_inv_def SessionManager_removeSession_def Let_def)
qed

lemma sm_inv_pointer:
  assumes "sm_inv sm" "sessions sm i = Some r"
  shows "r < length (objects sm)" and "sessions sm j = Some r \<longleftrightarrow> j = i"
  using assms sm_ids_pointer[of sm i r] sm_ids_inj[of sm j r i] by (auto simp: sm_inv_def)

lemma sm_players_bind:
  assumes "sm_inv sm" "sessions sm i = Some r" "playerSessions sm p \<in> {None, Some i}"
  shows "sm_players ((set_object sm r (Session_setPlayerId (deref sm r) p))
           \<lparr>playerSessions := (playerSessions sm)(p \<mapsto> i)\<rparr>)"
  unfolding sm_players_def
proof (intro allI impI)
  fix j r'
  let ?sm = "(set_object sm r (Session_setPlayerId (deref sm r) p))
           \<lparr>playerSessions := (playerSessions sm)(p \<mapsto> i)\<rparr>"
  assume j: "sessions ?sm j = Some r'" and pos: "0 < playerId (deref ?sm r')"
  have r: "r < length (objects sm)" using sm_inv_pointer(1)[OF assms(1,2)] .
  show "playerSessions ?sm (playerId (deref ?sm r')) = Some j"
  proof (cases "r' = r")
    case True
    then show ?thesis
      using j sm_inv_pointer(2)[OF assms(1,2)] r by (simp add: deref_set_object)
  next
    case False
    then have "j \<noteq> i" using j assms(2) by auto
    moreover have "playerSessions sm (playerId (deref sm r')) = Some j"
      using sm_players_bound[OF sm_inv_parts(2)[OF assms(1)], of j r'] j pos r False
      by (simp add: deref_set_object)
    ultimately show ?thesis using False r assms(3) by (auto simp: deref_set_object)
  qed
qed

lemma sm_roles_bind:
  assumes "sm_inv sm" "sessions sm i = Some r" "roleSessions sm p \<in> {None, Some i}"
  shows "sm_roles ((set_object sm r (Session_setRoleId (deref sm r) p))
           \<lparr>roleSessions := (roleSessions sm)(p \<mapsto> i)\<rparr>)"
  unfolding sm_roles_def
proof (intro allI impI)
  fix j r'
  let ?sm = "(set_object sm r (Session_setRoleId (deref sm r) p))
           \<lparr>roleSessions := (roleSessions sm)(p \<mapsto> i)\<rparr>"
  assume j: "sessions ?sm j = Some r'" and pos: "0 < roleId (deref ?sm r')"
  have r: "r < length (objects sm)" using sm_inv_pointer(1)[OF assms(1,2)] .
  show "roleSessions ?sm (roleId (deref ?sm r')) = Some j"
  proof (cases "r' = r")
    case True
    then show ?thesis
      using j sm_inv_pointer(2)[OF assms(1,2)] r by (simp add: deref_set_object)
  next
    case False
    then have "j \<noteq> i" using j assms(2) by auto
    moreover have "roleSessions sm (roleId (deref sm r')) = Some j"
      using sm_roles_bound[OF sm_inv_parts(3)[OF assms(1)], of j r'] j pos r False
      by (simp add: deref_set_object)
    ultimately show ?thesis using False r assms(3) by (auto simp: deref_set_object)
  qed
qed

lemma sm_inv_bindPlayer:
  assumes "sm_inv sm"
  shows "sm_inv (snd (SessionManager_bindPlayer sm i p))"
proof (cases "\<exists>r. sessions sm i = Some r \<and> playerSessions sm p \<in> {None, Some i}")
  case True
  then obtain r where r: "sessions sm i = Some r" "playerSessions sm p \<in> {None, Some i}" by blast
  have "sm_ids (set_object sm r (Session_setPlayerId (deref sm r) p))"
    "sm_roles (set_object sm r (Session_setPlayerId (deref sm r) p))"
    using assms sm_inv_pointer(1)[OF assms r(1)] by (simp_all add: sm_inv_def set_object_intros)
  then show ?thesis
    using sm_players_bind[OF assms r] r by (auto simp: SessionManager_bindPlayer_def sm_inv_def)
next
  case False
  then have "snd (SessionManager_bindPlayer sm i p) = sm"
    by (auto simp: SessionManager_bindPlayer_def split: option.splits)
  then show ?thesis using assms by simp
qed

lemma sm_inv_bindRole:
  assumes "sm_inv sm"
  shows "sm_inv (snd (SessionManager_bindRole sm i p))"
proof (cases "\<exists>r. sessions sm i = Some r \<and> roleSessions sm p \<in> {None, Some i}")
  case True
  then obtain r where r: "sessions sm i = Some r" "roleSessions sm p \<in> {None, Some i}" by blast
  have "sm_ids (set_object sm r (Session_setRoleId (deref sm r) p))"
    "sm_players (set_object sm r (Session_setRoleId (deref sm r) p))"
    using assms sm_inv_pointer(1)[OF assms r(1)] by (simp_all add: sm_inv_def set_object_intros)
  then show ?thesis
    using sm_roles_bind[OF assms r] r by (auto simp: SessionManager_bindRole_def sm_inv_def)
next
  case False
  then have "snd (SessionManager_bindRole sm i p) = sm"
    by (auto simp: SessionManager_bindRole_def split: option.splits)
  then show ?thesis using assms by simp
qed

lemma sm_players_unbind:
  assumes "sm_inv sm" "sessions sm i = Some r" "playerSessions sm p = Some i"
  shows "sm_players ((set_object sm r (Session_setPlayerId (deref sm r) 0))
           \<lparr>playerSessions := (playerSessions sm)(p := None)\<rparr>)"
  unfolding sm_players_def
proof (intro allI impI)
  fix j r'
  let ?sm = "(set_object sm r (Session_setPlayerId (deref sm r) 0))
           \<lparr>playerSessions := (playerSessions sm)(p := None)\<rparr>"
  assume j: "sessions ?sm j = Some r'" and pos: "0 < playerId (deref ?sm r')"
  have r: "r < length (objects sm)" using sm_inv_pointer(1)[OF assms(1,2)] .
  then have "r' \<noteq> r" using pos by (auto simp: deref_set_object)
  then have "j \<noteq> i" "playerSessions sm (playerId (deref sm r')) = Some j"
    using j assms(2) pos r sm_players_bound[OF sm_inv_parts(2)[OF assms(1)], of j r']
    by (auto simp: deref_set_object)
  then show "playerSessions ?sm (playerId (deref ?sm r')) = Some j"
    using \<open>r' \<noteq> r\<close> r assms(3) by (auto simp: deref_set_object)
qed

lemma sm_roles_unbind:
  assumes "sm_inv sm" "sessions sm i = Some r" "roleSessions sm p = Some i"
  shows "sm_roles ((set_object sm r (Session_setRoleId (deref sm r) 0))
           \<lparr>roleSessions := (roleSessions sm)(p := None)\<rparr>)"
  unfolding sm_roles_def
proof (intro allI impI)
  fix j r'
  let ?sm = "(set_object sm r (Session_setRoleId (deref sm r) 0))
           \<lparr>roleSessions := (roleSessions sm)(p := None)\<rparr>"
  assume j: "sessions ?sm j = Some r'" and pos: "0 < roleId (deref ?sm r')"
  have r: "r < length (objects sm)" using sm_inv_pointer(1)[OF assms(1,2)] .
  then have "r' \<noteq> r" using pos by (auto simp: deref_set_object)
  then have "j \<noteq> i" "roleSessions sm (roleId (deref sm r')) = Some j"
    using j assms(2) pos r sm_roles_bound[OF sm_inv_parts(3)[OF assms(1)], of j r']
    by (auto simp: deref_set_object)
  then show "roleSessions ?sm (roleId (deref ?sm r')) = Some j"
    using \<open>r' \<noteq> r\<close> r assms(3) by (auto simp: deref_set_object)
qed

lemma sm_players_forget:
  assumes "sm_players sm" "playerSessions sm p = Some i" "sessions sm i = None"
  shows "sm_players (sm\<lparr>playerSessions := (playerSessions sm)(p := None)\<rparr>)"
  using assms by (fastforce simp: sm_players_def)

lemma sm_roles_forget:
  assumes "sm_roles sm" "roleSessions sm p = Some i" "sessions sm i = None"
  shows "sm_roles (sm\<lparr>roleSessions := (roleSessions sm)(p := None)\<rparr>)"
  using assms by (fastforce simp: sm_roles_def)

lemma sm_inv_unbindPlayer:
  assumes "sm_inv sm"
  shows "sm_inv (SessionManager_unbindPlayer sm p)"
proof (cases "playerSessions sm p")
  case None
  then show ?thesis using assms by (simp add: SessionManager_unbindPlayer_def)
next
  case i: (Some i)
  show ?thesis
  proof (cases "sessions sm i")
    case None
    then show ?thesis
      using assms i sm_players_forget[OF sm_inv_parts(2)[OF assms] i]
      by (simp add: SessionManager_unbindPlayer_def sm_inv_def)
  next
    case (Some r)
    have "sm_ids (set_object sm r (Session_setPlayerId (deref sm r) 0))"
      "sm_roles (set_object sm r (Session_setPlayerId (deref sm r) 0))"
      using assms sm_inv_pointer(1)[OF assms Some] by (simp_all add: sm_inv_def set_object_intros)
    then show ?thesis
      using Some i sm_players_unbind[OF assms Some i]
      by (simp add: SessionManager_unbindPlayer_def sm_inv_def)
  qed
qed

lemma sm_inv_unbindRole:
  assumes "sm_inv sm"
  shows "sm_inv (SessionManager_unbindRole sm p)"
proof (cases "roleSessions sm p")
  case None
  then show ?thesis using assms by (simp add: SessionManager_unbindRole_def)
next
  case i: (Some i)
  show ?thesis
  proof (cases "sessions sm i")
    case None
    then show ?thesis
      using assms i sm_roles_forget[OF sm_inv_parts(3)[OF assms] i]
      by (simp add: SessionManager_unbindRole_def sm_inv_def)
  next
    case (Some r)
    have "sm_ids (set_object sm r (Session_setRoleId (deref sm r) 0))"
      "sm_players (set_object sm r (Session_setRoleId (deref sm r) 0))"
      using assms sm_inv_pointer(1)[OF assms Some] by (simp_all add: sm_inv_def set_object_intros)
    then show ?thesis
      using Some i sm_roles_unbind[OF assms Some i]
      by (simp add: SessionManager_unbindRole_def sm_inv_def)
  qed
qed

subsection \<open>Reachable managers\<close>

text \<open>
  What the rest of the server can do to the manager: call its operations, and write the
  fields of a session through a pointer other than its player and role ids.
\<close>

inductive sm_reach :: "session_manager \<Rightarrow> bool" where
  sm_start: "sm_reach SessionManager_init"
| sm_create: "sm_reach sm \<Longrightarrow> nextSessionId sm < 2 ^ 63 - 1 \<Longrightarrow>
    sm_reach (snd (SessionManager_createSession sm now))"
| sm_remove: "sm_reach sm \<Longrightarrow> sm_reach (SessionManager_removeSession sm i)"
| sm_bindPlayer: "sm_reach sm \<Longrightarrow> sm_reach (snd (SessionManager_bindPlayer sm i p))"
| sm_bindRole: "sm_reach sm \<Longrightarrow> sm_reach (snd (SessionManager_bindRole sm i p))"
| sm_unbindPlayer: "sm_reach sm \<Longrightarrow> sm_reach (SessionManager_unbindPlayer sm p)"
| sm_unbindRole: "sm_reach sm \<Longrightarrow> sm_reach (SessionManager_unbindRole sm p)"
| sm_write: "sm_reach sm \<Longrightarrow> r < length (objects sm) \<Longrightarrow> sid s = sid (deref sm r) \<Longrightarrow>
    playerId s = playerId (deref sm r) \<Longrightarrow> roleId s = roleId (deref sm r) \<Longrightarrow>
    sm_reach (set_object sm r s)"

lemma sm_reach_inv: "sm_reach sm \<Longrightarrow> sm_inv sm"
  by (induction rule: sm_reach.induct)
    (simp_all add: sm_inv_init sm_inv_create sm_inv_remove sm_inv_bindPlayer sm_inv_bindRole
      sm_inv_unbindPlayer sm_inv_unbindRole sm_inv_set_object)

text \<open>Two sessions, the first bound to player 7 and role 70.\<close>

definition two_sessions :: session_manager where
  "two_sessions =
     (let sm = snd (SessionManager_createSession (snd (SessionManager_createSession SessionManager_init 0)) 5)
      in snd (SessionManager_bindRole (snd (SessionManager_bindPlayer sm 1 7)) 1 70))"

lemma two_sessions_reach: "sm_reach two_sessions"
  unfolding two_sessions_def Let_def
  by (intro sm_reach.intros)
    (simp_all add: SessionManager_createSession_def SessionManager_init_def Let_def)

lemma two_sessions_eval:
  "two_sessions =
     \<lparr>objects = [(Session_new 1 0)\<lparr>playerId := 7, roleId := 70\<rparr>, Session_new 2 5],
      nextSessionId = 2, sessions = [1 \<mapsto> 0, 2 \<mapsto> 1], playerSessions = [7 \<mapsto> 1],
      roleSessions = [70 \<mapsto> 1]\<rparr>"
  by (simp add: two_sessions_def SessionManager_createSession_def SessionManager_init_def
      SessionManager_bindPlayer_def SessionManager_bindRole_def set_object_def deref_def Let_def)

lemma session_found_by_its_ids_parts:
  assumes "sm_reach sm" and "SessionManager_getSession sm i = Some r"
  shows "0 < playerId (deref sm r) \<Longrightarrow>
      SessionManager_getSessionByPlayerId sm (playerId (deref sm r)) = Some r"
    and "0 < roleId (deref sm r) \<Longrightarrow>
      SessionManager_getSessionByRoleId sm (roleId (deref sm r)) = Some r"
    and "sid (deref sm r) = i"
  using sm_reach_inv[OF assms(1)] assms(2)
  by (auto simp: sm_inv_defs SessionManager_getSession_def SessionManager_getSessionByPlayerId_def
      SessionManager_getSessionByRoleId_def)



lemma bindPlayer_exclusive_parts:
  assumes "sm_reach sm" and "SessionManager_getSession sm i = Some r"
    and "SessionManager_bindPlayer sm i p = (ok, sm')"
  shows "ok \<longleftrightarrow> \<not> SessionManager_isPlayerOnline sm p \<or> playerSessions sm p = Some i"
    and "ok \<Longrightarrow> SessionManager_getSessionByPlayerId sm' p = Some r \<and> playerId (deref sm' r) = p \<and>
           (\<forall>r'. r' \<noteq> r \<longrightarrow> deref sm' r' = deref sm r')"
    and "\<not> ok \<Longrightarrow> sm' = sm"
proof -
  have r: "r < length (objects sm)"
    using sm_inv_pointer(1)[OF sm_reach_inv[OF assms(1)]] assms(2)
    by (simp add: SessionManager_getSession_def)
  show "ok \<longleftrightarrow> \<not> SessionManager_isPlayerOnline sm p \<or> playerSessions sm p = Some i"
    using assms(2,3) by (auto simp: SessionManager_bindPlayer_def SessionManager_getSession_def
        SessionManager_isPlayerOnline_def split: if_splits)
  show "ok \<Longrightarrow> SessionManager_getSessionByPlayerId sm' p = Some r \<and> playerId (deref sm' r) = p \<and>
           (\<forall>r'. r' \<noteq> r \<longrightarrow> deref sm' r' = deref sm r')"
    using assms(2,3) r by (auto simp: SessionManager_bindPlayer_def SessionManager_getSession_def
        SessionManager_getSessionByPlayerId_def deref_set_object split: if_splits)
  show "\<not> ok \<Longrightarrow> sm' = sm"
    using assms(2,3) by (auto simp: SessionManager_bindPlayer_def SessionManager_getSession_def
        split: if_splits)
qed

text \<open>
  Binding a player to a live session succeeds exactly when the player is offline or
  already bound to this very session. On success the lookup by player returns this session,
  whose player id is the new one, and every other session keeps its ids; on failure nothing
  changes.
\<close>

theorem bindPlayer_exclusive:
  assumes "sm_reach sm" and "SessionManager_getSession sm i = Some r"
    and "SessionManager_bindPlayer sm i p = (ok, sm')"
  shows "((ok \<longleftrightarrow> \<not> SessionManager_isPlayerOnline sm p \<or> playerSessions sm p = Some i)) \<and>
    (ok \<longrightarrow> (SessionManager_getSessionByPlayerId sm' p = Some r \<and> playerId (deref sm' r) = p \<and>
           (\<forall>r'. r' \<noteq> r \<longrightarrow> deref sm' r' = deref sm r'))) \<and>
    (\<not> ok \<longrightarrow> sm' = sm)"
  using bindPlayer_exclusive_parts[OF assms] by blast

lemma bindPlayer_exclusive_witness:
  "\<not> fst (SessionManager_bindPlayer two_sessions 2 7) \<and>
   snd (SessionManager_bindPlayer two_sessions 2 7) = two_sessions \<and>
   SessionManager_getSessionByPlayerId (snd (SessionManager_bindPlayer two_sessions 2 8)) 8 = Some 1"
proof -
  have g: "SessionManager_getSession two_sessions 2 = Some 1"
    by (simp add: two_sessions_eval SessionManager_getSession_def)
  obtain o1 s1 o2 s2 where
    b: "SessionManager_bindPlayer two_sessions 2 7 = (o1, s1)"
       "SessionManager_bindPlayer two_sessions 2 8 = (o2, s2)"
    by (meson surj_pair)
  show ?thesis
    using bindPlayer_exclusive[OF two_sessions_reach g b(1)]
      bindPlayer_exclusive[OF two_sessions_reach g b(2)] b
    by (auto simp: two_sessions_eval SessionManager_isPlayerOnline_def)
qed

lemma rebind_strands_player_parts:
  assumes "sm_reach sm" and "SessionManager_getSession sm i = Some r"
    and "0 < p" "0 < q" "p \<noteq> q" "j \<noteq> i"
    and "\<not> SessionManager_isPlayerOnline sm p" "\<not> SessionManager_isPlayerOnline sm q"
    and "sm' = SessionManager_removeSession
           (snd (SessionManager_bindPlayer (snd (SessionManager_bindPlayer sm i p)) i q)) i"
  shows "SessionManager_isPlayerOnline sm' p"
    and "SessionManager_getSessionByPlayerId sm' p = None"
    and "fst (SessionManager_bindPlayer sm' j p) = False"
proof -
  let ?sm2 = "snd (SessionManager_bindPlayer (snd (SessionManager_bindPlayer sm i p)) i q)"
  have r: "r < length (objects sm)" and s: "sessions sm i = Some r"
    using sm_inv_pointer(1)[OF sm_reach_inv[OF assms(1)]] assms(2)
    by (simp_all add: SessionManager_getSession_def)
  have "playerSessions ?sm2 p = Some i" "sessions ?sm2 = sessions sm" "playerId (deref ?sm2 r) = q"
    using assms(5,7,8) s r
    by (simp_all add: SessionManager_bindPlayer_def SessionManager_isPlayerOnline_def deref_set_object)
  then have t: "playerSessions sm' p = Some i" "sessions sm' i = None"
    using assms(4,5,9) s by (simp_all add: SessionManager_removeSession_def Let_def)
  then show "SessionManager_isPlayerOnline sm' p"
    "SessionManager_getSessionByPlayerId sm' p = None"
    by (simp_all add: SessionManager_isPlayerOnline_def SessionManager_getSessionByPlayerId_def)
  show "fst (SessionManager_bindPlayer sm' j p) = False"
    using t assms(6) by (simp add: SessionManager_bindPlayer_def split: option.splits)
qed

text \<open>
  Binding a session to a second player does not release the first: after
  \<open>bindPlayer s p\<close>, \<open>bindPlayer s q\<close> and \<open>removeSession s\<close>, player
  \<open>p\<close> still counts as online although no session is found for it, and no other session
  can bind \<open>p\<close> any more.
\<close>

theorem rebind_strands_player:
  assumes "sm_reach sm" and "SessionManager_getSession sm i = Some r"
    and "0 < p" "0 < q" "p \<noteq> q" "j \<noteq> i"
    and "\<not> SessionManager_isPlayerOnline sm p" "\<not> SessionManager_isPlayerOnline sm q"
    and "sm' = SessionManager_removeSession
           (snd (SessionManager_bindPlayer (snd (SessionManager_bindPlayer sm i p)) i q)) i"
  shows "(SessionManager_isPlayerOnline sm' p) \<and>
    (SessionManager_getSessionByPlayerId sm' p = None) \<and>
    (fst (SessionManager_bindPlayer sm' j p) = False)"
  using rebind_strands_player_parts[OF assms] by blast

lemma rebind_strands_player_witness:
  "fst (SessionManager_bindPlayer (SessionManager_removeSession
     (snd (SessionManager_bindPlayer (snd (SessionManager_bindPlayer two_sessions 2 8)) 2 9)) 2) 1 8) = False"
  by (rule rebind_strands_player[OF two_sessions_reach, of 2 1, THEN conjunct2, THEN conjunct2])
    (simp_all add: two_sessions_eval SessionManager_getSession_def SessionManager_isPlayerOnline_def)

subsection \<open>The session pool\<close>

lemma SessionPool_preallocate_objects:
  "\<exists>ys. pool_objects (SessionPool_preallocate sp n now) = pool_objects sp @ ys \<and> length ys = n \<and>
     pool (SessionPool_preallocate sp n now) =
       pool sp @ [length (pool_objects sp) ..< length (pool_objects sp) + n]"
proof (induction n arbitrary: sp)
  case 0
  then show ?case by simp
next
  case (Suc n)
  let ?i = "wrap64 (pool_nextId sp + 1)"
  let ?sp = "sp\<lparr>pool_nextId := ?i, pool_objects := pool_objects sp @ [Session_new ?i now],
                pool := pool sp @ [length (pool_objects sp)]\<rparr>"
  obtain ys where "pool_objects (SessionPool_preallocate ?sp n now) = pool_objects ?sp @ ys"
    "length ys = n" "pool (SessionPool_preallocate ?sp n now) =
       pool ?sp @ [length (pool_objects ?sp) ..< length (pool_objects ?sp) + n]"
    using Suc by blast
  then show ?case
    by (simp add: SessionPool_allocate_def Let_def upt_conv_Cons)
qed

definition pool_ok :: "session_pool \<Rightarrow> nat set \<Rightarrow> bool" where
  "pool_ok sp out \<longleftrightarrow> distinct (pool sp) \<and> out \<inter> set (pool sp) = {} \<and>
     (\<forall>r \<in> out \<union> set (pool sp). r < length (pool_objects sp))"

lemma pool_ok_preallocate: "pool_ok sp out \<Longrightarrow> pool_ok (SessionPool_preallocate sp n now) out"
proof -
  assume ok: "pool_ok sp out"
  obtain ys where "pool_objects (SessionPool_preallocate sp n now) = pool_objects sp @ ys"
    "length ys = n" "pool (SessionPool_preallocate sp n now) =
       pool sp @ [length (pool_objects sp) ..< length (pool_objects sp) + n]"
    using SessionPool_preallocate_objects by blast
  then show ?thesis using ok unfolding pool_ok_def
    by (simp add: disjoint_iff ball_Un) (meson leD trans_less_add1)
qed

lemma pool_ok_take:
  assumes "pool_ok sp out" "pool sp \<noteq> []"
  shows "last (pool sp) \<notin> out \<and> pool_ok (sp\<lparr>pool := butlast (pool sp)\<rparr>) (insert (last (pool sp)) out)"
proof -
  obtain rs r where p: "pool sp = rs @ [r]" using assms(2) by (metis append_butlast_last_id)
  show ?thesis using assms(1) by (auto simp: pool_ok_def p)
qed

lemma pool_ok_acquire:
  assumes "pool_ok sp out" "SessionPool_acquire sp now = (r, sp')"
  shows "r \<notin> out \<and> pool_ok sp' (insert r out)"
proof -
  define sp1 where "sp1 = (if pool sp = [] then SessionPool_preallocate sp (pool_capacity sp) now else sp)"
  have ok: "pool_ok sp1 out" using assms(1) by (simp add: sp1_def pool_ok_preallocate)
  have eq: "SessionPool_acquire sp now =
     (if pool sp1 = [] then SessionPool_allocate sp1 now
      else (last (pool sp1), sp1\<lparr>pool := butlast (pool sp1)\<rparr>))"
    by (simp add: SessionPool_acquire_def sp1_def Let_def)
  show ?thesis
  proof (cases "pool sp1 = []")
    case True
    then show ?thesis
      using assms(2) ok unfolding eq by (auto simp: SessionPool_allocate_def Let_def pool_ok_def)
  next
    case False
    then show ?thesis using assms(2) pool_ok_take[OF ok False] unfolding eq by auto
  qed
qed

fun SessionPool_acquire_n :: "session_pool \<Rightarrow> nat \<Rightarrow> int \<Rightarrow> nat list \<times> session_pool" where
  "SessionPool_acquire_n sp 0 now = ([], sp)"
| "SessionPool_acquire_n sp (Suc n) now =
     (let (r, sp1) = SessionPool_acquire sp now; (rs, sp2) = SessionPool_acquire_n sp1 n now
      in (r # rs, sp2))"

lemma pool_ok_acquire_n:
  "pool_ok sp out \<Longrightarrow> SessionPool_acquire_n sp n now = (rs, sp') \<Longrightarrow>
    distinct rs \<and> set rs \<inter> out = {} \<and> pool_ok sp' (set rs \<union> out) \<and> length rs = n"
proof (induction n arbitrary: sp out rs sp')
  case 0
  then show ?case by simp
next
  case (Suc n)
  obtain r sp1 where a: "SessionPool_acquire sp now = (r, sp1)" by (meson surj_pair)
  obtain rs' where b: "SessionPool_acquire_n sp1 n now = (rs', sp')" "rs = r # rs'"
    using Suc.prems(2) a by (auto simp: Let_def split: prod.splits)
  have "r \<notin> out" "pool_ok sp1 (insert r out)" using pool_ok_acquire[OF Suc.prems(1) a] by auto
  then show ?case using Suc.IH[OF _ b(1), of "insert r out"] b(2) by auto
qed

lemma pool_ok_new: "pool_ok (SessionPool_new k now) {}"
  unfolding SessionPool_new_def by (rule pool_ok_preallocate) (simp add: pool_ok_def)

lemma SessionPool_distinct_parts:
  assumes "SessionPool_acquire_n (SessionPool_new k now) n now = (rs, sp)"
  shows "distinct rs" and "length rs = n"
    and "r \<in> set rs \<Longrightarrow> SessionPool_acquire (SessionPool_release sp (Some r)) now' = (r, sp') \<Longrightarrow>
           playerId (pool_objects sp' ! r) = 0 \<and> roleId (pool_objects sp' ! r) = 0 \<and>
           token (pool_objects sp' ! r) = [] \<and> pool sp' = pool sp"
    and "fst (SessionPool_acquire (SessionPool_release sp (Some r)) now') = r"
proof -
  have ok: "distinct rs" "length rs = n" "pool_ok sp (set rs)"
    using pool_ok_acquire_n[OF pool_ok_new assms] by auto
  then show "distinct rs" "length rs = n" by auto
  show "fst (SessionPool_acquire (SessionPool_release sp (Some r)) now') = r"
    by (simp add: SessionPool_acquire_def SessionPool_release_def Let_def)
  assume "r \<in> set rs" "SessionPool_acquire (SessionPool_release sp (Some r)) now' = (r, sp')"
  then show "playerId (pool_objects sp' ! r) = 0 \<and> roleId (pool_objects sp' ! r) = 0 \<and>
           token (pool_objects sp' ! r) = [] \<and> pool sp' = pool sp"
    using ok(3) by (auto simp: SessionPool_acquire_def SessionPool_release_def Let_def pool_ok_def)
qed

text \<open>
  A session pool hands out distinct sessions: however many are acquired from a new pool,
  from the preallocated stock or from refills, no two are the same object; and a session
  released afterwards is the next one handed out, reset to no player, role or token.
\<close>

theorem SessionPool_distinct:
  assumes "SessionPool_acquire_n (SessionPool_new k now) n now = (rs, sp)"
  shows "(distinct rs) \<and>
    (length rs = n) \<and>
    (r \<in> set rs \<longrightarrow> SessionPool_acquire (SessionPool_release sp (Some r)) now' = (r, sp') \<longrightarrow> (playerId (pool_objects sp' ! r) = 0 \<and> roleId (pool_objects sp' ! r) = 0 \<and>
           token (pool_objects sp' ! r) = [] \<and> pool sp' = pool sp)) \<and>
    (fst (SessionPool_acquire (SessionPool_release sp (Some r)) now') = r)"
  using SessionPool_distinct_parts[OF assms] by blast

lemma SessionPool_distinct_witness:
  "distinct (fst (SessionPool_acquire_n (SessionPool_new 2 0) 5 0)) \<and>
   fst (SessionPool_acquire_n (SessionPool_new 2 0) 5 0) = [1, 0, 3, 2, 5]"
proof -
  obtain rs sp where e: "SessionPool_acquire_n (SessionPool_new 2 0) 5 0 = (rs, sp)" by (meson surj_pair)
  have "fst (SessionPool_acquire_n (SessionPool_new 2 0) 5 0) = [1, 0, 3, 2, 5]" by code_simp
  then show ?thesis using SessionPool_distinct(1)[OF e] e by simp
qed

end
