(* ===== verification/Queues.thy ===== *)
theory Queues
  imports Prelude "HOL-Library.Product_Lexorder"
begin

text \<open>
  The monitors of the server: \<^verbatim>\<open>MessageQueue\<close>
  (\<^verbatim>\<open>src/core/message/message_queue.h\<close>), \<^verbatim>\<open>TaskQueue\<close> and
  \<^verbatim>\<open>PriorityTaskQueue\<close> (\<^verbatim>\<open>src/common/thread/task_queue.h\<close>),
  \<^verbatim>\<open>Semaphore\<close> and \<^verbatim>\<open>CountDownLatch\<close>
  (\<^verbatim>\<open>src/common/thread/condition.h\<close>).

  Each keeps its data under one mutex and one condition variable. A critical section is one
  atomic step. The condition variable is two counters: \<open>sleepers\<close>, the threads blocked
  in \<^verbatim>\<open>pthread_cond_wait\<close>, and \<open>woken\<close>, the threads it has released that have
  not yet got the mutex back; a released thread runs the body of its loop again.
\<close>

subsection \<open>Condition variables\<close>

record cond =
  sleepers :: nat
  woken :: nat

definition Condition_new :: cond where "Condition_new = \<lparr>sleepers = 0, woken = 0\<rparr>"

definition Condition_wait :: "cond \<Rightarrow> cond" where
  "Condition_wait c = c\<lparr>sleepers := sleepers c + 1\<rparr>"

definition Condition_notify :: "cond \<Rightarrow> cond" where
  "Condition_notify c =
     (if 0 < sleepers c then \<lparr>sleepers = sleepers c - 1, woken = woken c + 1\<rparr> else c)"

definition Condition_notifyAll :: "cond \<Rightarrow> cond" where
  "Condition_notifyAll c = \<lparr>sleepers = 0, woken = woken c + sleepers c\<rparr>"

text \<open>A sleeper whose time is up leaves; a released thread gets the mutex.\<close>

definition Condition_timeout :: "cond \<Rightarrow> cond" where
  "Condition_timeout c = c\<lparr>sleepers := sleepers c - 1\<rparr>"

definition Condition_resume :: "cond \<Rightarrow> cond" where
  "Condition_resume c = c\<lparr>woken := woken c - 1\<rparr>"

text \<open>
  The deadline of \<^verbatim>\<open>waitFor\<close>: seconds and nanoseconds of the clock plus the
  milliseconds (a \<open>uint32\<close>, so the product wraps at 32 bits before it is added).
\<close>

definition Condition_deadline :: "int \<Rightarrow> int \<Rightarrow> uint32 \<Rightarrow> int \<times> int" where
  "Condition_deadline sec nsec ms =
     (let sec1 = sec + uint (ms div 1000);
          nsec1 = nsec + uint ((ms mod 1000) * 1000000)
      in if 1000000000 \<le> nsec1 then (sec1 + 1, nsec1 - 1000000000) else (sec1, nsec1))"

lemmas cond_defs = Condition_new_def Condition_wait_def Condition_notify_def
  Condition_notifyAll_def Condition_timeout_def Condition_resume_def

subsection \<open>What a monitor must do not to lose a wake-up\<close>

text \<open>
  \<open>avail s\<close> counts what consumers wait for, \<open>cv s\<close> is the condition variable,
  \<open>closed s\<close> says that consumers no longer wait. A producing step adds at most one and
  notifies; a consuming step, run by a new thread or by a released one, takes one or, when
  there is none, goes to sleep.
\<close>

locale monitor =
  fixes avail :: "'s \<Rightarrow> nat" and cv :: "'s \<Rightarrow> cond" and closed :: "'s \<Rightarrow> bool"
    and produce :: "'s \<Rightarrow> 's" and consume :: "'s \<Rightarrow> 's" and set_cv :: "cond \<Rightarrow> 's \<Rightarrow> 's"
  assumes produce_laws: "avail (produce s) \<le> Suc (avail s)" "cv (produce s) = Condition_notify (cv s)"
      "closed (produce s) = closed s"
    and consume_closed: "closed s \<Longrightarrow> consume s = s"
    and consume_none: "\<not> closed s \<Longrightarrow> avail s = 0 \<Longrightarrow> consume s = set_cv (Condition_wait (cv s)) s"
    and consume_some: "\<not> closed s \<Longrightarrow> 0 < avail s \<Longrightarrow>
      avail (consume s) = avail s - 1 \<and> cv (consume s) = cv s \<and> closed (consume s) = closed s"
    and set_cv_laws: "cv (set_cv c s) = c" "avail (set_cv c s) = avail s"
      "closed (set_cv c s) = closed s"
begin

definition wakeup_ok :: "'s \<Rightarrow> bool" where
  "wakeup_ok s \<longleftrightarrow> (0 < sleepers (cv s) \<longrightarrow> \<not> closed s \<and> avail s \<le> woken (cv s))"

lemma produce_keeps: "wakeup_ok s \<Longrightarrow> wakeup_ok (produce s)"
  using produce_laws[of s] by (auto simp: wakeup_ok_def Condition_notify_def)

lemma consume_cases:
  obtains "closed s" "consume s = s"
    | "\<not> closed s" "avail s = 0" "consume s = set_cv (Condition_wait (cv s)) s"
    | "\<not> closed s" "0 < avail s" "avail (consume s) = avail s - 1" "cv (consume s) = cv s"
      "closed (consume s) = closed s"
  using consume_closed[of s] consume_none[of s] consume_some[of s] by blast

lemma consume_keeps: "wakeup_ok s \<Longrightarrow> wakeup_ok (consume s)"
  by (cases s rule: consume_cases) (auto simp: wakeup_ok_def set_cv_laws Condition_wait_def)

text \<open>A released thread gets the mutex and runs the consuming step again.\<close>

lemma resume_keeps:
  assumes "wakeup_ok s" "0 < woken (cv s)"
  shows "wakeup_ok (consume (set_cv (Condition_resume (cv s)) s))"
  using assms
  by (cases "set_cv (Condition_resume (cv s)) s" rule: consume_cases)
    (auto simp: wakeup_ok_def set_cv_laws Condition_wait_def Condition_resume_def)

lemma set_cv_keeps:
  "wakeup_ok s \<Longrightarrow> wakeup_ok (set_cv (Condition_notify (cv s)) s)"
  "wakeup_ok s \<Longrightarrow> wakeup_ok (set_cv (Condition_timeout (cv s)) s)"
  "wakeup_ok (set_cv (Condition_notifyAll (cv s)) s)"
  by (auto simp: wakeup_ok_def set_cv_laws cond_defs)

end

text \<open>A monitor that can be stopped and reopened empty, as the queues can.\<close>

locale stoppable_monitor = monitor avail cv closed produce consume set_cv
  for avail :: "'s \<Rightarrow> nat" and cv :: "'s \<Rightarrow> cond" and closed :: "'s \<Rightarrow> bool"
    and produce :: "'s \<Rightarrow> 's" and consume :: "'s \<Rightarrow> 's" and set_cv :: "cond \<Rightarrow> 's \<Rightarrow> 's" +
  fixes stop :: "'s \<Rightarrow> 's" and reset :: "'s \<Rightarrow> 's"
  assumes stop_law: "cv (stop s) = Condition_notifyAll (cv s)"
    and reset_laws: "cv (reset s) = cv s" "\<not> closed (reset s)" "avail (reset s) = 0"
begin

lemma stop_keeps: "wakeup_ok (stop s)"
  by (simp add: wakeup_ok_def stop_law Condition_notifyAll_def)

lemma reset_keeps: "wakeup_ok (reset s)"
  by (simp add: wakeup_ok_def reset_laws)

end

subsection \<open>\<^verbatim>\<open>MessageQueue\<close> and \<^verbatim>\<open>TaskQueue\<close>\<close>

record message_item =
  connId :: int
  item_msgId :: uint32
  message :: "nat option"
  timestamp :: int

definition MessageItem_new :: message_item where
  "MessageItem_new = \<lparr>connId = 0, item_msgId = 1000, message = None, timestamp = 0\<rparr>"

record 'a monitor_queue =
  q_items :: "'a list"
  q_stopped :: bool
  notEmpty :: cond

definition queue_new :: "'a monitor_queue" where
  "queue_new = \<lparr>q_items = [], q_stopped = False, notEmpty = Condition_new\<rparr>"

text \<open>The outcome of a pop: the thread sleeps, or it returns with or without an item.\<close>

datatype 'a pop_outcome = Sleeps | Returns "'a option"

definition MessageQueue_push :: "'a \<Rightarrow> 'a monitor_queue \<Rightarrow> 'a monitor_queue" where
  "MessageQueue_push x q = q\<lparr>q_items := q_items q @ [x], notEmpty := Condition_notify (notEmpty q)\<rparr>"

definition MessageQueue_pop :: "'a monitor_queue \<Rightarrow> 'a pop_outcome \<times> 'a monitor_queue" where
  "MessageQueue_pop q =
     (if q_items q = [] \<and> \<not> q_stopped q
      then (Sleeps, q\<lparr>notEmpty := Condition_wait (notEmpty q)\<rparr>)
      else if q_stopped q \<or> q_items q = [] then (Returns None, q)
      else (Returns (Some (hd (q_items q))), q\<lparr>q_items := tl (q_items q)\<rparr>))"

definition MessageQueue_popAll :: "'a monitor_queue \<Rightarrow> 'a list \<times> 'a monitor_queue" where
  "MessageQueue_popAll q = (q_items q, q\<lparr>q_items := []\<rparr>)"

definition MessageQueue_empty :: "'a monitor_queue \<Rightarrow> bool" where
  "MessageQueue_empty q \<longleftrightarrow> q_items q = []"

definition MessageQueue_size :: "'a monitor_queue \<Rightarrow> nat" where
  "MessageQueue_size q = length (q_items q)"

definition MessageQueue_stop :: "'a monitor_queue \<Rightarrow> 'a monitor_queue" where
  "MessageQueue_stop q = q\<lparr>q_stopped := True, notEmpty := Condition_notifyAll (notEmpty q)\<rparr>"

definition MessageQueue_reset :: "'a monitor_queue \<Rightarrow> 'a monitor_queue" where
  "MessageQueue_reset q = q\<lparr>q_stopped := False, q_items := []\<rparr>"

definition TaskQueue_push :: "'a \<Rightarrow> 'a monitor_queue \<Rightarrow> 'a monitor_queue" where
  "TaskQueue_push x q = q\<lparr>q_items := q_items q @ [x], notEmpty := Condition_notify (notEmpty q)\<rparr>"

definition TaskQueue_tryPush :: "'a \<Rightarrow> 'a monitor_queue \<Rightarrow> 'a monitor_queue" where
  "TaskQueue_tryPush x q = q\<lparr>q_items := q_items q @ [x], notEmpty := Condition_notify (notEmpty q)\<rparr>"

definition TaskQueue_pop :: "'a monitor_queue \<Rightarrow> 'a pop_outcome \<times> 'a monitor_queue" where
  "TaskQueue_pop q =
     (if q_items q = [] \<and> \<not> q_stopped q
      then (Sleeps, q\<lparr>notEmpty := Condition_wait (notEmpty q)\<rparr>)
      else if q_stopped q then (Returns None, q)
      else (Returns (Some (hd (q_items q))), q\<lparr>q_items := tl (q_items q)\<rparr>))"

definition TaskQueue_tryPop :: "'a monitor_queue \<Rightarrow> 'a option \<times> 'a monitor_queue" where
  "TaskQueue_tryPop q =
     (if q_items q = [] then (None, q)
      else (Some (hd (q_items q)), q\<lparr>q_items := tl (q_items q)\<rparr>))"

definition TaskQueue_popFor :: "'a monitor_queue \<Rightarrow> 'a pop_outcome \<times> 'a monitor_queue" where
  "TaskQueue_popFor q =
     (if q_items q = [] \<and> \<not> q_stopped q
      then (Sleeps, q\<lparr>notEmpty := Condition_wait (notEmpty q)\<rparr>)
      else if q_stopped q \<or> q_items q = [] then (Returns None, q)
      else (Returns (Some (hd (q_items q))), q\<lparr>q_items := tl (q_items q)\<rparr>))"

definition TaskQueue_popAll :: "'a monitor_queue \<Rightarrow> 'a list \<times> 'a monitor_queue" where
  "TaskQueue_popAll q = (q_items q, q\<lparr>q_items := []\<rparr>)"

definition TaskQueue_empty :: "'a monitor_queue \<Rightarrow> bool" where
  "TaskQueue_empty q \<longleftrightarrow> q_items q = []"

definition TaskQueue_size :: "'a monitor_queue \<Rightarrow> nat" where
  "TaskQueue_size q = length (q_items q)"

definition TaskQueue_stop :: "'a monitor_queue \<Rightarrow> 'a monitor_queue" where
  "TaskQueue_stop q = q\<lparr>q_stopped := True, notEmpty := Condition_notifyAll (notEmpty q)\<rparr>"

definition TaskQueue_reset :: "'a monitor_queue \<Rightarrow> 'a monitor_queue" where
  "TaskQueue_reset q = q\<lparr>q_stopped := False, q_items := []\<rparr>"

definition TaskQueue_stopped :: "'a monitor_queue \<Rightarrow> bool" where
  "TaskQueue_stopped q = q_stopped q"

lemmas queue_ops =
  MessageQueue_push_def MessageQueue_pop_def MessageQueue_popAll_def MessageQueue_stop_def
  MessageQueue_reset_def TaskQueue_push_def TaskQueue_tryPush_def TaskQueue_pop_def
  TaskQueue_tryPop_def TaskQueue_popFor_def TaskQueue_popAll_def TaskQueue_stop_def
  TaskQueue_reset_def

interpretation mq: stoppable_monitor MessageQueue_size notEmpty q_stopped "MessageQueue_push x"
    "\<lambda>q. snd (MessageQueue_pop q)" "\<lambda>c q. q\<lparr>notEmpty := c\<rparr>" MessageQueue_stop MessageQueue_reset
  for x :: 'a
  by unfold_locales (auto simp: queue_ops MessageQueue_size_def)

interpretation tq: stoppable_monitor TaskQueue_size notEmpty q_stopped "TaskQueue_push x"
    "\<lambda>q. snd (TaskQueue_pop q)" "\<lambda>c q. q\<lparr>notEmpty := c\<rparr>" TaskQueue_stop TaskQueue_reset
  for x :: 'a
  by unfold_locales (auto simp: queue_ops TaskQueue_size_def)

text \<open>
  Runs of a message queue: the messages pushed (and not dropped by \<open>reset\<close>), the messages
  handed out, the state. \<open>pop\<close> is entered by a new thread or run again by a released one;
  a sleeping thread may also time out or be released without a signal.
\<close>

fun outcome_items :: "'a pop_outcome \<Rightarrow> 'a list" where
  "outcome_items (Returns (Some x)) = [x]"
| "outcome_items _ = []"

inductive mq_run :: "'a list \<Rightarrow> 'a list \<Rightarrow> 'a monitor_queue \<Rightarrow> bool" where
  mq_new: "mq_run [] [] queue_new"
| mq_push: "mq_run ps ds q \<Longrightarrow> mq_run (ps @ [x]) ds (MessageQueue_push x q)"
| mq_pop: "mq_run ps ds q \<Longrightarrow> MessageQueue_pop q = (res, q') \<Longrightarrow> mq_run ps (ds @ outcome_items res) q'"
| mq_resume: "mq_run ps ds q \<Longrightarrow> 0 < woken (notEmpty q) \<Longrightarrow>
    MessageQueue_pop (q\<lparr>notEmpty := Condition_resume (notEmpty q)\<rparr>) = (res, q') \<Longrightarrow>
    mq_run ps (ds @ outcome_items res) q'"
| mq_timeout: "mq_run ps ds q \<Longrightarrow> mq_run ps ds (q\<lparr>notEmpty := Condition_timeout (notEmpty q)\<rparr>)"
| mq_spurious: "mq_run ps ds q \<Longrightarrow> mq_run ps ds (q\<lparr>notEmpty := Condition_notify (notEmpty q)\<rparr>)"
| mq_popAll: "mq_run ps ds q \<Longrightarrow> MessageQueue_popAll q = (xs, q') \<Longrightarrow> mq_run ps (ds @ xs) q'"
| mq_stop: "mq_run ps ds q \<Longrightarrow> mq_run ps ds (MessageQueue_stop q)"
| mq_reset: "mq_run ps ds q \<Longrightarrow> mq_run ds ds (MessageQueue_reset q)"

lemma mq_pop_items:
  "MessageQueue_pop q = (res, q') \<Longrightarrow> outcome_items res @ q_items q' = q_items q"
  by (auto simp: MessageQueue_pop_def split: if_splits)

lemma mq_run_fifo: "mq_run ps ds q \<Longrightarrow> ds @ q_items q = ps"
proof (induction rule: mq_run.induct)
  case (mq_resume ps ds q res q')
  then show ?case using mq_pop_items[OF mq_resume.hyps(3)] by simp
next
  case (mq_pop ps ds q res q')
  then show ?case using mq_pop_items[OF mq_pop.hyps(2)] by simp
qed (auto simp: queue_ops queue_new_def)

lemma mq_run_wakeup: "mq_run ps ds q \<Longrightarrow> mq.wakeup_ok q"
proof (induction rule: mq_run.induct)
  case mq_new
  then show ?case by (simp add: mq.wakeup_ok_def queue_new_def Condition_new_def)
next
  case (mq_pop ps ds q res q')
  then show ?case using mq.consume_keeps[of q] by simp
next
  case (mq_resume ps ds q res q')
  then show ?case using mq.resume_keeps[of q] by simp
next
  case (mq_popAll ps ds q xs q')
  then show ?case unfolding mq.wakeup_ok_def
    by (auto simp: MessageQueue_popAll_def MessageQueue_size_def)
qed (simp_all add: mq.produce_keeps mq.set_cv_keeps mq.stop_keeps mq.reset_keeps)

lemma MessageQueue_fifo_no_lost_wakeup_parts:
  assumes "mq_run ps ds q"
  shows "ds @ q_items q = ps"
    and "0 < sleepers (notEmpty q) \<Longrightarrow> \<not> q_stopped q \<and> MessageQueue_size q \<le> woken (notEmpty q)"
  using mq_run_fifo[OF assms] mq_run_wakeup[OF assms] by (auto simp: mq.wakeup_ok_def)

text \<open>
  C5: Whatever producers and consumers do, a message queue hands messages out in the order
  they were pushed, each once, and holds exactly those not yet handed out; and no wake-up is
  lost: while a consumer sleeps, the queue is not stopped and every message in it has a
  released consumer on its way.
\<close>

theorem MessageQueue_fifo_no_lost_wakeup:
  assumes "mq_run ps ds q"
  shows "(ds @ q_items q = ps) \<and>
    (0 < sleepers (notEmpty q) \<longrightarrow> (\<not> q_stopped q \<and> MessageQueue_size q \<le> woken (notEmpty q)))"
  using MessageQueue_fifo_no_lost_wakeup_parts[OF assms] by blast

lemma MessageQueue_fifo_no_lost_wakeup_witness:
  "let q1 = snd (MessageQueue_pop queue_new); q2 = snd (MessageQueue_pop q1);
       q3 = MessageQueue_push (7::nat) q2
   in q_items q3 = [7] \<and> 0 < sleepers (notEmpty q3) \<and> MessageQueue_size q3 \<le> woken (notEmpty q3)"
proof -
  define q1 where "q1 = snd (MessageQueue_pop (queue_new :: nat monitor_queue))"
  define q2 where "q2 = snd (MessageQueue_pop q1)"
  have p: "MessageQueue_pop queue_new = (Sleeps, q1)" "MessageQueue_pop q1 = (Sleeps, q2)"
    by (simp_all add: q1_def q2_def MessageQueue_pop_def queue_new_def)
  have r: "mq_run [7] [] (MessageQueue_push 7 q2)"
    using mq_push[OF mq_pop[OF mq_pop[OF mq_new p(1)] p(2)], of 7] by simp
  have s: "0 < sleepers (notEmpty (MessageQueue_push 7 q2))"
    by (simp add: q1_def q2_def queue_ops queue_new_def cond_defs)
  show ?thesis
    using MessageQueue_fifo_no_lost_wakeup[OF r] s unfolding q1_def[symmetric] Let_def q2_def[symmetric]
    by simp
qed

subsection \<open>\<^verbatim>\<open>PriorityTaskQueue\<close>\<close>

text \<open>
  The elements of \<^verbatim>\<open>std::priority_queue\<close> in the order they were pushed;
  \<open>top\<close> is an element that no other is greater than in the code's
  \<^verbatim>\<open>operator<\<close>.
\<close>

record 'a priority_task =
  priority :: int
  sequence :: nat
  ptask :: 'a

definition PriorityTask_less :: "'a priority_task \<Rightarrow> 'a priority_task \<Rightarrow> bool" where
  "PriorityTask_less a b \<longleftrightarrow>
     (if priority a \<noteq> priority b then priority a < priority b else sequence b < sequence a)"

record 'a priority_task_queue =
  p_tasks :: "'a priority_task list"
  nextSequence :: nat
  p_stopped :: bool
  p_notEmpty :: cond

definition priority_queue_new :: "'a priority_task_queue" where
  "priority_queue_new =
     \<lparr>p_tasks = [], nextSequence = 0, p_stopped = False, p_notEmpty = Condition_new\<rparr>"

fun heap_top :: "'a priority_task \<Rightarrow> 'a priority_task list \<Rightarrow> 'a priority_task" where
  "heap_top t [] = t"
| "heap_top t (u # us) = heap_top (if PriorityTask_less t u then u else t) us"

definition PriorityTaskQueue_push ::
    "'a \<Rightarrow> int \<Rightarrow> 'a priority_task_queue \<Rightarrow> 'a priority_task_queue" where
  "PriorityTaskQueue_push t p q =
     q\<lparr>p_tasks := p_tasks q @ [\<lparr>priority = p, sequence = nextSequence q, ptask = t\<rparr>],
       nextSequence := (nextSequence q + 1) mod 2 ^ 64,
       p_notEmpty := Condition_notify (p_notEmpty q)\<rparr>"

definition PriorityTaskQueue_pop ::
    "'a priority_task_queue \<Rightarrow> 'a pop_outcome \<times> 'a priority_task_queue" where
  "PriorityTaskQueue_pop q =
     (if p_tasks q = [] \<and> \<not> p_stopped q
      then (Sleeps, q\<lparr>p_notEmpty := Condition_wait (p_notEmpty q)\<rparr>)
      else if p_stopped q then (Returns None, q)
      else (let t = heap_top (hd (p_tasks q)) (tl (p_tasks q))
            in (Returns (Some (ptask t)), q\<lparr>p_tasks := remove1 t (p_tasks q)\<rparr>)))"

definition PriorityTaskQueue_empty :: "'a priority_task_queue \<Rightarrow> bool" where
  "PriorityTaskQueue_empty q \<longleftrightarrow> p_tasks q = []"

definition PriorityTaskQueue_size :: "'a priority_task_queue \<Rightarrow> nat" where
  "PriorityTaskQueue_size q = length (p_tasks q)"

definition PriorityTaskQueue_stop :: "'a priority_task_queue \<Rightarrow> 'a priority_task_queue" where
  "PriorityTaskQueue_stop q = q\<lparr>p_stopped := True, p_notEmpty := Condition_notifyAll (p_notEmpty q)\<rparr>"

fun PriorityTaskQueue_push_all :: "('a \<times> int) list \<Rightarrow> 'a priority_task_queue \<Rightarrow> 'a priority_task_queue" where
  "PriorityTaskQueue_push_all [] q = q"
| "PriorityTaskQueue_push_all ((t, p) # xs) q =
     PriorityTaskQueue_push_all xs (PriorityTaskQueue_push t p q)"

fun PriorityTaskQueue_drain :: "nat \<Rightarrow> 'a priority_task_queue \<Rightarrow> 'a list" where
  "PriorityTaskQueue_drain 0 q = []"
| "PriorityTaskQueue_drain (Suc n) q =
     (let (res, q') = PriorityTaskQueue_pop q in outcome_items res @ PriorityTaskQueue_drain n q')"

text \<open>The code's order on distinct sequence numbers is the lexicographic order of this key.\<close>

definition task_key :: "'a priority_task \<Rightarrow> int \<times> nat" where
  "task_key t = (- priority t, sequence t)"

lemma PriorityTask_less_key: "PriorityTask_less a b \<longleftrightarrow> task_key b < task_key a"
  by (auto simp: PriorityTask_less_def task_key_def)

lemma heap_top_min: "heap_top t us \<in> set (t # us) \<and> (\<forall>u \<in> set (t # us). task_key (heap_top t us) \<le> task_key u)"
  by (induction t us rule: heap_top.induct) (auto simp: PriorityTask_less_key)

lemma sorted_key_first:
  assumes "t \<in> set xs" "\<forall>u \<in> set xs. task_key t \<le> task_key u" "inj_on task_key (set xs)"
  shows "sort_key task_key xs = t # sort_key task_key (remove1 t xs)"
  using assms
proof (induction xs)
  case (Cons x xs)
  show ?case
  proof (cases "x = t")
    case True
    then show ?thesis using Cons.prems(2) by (simp add: insort_is_Cons)
  next
    case False
    then have "\<not> task_key x \<le> task_key t"
      using Cons.prems inj_onD[OF Cons.prems(3), of t x] by (metis antisym list.set_intros(1))
    then show ?thesis using False Cons by (simp add: inj_on_insert)
  qed
qed simp

lemma drain_sorted:
  assumes "inj_on task_key (set (p_tasks q))" "distinct (p_tasks q)" "\<not> p_stopped q"
  shows "PriorityTaskQueue_drain (length (p_tasks q)) q = map ptask (sort_key task_key (p_tasks q))"
  using assms
proof (induction "length (p_tasks q)" arbitrary: q)
  case 0
  then show ?case by simp
next
  case (Suc n)
  obtain t us where us: "p_tasks q = t # us" using Suc.hyps(2) by (cases "p_tasks q") auto
  let ?t = "heap_top t us"
  let ?q = "q\<lparr>p_tasks := remove1 ?t (p_tasks q)\<rparr>"
  have t: "?t \<in> set (p_tasks q)" "\<forall>u \<in> set (p_tasks q). task_key ?t \<le> task_key u"
    using heap_top_min[of t us] us by auto
  have "n = length (p_tasks ?q)" using Suc.hyps(2) t(1) by (simp add: length_remove1)
  moreover have "inj_on task_key (set (p_tasks ?q))"
    using Suc.prems(1,2) by (auto simp: inj_on_def)
  ultimately have "PriorityTaskQueue_drain n ?q = map ptask (sort_key task_key (p_tasks ?q))"
    using Suc.hyps(1)[of ?q] Suc.prems by simp
  moreover have "PriorityTaskQueue_pop q = (Returns (Some (ptask ?t)), ?q)"
    using us Suc.prems(3) by (simp add: PriorityTaskQueue_pop_def Let_def)
  ultimately show ?case
    using sorted_key_first[OF t Suc.prems(1)] Suc.hyps(2)[symmetric] by simp
qed

lemma push_all_tasks:
  assumes "nextSequence q + length xs \<le> 2 ^ 64"
  shows "p_tasks (PriorityTaskQueue_push_all xs q) = p_tasks q @
           map (\<lambda>(i, t, p). \<lparr>priority = p, sequence = i, ptask = t\<rparr>) (List.enumerate (nextSequence q) xs) \<and>
         p_stopped (PriorityTaskQueue_push_all xs q) = p_stopped q"
  using assms
proof (induction xs arbitrary: q)
  case (Cons x xs)
  obtain t p where x: "x = (t, p)" by (cases x)
  show ?case
  proof (cases "xs = []")
    case True
    then show ?thesis by (simp add: x PriorityTaskQueue_push_def)
  next
    case False
    then have "nextSequence q + 1 < 2 ^ 64"
      using Cons.prems by (cases xs) auto
    then have "nextSequence (PriorityTaskQueue_push t p q) = nextSequence q + 1"
      by (simp add: PriorityTaskQueue_push_def)
    then show ?thesis using Cons.IH[of "PriorityTaskQueue_push t p q"] Cons.prems
      by (simp add: x PriorityTaskQueue_push_def)
  qed
qed simp

text \<open>Sorting by a key refined with increasing sequence numbers is the stable sort.\<close>

lemma stable_sort_enumerate:
  "map snd (sort_key (\<lambda>(i, x). (f x, i)) (List.enumerate n xs)) = sort_key f xs"
proof (induction xs arbitrary: n)
  case (Cons x xs)
  have "map snd (insort_key (\<lambda>(i, x). (f x, i)) (n, x) ys) = insort_key f x (map snd ys)"
    if "\<forall>y \<in> set ys. n < fst y" for ys
    using that by (induction ys) auto
  moreover have "\<forall>y \<in> set (sort_key (\<lambda>(i, x). (f x, i)) (List.enumerate (Suc n) xs)). n < fst y"
    by (auto simp: in_set_enumerate_eq)
  ultimately show ?case using Cons by simp
qed simp

lemma sort_key_map: "sort_key f (map g xs) = map g (sort_key (f \<circ> g) xs)"
proof (induction xs)
  case (Cons x xs)
  have "insort_key f (g x) (map g ys) = map g (insort_key (f \<circ> g) x ys)" for ys
    by (induction ys) auto
  then show ?case using Cons by (simp add: comp_def)
qed simp

text \<open>
  C25: Tasks pushed on a priority queue come out by falling priority, and those of equal
  priority in the order they were pushed: draining the queue is the stable sort of what was
  pushed, for as many pushes as the 64-bit sequence counter can number.
\<close>

theorem PriorityTaskQueue_stable_order:
  assumes "length xs \<le> 2 ^ 64"
  shows "PriorityTaskQueue_drain (length xs) (PriorityTaskQueue_push_all xs priority_queue_new) =
           map fst (sort_key (\<lambda>(t, p). - p) xs)"
proof -
  let ?q = "PriorityTaskQueue_push_all xs priority_queue_new"
  let ?mk = "\<lambda>(i, t, p). \<lparr>priority = p, sequence = i, ptask = t\<rparr>"
  have q: "p_tasks ?q = map ?mk (List.enumerate 0 xs)" "\<not> p_stopped ?q"
    using push_all_tasks[of priority_queue_new xs] assms by (simp_all add: priority_queue_new_def)
  have "map sequence (p_tasks ?q) = map fst (List.enumerate 0 xs)"
    by (simp add: q(1) comp_def case_prod_beta)
  then have "distinct (map sequence (p_tasks ?q))" by simp
  then have d: "distinct (p_tasks ?q)" "inj_on task_key (set (p_tasks ?q))"
    by (auto simp: distinct_map inj_on_def task_key_def)
  have k: "task_key \<circ> ?mk = (\<lambda>(i, x). ((\<lambda>(t, p). - p) x, i))"
    by (auto simp: task_key_def)
  have "PriorityTaskQueue_drain (length xs) ?q = map ptask (sort_key task_key (p_tasks ?q))"
    using drain_sorted[OF d(2,1) q(2)] q(1) by simp
  also have "\<dots> = map (fst \<circ> snd) (sort_key (\<lambda>(i, x). ((\<lambda>(t, p). - p) x, i)) (List.enumerate 0 xs))"
    unfolding q(1) sort_key_map k by (simp add: case_prod_beta comp_def)
  also have "\<dots> = map fst (sort_key (\<lambda>(t, p). - p) xs)"
    using stable_sort_enumerate[of "\<lambda>(t, p). - p" 0 xs] by (metis map_map)
  finally show ?thesis .
qed

lemma PriorityTaskQueue_stable_order_witness:
  "PriorityTaskQueue_drain 3 (PriorityTaskQueue_push_all [(10::nat, 1), (20, 5), (30, 1)] priority_queue_new)
     = [20, 10, 30]"
proof -
  let ?xs = "[(10::nat, 1::int), (20, 5), (30, 1)]"
  have d: "length ?xs \<le> 2 ^ 64" by simp
  have l: "3 = length ?xs" by simp
  have "map fst (sort_key (\<lambda>(t, p). - p) ?xs) = [20, 10, 30]" by simp
  then show ?thesis unfolding l by (rule trans[OF PriorityTaskQueue_stable_order[OF d]])
qed

subsection \<open>\<^verbatim>\<open>Semaphore\<close> and \<^verbatim>\<open>CountDownLatch\<close>\<close>

record semaphore =
  sem_count :: nat
  sem_cond :: cond

definition Semaphore_new :: "nat \<Rightarrow> semaphore" where
  "Semaphore_new n = \<lparr>sem_count = n, sem_cond = Condition_new\<rparr>"

text \<open>True: the thread has the token; False: it sleeps.\<close>

definition Semaphore_wait :: "semaphore \<Rightarrow> bool \<times> semaphore" where
  "Semaphore_wait s =
     (if sem_count s = 0 then (False, s\<lparr>sem_cond := Condition_wait (sem_cond s)\<rparr>)
      else (True, s\<lparr>sem_count := sem_count s - 1\<rparr>))"

definition Semaphore_tryWait :: "semaphore \<Rightarrow> bool \<times> semaphore" where
  "Semaphore_tryWait s =
     (if 0 < sem_count s then (True, s\<lparr>sem_count := sem_count s - 1\<rparr>) else (False, s))"

definition Semaphore_post :: "semaphore \<Rightarrow> semaphore" where
  "Semaphore_post s =
     s\<lparr>sem_count := (sem_count s + 1) mod 2 ^ 32, sem_cond := Condition_notify (sem_cond s)\<rparr>"

text \<open>
  A timed wait when its thread has the mutex back: \<open>timed_out\<close> is the answer of the condition
  variable, and a time-out returns without another look at the count. \<open>None\<close>: it sleeps again.
\<close>

definition Semaphore_waitFor :: "bool \<Rightarrow> semaphore \<Rightarrow> bool option \<times> semaphore" where
  "Semaphore_waitFor timed_out s =
     (if timed_out then (Some False, s\<lparr>sem_cond := Condition_timeout (sem_cond s)\<rparr>)
      else (let (got, s) = Semaphore_wait (s\<lparr>sem_cond := Condition_resume (sem_cond s)\<rparr>)
            in (if got then Some True else None, s)))"

definition Semaphore_getCount :: "semaphore \<Rightarrow> nat" where
  "Semaphore_getCount s = sem_count s"

interpretation sem: monitor sem_count sem_cond "\<lambda>_. False" Semaphore_post
    "\<lambda>s. snd (Semaphore_wait s)" "\<lambda>c s. s\<lparr>sem_cond := c\<rparr>"
  by unfold_locales (auto simp: Semaphore_post_def Semaphore_wait_def)

text \<open>Runs of a semaphore: tokens taken, tokens posted, the state.\<close>

inductive sem_run :: "nat \<Rightarrow> nat \<Rightarrow> nat \<Rightarrow> semaphore \<Rightarrow> bool" for n where
  sem_new: "sem_run n 0 0 (Semaphore_new n)"
| sem_wait: "sem_run n a p s \<Longrightarrow> Semaphore_wait s = (got, s') \<Longrightarrow> sem_run n (a + of_bool got) p s'"
| sem_resume: "sem_run n a p s \<Longrightarrow> 0 < woken (sem_cond s) \<Longrightarrow>
    Semaphore_wait (s\<lparr>sem_cond := Condition_resume (sem_cond s)\<rparr>) = (got, s') \<Longrightarrow>
    sem_run n (a + of_bool got) p s'"
| sem_tryWait: "sem_run n a p s \<Longrightarrow> Semaphore_tryWait s = (got, s') \<Longrightarrow>
    sem_run n (a + of_bool got) p s'"
| sem_timeout: "sem_run n a p s \<Longrightarrow> sem_run n a p (s\<lparr>sem_cond := Condition_timeout (sem_cond s)\<rparr>)"
| sem_spurious: "sem_run n a p s \<Longrightarrow> sem_run n a p (s\<lparr>sem_cond := Condition_notify (sem_cond s)\<rparr>)"
| sem_post: "sem_run n a p s \<Longrightarrow> sem_run n a (p + 1) (Semaphore_post s)"

text \<open>A timed wait is one of the steps of a run; it takes a token exactly when it answers true.\<close>

lemma sem_waitFor:
  assumes "sem_run n a p s" "timed_out \<or> 0 < woken (sem_cond s)" "Semaphore_waitFor timed_out s = (r, s')"
  shows "sem_run n (a + of_bool (r = Some True)) p s'"
proof (cases timed_out)
  case True
  then show ?thesis using assms sem_timeout[OF assms(1)] by (auto simp: Semaphore_waitFor_def)
next
  case False
  obtain got s1 where w: "Semaphore_wait (s\<lparr>sem_cond := Condition_resume (sem_cond s)\<rparr>) = (got, s1)" by fastforce
  then show ?thesis using assms False sem_resume[OF assms(1) _ w] by (cases got) (auto simp: Semaphore_waitFor_def)
qed

lemma sem_run_tokens:
  "sem_run n a p s \<Longrightarrow> n + p < 2 ^ 32 \<Longrightarrow> sem_count s + a = n + p"
  by (induction rule: sem_run.induct)
    (auto simp: Semaphore_new_def Semaphore_wait_def Semaphore_tryWait_def Semaphore_post_def
      split: if_splits)

lemma sem_run_wakeup: "sem_run n a p s \<Longrightarrow> sem.wakeup_ok s"
proof (induction rule: sem_run.induct)
  case sem_new
  then show ?case by (simp add: sem.wakeup_ok_def Semaphore_new_def Condition_new_def)
next
  case (sem_wait a p s got s')
  then show ?case using sem.consume_keeps[of s] by simp
next
  case (sem_resume a p s got s')
  then show ?case using sem.resume_keeps[of s] by simp
next
  case (sem_tryWait a p s got s')
  then show ?case by (auto simp: sem.wakeup_ok_def Semaphore_tryWait_def split: if_splits)
qed (simp_all add: sem.produce_keeps sem.set_cv_keeps)

lemma Semaphore_conserves_tokens_parts:
  assumes "sem_run n taken posted s" and "n + posted < 2 ^ 32"
  shows "Semaphore_getCount s + taken = n + posted"
    and "0 < sleepers (sem_cond s) \<Longrightarrow> Semaphore_getCount s \<le> woken (sem_cond s)"
  using sem_run_tokens[OF assms] sem_run_wakeup[OF assms(1)]
  by (auto simp: sem.wakeup_ok_def Semaphore_getCount_def)

text \<open>
  A semaphore neither loses nor invents tokens: in every run of waits, timed waits,
  posts and spurious releases, the tokens left plus the tokens taken are the initial ones plus
  the posted ones, and a thread sleeps only while every token left has a released thread on
  its way to it.
\<close>

theorem Semaphore_conserves_tokens:
  assumes "sem_run n taken posted s" and "n + posted < 2 ^ 32"
  shows "(Semaphore_getCount s + taken = n + posted) \<and>
    (0 < sleepers (sem_cond s) \<longrightarrow> Semaphore_getCount s \<le> woken (sem_cond s))"
  using Semaphore_conserves_tokens_parts[OF assms] by blast

lemma Semaphore_conserves_tokens_witness:
  "let s = Semaphore_post (snd (Semaphore_wait (snd (Semaphore_wait (snd (Semaphore_wait (Semaphore_new 1)))))))
   in Semaphore_getCount s + 1 = 1 + 1 \<and> 0 < sleepers (sem_cond s) \<and> Semaphore_getCount s \<le> woken (sem_cond s)"
proof -
  define s1 where "s1 = snd (Semaphore_wait (Semaphore_new 1))"
  define s2 where "s2 = snd (Semaphore_wait s1)"
  define s3 where "s3 = snd (Semaphore_wait s2)"
  have w: "Semaphore_wait (Semaphore_new 1) = (True, s1)" "Semaphore_wait s1 = (False, s2)"
    "Semaphore_wait s2 = (False, s3)"
    by (simp_all add: s1_def s2_def s3_def Semaphore_wait_def Semaphore_new_def)
  have r: "sem_run 1 1 1 (Semaphore_post s3)"
    using sem_post[OF sem_wait[OF sem_wait[OF sem_wait[OF sem_new w(1)] w(2)] w(3)]] by simp
  have c: "0 < sleepers (sem_cond (Semaphore_post s3))"
    by (simp add: s1_def s2_def s3_def Semaphore_wait_def Semaphore_post_def Semaphore_new_def cond_defs)
  show ?thesis
    using Semaphore_conserves_tokens[OF r] c
    unfolding s1_def[symmetric] s2_def[symmetric] s3_def[symmetric] Let_def by simp
qed

record latch =
  latch_count :: nat
  latch_cond :: cond

definition CountDownLatch_new :: "nat \<Rightarrow> latch" where
  "CountDownLatch_new n = \<lparr>latch_count = n, latch_cond = Condition_new\<rparr>"

definition CountDownLatch_wait :: "latch \<Rightarrow> bool \<times> latch" where
  "CountDownLatch_wait l =
     (if 0 < latch_count l then (False, l\<lparr>latch_cond := Condition_wait (latch_cond l)\<rparr>)
      else (True, l))"

definition CountDownLatch_waitFor :: "bool \<Rightarrow> latch \<Rightarrow> bool option \<times> latch" where
  "CountDownLatch_waitFor timed_out l =
     (if timed_out then (Some False, l\<lparr>latch_cond := Condition_timeout (latch_cond l)\<rparr>)
      else (let (open, l) = CountDownLatch_wait (l\<lparr>latch_cond := Condition_resume (latch_cond l)\<rparr>)
            in (if open then Some True else None, l)))"

definition CountDownLatch_countDown :: "latch \<Rightarrow> latch" where
  "CountDownLatch_countDown l =
     (if 0 < latch_count l
      then (let l' = l\<lparr>latch_count := latch_count l - 1\<rparr>
            in if latch_count l' = 0 then l'\<lparr>latch_cond := Condition_notifyAll (latch_cond l')\<rparr> else l')
      else l)"

definition CountDownLatch_getCount :: "latch \<Rightarrow> nat" where
  "CountDownLatch_getCount l = latch_count l"

inductive latch_run :: "nat \<Rightarrow> nat \<Rightarrow> latch \<Rightarrow> bool" for n where
  latch_new: "latch_run n 0 (CountDownLatch_new n)"
| latch_wait: "latch_run n k l \<Longrightarrow> latch_run n k (snd (CountDownLatch_wait l))"
| latch_resume: "latch_run n k l \<Longrightarrow> 0 < woken (latch_cond l) \<Longrightarrow>
    latch_run n k (snd (CountDownLatch_wait (l\<lparr>latch_cond := Condition_resume (latch_cond l)\<rparr>)))"
| latch_timeout: "latch_run n k l \<Longrightarrow> latch_run n k (l\<lparr>latch_cond := Condition_timeout (latch_cond l)\<rparr>)"
| latch_spurious: "latch_run n k l \<Longrightarrow> latch_run n k (l\<lparr>latch_cond := Condition_notify (latch_cond l)\<rparr>)"
| latch_countDown: "latch_run n k l \<Longrightarrow> latch_run n (k + 1) (CountDownLatch_countDown l)"

lemma latch_waitFor:
  assumes "latch_run n k l" "timed_out \<or> 0 < woken (latch_cond l)"
  shows "latch_run n k (snd (CountDownLatch_waitFor timed_out l))"
  using assms latch_timeout[OF assms(1)] latch_resume[OF assms(1)]
  by (cases timed_out) (simp_all add: CountDownLatch_waitFor_def case_prod_unfold Let_def)

lemma latch_run_inv:
  "latch_run n k l \<Longrightarrow> latch_count l = n - k \<and> (0 < sleepers (latch_cond l) \<longrightarrow> 0 < latch_count l)"
  by (induction rule: latch_run.induct)
    (auto simp: CountDownLatch_new_def CountDownLatch_wait_def CountDownLatch_countDown_def Let_def
      cond_defs split: if_splits)

lemma CountDownLatch_opens_parts:
  assumes "latch_run n k l"
  shows "fst (CountDownLatch_wait l) \<longleftrightarrow> n \<le> k"
    and "n \<le> k \<Longrightarrow> sleepers (latch_cond l) = 0"
  using latch_run_inv[OF assms] by (auto simp: CountDownLatch_wait_def split: if_splits)

text \<open>
  A latch opens after exactly its count of countDowns and stays open: from then on a wait
  returns at once and no thread is left asleep on it.
\<close>

theorem CountDownLatch_opens:
  assumes "latch_run n k l"
  shows "((fst (CountDownLatch_wait l) \<longleftrightarrow> n \<le> k)) \<and>
    (n \<le> k \<longrightarrow> sleepers (latch_cond l) = 0)"
  using CountDownLatch_opens_parts[OF assms] by blast

lemma CountDownLatch_opens_witness:
  "let l = CountDownLatch_countDown (snd (CountDownLatch_wait (CountDownLatch_new 1)))
   in fst (CountDownLatch_wait l) \<and> sleepers (latch_cond l) = 0"
proof -
  have r: "latch_run 1 1 (CountDownLatch_countDown (snd (CountDownLatch_wait (CountDownLatch_new 1))))"
    using latch_countDown[OF latch_wait[OF latch_new[of 1]]] by simp
  show ?thesis using CountDownLatch_opens[OF r] unfolding Let_def by simp
qed

end
