(* ===== verification/TimerWheel.thy ===== *)
theory TimerWheel
  imports Prelude "HOL-Library.Monad_Syntax"
begin

text \<open>
  \<^verbatim>\<open>src/common/timer/timer_wheel.h\<close> and \<^verbatim>\<open>timer_wheel.cpp\<close>: the
  hashed timing wheel. The slots are lists of entries; \<open>timerMap\<close> gives the slot of each
  pending timer, and the list iterator it also stores is the entry of that id in the slot.
  The abstract contract is a countdown: a map from the pending timers to the ticks left.
\<close>

subsection \<open>The wheel\<close>

text \<open>
  A callback of a timer: a null function, one that leaves the wheel alone, or one that calls
  \<open>addTimer\<close> or \<open>cancel\<close> of the wheel it runs under.
\<close>

datatype wheel_callback = NullCallback | PlainCallback | WheelCallback

record timer_entry =
  te_id :: nat
  te_rounds :: nat
  te_callback :: wheel_callback

record timer_wheel =
  tickMs :: nat
  wheelSize :: nat
  currentSlot :: nat
  currentTime :: int
  wheel :: "timer_entry list list"
  timerMap :: "nat \<rightharpoonup> nat"
  nextTimerId :: nat

definition TimerWheel_new :: "nat \<Rightarrow> nat \<Rightarrow> int \<Rightarrow> timer_wheel" where
  "TimerWheel_new tick slots now =
     \<lparr>tickMs = tick, wheelSize = slots, currentSlot = 0, currentTime = now,
      wheel = replicate slots [], timerMap = Map.empty, nextTimerId = 1\<rparr>"

definition TimerWheel_generateTimerId :: "timer_wheel \<Rightarrow> nat \<times> timer_wheel" where
  "TimerWheel_generateTimerId w = (nextTimerId w, w\<lparr>nextTimerId := (nextTimerId w + 1) mod 2 ^ 64\<rparr>)"

text \<open>\<open>None\<close>: a division by zero. The additions and products are those of \<open>uint32\<close>.\<close>

definition TimerWheel_addTimer ::
    "timer_wheel \<Rightarrow> nat \<Rightarrow> wheel_callback \<Rightarrow> (nat \<times> timer_wheel) option" where
  "TimerWheel_addTimer w timeoutMs cb =
     (let (i, w1) = TimerWheel_generateTimerId w in
      if tickMs w1 = 0 \<or> wheelSize w1 = 0 then None
      else (let ticks = (if timeoutMs < tickMs w1 then 1 else timeoutMs div tickMs w1);
                rounds = ticks div wheelSize w1;
                slot = ((currentSlot w1 + ticks) mod 2 ^ 32) mod wheelSize w1
            in Some (i, w1\<lparr>wheel := (wheel w1)[slot := wheel w1 ! slot @
                              [\<lparr>te_id = i, te_rounds = rounds, te_callback = cb\<rparr>]],
                           timerMap := (timerMap w1)(i \<mapsto> slot)\<rparr>)))"

definition TimerWheel_cancel :: "timer_wheel \<Rightarrow> nat \<Rightarrow> bool \<times> timer_wheel" where
  "TimerWheel_cancel w timerId =
     (case timerMap w timerId of
        None \<Rightarrow> (False, w)
      | Some slot \<Rightarrow>
          (True, w\<lparr>wheel := (wheel w)[slot := filter (\<lambda>e. te_id e \<noteq> timerId) (wheel w ! slot)],
                   timerMap := (timerMap w)(timerId := None)\<rparr>))"

text \<open>
  The loop of \<open>tick\<close> over the current slot: the callbacks run (by the id of their timer),
  the entries that stay, the map. The mutex of the wheel is held and is not recursive, so a
  callback that calls the wheel never returns: \<open>None\<close>.
\<close>

fun TimerWheel_run_slot ::
    "timer_entry list \<Rightarrow> (nat \<rightharpoonup> nat) \<Rightarrow> (nat list \<times> timer_entry list \<times> (nat \<rightharpoonup> nat)) option" where
  "TimerWheel_run_slot [] m = Some ([], [], m)"
| "TimerWheel_run_slot (e # es) m =
     (if 0 < te_rounds e
      then do { (fired, kept, m') \<leftarrow> TimerWheel_run_slot es m;
                Some (fired, e\<lparr>te_rounds := te_rounds e - 1\<rparr> # kept, m') }
      else if te_callback e = WheelCallback then None
      else do { (fired, kept, m') \<leftarrow> TimerWheel_run_slot es (m(te_id e := None));
                Some (if te_callback e = NullCallback then (fired, kept, m')
                      else (te_id e # fired, kept, m')) })"

definition TimerWheel_tick :: "timer_wheel \<Rightarrow> (nat list \<times> timer_wheel) option" where
  "TimerWheel_tick w =
     do { (fired, kept, m) \<leftarrow> TimerWheel_run_slot (wheel w ! currentSlot w) (timerMap w);
          if wheelSize w = 0 then None
          else Some (fired, w\<lparr>currentTime := currentTime w + int (tickMs w),
                              wheel := (wheel w)[currentSlot w := kept],
                              timerMap := m,
                              currentSlot := ((currentSlot w + 1) mod 2 ^ 32) mod wheelSize w\<rparr>) }"

subsection \<open>Invariant\<close>

definition wheel_entries :: "timer_wheel \<Rightarrow> timer_entry list" where
  "wheel_entries w = concat (wheel w)"

definition wheel_inv :: "timer_wheel \<Rightarrow> bool" where
  "wheel_inv w \<longleftrightarrow> 0 < tickMs w \<and> 0 < wheelSize w \<and> wheelSize w < 2 ^ 31 \<and>
     length (wheel w) = wheelSize w \<and> currentSlot w < wheelSize w \<and>
     (\<forall>s < wheelSize w. distinct (map te_id (wheel w ! s)) \<and>
        (\<forall>i. i \<in> te_id ` set (wheel w ! s) \<longleftrightarrow> timerMap w i = Some s)) \<and>
     (\<forall>i s. timerMap w i = Some s \<longrightarrow> s < wheelSize w \<and> i < nextTimerId w)"

text \<open>The slots of the wheel hold only callbacks that leave the wheel alone.\<close>

definition wheel_plain :: "timer_wheel \<Rightarrow> bool" where
  "wheel_plain w \<longleftrightarrow> (\<forall>es \<in> set (wheel w). \<forall>e \<in> set es. te_callback e = PlainCallback)"

text \<open>The ticks left of an entry of slot \<open>s\<close>, and of a timer.\<close>

definition ticks_left :: "timer_wheel \<Rightarrow> nat \<Rightarrow> timer_entry \<Rightarrow> nat" where
  "ticks_left w s e = te_rounds e * wheelSize w + (s + wheelSize w - currentSlot w) mod wheelSize w"

definition countdown :: "timer_wheel \<Rightarrow> nat \<Rightarrow> nat option" where
  "countdown w i =
     (case timerMap w i of None \<Rightarrow> None
      | Some s \<Rightarrow> map_option (ticks_left w s) (List.find (\<lambda>e. te_id e = i) (wheel w ! s)))"

text \<open>The abstract contract.\<close>

definition spec_add :: "(nat \<rightharpoonup> nat) \<Rightarrow> nat \<Rightarrow> nat \<Rightarrow> (nat \<rightharpoonup> nat)" where
  "spec_add a i ticks = a(i \<mapsto> ticks)"

definition spec_cancel :: "(nat \<rightharpoonup> nat) \<Rightarrow> nat \<Rightarrow> (nat \<rightharpoonup> nat)" where
  "spec_cancel a i = a(i := None)"

definition spec_fires :: "(nat \<rightharpoonup> nat) \<Rightarrow> nat set" where
  "spec_fires a = {i. a i = Some 0}"

definition spec_tick :: "(nat \<rightharpoonup> nat) \<Rightarrow> (nat \<rightharpoonup> nat)" where
  "spec_tick a = (\<lambda>i. case a i of Some (Suc k) \<Rightarrow> Some k | _ \<Rightarrow> None)"

subsection \<open>Entries\<close>

lemma find_id_Some:
  "distinct (map te_id es) \<Longrightarrow> e \<in> set es \<Longrightarrow> te_id e = i \<Longrightarrow> List.find (\<lambda>e. te_id e = i) es = Some e"
  by (induction es) auto

lemma countdown_entry:
  assumes "wheel_inv w" "s < wheelSize w" "e \<in> set (wheel w ! s)"
  shows "countdown w (te_id e) = Some (ticks_left w s e)"
proof -
  have "timerMap w (te_id e) = Some s" using assms by (auto simp: wheel_inv_def)
  moreover have "List.find (\<lambda>e'. te_id e' = te_id e) (wheel w ! s) = Some e"
    using assms by (intro find_id_Some) (auto simp: wheel_inv_def)
  ultimately show ?thesis by (simp add: countdown_def)
qed

lemma wheel_inv_entry:
  assumes "wheel_inv w" "timerMap w i = Some s"
  obtains e where "s < wheelSize w" "e \<in> set (wheel w ! s)" "te_id e = i"
proof -
  have "s < wheelSize w" using assms by (auto simp: wheel_inv_def)
  moreover have "i \<in> te_id ` set (wheel w ! s)" using assms by (auto simp: wheel_inv_def)
  ultimately show ?thesis using that by auto
qed

lemma countdown_None:
  assumes "wheel_inv w"
  shows "countdown w i = None \<longleftrightarrow> timerMap w i = None"
proof (cases "timerMap w i")
  case None
  then show ?thesis by (simp add: countdown_def)
next
  case (Some s)
  then obtain e where "s < wheelSize w" "e \<in> set (wheel w ! s)" "te_id e = i"
    using wheel_inv_entry[OF assms] by blast
  then show ?thesis using Some countdown_entry[OF assms] by auto
qed

text \<open>A map of countdowns is determined by its entries.\<close>

lemma countdown_eqI:
  assumes "wheel_inv w" "\<And>i. a i = None \<longleftrightarrow> timerMap w i = None"
    and "\<And>s e. s < wheelSize w \<Longrightarrow> e \<in> set (wheel w ! s) \<Longrightarrow> a (te_id e) = Some (ticks_left w s e)"
  shows "countdown w = a"
proof
  fix i
  show "countdown w i = a i"
  proof (cases "timerMap w i")
    case None
    then show ?thesis using assms countdown_None by metis
  next
    case (Some s)
    then obtain e where "s < wheelSize w" "e \<in> set (wheel w ! s)" "te_id e = i"
      using wheel_inv_entry[OF assms(1)] by blast
    then show ?thesis using assms(3) countdown_entry[OF assms(1)] by metis
  qed
qed

lemma set_update_iff: "s' < length ws \<Longrightarrow> (ws[s := x]) ! s' = (if s' = s then x else ws ! s')"
  by (simp add: nth_list_update)

lemma wheel_plain_iff:
  "wheel_plain w \<longleftrightarrow> (\<forall>s < length (wheel w). \<forall>e \<in> set (wheel w ! s). te_callback e = PlainCallback)"
  by (simp add: wheel_plain_def all_set_conv_all_nth)

subsection \<open>Adding and cancelling\<close>

definition wheel_ticks :: "timer_wheel \<Rightarrow> nat \<Rightarrow> nat" where
  "wheel_ticks w timeoutMs = (if timeoutMs < tickMs w then 1 else timeoutMs div tickMs w)"

lemma slot_distance:
  assumes "c < (W::nat)"
  shows "((c + t) mod W + W - c) mod W = t mod W"
proof -
  have "(c + t) mod W + W - c = (c + t) mod W + (W - c)" using assms by simp
  then have "((c + t) mod W + W - c) mod W = ((c + t) + (W - c)) mod W" by (simp add: mod_add_left_eq)
  also have "(c + t) + (W - c) = t + W" using assms by simp
  finally show ?thesis by simp
qed

lemma wheel_add:
  assumes "wheel_inv w" "nextTimerId w + 1 < 2 ^ 64" "currentSlot w + wheel_ticks w timeoutMs < 2 ^ 32"
    and "TimerWheel_addTimer w timeoutMs cb = Some (i, w')"
  shows "wheel_inv w'" and "countdown w' = spec_add (countdown w) i (wheel_ticks w timeoutMs)"
    and "countdown w i = None" and "currentTime w' = currentTime w" "tickMs w' = tickMs w"
    and "wheel_plain w \<Longrightarrow> cb = PlainCallback \<Longrightarrow> wheel_plain w'"
proof -
  let ?t = "wheel_ticks w timeoutMs" and ?W = "wheelSize w"
  let ?s = "(currentSlot w + ?t) mod ?W"
  let ?e = "\<lparr>te_id = i, te_rounds = ?t div ?W, te_callback = cb\<rparr>"
  have i: "i = nextTimerId w" and w': "w' = w\<lparr>nextTimerId := nextTimerId w + 1,
      wheel := (wheel w)[?s := wheel w ! ?s @ [?e]], timerMap := (timerMap w)(i \<mapsto> ?s)\<rparr>"
    using assms by (auto simp: TimerWheel_addTimer_def TimerWheel_generateTimerId_def Let_def
        wheel_ticks_def wheel_inv_def split: if_splits)
  have s: "?s < ?W" using assms(1) by (simp add: wheel_inv_def)
  have len: "length (wheel w) = ?W" using assms(1) by (simp add: wheel_inv_def)
  have new: "timerMap w i = None"
    using assms(1) unfolding i wheel_inv_def by (cases "timerMap w (nextTimerId w)") blast+
  then have notin: "i \<notin> te_id ` set (wheel w ! s')" if "s' < ?W" for s'
    using assms(1) that by (auto simp: wheel_inv_def)
  show inv: "wheel_inv w'"
    unfolding wheel_inv_def
  proof (intro conjI allI impI)
    fix s' assume "s' < wheelSize w'"
    then have s': "s' < ?W" by (simp add: w')
    show "distinct (map te_id (wheel w' ! s'))"
      using assms(1) s' notin[OF s'] len by (auto simp: w' wheel_inv_def set_update_iff)
    fix j show "j \<in> te_id ` set (wheel w' ! s') \<longleftrightarrow> timerMap w' j = Some s'"
      using assms(1) s' notin[OF s'] len s by (auto simp: w' wheel_inv_def set_update_iff)
  next
    fix j s' assume "timerMap w' j = Some s'"
    then show "s' < wheelSize w'" "j < nextTimerId w'"
      using assms(1) s by (auto simp: w' wheel_inv_def i less_Suc_eq split: if_splits)
  qed (use assms(1) in \<open>auto simp: w' wheel_inv_def\<close>)
  show "countdown w i = None" using new assms(1) by (simp add: countdown_None)
  show "countdown w' = spec_add (countdown w) i ?t"
  proof (rule countdown_eqI[OF inv])
    fix j show "spec_add (countdown w) i ?t j = None \<longleftrightarrow> timerMap w' j = None"
      using countdown_None[OF assms(1), of j] by (auto simp: spec_add_def w')
  next
    fix s' e assume s': "s' < wheelSize w'" and e: "e \<in> set (wheel w' ! s')"
    have tl: "ticks_left w' = ticks_left w" by (simp add: fun_eq_iff ticks_left_def w')
    show "spec_add (countdown w) i ?t (te_id e) = Some (ticks_left w' s' e)"
    proof (cases "te_id e = i")
      case True
      have "s' = ?s" "e = ?e"
        using s' e True notin[of s'] s len by (auto simp: w' set_update_iff split: if_splits)
      moreover have "ticks_left w ?s ?e = ?t"
        using assms(1) slot_distance[of "currentSlot w" ?W ?t] by (simp add: ticks_left_def wheel_inv_def)
      ultimately show ?thesis by (simp add: tl spec_add_def)
    next
      case False
      then have "e \<in> set (wheel w ! s')"
        using s' e len by (auto simp: w' set_update_iff split: if_splits)
      moreover have "s' < ?W" using s' by (simp add: w')
      ultimately show ?thesis
        unfolding tl using False countdown_entry[OF assms(1)] by (simp add: spec_add_def)
    qed
  qed
  show "currentTime w' = currentTime w" "tickMs w' = tickMs w" by (simp_all add: w')
  assume "wheel_plain w" "cb = PlainCallback"
  then show "wheel_plain w'"
    using s len by (auto simp: wheel_plain_iff w' set_update_iff)
qed

lemma ids_filter: "te_id ` set (filter (\<lambda>e. te_id e \<noteq> i) es) = te_id ` set es - {i}"
  by auto

lemma wheel_cancel:
  assumes "wheel_inv w" "TimerWheel_cancel w i = (ok, w')"
  shows "wheel_inv w'" and "countdown w' = spec_cancel (countdown w) i"
    and "ok \<longleftrightarrow> countdown w i \<noteq> None" and "currentTime w' = currentTime w" "tickMs w' = tickMs w"
    and "wheel_plain w \<Longrightarrow> wheel_plain w'"
proof -
  have len: "length (wheel w) = wheelSize w" using assms(1) by (simp add: wheel_inv_def)
  have *: "wheel_inv w' \<and> countdown w' = spec_cancel (countdown w) i \<and> (ok \<longleftrightarrow> countdown w i \<noteq> None) \<and>
      currentTime w' = currentTime w \<and> tickMs w' = tickMs w \<and> (wheel_plain w \<longrightarrow> wheel_plain w')"
  proof (cases "timerMap w i")
    case None
    then show ?thesis
      using assms countdown_None[OF assms(1), of i]
      by (auto simp: TimerWheel_cancel_def spec_cancel_def)
  next
    case (Some s)
    have s: "s < wheelSize w" using assms(1) Some by (auto simp: wheel_inv_def)
    have w': "w' = w\<lparr>wheel := (wheel w)[s := filter (\<lambda>e. te_id e \<noteq> i) (wheel w ! s)],
        timerMap := (timerMap w)(i := None)\<rparr>" and ok: "ok"
      using assms(2) Some by (auto simp: TimerWheel_cancel_def)
    have notin: "i \<notin> te_id ` set (wheel w ! s')" if "s' < wheelSize w" "s' \<noteq> s" for s'
      using assms(1) that Some by (auto simp: wheel_inv_def)
    have inv: "wheel_inv w'"
      unfolding wheel_inv_def
    proof (intro conjI allI impI)
      fix s' assume "s' < wheelSize w'"
      then have s': "s' < wheelSize w" by (simp add: w')
      show "distinct (map te_id (wheel w' ! s'))"
        using assms(1) s' len by (auto simp: w' wheel_inv_def set_update_iff distinct_map_filter)
      fix j show "j \<in> te_id ` set (wheel w' ! s') \<longleftrightarrow> timerMap w' j = Some s'"
        using assms(1) s' notin[OF s'] len s
        by (cases "s' = s") (auto simp: w' wheel_inv_def set_update_iff ids_filter simp del: set_filter)
    qed (use assms(1) in \<open>auto simp: w' wheel_inv_def split: if_splits\<close>)
    have "countdown w' = spec_cancel (countdown w) i"
    proof (rule countdown_eqI[OF inv])
      fix j show "spec_cancel (countdown w) i j = None \<longleftrightarrow> timerMap w' j = None"
        using countdown_None[OF assms(1), of j] by (auto simp: spec_cancel_def w')
    next
      fix s' e assume s': "s' < wheelSize w'" and e: "e \<in> set (wheel w' ! s')"
      have tl: "ticks_left w' = ticks_left w" by (simp add: fun_eq_iff ticks_left_def w')
      have "te_id e \<noteq> i" "e \<in> set (wheel w ! s')"
        using s' e notin[of s'] len by (auto simp: w' set_update_iff split: if_splits)
      moreover have "s' < wheelSize w" using s' by (simp add: w')
      ultimately show "spec_cancel (countdown w) i (te_id e) = Some (ticks_left w' s' e)"
        unfolding tl using countdown_entry[OF assms(1)] by (simp add: spec_cancel_def)
    qed
    moreover have "wheel_plain w \<longrightarrow> wheel_plain w'"
      using s len by (auto simp: wheel_plain_iff w' set_update_iff)
    moreover have "countdown w i \<noteq> None" using Some countdown_None[OF assms(1), of i] by simp
    ultimately show ?thesis using inv ok by (simp add: w')
  qed
  then show "wheel_inv w'" "countdown w' = spec_cancel (countdown w) i" "ok \<longleftrightarrow> countdown w i \<noteq> None"
    "currentTime w' = currentTime w" "tickMs w' = tickMs w" "wheel_plain w \<Longrightarrow> wheel_plain w'" by auto
qed

subsection \<open>A tick\<close>

definition next_round :: "timer_entry \<Rightarrow> timer_entry" where
  "next_round e = e\<lparr>te_rounds := te_rounds e - 1\<rparr>"

lemma next_round_simps [simp]:
  "te_id (next_round e) = te_id e" "te_callback (next_round e) = te_callback e"
  "te_rounds (next_round e) = te_rounds e - 1"
  by (simp_all add: next_round_def)

lemma run_slot_plain:
  assumes "\<forall>e \<in> set es. te_callback e = PlainCallback"
  shows "TimerWheel_run_slot es m =
     Some (map te_id (filter (\<lambda>e. te_rounds e = 0) es),
           map next_round (filter (\<lambda>e. te_rounds e \<noteq> 0) es),
           (\<lambda>i. if i \<in> te_id ` {e \<in> set es. te_rounds e = 0} then None else m i))"
  using assms by (induction es arbitrary: m) (auto simp: next_round_def fun_eq_iff)

lemma mod_step: "c < (W::nat) \<Longrightarrow> s < W \<Longrightarrow> s \<noteq> c \<Longrightarrow>
    (s + W - c) mod W = Suc ((s + W - (c + 1) mod W) mod W)"
proof -
  assume c: "c < W" and s: "s < W" and ne: "s \<noteq> c"
  show ?thesis
  proof (cases "c + 1 = W")
    case True
    then have "(c + 1) mod W = 0" by simp
    moreover have "s + W - c = s + 1" "s + 1 < W" using True s ne by auto
    ultimately show ?thesis using s by simp
  next
    case False
    then have m: "(c + 1) mod W = c + 1" using c by simp
    show ?thesis
    proof (cases "c < s")
      case True
      then have e: "s + W - c = (s - c) + W" "s + W - (c + 1) = (s - c - 1) + W" "s - c < W" using s by auto
      have "s - c - 1 < W" "Suc (s - c - 1) = s - c" using e(3) True by auto
      then show ?thesis unfolding m e(1,2) mod_add_self2 using e(3) by (simp only: mod_less)
    next
      case False
      then have "s + W - c < W" "s + W - (c + 1) < W" using ne s by auto
      then show ?thesis using m s c by simp
    qed
  qed
qed

lemma mod_step_same: "c < (W::nat) \<Longrightarrow> (c + W - (c + 1) mod W) mod W = W - 1"
proof -
  assume c: "c < W"
  show ?thesis
  proof (cases "c + 1 = W")
    case True
    then have "(c + 1) mod W = 0" by simp
    then show ?thesis using True by simp
  next
    case False
    then have "(c + 1) mod W = c + 1" using c by simp
    then show ?thesis using c by simp
  qed
qed

lemma mult_pred: "0 < n \<Longrightarrow> 0 < W \<Longrightarrow> n * W = Suc ((n - 1) * W + (W - 1))" for n W :: nat
  by (cases n) auto

lemma wheel_tick:
  assumes "wheel_inv w" "wheel_plain w"
  obtains fired w' where "TimerWheel_tick w = Some (fired, w')" "wheel_inv w'" "wheel_plain w'"
    "set fired = spec_fires (countdown w)" "distinct fired" "countdown w' = spec_tick (countdown w)"
    "currentTime w' = currentTime w + int (tickMs w)" "tickMs w' = tickMs w"
proof -
  let ?c = "currentSlot w" and ?W = "wheelSize w"
  let ?es = "wheel w ! ?c"
  let ?out = "te_id ` {e \<in> set ?es. te_rounds e = 0}"
  define fired where "fired = map te_id (filter (\<lambda>e. te_rounds e = 0) ?es)"
  define kept where "kept = map next_round (filter (\<lambda>e. te_rounds e \<noteq> 0) ?es)"
  define m where "m = (\<lambda>i. if i \<in> ?out then None else timerMap w i)"
  define w' where "w' = w\<lparr>currentTime := currentTime w + int (tickMs w), wheel := (wheel w)[?c := kept],
      timerMap := m, currentSlot := (?c + 1) mod ?W\<rparr>"
  have W: "0 < ?W" "?W < 2 ^ 31" "?c < ?W" and len: "length (wheel w) = ?W"
    using assms(1) by (auto simp: wheel_inv_def)
  have "TimerWheel_run_slot ?es (timerMap w) = Some (fired, kept, m)"
    unfolding fired_def kept_def m_def
    by (rule run_slot_plain) (use assms(2) W len in \<open>auto simp: wheel_plain_iff\<close>)
  moreover have "(?c + 1) mod 2 ^ 32 = ?c + 1" using W by simp
  ultimately have tick: "TimerWheel_tick w = Some (fired, w')"
    using W by (simp add: TimerWheel_tick_def w'_def)
  have ids: "i \<in> te_id ` set (wheel w ! s) \<longleftrightarrow> timerMap w i = Some s" if "s < ?W" for s i
    using assms(1) that by (auto simp: wheel_inv_def)
  have dist: "distinct (map te_id (wheel w ! s))" if "s < ?W" for s
    using assms(1) that by (auto simp: wheel_inv_def)
  have out: "i \<in> ?out \<Longrightarrow> timerMap w i = Some ?c" for i using ids[OF W(3)] by auto
  have kept_ids: "te_id ` set kept = te_id ` set ?es - ?out"
  proof -
    have "te_id ` set kept = te_id ` {e \<in> set ?es. te_rounds e \<noteq> 0}"
      by (simp add: kept_def image_image)
    then show ?thesis using dist[OF W(3)] by (auto simp: distinct_map inj_on_def)
  qed
  have kept_dist: "distinct (map te_id kept)"
    using dist[OF W(3)] by (simp add: kept_def comp_def distinct_map_filter)
  have inv: "wheel_inv w'"
    unfolding wheel_inv_def
  proof (intro conjI allI impI)
    fix s assume "s < wheelSize w'"
    then have s: "s < ?W" by (simp add: w'_def)
    show "distinct (map te_id (wheel w' ! s))"
      using s dist kept_dist len by (simp add: w'_def set_update_iff)
    fix i show "i \<in> te_id ` set (wheel w' ! s) \<longleftrightarrow> timerMap w' i = Some s"
    proof (cases "s = ?c")
      case True
      have "i \<in> te_id ` set kept \<longleftrightarrow> m i = Some ?c"
        unfolding kept_ids m_def using ids[OF W(3), of i] by simp
      then show ?thesis using True W(3) len by (simp add: w'_def)
    next
      case False
      have "m i = Some s \<longleftrightarrow> timerMap w i = Some s" using False out[of i] by (auto simp: m_def)
      then show ?thesis using False s ids[OF s, of i] len by (simp add: w'_def)
    qed
  qed (use assms(1) W in \<open>auto simp: w'_def m_def wheel_inv_def split: if_splits\<close>)
  have plain: "wheel_plain w'"
    using assms(2) W len by (auto simp: wheel_plain_iff w'_def set_update_iff kept_def)
  have zero: "ticks_left w s e = 0 \<longleftrightarrow> s = ?c \<and> te_rounds e = 0" if "s < ?W" for s e
  proof (cases "s = ?c")
    case False
    then show ?thesis using mod_step[OF W(3) that False] by (simp add: ticks_left_def)
  qed (use W in \<open>simp add: ticks_left_def\<close>)
  have "i \<in> set fired \<longleftrightarrow> countdown w i = Some 0" for i
  proof
    assume "i \<in> set fired"
    then obtain e where "e \<in> set ?es" "te_rounds e = 0" "te_id e = i" by (auto simp: fired_def)
    then show "countdown w i = Some 0"
      using countdown_entry[OF assms(1) W(3)] zero[OF W(3)] by auto
  next
    assume c: "countdown w i = Some 0"
    then obtain s where "timerMap w i = Some s" using countdown_None[OF assms(1), of i] by auto
    then obtain e where e: "s < ?W" "e \<in> set (wheel w ! s)" "te_id e = i"
      using wheel_inv_entry[OF assms(1)] by blast
    then show "i \<in> set fired"
      using c countdown_entry[OF assms(1) e(1,2)] zero[OF e(1)] by (auto simp: fired_def)
  qed
  then have fires: "set fired = spec_fires (countdown w)" by (auto simp: spec_fires_def)
  have "countdown w' = spec_tick (countdown w)"
  proof (rule countdown_eqI[OF inv])
    fix i
    have "spec_tick (countdown w) i = None \<longleftrightarrow> countdown w i = None \<or> i \<in> set fired"
      by (auto simp: spec_tick_def fires spec_fires_def split: option.splits nat.splits)
    moreover have "i \<in> set fired \<longleftrightarrow> i \<in> ?out" by (auto simp: fired_def)
    ultimately show "spec_tick (countdown w) i = None \<longleftrightarrow> timerMap w' i = None"
      using countdown_None[OF assms(1), of i] by (auto simp: w'_def m_def)
  next
    fix s e assume "s < wheelSize w'" and e: "e \<in> set (wheel w' ! s)"
    then have s: "s < ?W" by (simp add: w'_def)
    have tl: "ticks_left w' s e = te_rounds e * ?W + (s + ?W - (?c + 1) mod ?W) mod ?W"
      by (simp add: ticks_left_def w'_def)
    show "spec_tick (countdown w) (te_id e) = Some (ticks_left w' s e)"
    proof (cases "s = ?c")
      case True
      then obtain e0 where e0: "e0 \<in> set ?es" "te_rounds e0 \<noteq> 0" "e = next_round e0"
        using e len W by (auto simp: w'_def kept_def)
      have "ticks_left w ?c e0 = Suc (ticks_left w' ?c e)"
        using e0 True tl mult_pred[of "te_rounds e0" ?W] W(1) mod_step_same[OF W(3)]
        by (simp add: ticks_left_def)
      then show ?thesis using countdown_entry[OF assms(1) W(3) e0(1)] True e0(3) by (simp add: spec_tick_def)
    next
      case False
      then have "e \<in> set (wheel w ! s)" using e s len by (simp add: w'_def)
      then show ?thesis
        using countdown_entry[OF assms(1) s] mod_step[OF W(3) s False] tl
        by (simp add: spec_tick_def ticks_left_def)
    qed
  qed
  moreover have "distinct fired"
    using dist[OF W(3)] by (simp add: fired_def distinct_map_filter)
  ultimately show ?thesis
    using that[OF tick inv plain fires] by (simp add: w'_def)
qed

subsection \<open>Runs of the wheel\<close>

inductive wheel_reach :: "timer_wheel \<Rightarrow> bool" where
  wheel_start: "0 < tick \<Longrightarrow> 0 < slots \<Longrightarrow> slots < 2 ^ 31 \<Longrightarrow> wheel_reach (TimerWheel_new tick slots now)"
| wheel_added: "wheel_reach w \<Longrightarrow> nextTimerId w + 1 < 2 ^ 64 \<Longrightarrow>
    currentSlot w + wheel_ticks w ms < 2 ^ 32 \<Longrightarrow>
    TimerWheel_addTimer w ms PlainCallback = Some (i, w') \<Longrightarrow> wheel_reach w'"
| wheel_cancelled: "wheel_reach w \<Longrightarrow> TimerWheel_cancel w i = (ok, w') \<Longrightarrow> wheel_reach w'"
| wheel_ticked: "wheel_reach w \<Longrightarrow> TimerWheel_tick w = Some (fired, w') \<Longrightarrow> wheel_reach w'"

lemma wheel_new_inv:
  "0 < tick \<Longrightarrow> 0 < slots \<Longrightarrow> slots < 2 ^ 31 \<Longrightarrow>
    wheel_inv (TimerWheel_new tick slots now) \<and> wheel_plain (TimerWheel_new tick slots now)"
  by (auto simp: wheel_inv_def wheel_plain_iff TimerWheel_new_def)

lemma wheel_reach_inv: "wheel_reach w \<Longrightarrow> wheel_inv w \<and> wheel_plain w"
proof (induction rule: wheel_reach.induct)
  case (wheel_start tick slots now)
  then show ?case by (rule wheel_new_inv)
next
  case (wheel_added w ms i w')
  then show ?case using wheel_add[of w ms PlainCallback i w'] by blast
next
  case (wheel_cancelled w i ok w')
  then show ?case using wheel_cancel[of w i ok w'] by blast
next
  case (wheel_ticked w fired w')
  then show ?case using wheel_tick[of w] by (metis option.inject prod.inject)
qed

fun TimerWheel_ticks :: "nat \<Rightarrow> timer_wheel \<Rightarrow> (nat list list \<times> timer_wheel) option" where
  "TimerWheel_ticks 0 w = Some ([], w)"
| "TimerWheel_ticks (Suc n) w =
     do { (fired, w') \<leftarrow> TimerWheel_tick w; (fs, w'') \<leftarrow> TimerWheel_ticks n w'; Some (fired # fs, w'') }"

lemma ticks_countdown:
  assumes "wheel_inv w" "wheel_plain w" "countdown w i = Some d"
  shows "\<exists>fs w'. TimerWheel_ticks n w = Some (fs, w') \<and> length fs = n \<and>
     (\<forall>k < n. i \<in> set (fs ! k) \<longleftrightarrow> k = d) \<and> currentTime w' = currentTime w + int n * int (tickMs w)"
proof -
  have "\<exists>fs w'. TimerWheel_ticks n w = Some (fs, w') \<and> length fs = n \<and>
     (\<forall>k < n. i \<in> set (fs ! k) \<longleftrightarrow> (countdown w i = Some k)) \<and>
     currentTime w' = currentTime w + int n * int (tickMs w)"
    using assms(1,2)
  proof (induction n arbitrary: w)
    case (Suc n)
    obtain fired w1 where t: "TimerWheel_tick w = Some (fired, w1)" "wheel_inv w1" "wheel_plain w1"
      "set fired = spec_fires (countdown w)" "countdown w1 = spec_tick (countdown w)"
      "currentTime w1 = currentTime w + int (tickMs w)" "tickMs w1 = tickMs w"
      using wheel_tick[OF Suc.prems] by metis
    obtain fs w2 where r: "TimerWheel_ticks n w1 = Some (fs, w2)" "length fs = n"
      "\<forall>k < n. i \<in> set (fs ! k) \<longleftrightarrow> countdown w1 i = Some k"
      "currentTime w2 = currentTime w1 + int n * int (tickMs w1)"
      using Suc.IH[OF t(2,3)] by blast
    have "i \<in> set ((fired # fs) ! k) \<longleftrightarrow> countdown w i = Some k" if "k < Suc n" for k
      using that r(3) t(4,5)
      by (cases k) (auto simp: spec_fires_def spec_tick_def split: option.splits nat.splits)
    then show ?case using t(1,6,7) r by (auto simp: algebra_simps)
  qed simp
  then show ?thesis using assms(3) by auto
qed

lemma TimerWheel_refines_countdown_parts:
  assumes "wheel_reach w"
  shows "TimerWheel_addTimer w ms PlainCallback = Some (i, w1) \<Longrightarrow> nextTimerId w + 1 < 2 ^ 64 \<Longrightarrow>
           currentSlot w + wheel_ticks w ms < 2 ^ 32 \<Longrightarrow>
           countdown w i = None \<and> countdown w1 = spec_add (countdown w) i (wheel_ticks w ms)"
    and "TimerWheel_cancel w j = (ok, w2) \<Longrightarrow>
           (ok \<longleftrightarrow> countdown w j \<noteq> None) \<and> countdown w2 = spec_cancel (countdown w) j"
    and "\<exists>fired w3. TimerWheel_tick w = Some (fired, w3) \<and> distinct fired \<and>
           set fired = spec_fires (countdown w) \<and> countdown w3 = spec_tick (countdown w)"
proof -
  have inv: "wheel_inv w" "wheel_plain w" using wheel_reach_inv[OF assms] by auto
  show "TimerWheel_addTimer w ms PlainCallback = Some (i, w1) \<Longrightarrow> nextTimerId w + 1 < 2 ^ 64 \<Longrightarrow>
           currentSlot w + wheel_ticks w ms < 2 ^ 32 \<Longrightarrow>
           countdown w i = None \<and> countdown w1 = spec_add (countdown w) i (wheel_ticks w ms)"
    using wheel_add(2,3)[OF inv(1)] by blast
  show "TimerWheel_cancel w j = (ok, w2) \<Longrightarrow>
           (ok \<longleftrightarrow> countdown w j \<noteq> None) \<and> countdown w2 = spec_cancel (countdown w) j"
    using wheel_cancel(2,3)[OF inv(1)] by blast
  show "\<exists>fired w3. TimerWheel_tick w = Some (fired, w3) \<and> distinct fired \<and>
           set fired = spec_fires (countdown w) \<and> countdown w3 = spec_tick (countdown w)"
    using wheel_tick[OF inv] by metis
qed

text \<open>
  C6: The timing wheel implements a countdown per pending timer. Adding a timer starts a
  fresh countdown of its timeout in ticks and disturbs no other; cancelling removes exactly
  one and tells whether it was pending; a tick always returns, runs exactly the timers whose
  countdown has reached zero, once each, and lowers every other countdown by one.
\<close>

theorem TimerWheel_refines_countdown:
  assumes "wheel_reach w"
  shows "(TimerWheel_addTimer w ms PlainCallback = Some (i, w1) \<longrightarrow>
      nextTimerId w + 1 < 2 ^ 64 \<longrightarrow> currentSlot w + wheel_ticks w ms < 2 ^ 32 \<longrightarrow>
      (countdown w i = None \<and> countdown w1 = spec_add (countdown w) i (wheel_ticks w ms))) \<and>
    (TimerWheel_cancel w j = (ok, w2) \<longrightarrow>
      ((ok \<longleftrightarrow> countdown w j \<noteq> None) \<and> countdown w2 = spec_cancel (countdown w) j)) \<and>
    ((\<exists>fired w3. TimerWheel_tick w = Some (fired, w3) \<and> distinct fired \<and>
           set fired = spec_fires (countdown w) \<and> countdown w3 = spec_tick (countdown w)))"
  using TimerWheel_refines_countdown_parts[OF assms] by blast

lemma TimerWheel_refines_countdown_witness:
  "\<exists>i w1. TimerWheel_addTimer (TimerWheel_new 100 60 0) 6050 PlainCallback = Some (i, w1) \<and>
     countdown w1 = spec_add (countdown (TimerWheel_new 100 60 0)) i 60 \<and>
     \<not> fst (TimerWheel_cancel (TimerWheel_new 100 60 0) 5) \<and>
     (\<exists>fired w3. TimerWheel_tick (TimerWheel_new 100 60 0) = Some (fired, w3) \<and> fired = [])"
proof -
  let ?w = "TimerWheel_new 100 60 0"
  have r: "wheel_reach ?w" by (rule wheel_start) simp_all
  obtain i w1 where a: "TimerWheel_addTimer ?w 6050 PlainCallback = Some (i, w1)"
    by (simp add: TimerWheel_addTimer_def TimerWheel_generateTimerId_def TimerWheel_new_def Let_def)
  have t: "wheel_ticks ?w 6050 = 60" by (simp add: wheel_ticks_def TimerWheel_new_def)
  obtain ok w2 where c: "TimerWheel_cancel ?w 5 = (ok, w2)" by (meson surj_pair)
  have n: "countdown ?w j = None" for j by (simp add: countdown_def TimerWheel_new_def)
  obtain fired w3 where k: "TimerWheel_tick ?w = Some (fired, w3)" "set fired = spec_fires (countdown ?w)"
    using TimerWheel_refines_countdown[OF r] by blast
  then have "fired = []" using n by (simp add: spec_fires_def)
  moreover have "\<not> ok" using TimerWheel_refines_countdown[OF r] c n by blast
  moreover have "countdown w1 = spec_add (countdown ?w) i 60"
    using TimerWheel_refines_countdown[OF r, of 6050 i w1] a t by (simp add: TimerWheel_new_def)
  ultimately show ?thesis using a c k(1) by auto
qed

text \<open>
  A timer of the wheel fires exactly once, in the tick after its timeout's worth of
  ticks, unless it is cancelled: measured on the wheel's own clock that is never before the
  timeout has passed, and at most one tick period late.
\<close>

theorem TimerWheel_fires_on_time:
  assumes "wheel_reach w" "nextTimerId w + 1 < 2 ^ 64" "currentSlot w + wheel_ticks w ms < 2 ^ 32"
    and "TimerWheel_addTimer w ms PlainCallback = Some (i, w')"
  shows "\<exists>fs w''. TimerWheel_ticks n w' = Some (fs, w'') \<and>
           (\<forall>k < n. i \<in> set (fs ! k) \<longleftrightarrow> k = wheel_ticks w ms) \<and>
           (n = Suc (wheel_ticks w ms) \<longrightarrow> int ms < currentTime w'' - currentTime w \<and>
              currentTime w'' - currentTime w \<le> max (int ms) (int (tickMs w)) + int (tickMs w))"
proof -
  have inv: "wheel_inv w" "wheel_plain w" using wheel_reach_inv[OF assms(1)] by auto
  note add = wheel_add[OF inv(1) assms(2-4)]
  have c: "countdown w' i = Some (wheel_ticks w ms)" using add(2) by (simp add: spec_add_def)
  obtain fs w'' where r: "TimerWheel_ticks n w' = Some (fs, w'')"
    "\<forall>k < n. i \<in> set (fs ! k) \<longleftrightarrow> k = wheel_ticks w ms"
    "currentTime w'' = currentTime w' + int n * int (tickMs w')"
    using ticks_countdown[OF add(1) add(6)[OF inv(2) refl] c] by blast
  have tick: "0 < tickMs w" using inv(1) by (simp add: wheel_inv_def)
  have "ms < Suc (wheel_ticks w ms) * tickMs w"
    using tick dividend_less_times_div[of "tickMs w" ms]
    by (auto simp: wheel_ticks_def mult.commute)
  moreover have "wheel_ticks w ms * tickMs w \<le> max ms (tickMs w)"
    by (simp add: wheel_ticks_def max.coboundedI1)
  ultimately have "int ms < int (Suc (wheel_ticks w ms)) * int (tickMs w)"
    "int (wheel_ticks w ms) * int (tickMs w) \<le> max (int ms) (int (tickMs w))"
    by (metis of_nat_less_iff of_nat_mult, metis of_nat_le_iff of_nat_mult of_nat_max)
  then show ?thesis using r add(4,5) by (auto simp: algebra_simps)
qed

lemma TimerWheel_fires_on_time_witness:
  "\<exists>i w' fs w''. TimerWheel_addTimer (TimerWheel_new 100 2 0) 250 PlainCallback = Some (i, w') \<and>
     TimerWheel_ticks 3 w' = Some (fs, w'') \<and> i \<in> set (fs ! 2) \<and> i \<notin> set (fs ! 1) \<and> i \<notin> set (fs ! 0)"
proof -
  let ?w = "TimerWheel_new 100 2 0"
  have r: "wheel_reach ?w" by (rule wheel_start) simp_all
  obtain i w1 where a: "TimerWheel_addTimer ?w 250 PlainCallback = Some (i, w1)"
    by (simp add: TimerWheel_addTimer_def TimerWheel_generateTimerId_def TimerWheel_new_def Let_def)
  have t: "wheel_ticks ?w 250 = 2" by (simp add: wheel_ticks_def TimerWheel_new_def)
  have b: "nextTimerId ?w + 1 < 2 ^ 64" "currentSlot ?w + wheel_ticks ?w 250 < 2 ^ 32"
    by (simp_all add: t) (simp_all add: TimerWheel_new_def)
  obtain fs w2 where f: "TimerWheel_ticks 3 w1 = Some (fs, w2)"
    "\<forall>k < 3. i \<in> set (fs ! k) \<longleftrightarrow> k = wheel_ticks ?w 250"
    using TimerWheel_fires_on_time[OF r b a, of 3] by blast
  have "i \<in> set (fs ! 2)" "i \<notin> set (fs ! 1)" "i \<notin> set (fs ! 0)"
    using f(2) unfolding t by simp_all
  then show ?thesis using a f(1) by blast
qed

lemma run_slot_reentrant:
  "e \<in> set es \<Longrightarrow> te_rounds e = 0 \<Longrightarrow> te_callback e = WheelCallback \<Longrightarrow>
    TimerWheel_run_slot es m = None"
  by (induction es arbitrary: m) auto

text \<open>
  The callbacks of a tick run while the wheel's mutex, which is not recursive, is held.
  A due timer whose callback adds or cancels a timer of the same wheel therefore blocks the
  tick for ever.
\<close>

theorem TimerWheel_reentrant_callback_deadlocks:
  assumes "wheel_inv w" "s < wheelSize w" "e \<in> set (wheel w ! s)" "te_callback e = WheelCallback"
    and "countdown w (te_id e) = Some 0"
  shows "TimerWheel_tick w = None"
proof -
  have "ticks_left w s e = 0" using countdown_entry[OF assms(1-3)] assms(5) by simp
  then have "te_rounds e = 0" "(s + wheelSize w - currentSlot w) mod wheelSize w = 0"
    using assms(2) by (auto simp: ticks_left_def)
  moreover have "s = currentSlot w"
    using calculation(2) mod_step[of "currentSlot w" "wheelSize w" s] assms(1,2)
    by (auto simp: wheel_inv_def)
  ultimately show ?thesis
    using run_slot_reentrant[of e "wheel w ! s" "timerMap w"] assms(3,4)
    by (simp add: TimerWheel_tick_def)
qed

lemma TimerWheel_reentrant_callback_deadlocks_witness:
  "\<exists>i w' fs w''. TimerWheel_addTimer (TimerWheel_new 100 2 0) 50 WheelCallback = Some (i, w') \<and>
     TimerWheel_ticks 1 w' = Some (fs, w'') \<and> TimerWheel_tick w'' = None"
proof -
  let ?e = "\<lparr>te_id = 1, te_rounds = 0, te_callback = WheelCallback\<rparr>"
  let ?w1 = "\<lparr>tickMs = 100, wheelSize = 2, currentSlot = 0, currentTime = 0, wheel = [[], [?e]],
      timerMap = [1 \<mapsto> 1], nextTimerId = 2\<rparr>"
  let ?w2 = "\<lparr>tickMs = 100, wheelSize = 2, currentSlot = 1, currentTime = 100, wheel = [[], [?e]],
      timerMap = [1 \<mapsto> 1], nextTimerId = 2\<rparr>"
  have two_slots: "replicate 2 [] = [[], [] :: timer_entry list]"
    by (simp add: numeral_2_eq_2)
  have two: "s < 2 \<longleftrightarrow> s = 0 \<or> s = 1" for s :: nat by auto
  have a: "TimerWheel_addTimer (TimerWheel_new 100 2 0) 50 WheelCallback = Some (1, ?w1)"
    by (simp add: TimerWheel_addTimer_def TimerWheel_generateTimerId_def TimerWheel_new_def Let_def
        two_slots)
  have b: "TimerWheel_ticks 1 ?w1 = Some ([[]], ?w2)"
    by (simp add: TimerWheel_tick_def)
  have inv: "wheel_inv ?w2" by (auto simp: wheel_inv_def two)
  have "countdown ?w2 1 = Some 0" by (simp add: countdown_def ticks_left_def)
  then have "TimerWheel_tick ?w2 = None"
    using TimerWheel_reentrant_callback_deadlocks[OF inv, of 1 ?e] by simp
  then show ?thesis using a b by blast
qed

end
