(* ===== verification/Timers.thy ===== *)
theory Timers
  imports Prelude "HOL-Library.Monad_Syntax" "HOL-Library.Product_Lexorder"
begin

text \<open>
  \<^verbatim>\<open>src/common/timer/timer.h\<close>, \<^verbatim>\<open>timer_manager.h\<close> and
  \<^verbatim>\<open>timer_manager.cpp\<close>. Timers are heap objects owned by the manager: the ordered
  set \<open>timers\<close> holds their addresses, a timer's identity towards the caller is the pair
  of its address and its sequence number. The heap is a map from addresses to timers; the
  allocator \<open>alloc\<close> is a parameter that only promises an address that is not in use, so
  the address of a deleted timer may come back. A callback is the list of things it does:
  add a timer, cancel one, or an effect outside the manager. \<open>None\<close> is an access through
  a dangling pointer.
\<close>

subsection \<open>Timers\<close>

datatype timer_action =
  AddTimer int "timer_action list" int
| CancelTimer nat int
| Effect nat

record timer =
  callback :: "timer_action list"
  expiration :: int
  interval :: int
  repeat :: bool
  t_sequence :: int

definition Timer_new :: "timer_action list \<Rightarrow> int \<Rightarrow> int \<Rightarrow> int \<Rightarrow> timer" where
  "Timer_new cb when' intv sq =
     \<lparr>callback = cb, expiration = when', interval = intv, repeat = (0 < intv), t_sequence = sq\<rparr>"

definition Timer_restart :: "timer \<Rightarrow> int \<Rightarrow> timer" where
  "Timer_restart t now =
     (if repeat t then t\<lparr>expiration := now + interval t\<rparr> else t\<lparr>expiration := 0\<rparr>)"

definition TimerComparator :: "timer \<Rightarrow> timer \<Rightarrow> bool" where
  "TimerComparator l r \<longleftrightarrow>
     (if expiration l \<noteq> expiration r then expiration l < expiration r
      else t_sequence l < t_sequence r)"

definition timer_key :: "timer \<Rightarrow> int \<times> int" where
  "timer_key t = (expiration t, t_sequence t)"

lemma TimerComparator_key: "TimerComparator l r \<longleftrightarrow> timer_key l < timer_key r"
  by (auto simp: TimerComparator_def timer_key_def)

subsection \<open>The manager\<close>

type_synonym timer_heap = "nat \<rightharpoonup> timer"

record timer_manager =
  heap :: timer_heap
  timers :: "nat list"
  activeTimers :: "(nat \<times> int) set"
  callingExpiredTimers :: bool
  cancelingTimers :: "(nat \<times> int) set"
  numCreated :: int

definition TimerManager_new :: "bool \<Rightarrow> int \<Rightarrow> timer_manager" where
  "TimerManager_new junk created =
     \<lparr>heap = Map.empty, timers = [], activeTimers = {}, callingExpiredTimers = junk,
      cancelingTimers = {}, numCreated = created\<rparr>"

text \<open>The ordered set: insertion at the place of the key, removal of the equivalent key.\<close>

definition key_at :: "timer_heap \<Rightarrow> nat \<Rightarrow> int \<times> int" where
  "key_at h a = timer_key (the (h a))"

fun set_insert :: "timer_heap \<Rightarrow> nat \<Rightarrow> nat list \<Rightarrow> nat list" where
  "set_insert h a [] = [a]"
| "set_insert h a (b # bs) =
     (if TimerComparator (the (h a)) (the (h b)) then a # b # bs
      else if TimerComparator (the (h b)) (the (h a)) then b # set_insert h a bs
      else b # bs)"

definition set_erase :: "timer_heap \<Rightarrow> nat \<Rightarrow> nat list \<Rightarrow> nat list" where
  "set_erase h a bs =
     filter (\<lambda>b. TimerComparator (the (h a)) (the (h b)) \<or> TimerComparator (the (h b)) (the (h a))) bs"

definition TimerManager_addTimerInLoop :: "nat \<Rightarrow> timer_manager \<Rightarrow> timer_manager option" where
  "TimerManager_addTimerInLoop a m =
     (case heap m a of
        None \<Rightarrow> None
      | Some t \<Rightarrow> Some (m\<lparr>timers := set_insert (heap m) a (timers m),
                          activeTimers := insert (a, t_sequence t) (activeTimers m)\<rparr>))"

definition TimerManager_addTimer ::
    "(timer_heap \<Rightarrow> nat) \<Rightarrow> int \<Rightarrow> timer_action list \<Rightarrow> int \<Rightarrow> timer_manager
       \<Rightarrow> ((nat \<times> int) \<times> timer_manager) option" where
  "TimerManager_addTimer alloc when' cb intv m =
     (let sq = wrap64 (numCreated m + 1); a = alloc (heap m);
          m1 = m\<lparr>numCreated := sq, heap := (heap m)(a \<mapsto> Timer_new cb when' intv sq)\<rparr>
      in do { m2 \<leftarrow> TimerManager_addTimerInLoop a m1; Some ((a, sq), m2) })"

definition TimerManager_cancel :: "nat \<times> int \<Rightarrow> timer_manager \<Rightarrow> timer_manager option" where
  "TimerManager_cancel tid m =
     (if tid \<in> activeTimers m
      then (case heap m (fst tid) of
              None \<Rightarrow> None
            | Some t \<Rightarrow> Some (m\<lparr>timers := set_erase (heap m) (fst tid) (timers m),
                                heap := (heap m)(fst tid := None),
                                activeTimers := activeTimers m - {tid}\<rparr>))
      else if callingExpiredTimers m
      then Some (m\<lparr>cancelingTimers := insert tid (cancelingTimers m)\<rparr>)
      else Some m)"

definition TimerManager_getExpiredTimers :: "int \<Rightarrow> timer_manager \<Rightarrow> nat list \<times> timer_manager" where
  "TimerManager_getExpiredTimers now m =
     (let sentry = Timer_new [] now 0 (wrap64 (numCreated m + 1));
          expired = takeWhile (\<lambda>a. TimerComparator (the (heap m a)) sentry) (timers m)
      in (expired,
          m\<lparr>numCreated := wrap64 (numCreated m + 1),
            timers := drop (length expired) (timers m),
            activeTimers := activeTimers m - (\<lambda>a. (a, t_sequence (the (heap m a)))) ` set expired\<rparr>))"

text \<open>What one callback does, action by action, with the effects it has outside.\<close>

fun run_actions ::
    "(timer_heap \<Rightarrow> nat) \<Rightarrow> timer_action list \<Rightarrow> timer_manager \<Rightarrow> (nat list \<times> timer_manager) option" where
  "run_actions alloc [] m = Some ([], m)"
| "run_actions alloc (AddTimer w cb i # as) m =
     do { (_, m1) \<leftarrow> TimerManager_addTimer alloc w cb i m; run_actions alloc as m1 }"
| "run_actions alloc (CancelTimer a sq # as) m =
     do { m1 \<leftarrow> TimerManager_cancel (a, sq) m; run_actions alloc as m1 }"
| "run_actions alloc (Effect n # as) m =
     do { (es, m1) \<leftarrow> run_actions alloc as m; Some (n # es, m1) }"

fun run_expired ::
    "(timer_heap \<Rightarrow> nat) \<Rightarrow> nat list \<Rightarrow> timer_manager \<Rightarrow> (nat list \<times> timer_manager) option" where
  "run_expired alloc [] m = Some ([], m)"
| "run_expired alloc (a # rest) m =
     (case heap m a of
        None \<Rightarrow> None
      | Some t \<Rightarrow> do { (es, m1) \<leftarrow> run_actions alloc (callback t) m;
                       (es', m2) \<leftarrow> run_expired alloc rest m1;
                       Some (es @ es', m2) })"

fun reset_loop :: "int \<Rightarrow> nat list \<Rightarrow> timer_manager \<Rightarrow> timer_manager option" where
  "reset_loop now [] m = Some m"
| "reset_loop now (a # rest) m =
     (case heap m a of
        None \<Rightarrow> None
      | Some t \<Rightarrow>
          if (a, t_sequence t) \<notin> cancelingTimers m \<and> repeat t
          then do { m1 \<leftarrow> TimerManager_addTimerInLoop a (m\<lparr>heap := (heap m)(a \<mapsto> Timer_restart t now)\<rparr>);
                    reset_loop now rest m1 }
          else reset_loop now rest (m\<lparr>heap := (heap m)(a := None)\<rparr>))"

definition TimerManager_resetTimers :: "nat list \<Rightarrow> int \<Rightarrow> timer_manager \<Rightarrow> timer_manager option" where
  "TimerManager_resetTimers expired now m =
     do { m1 \<leftarrow> reset_loop now expired m; Some (m1\<lparr>cancelingTimers := {}\<rparr>) }"

text \<open>The clock is read twice: \<open>now1\<close> before the callbacks, \<open>now2\<close> after them.\<close>

definition TimerManager_processExpiredTimers ::
    "(timer_heap \<Rightarrow> nat) \<Rightarrow> int \<Rightarrow> int \<Rightarrow> timer_manager \<Rightarrow> (nat list \<times> timer_manager) option" where
  "TimerManager_processExpiredTimers alloc now1 now2 m =
     (let (expired, m1) = TimerManager_getExpiredTimers now1 m in
      do { (es, m2) \<leftarrow> run_expired alloc expired (m1\<lparr>callingExpiredTimers := True, cancelingTimers := {}\<rparr>);
           m3 \<leftarrow> TimerManager_resetTimers expired now2 (m2\<lparr>callingExpiredTimers := False\<rparr>);
           Some (es, m3) })"

definition TimerManager_getNextExpiration :: "timer_manager \<Rightarrow> int option" where
  "TimerManager_getNextExpiration m =
     (if timers m = [] then Some (- 1) else map_option expiration (heap m (hd (timers m))))"

definition TimerManager_hasTimer :: "timer_manager \<Rightarrow> bool" where
  "TimerManager_hasTimer m \<longleftrightarrow> timers m \<noteq> []"

definition TimerManager_destroy :: "timer_manager \<Rightarrow> timer_manager" where
  "TimerManager_destroy m = m\<lparr>heap := (heap m) |` (- set (timers m))\<rparr>"

subsection \<open>Invariant\<close>

text \<open>
  \<open>batch\<close> is the list of the timers that are being run and are in no container. No
  object is leaked or dangling: the heap holds the timers of the set and of the batch.
\<close>

definition seqs_ok :: "timer_manager \<Rightarrow> bool" where
  "seqs_ok m \<longleftrightarrow> (\<forall>a t. heap m a = Some t \<longrightarrow> t_sequence t \<le> numCreated m) \<and>
     (\<forall>a b t u. heap m a = Some t \<longrightarrow> heap m b = Some u \<longrightarrow> t_sequence t = t_sequence u \<longrightarrow> a = b)"

definition tm_inv :: "nat list \<Rightarrow> timer_manager \<Rightarrow> bool" where
  "tm_inv batch m \<longleftrightarrow>
     - (2 ^ 63) \<le> numCreated m \<and> seqs_ok m \<and>
     dom (heap m) = set (timers m) \<union> set batch \<and> set (timers m) \<inter> set batch = {} \<and> distinct batch \<and>
     sorted_wrt (\<lambda>a b. key_at (heap m) a < key_at (heap m) b) (timers m) \<and>
     activeTimers m = (\<lambda>a. (a, t_sequence (the (heap m a)))) ` set (timers m)"

definition allocates :: "(timer_heap \<Rightarrow> nat) \<Rightarrow> bool" where
  "allocates alloc \<longleftrightarrow> (\<forall>h. finite (dom h) \<longrightarrow> h (alloc h) = None)"

text \<open>The number of timers an action list creates, nested callbacks not counted.\<close>

fun adds :: "timer_action list \<Rightarrow> nat" where
  "adds [] = 0"
| "adds (AddTimer w cb i # as) = Suc (adds as)"
| "adds (a # as) = adds as"

fun effects_of :: "timer_action list \<Rightarrow> nat list" where
  "effects_of [] = []"
| "effects_of (Effect n # as) = n # effects_of as"
| "effects_of (a # as) = effects_of as"

subsection \<open>The ordered set\<close>

lemma key_at_upd: "key_at (h(a \<mapsto> t)) b = (if b = a then timer_key t else key_at h b)"
  by (simp add: key_at_def)

lemma set_insert_simps:
  "set_insert h a (b # bs) = (if key_at h a < key_at h b then a # b # bs
     else if key_at h b < key_at h a then b # set_insert h a bs else b # bs)"
  by (simp add: TimerComparator_key key_at_def)

declare set_insert.simps(2) [simp del]

lemma set_set_insert:
  "\<forall>b \<in> set bs. key_at h b \<noteq> key_at h a \<Longrightarrow> set (set_insert h a bs) = insert a (set bs)"
  by (induction bs) (auto simp: set_insert_simps)

lemma sorted_set_insert:
  assumes "sorted_wrt (\<lambda>a b. key_at h a < key_at h b) bs" "\<forall>b \<in> set bs. key_at h b \<noteq> key_at h a"
  shows "sorted_wrt (\<lambda>a b. key_at h a < key_at h b) (set_insert h a bs)"
  using assms by (induction bs) (auto simp: set_insert_simps set_set_insert)

lemma set_erase_key:
  "set_erase h a bs = filter (\<lambda>b. key_at h b \<noteq> key_at h a) bs"
  by (auto simp: set_erase_def TimerComparator_key key_at_def intro!: filter_cong)

lemma sorted_key_cong:
  "(\<And>b. b \<in> set bs \<Longrightarrow> key_at h' b = key_at h b) \<Longrightarrow>
    sorted_wrt (\<lambda>a b. key_at h' a < key_at h' b) bs = sorted_wrt (\<lambda>a b. key_at h a < key_at h b) bs"
  by (induction bs) auto

lemma tm_inv_parts:
  assumes "tm_inv batch m"
  shows "seqs_ok m" "dom (heap m) = set (timers m) \<union> set batch"
    "sorted_wrt (\<lambda>a b. key_at (heap m) a < key_at (heap m) b) (timers m)"
    "activeTimers m = (\<lambda>a. (a, t_sequence (the (heap m a)))) ` set (timers m)"
    "- (2 ^ 63) \<le> numCreated m"
  using assms unfolding tm_inv_def by blast+

lemma tm_invD:
  assumes "tm_inv batch m"
  shows "finite (dom (heap m))" "a \<in> set (timers m) \<Longrightarrow> \<exists>t. heap m a = Some t"
    "a \<in> set batch \<Longrightarrow> \<exists>t. heap m a = Some t" "a \<in> set batch \<Longrightarrow> a \<notin> set (timers m)"
    "(a, sq) \<in> activeTimers m \<longleftrightarrow> a \<in> set (timers m) \<and> sq = t_sequence (the (heap m a))"
proof -
  have d: "dom (heap m) = set (timers m) \<union> set batch" and "set (timers m) \<inter> set batch = {}"
    using assms by (simp_all add: tm_inv_def)
  then show "finite (dom (heap m))" "a \<in> set (timers m) \<Longrightarrow> \<exists>t. heap m a = Some t"
    "a \<in> set batch \<Longrightarrow> \<exists>t. heap m a = Some t" "a \<in> set batch \<Longrightarrow> a \<notin> set (timers m)" by auto
  show "(a, sq) \<in> activeTimers m \<longleftrightarrow> a \<in> set (timers m) \<and> sq = t_sequence (the (heap m a))"
    using assms by (auto simp: tm_inv_def)
qed

lemma key_inj: "seqs_ok m \<Longrightarrow> heap m a = Some t \<Longrightarrow> heap m b = Some u \<Longrightarrow>
    key_at (heap m) a = key_at (heap m) b \<Longrightarrow> a = b"
  by (auto simp: seqs_ok_def key_at_def timer_key_def)

text \<open>Putting a live timer that is in no container into the set.\<close>

lemma addTimerInLoop_inv:
  assumes "tm_inv (a # batch) m"
  obtains m' where "TimerManager_addTimerInLoop a m = Some m'" "tm_inv batch m'"
    "heap m' = heap m" "cancelingTimers m' = cancelingTimers m" "numCreated m' = numCreated m"
    "callingExpiredTimers m' = callingExpiredTimers m" "set (timers m') = insert a (set (timers m))"
proof -
  obtain t where t: "heap m a = Some t" using tm_invD(3)[OF assms, of a] by auto
  have a: "a \<notin> set (timers m)" using tm_invD(4)[OF assms, of a] by simp
  have k: "\<forall>b \<in> set (timers m). key_at (heap m) b \<noteq> key_at (heap m) a"
    using key_inj[of m _ _ a t] t a tm_invD(2)[OF assms] assms by (metis tm_inv_def)
  let ?m = "m\<lparr>timers := set_insert (heap m) a (timers m),
      activeTimers := insert (a, t_sequence t) (activeTimers m)\<rparr>"
  have s: "set (timers ?m) = insert a (set (timers m))" using set_set_insert[OF k] by simp
  have "sorted_wrt (\<lambda>a b. key_at (heap ?m) a < key_at (heap ?m) b) (timers ?m)"
    using sorted_set_insert[OF _ k] assms by (simp add: tm_inv_def)
  moreover have "seqs_ok ?m" using assms by (simp add: tm_inv_def seqs_ok_def)
  ultimately have "tm_inv batch ?m"
    using assms s a t unfolding tm_inv_def by auto
  moreover have "TimerManager_addTimerInLoop a m = Some ?m"
    using t by (simp add: TimerManager_addTimerInLoop_def)
  ultimately show ?thesis using that s by simp
qed

lemma addTimer_inv:
  assumes "tm_inv batch m" "allocates alloc" "numCreated m + 1 < 2 ^ 63"
  obtains a m' where "TimerManager_addTimer alloc w cb i m = Some ((a, numCreated m + 1), m')"
    "tm_inv batch m'" "heap m a = None" "heap m' = (heap m)(a \<mapsto> Timer_new cb w i (numCreated m + 1))"
    "cancelingTimers m' = cancelingTimers m" "numCreated m' = numCreated m + 1"
    "callingExpiredTimers m' = callingExpiredTimers m" "set (timers m') = insert a (set (timers m))"
proof -
  define a where "a = alloc (heap m)"
  have free: "heap m a = None"
    using assms(1,2) tm_invD(1) unfolding a_def allocates_def by blast
  have sq: "wrap64 (numCreated m + 1) = numCreated m + 1"
    using assms(1,3) by (intro wrap64_small) (auto simp: tm_inv_def)
  let ?m = "m\<lparr>numCreated := numCreated m + 1,
      heap := (heap m)(a \<mapsto> Timer_new cb w i (numCreated m + 1))\<rparr>"
  have out: "a \<notin> set (timers m)" "a \<notin> set batch"
    using free tm_invD(2,3)[OF assms(1), of a] by auto
  have old: "t_sequence t \<noteq> numCreated m + 1" if "heap m b = Some t" for b t
    using assms(1) that unfolding tm_inv_def seqs_ok_def
    by (metis add_le_same_cancel1 not_one_le_zero)
  have "seqs_ok ?m"
    using assms(1) old unfolding tm_inv_def seqs_ok_def
    by (auto simp: Timer_new_def) (metis add.commute zle_add1_eq_le zless_add1_eq)+
  moreover have "activeTimers m = (\<lambda>a. (a, t_sequence (the (heap ?m a)))) ` set (timers m)"
    using assms(1) out by (auto simp: tm_inv_def intro!: image_cong)
  moreover have "sorted_wrt (\<lambda>x y. key_at (heap ?m) x < key_at (heap ?m) y) (timers m)"
  proof -
    have "sorted_wrt (\<lambda>x y. key_at (heap ?m) x < key_at (heap ?m) y) (timers m) =
        sorted_wrt (\<lambda>x y. key_at (heap m) x < key_at (heap m) y) (timers m)"
      by (rule sorted_key_cong) (use out in \<open>auto simp: key_at_upd\<close>)
    then show ?thesis using assms(1) by (simp add: tm_inv_def)
  qed
  ultimately have "tm_inv (a # batch) ?m"
    using assms(1) out unfolding tm_inv_def by auto
  then obtain m' where m': "TimerManager_addTimerInLoop a ?m = Some m'" "tm_inv batch m'"
    "heap m' = heap ?m" "cancelingTimers m' = cancelingTimers ?m" "numCreated m' = numCreated ?m"
    "callingExpiredTimers m' = callingExpiredTimers ?m" "set (timers m') = insert a (set (timers ?m))"
    by (rule addTimerInLoop_inv)
  then have "TimerManager_addTimer alloc w cb i m = Some ((a, numCreated m + 1), m')"
    by (simp add: TimerManager_addTimer_def Let_def sq a_def)
  then show ?thesis using that m' free by simp
qed

lemma cancel_inv:
  assumes "tm_inv batch m"
  obtains m' where "TimerManager_cancel (a, sq) m = Some m'" "tm_inv batch m'"
    "\<And>b. b \<noteq> a \<or> (a, sq) \<notin> activeTimers m \<Longrightarrow> heap m' b = heap m b"
    "(a, sq) \<in> activeTimers m \<Longrightarrow> heap m' a = None"
    "cancelingTimers m' = (if callingExpiredTimers m \<and> (a, sq) \<notin> activeTimers m
       then insert (a, sq) (cancelingTimers m) else cancelingTimers m)"
    "numCreated m' = numCreated m" "callingExpiredTimers m' = callingExpiredTimers m"
proof (cases "(a, sq) \<in> activeTimers m")
  case False
  let ?m = "if callingExpiredTimers m then m\<lparr>cancelingTimers := insert (a, sq) (cancelingTimers m)\<rparr> else m"
  have "TimerManager_cancel (a, sq) m = Some ?m" using False by (simp add: TimerManager_cancel_def)
  moreover have "tm_inv batch ?m" using assms by (auto simp: tm_inv_def seqs_ok_def)
  ultimately show ?thesis by (rule that) (use False in auto)
next
  case True
  then have a: "a \<in> set (timers m)" "sq = t_sequence (the (heap m a))"
    using tm_invD(5)[OF assms] by auto
  then obtain t where t: "heap m a = Some t" using tm_invD(2)[OF assms] by blast
  have er: "set_erase (heap m) a (timers m) = filter (\<lambda>b. b \<noteq> a) (timers m)"
    unfolding set_erase_key
  proof (rule filter_cong[OF refl])
    fix b assume "b \<in> set (timers m)"
    then show "key_at (heap m) b \<noteq> key_at (heap m) a \<longleftrightarrow> b \<noteq> a"
      using key_inj[of m b _ a t] t tm_invD(2)[OF assms, of b] assms by (auto simp: tm_inv_def)
  qed
  let ?m = "m\<lparr>timers := filter (\<lambda>b. b \<noteq> a) (timers m), heap := (heap m)(a := None),
      activeTimers := activeTimers m - {(a, sq)}\<rparr>"
  have "TimerManager_cancel (a, sq) m = Some ?m"
    using True t er by (simp add: TimerManager_cancel_def)
  moreover have "tm_inv batch ?m"
  proof -
    have "sorted_wrt (\<lambda>x y. key_at (heap ?m) x < key_at (heap ?m) y) (timers ?m) =
        sorted_wrt (\<lambda>x y. key_at (heap m) x < key_at (heap m) y) (timers ?m)"
      by (rule sorted_key_cong) (auto simp: key_at_def)
    moreover have "seqs_ok ?m" using assms by (auto simp: tm_inv_def seqs_ok_def)
    moreover have "activeTimers ?m = (\<lambda>b. (b, t_sequence (the (heap ?m b)))) ` set (timers ?m)"
      using assms a by (auto simp: tm_inv_def)
    ultimately show ?thesis
      using assms a tm_invD(4)[OF assms, of a] unfolding tm_inv_def by (auto intro: sorted_wrt_filter)
  qed
  ultimately show ?thesis by (rule that) (use True in auto)
qed

subsection \<open>Running a batch\<close>

definition cancels :: "timer_action list \<Rightarrow> (nat \<times> int) set" where
  "cancels as = {(a, sq). CancelTimer a sq \<in> set as}"

lemma cancels_simps [simp]:
  "cancels [] = {}" "cancels (AddTimer w cb i # as) = cancels as"
  "cancels (CancelTimer a sq # as) = insert (a, sq) (cancels as)" "cancels (Effect n # as) = cancels as"
  by (auto simp: cancels_def)

text \<open>
  What the callbacks of a batch leave alone: the timers of the batch, and the record of which
  of them were cancelled; and every timer none of them cancels.
\<close>

definition batch_step :: "nat list \<Rightarrow> (nat \<times> int) set \<Rightarrow> nat \<Rightarrow> timer_manager \<Rightarrow> timer_manager \<Rightarrow> bool" where
  "batch_step batch cs n m m' \<longleftrightarrow> tm_inv batch m' \<and> callingExpiredTimers m' \<and>
     (\<forall>b \<in> set batch. heap m' b = heap m b) \<and> numCreated m' = numCreated m + int n \<and>
     (\<forall>a \<in> set batch. \<forall>sq. (a, sq) \<in> cancelingTimers m' \<longleftrightarrow> (a, sq) \<in> cancelingTimers m \<or> (a, sq) \<in> cs) \<and>
     (\<forall>b t. heap m b = Some t \<longrightarrow> (b, t_sequence t) \<notin> cs \<longrightarrow> heap m' b = Some t)"

lemma batch_step_refl: "tm_inv batch m \<Longrightarrow> callingExpiredTimers m \<Longrightarrow> batch_step batch {} 0 m m"
  by (simp add: batch_step_def)

lemma batch_step_trans:
  "batch_step batch cs n m m1 \<Longrightarrow> batch_step batch cs' n' m1 m2 \<Longrightarrow> batch_step batch (cs \<union> cs') (n + n') m m2"
  by (auto simp: batch_step_def)

lemma batch_step_add:
  assumes "tm_inv batch m" "callingExpiredTimers m" "allocates alloc" "numCreated m + 1 < 2 ^ 63"
  obtains tid m' where "TimerManager_addTimer alloc w cb i m = Some (tid, m')" "batch_step batch {} 1 m m'"
proof -
  obtain a m' where m': "TimerManager_addTimer alloc w cb i m = Some ((a, numCreated m + 1), m')"
    "tm_inv batch m'" "heap m a = None" "heap m' = (heap m)(a \<mapsto> Timer_new cb w i (numCreated m + 1))"
    "cancelingTimers m' = cancelingTimers m" "numCreated m' = numCreated m + 1"
    "callingExpiredTimers m' = callingExpiredTimers m"
    using addTimer_inv[OF assms(1,3,4)] by metis
  have "a \<notin> set batch" using m'(3) tm_invD(3)[OF assms(1), of a] by auto
  then have "batch_step batch {} 1 m m'"
    using m' assms(2) by (auto simp: batch_step_def)
  then show ?thesis using that m'(1) by blast
qed

lemma batch_step_cancel:
  assumes "tm_inv batch m" "callingExpiredTimers m"
  obtains m' where "TimerManager_cancel (a, sq) m = Some m'" "batch_step batch {(a, sq)} 0 m m'"
proof -
  obtain m' where m': "TimerManager_cancel (a, sq) m = Some m'" "tm_inv batch m'"
    "\<And>b. b \<noteq> a \<or> (a, sq) \<notin> activeTimers m \<Longrightarrow> heap m' b = heap m b"
    "cancelingTimers m' = (if callingExpiredTimers m \<and> (a, sq) \<notin> activeTimers m
       then insert (a, sq) (cancelingTimers m) else cancelingTimers m)"
    "numCreated m' = numCreated m" "callingExpiredTimers m' = callingExpiredTimers m"
    using cancel_inv[OF assms(1), of a sq] by metis
  have act: "a \<notin> set batch" if "(a, sq) \<in> activeTimers m"
    using that tm_invD(4,5)[OF assms(1)] by blast
  have "heap m' b = heap m b" if "b \<in> set batch" for b
    using m'(3)[of b] act that by blast
  moreover have "heap m' b = Some t" if "heap m b = Some t" "(b, t_sequence t) \<noteq> (a, sq)" for b t
    using m'(3)[of b] tm_invD(5)[OF assms(1), of a sq] that by (cases "b = a") auto
  ultimately have "batch_step batch {(a, sq)} 0 m m'"
    using m' assms(2) act by (auto simp: batch_step_def)
  then show ?thesis using that m'(1) by blast
qed

lemma run_actions_step:
  assumes "tm_inv batch m" "callingExpiredTimers m" "allocates alloc"
    and "numCreated m + int (adds as) < 2 ^ 63"
  shows "\<exists>m'. run_actions alloc as m = Some (effects_of as, m') \<and>
           batch_step batch (cancels as) (adds as) m m'"
  using assms
proof (induction as arbitrary: m)
  case Nil
  then show ?case by (simp add: batch_step_refl)
next
  case (Cons act as)
  show ?case
  proof (cases act)
    case (AddTimer w cb i)
    have "numCreated m + 1 < 2 ^ 63" using Cons.prems(4) AddTimer by simp
    then obtain tid m1 where a: "TimerManager_addTimer alloc w cb i m = Some (tid, m1)"
      and s: "batch_step batch {} 1 m m1"
      using batch_step_add[OF Cons.prems(1-3)] by blast
    then obtain m2 where "run_actions alloc as m1 = Some (effects_of as, m2)"
      "batch_step batch (cancels as) (adds as) m1 m2"
      using Cons.IH[of m1] Cons.prems(3,4) AddTimer by (auto simp: batch_step_def)
    then show ?thesis using a batch_step_trans[OF s] AddTimer by fastforce
  next
    case (CancelTimer a sq)
    obtain m1 where c: "TimerManager_cancel (a, sq) m = Some m1"
      and s: "batch_step batch {(a, sq)} 0 m m1"
      using batch_step_cancel[OF Cons.prems(1,2)] by blast
    then obtain m2 where "run_actions alloc as m1 = Some (effects_of as, m2)"
      "batch_step batch (cancels as) (adds as) m1 m2"
      using Cons.IH[of m1] Cons.prems(3,4) CancelTimer by (auto simp: batch_step_def)
    then show ?thesis using c batch_step_trans[OF s] CancelTimer by fastforce
  next
    case (Effect n)
    then show ?thesis using Cons.IH[OF Cons.prems(1-3)] Cons.prems(4) by auto
  qed
qed

definition callback_at :: "timer_manager \<Rightarrow> nat \<Rightarrow> timer_action list" where
  "callback_at m a = callback (the (heap m a))"

definition batch_cancels :: "timer_manager \<Rightarrow> nat list \<Rightarrow> (nat \<times> int) set" where
  "batch_cancels m as = (\<Union>a \<in> set as. cancels (callback_at m a))"

definition batch_adds :: "timer_manager \<Rightarrow> nat list \<Rightarrow> nat" where
  "batch_adds m as = sum_list (map (\<lambda>a. adds (callback_at m a)) as)"

lemma run_expired_step:
  assumes "tm_inv batch m" "callingExpiredTimers m" "allocates alloc" "set as \<subseteq> set batch"
    and "numCreated m + int (batch_adds m as) < 2 ^ 63"
  shows "\<exists>m'. run_expired alloc as m = Some (concat (map (\<lambda>a. effects_of (callback_at m a)) as), m') \<and>
           batch_step batch (batch_cancels m as) (batch_adds m as) m m'"
  using assms
proof (induction as arbitrary: m)
  case Nil
  then show ?case by (simp add: batch_step_refl batch_cancels_def batch_adds_def)
next
  case (Cons a as)
  obtain t where t: "heap m a = Some t" using tm_invD(3)[OF Cons.prems(1)] Cons.prems(4) by auto
  then have cb: "callback_at m a = callback t" by (simp add: callback_at_def)
  have "numCreated m + int (adds (callback t)) < 2 ^ 63"
    using Cons.prems(5) cb by (simp add: batch_adds_def)
  then obtain m1 where r: "run_actions alloc (callback t) m = Some (effects_of (callback t), m1)"
    and s: "batch_step batch (cancels (callback t)) (adds (callback t)) m m1"
    using run_actions_step[OF Cons.prems(1-3)] by blast
  have same: "callback_at m1 b = callback_at m b" if "b \<in> set as" for b
    using s that Cons.prems(4) by (auto simp: batch_step_def callback_at_def)
  then have eqs: "batch_cancels m1 as = batch_cancels m as" "batch_adds m1 as = batch_adds m as"
    "map (\<lambda>a. effects_of (callback_at m1 a)) as = map (\<lambda>a. effects_of (callback_at m a)) as"
    by (auto simp: batch_cancels_def batch_adds_def intro!: arg_cong[where f = sum_list])
  have "numCreated m1 + int (batch_adds m1 as) < 2 ^ 63"
    using Cons.prems(5) s cb eqs by (simp add: batch_adds_def batch_step_def)
  then obtain m2 where r2: "run_expired alloc as m1 = Some (concat (map (\<lambda>a. effects_of (callback_at m a)) as), m2)"
    and s2: "batch_step batch (batch_cancels m as) (batch_adds m as) m1 m2"
    using Cons.IH[of m1] Cons.prems(3,4) s unfolding eqs by (auto simp: batch_step_def)
  show ?case
    using t r r2 batch_step_trans[OF s s2] cb by (simp add: batch_cancels_def batch_adds_def)
qed

lemma sorted_heap_upd:
  assumes "a \<notin> set bs"
  shows "sorted_wrt (\<lambda>x y. key_at (h(a := t)) x < key_at (h(a := t)) y) bs =
         sorted_wrt (\<lambda>x y. key_at h x < key_at h y) bs"
  by (rule sorted_key_cong) (use assms in \<open>auto simp: key_at_def\<close>)

lemma reset_loop_inv:
  assumes "tm_inv batch m"
  shows "\<exists>m'. reset_loop now batch m = Some m' \<and> tm_inv [] m' \<and> numCreated m' = numCreated m \<and>
           callingExpiredTimers m' = callingExpiredTimers m \<and>
           (\<forall>a. heap m' a =
              (if a \<notin> set batch then heap m a
               else if (a, t_sequence (the (heap m a))) \<notin> cancelingTimers m \<and> repeat (the (heap m a))
               then Some (Timer_restart (the (heap m a)) now) else None))"
  using assms
proof (induction batch arbitrary: m)
  case Nil
  then show ?case by simp
next
  case (Cons a batch)
  obtain t where t: "heap m a = Some t" using tm_invD(3)[OF Cons.prems, of a] by auto
  have a: "a \<notin> set (timers m)" "a \<notin> set batch"
    using tm_invD(4)[OF Cons.prems, of a] Cons.prems by (auto simp: tm_inv_def)
  show ?case
  proof (cases "(a, t_sequence t) \<notin> cancelingTimers m \<and> repeat t")
    case True
    let ?m = "m\<lparr>heap := (heap m)(a \<mapsto> Timer_restart t now)\<rparr>"
    have "t_sequence (Timer_restart t now) = t_sequence t" by (simp add: Timer_restart_def)
    then have "seqs_ok ?m"
      using Cons.prems t unfolding tm_inv_def seqs_ok_def by (auto split: if_splits)
    moreover have "activeTimers m = (\<lambda>b. (b, t_sequence (the (heap ?m b)))) ` set (timers m)"
      using Cons.prems a by (auto simp: tm_inv_def intro!: image_cong)
    ultimately have "tm_inv (a # batch) ?m"
      using Cons.prems a sorted_heap_upd[OF a(1)] unfolding tm_inv_def by auto
    then obtain m1 where m1: "TimerManager_addTimerInLoop a ?m = Some m1" "tm_inv batch m1"
      "heap m1 = heap ?m" "cancelingTimers m1 = cancelingTimers ?m" "numCreated m1 = numCreated ?m"
      "callingExpiredTimers m1 = callingExpiredTimers ?m"
      by (rule addTimerInLoop_inv)
    obtain m' where m': "reset_loop now batch m1 = Some m'" "tm_inv [] m'" "numCreated m' = numCreated m1"
      "callingExpiredTimers m' = callingExpiredTimers m1"
      "\<forall>b. heap m' b = (if b \<notin> set batch then heap m1 b
         else if (b, t_sequence (the (heap m1 b))) \<notin> cancelingTimers m1 \<and> repeat (the (heap m1 b))
         then Some (Timer_restart (the (heap m1 b)) now) else None)"
      using Cons.IH[OF m1(2)] by blast
    have "\<forall>b. heap m' b = (if b \<notin> set (a # batch) then heap m b
         else if (b, t_sequence (the (heap m b))) \<notin> cancelingTimers m \<and> repeat (the (heap m b))
         then Some (Timer_restart (the (heap m b)) now) else None)"
      using m'(5) m1(3,4) t True a(2) by auto
    then show ?thesis using t True m1 m' by simp
  next
    case False
    let ?m = "m\<lparr>heap := (heap m)(a := None)\<rparr>"
    have "seqs_ok ?m" using Cons.prems unfolding tm_inv_def seqs_ok_def by auto
    moreover have "activeTimers m = (\<lambda>b. (b, t_sequence (the (heap ?m b)))) ` set (timers m)"
      using Cons.prems a by (auto simp: tm_inv_def intro!: image_cong)
    ultimately have "tm_inv batch ?m"
      using Cons.prems a sorted_heap_upd[OF a(1)] unfolding tm_inv_def by auto
    then obtain m' where m': "reset_loop now batch ?m = Some m'" "tm_inv [] m'" "numCreated m' = numCreated ?m"
      "callingExpiredTimers m' = callingExpiredTimers ?m"
      "\<forall>b. heap m' b = (if b \<notin> set batch then heap ?m b
         else if (b, t_sequence (the (heap ?m b))) \<notin> cancelingTimers ?m \<and> repeat (the (heap ?m b))
         then Some (Timer_restart (the (heap ?m b)) now) else None)"
      using Cons.IH by blast
    have "\<forall>b. heap m' b = (if b \<notin> set (a # batch) then heap m b
         else if (b, t_sequence (the (heap m b))) \<notin> cancelingTimers m \<and> repeat (the (heap m b))
         then Some (Timer_restart (the (heap m b)) now) else None)"
      using m'(5) t False a(2) by auto
    then show ?thesis using t False m' by auto
  qed
qed

subsection \<open>The timers that are due\<close>

definition due :: "int \<Rightarrow> timer_manager \<Rightarrow> nat list" where
  "due now m = filter (\<lambda>a. expiration (the (heap m a)) \<le> now) (timers m)"

lemma takeWhile_sorted:
  "sorted_wrt R xs \<Longrightarrow> (\<And>x y. R x y \<Longrightarrow> P y \<Longrightarrow> P x) \<Longrightarrow> takeWhile P xs = filter P xs"
  by (induction xs) (auto intro!: filter_eq_Nil[symmetric])

lemma sorted_key_distinct: "sorted_wrt (\<lambda>a b. f a < (f b :: 'b :: order)) xs \<Longrightarrow> distinct xs"
  by (induction xs) auto

lemma seqs_ok_more:
  assumes "seqs_ok m" "heap m' = heap m" "numCreated m \<le> numCreated m'"
  shows "seqs_ok m'"
proof -
  have "t_sequence t \<le> numCreated m'" if "heap m a = Some t" for a t
    using assms(1,3) that unfolding seqs_ok_def by (meson order.trans)
  then show ?thesis using assms(1) unfolding seqs_ok_def assms(2) by blast
qed

lemma due_takeWhile:
  assumes "tm_inv [] m"
  shows "takeWhile (\<lambda>a. TimerComparator (the (heap m a)) (Timer_new [] now 0 (numCreated m + 1)))
           (timers m) = due now m"
proof -
  let ?P = "\<lambda>a. TimerComparator (the (heap m a)) (Timer_new [] now 0 (numCreated m + 1))"
  have sorted: "sorted_wrt (\<lambda>a b. key_at (heap m) a < key_at (heap m) b) (timers m)"
    using assms(1) by (simp add: tm_inv_def)
  have "takeWhile ?P (timers m) = filter ?P (timers m)"
    by (rule takeWhile_sorted[OF sorted])
      (unfold TimerComparator_key key_at_def, erule (1) less_trans)
  also have "\<dots> = due now m"
    unfolding due_def
  proof (rule filter_cong[OF refl])
    fix a assume "a \<in> set (timers m)"
    then obtain t where t: "heap m a = Some t" using tm_invD(2)[OF assms(1)] by blast
    then have "t_sequence t < numCreated m + 1"
      using assms(1) by (auto simp: tm_inv_def seqs_ok_def)
    then show "?P a \<longleftrightarrow> expiration (the (heap m a)) \<le> now"
      unfolding t by (auto simp: TimerComparator_def Timer_new_def)
  qed
  finally show ?thesis .
qed

lemma due_rest:
  assumes "tm_inv [] m"
  obtains rest where "timers m = due now m @ rest" "rest = drop (length (due now m)) (timers m)"
    "set (due now m) \<inter> set rest = {}" "distinct (due now m)"
    "sorted_wrt (\<lambda>a b. key_at (heap m) a < key_at (heap m) b) rest"
proof -
  have sorted: "sorted_wrt (\<lambda>a b. key_at (heap m) a < key_at (heap m) b) (timers m)"
    using assms(1) by (simp add: tm_inv_def)
  define rest where "rest = drop (length (due now m)) (timers m)"
  have split: "timers m = due now m @ rest"
    unfolding rest_def due_takeWhile[OF assms, of now, symmetric]
    by (metis dropWhile_eq_drop takeWhile_dropWhile_id)
  have "distinct (timers m)" by (rule sorted_key_distinct[OF sorted])
  moreover have "sorted_wrt (\<lambda>a b. key_at (heap m) a < key_at (heap m) b) rest"
    using sorted by (metis split sorted_wrt_append)
  ultimately show ?thesis using that[OF split rest_def] by (metis distinct_append split)
qed

lemma getExpired_inv:
  assumes "tm_inv [] m" "numCreated m + 1 < 2 ^ 63"
  obtains m1 where "TimerManager_getExpiredTimers now m = (due now m, m1)" "tm_inv (due now m) m1"
    "heap m1 = heap m" "numCreated m1 = numCreated m + 1"
proof -
  have sq: "wrap64 (numCreated m + 1) = numCreated m + 1"
    using assms by (intro wrap64_small) (simp_all add: tm_inv_def)
  obtain rest where rest: "timers m = due now m @ rest" "rest = drop (length (due now m)) (timers m)"
    "set (due now m) \<inter> set rest = {}" "distinct (due now m)"
    "sorted_wrt (\<lambda>a b. key_at (heap m) a < key_at (heap m) b) rest"
    by (rule due_rest[OF assms(1)])
  let ?m = "m\<lparr>numCreated := numCreated m + 1, timers := rest,
      activeTimers := activeTimers m - (\<lambda>a. (a, t_sequence (the (heap m a)))) ` set (due now m)\<rparr>"
  have get: "TimerManager_getExpiredTimers now m = (due now m, ?m)"
    unfolding TimerManager_getExpiredTimers_def Let_def sq due_takeWhile[OF assms(1)] rest(2)[symmetric] ..
  have "seqs_ok ?m"
    by (rule seqs_ok_more[OF tm_inv_parts(1)[OF assms(1)]]) simp_all
  moreover have "activeTimers ?m = (\<lambda>a. (a, t_sequence (the (heap m a)))) ` set rest"
  proof -
    have "activeTimers m = (\<lambda>a. (a, t_sequence (the (heap m a)))) ` (set (due now m) \<union> set rest)"
      unfolding tm_inv_parts(4)[OF assms(1)] by (subst rest(1)) simp
    then show ?thesis using rest(3) by auto
  qed
  moreover have "dom (heap m) = set rest \<union> set (due now m)"
    unfolding tm_inv_parts(2)[OF assms(1)] by (subst rest(1)) auto
  ultimately have "tm_inv (due now m) ?m"
    using assms(1) rest(3-5) unfolding tm_inv_def by auto
  then show ?thesis using that[OF get] by simp
qed

subsection \<open>Reachable managers\<close>

inductive tm_reach :: "(timer_heap \<Rightarrow> nat) \<Rightarrow> timer_manager \<Rightarrow> bool" for alloc where
  tm_start: "0 \<le> n \<Longrightarrow> tm_reach alloc (TimerManager_new junk n)"
| tm_added: "tm_reach alloc m \<Longrightarrow> numCreated m + 1 < 2 ^ 63 \<Longrightarrow>
    TimerManager_addTimer alloc w cb i m = Some (tid, m') \<Longrightarrow> tm_reach alloc m'"
| tm_cancelled: "tm_reach alloc m \<Longrightarrow> TimerManager_cancel tid m = Some m' \<Longrightarrow> tm_reach alloc m'"
| tm_processed: "tm_reach alloc m \<Longrightarrow> numCreated m + 1 + int (batch_adds m (due now1 m)) < 2 ^ 63 \<Longrightarrow>
    TimerManager_processExpiredTimers alloc now1 now2 m = Some (es, m') \<Longrightarrow> tm_reach alloc m'"

lemma callback_at_cong: "heap m1 = heap m \<Longrightarrow> callback_at m1 = callback_at m"
  by (simp add: fun_eq_iff callback_at_def)

lemma tm_inv_flags [simp]:
  "tm_inv b (m\<lparr>callingExpiredTimers := c\<rparr>) = tm_inv b m"
  "tm_inv b (m\<lparr>cancelingTimers := cs\<rparr>) = tm_inv b m"
  by (simp_all add: tm_inv_def seqs_ok_def)

lemma process_inv:
  assumes "tm_inv [] m" "allocates alloc" "numCreated m + 1 + int (batch_adds m (due now1 m)) < 2 ^ 63"
  obtains m' where "TimerManager_processExpiredTimers alloc now1 now2 m =
      Some (concat (map (\<lambda>a. effects_of (callback_at m a)) (due now1 m)), m')"
    "tm_inv [] m'"
    "\<forall>a \<in> set (due now1 m). heap m' a =
       (if (a, t_sequence (the (heap m a))) \<notin> batch_cancels m (due now1 m) \<and> repeat (the (heap m a))
        then Some (Timer_restart (the (heap m a)) now2) else None)"
    "\<forall>b t. heap m b = Some t \<longrightarrow> b \<notin> set (due now1 m) \<longrightarrow> (b, t_sequence t) \<notin> batch_cancels m (due now1 m) \<longrightarrow>
       heap m' b = Some t"
proof -
  obtain m1 where m1: "TimerManager_getExpiredTimers now1 m = (due now1 m, m1)" "tm_inv (due now1 m) m1"
    "heap m1 = heap m" "numCreated m1 = numCreated m + 1"
    by (rule getExpired_inv[OF assms(1)]) (use assms(3) in linarith)
  let ?m1 = "m1\<lparr>callingExpiredTimers := True, cancelingTimers := {}\<rparr>"
  have cb: "callback_at ?m1 = callback_at m" using m1(3) by (intro callback_at_cong) simp
  then have eqs: "batch_cancels ?m1 = batch_cancels m" "batch_adds ?m1 = batch_adds m"
    by (simp_all add: fun_eq_iff batch_cancels_def batch_adds_def)
  have "tm_inv (due now1 m) ?m1" using m1(2) by simp
  then obtain m2 where m2: "run_expired alloc (due now1 m) ?m1 =
      Some (concat (map (\<lambda>a. effects_of (callback_at m a)) (due now1 m)), m2)"
    "batch_step (due now1 m) (batch_cancels m (due now1 m)) (batch_adds m (due now1 m)) ?m1 m2"
    using run_expired_step[of "due now1 m" ?m1 alloc "due now1 m"] assms(2,3) m1(4)
    unfolding eqs cb by auto
  let ?m2 = "m2\<lparr>callingExpiredTimers := False\<rparr>"
  have h: "heap ?m2 a = heap m a" if "a \<in> set (due now1 m)" for a
    using m2(2) that m1(3) by (simp add: batch_step_def)
  have k: "heap ?m2 b = Some t" if "heap m b = Some t" "(b, t_sequence t) \<notin> batch_cancels m (due now1 m)" for b t
    using m2(2) that m1(3) by (simp add: batch_step_def)
  have c: "(a, sq) \<in> cancelingTimers ?m2 \<longleftrightarrow> (a, sq) \<in> batch_cancels m (due now1 m)"
    if "a \<in> set (due now1 m)" for a sq
    using m2(2) that by (simp add: batch_step_def)
  have "tm_inv (due now1 m) ?m2" using m2(2) by (simp add: batch_step_def)
  then obtain m3 where m3: "reset_loop now2 (due now1 m) ?m2 = Some m3" "tm_inv [] m3"
    "\<forall>a. heap m3 a = (if a \<notin> set (due now1 m) then heap ?m2 a
       else if (a, t_sequence (the (heap ?m2 a))) \<notin> cancelingTimers ?m2 \<and> repeat (the (heap ?m2 a))
       then Some (Timer_restart (the (heap ?m2 a)) now2) else None)"
    using reset_loop_inv[of "due now1 m" ?m2 now2] by blast
  have "TimerManager_processExpiredTimers alloc now1 now2 m =
      Some (concat (map (\<lambda>a. effects_of (callback_at m a)) (due now1 m)), m3\<lparr>cancelingTimers := {}\<rparr>)"
    using m1(1) m2(1) m3(1)
    by (simp add: TimerManager_processExpiredTimers_def TimerManager_resetTimers_def)
  moreover have "tm_inv [] (m3\<lparr>cancelingTimers := {}\<rparr>)" using m3(2) by simp
  ultimately show ?thesis
    using that[of "m3\<lparr>cancelingTimers := {}\<rparr>"] m3(3) h c k by simp
qed

lemma tm_reach_inv: "tm_reach alloc m \<Longrightarrow> allocates alloc \<Longrightarrow> tm_inv [] m"
proof (induction rule: tm_reach.induct)
  case (tm_start n junk)
  then show ?case by (simp add: tm_inv_def seqs_ok_def TimerManager_new_def)
next
  case (tm_added m w cb i tid m')
  then show ?case by (metis addTimer_inv option.inject prod.inject)
next
  case (tm_cancelled m tid m')
  then show ?case by (metis cancel_inv option.inject surj_pair)
next
  case (tm_processed m now1 now2 es m')
  then show ?case by (metis process_inv option.inject prod.inject)
qed

lemma timers_least:
  assumes "tm_inv [] m" "a \<in> set (timers m)"
  shows "expiration (the (heap m (hd (timers m)))) \<le> expiration (the (heap m a))"
proof -
  obtain b bs where b: "timers m = b # bs" using assms(2) by (cases "timers m") auto
  have "sorted_wrt (\<lambda>a b. key_at (heap m) a < key_at (heap m) b) (b # bs)"
    using tm_inv_parts(3)[OF assms(1)] b by simp
  then have "a = b \<or> key_at (heap m) b < key_at (heap m) a" using assms(2) b by auto
  then show ?thesis using b by (auto simp: key_at_def timer_key_def)
qed

text \<open>A concrete allocator: the least address above all in use.\<close>

definition bump_alloc :: "timer_heap \<Rightarrow> nat" where
  "bump_alloc h = (if dom h = {} then 0 else Suc (Max (dom h)))"

lemma bump_allocates: "allocates bump_alloc"
  unfolding allocates_def
proof (intro allI impI)
  fix h :: timer_heap
  assume f: "finite (dom h)"
  show "h (bump_alloc h) = None"
  proof (cases "dom h = {}")
    case False
    then have "Suc (Max (dom h)) \<notin> dom h" using f Max_ge by fastforce
    then show ?thesis using False by (auto simp: bump_alloc_def)
  qed (simp add: bump_alloc_def)
qed

subsection \<open>Properties\<close>

lemma processExpiredTimers_runs_due_parts:
  assumes "tm_reach alloc m" "allocates alloc"
    and "numCreated m + 1 + int (batch_adds m (due now1 m)) < 2 ^ 63"
  shows "\<exists>m'. TimerManager_processExpiredTimers alloc now1 now2 m =
           Some (concat (map (\<lambda>a. effects_of (callback_at m a)) (due now1 m)), m')"
    and "set (due now1 m) = {a. \<exists>t. heap m a = Some t \<and> expiration t \<le> now1}"
    and "sorted_wrt (\<lambda>a b. TimerComparator (the (heap m a)) (the (heap m b))) (due now1 m)"
proof -
  note inv = tm_reach_inv[OF assms(1,2)]
  show "\<exists>m'. TimerManager_processExpiredTimers alloc now1 now2 m =
           Some (concat (map (\<lambda>a. effects_of (callback_at m a)) (due now1 m)), m')"
    by (rule process_inv[OF inv assms(2,3), of now2]) blast
  have "a \<in> set (timers m) \<longleftrightarrow> (\<exists>t. heap m a = Some t)" for a
    using tm_inv_parts(2)[OF inv] by auto
  then show "set (due now1 m) = {a. \<exists>t. heap m a = Some t \<and> expiration t \<le> now1}"
    by (auto simp: due_def)
  show "sorted_wrt (\<lambda>a b. TimerComparator (the (heap m a)) (the (heap m b))) (due now1 m)"
    using tm_inv_parts(3)[OF inv]
    unfolding due_def TimerComparator_key key_at_def[symmetric] by (rule sorted_wrt_filter)
qed

text \<open>
  C11: Processing the expired timers never touches a dangling timer and runs exactly the
  callbacks of the timers whose expiration is not after the clock, each once, in the order of
  their expirations and, for equal ones, of their creation, whatever timers the callbacks add
  or cancel meanwhile.
\<close>

theorem processExpiredTimers_runs_due:
  assumes "tm_reach alloc m" "allocates alloc"
    and "numCreated m + 1 + int (batch_adds m (due now1 m)) < 2 ^ 63"
  shows "((\<exists>m'. TimerManager_processExpiredTimers alloc now1 now2 m =
           Some (concat (map (\<lambda>a. effects_of (callback_at m a)) (due now1 m)), m'))) \<and>
    ((set (due now1 m) = {a. \<exists>t. heap m a = Some t \<and> expiration t \<le> now1})) \<and>
    (sorted_wrt (\<lambda>a b. TimerComparator (the (heap m a)) (the (heap m b))) (due now1 m))"
  using processExpiredTimers_runs_due_parts[OF assms] by blast

text \<open>A manager with a repeating timer that cancels itself and a one-shot timer.\<close>

definition two_timers :: timer_manager where
  "two_timers = \<lparr>heap = [0 \<mapsto> Timer_new [Effect 1, CancelTimer 0 1] 20 5 1, 1 \<mapsto> Timer_new [Effect 2] 10 0 2],
     timers = [1, 0], activeTimers = {(0, 1), (1, 2)}, callingExpiredTimers = False,
     cancelingTimers = {}, numCreated = 2\<rparr>"

lemma dom_0 [simp]: "dom [0 \<mapsto> t] = {0 :: nat}" by auto

lemma two_timers_reach: "tm_reach bump_alloc two_timers"
proof -
  let ?m1 = "\<lparr>heap = [0 \<mapsto> Timer_new [Effect 1, CancelTimer 0 1] 20 5 1], timers = [0],
     activeTimers = {(0, 1)}, callingExpiredTimers = False, cancelingTimers = {}, numCreated = 1\<rparr>"
  have a: "TimerManager_addTimer bump_alloc 20 [Effect 1, CancelTimer 0 1] 5 (TimerManager_new False 0) =
      Some ((0, 1), ?m1)"
    by (simp add: TimerManager_addTimer_def TimerManager_addTimerInLoop_def TimerManager_new_def
        bump_alloc_def Let_def Timer_new_def)
  have b: "TimerManager_addTimer bump_alloc 10 [Effect 2] 0 ?m1 = Some ((1, 2), two_timers)"
    by (simp add: TimerManager_addTimer_def TimerManager_addTimerInLoop_def bump_alloc_def
        Let_def Timer_new_def two_timers_def set_insert_simps key_at_def timer_key_def insert_commute)
  have "tm_reach bump_alloc ?m1"
    by (rule tm_added[OF tm_start _ a]) (simp_all add: TimerManager_new_def)
  then show ?thesis by (rule tm_added[OF _ _ b]) simp
qed

lemma processExpiredTimers_runs_due_witness:
  "\<exists>m'. TimerManager_processExpiredTimers bump_alloc 25 25 two_timers = Some ([2, 1], m')"
proof -
  have d: "due 25 two_timers = [1, 0]" by (simp add: due_def two_timers_def Timer_new_def)
  have "numCreated two_timers + 1 + int (batch_adds two_timers (due 25 two_timers)) < 2 ^ 63"
    unfolding d by (simp add: batch_adds_def callback_at_def two_timers_def Timer_new_def)
  from processExpiredTimers_runs_due(1)[OF two_timers_reach bump_allocates this]
  show ?thesis unfolding d by (simp add: callback_at_def two_timers_def Timer_new_def)
qed

lemma processExpiredTimers_rearms_parts:
  assumes "tm_reach alloc m" "allocates alloc"
    and "numCreated m + 1 + int (batch_adds m (due now1 m)) < 2 ^ 63"
    and "TimerManager_processExpiredTimers alloc now1 now2 m = Some (es, m')"
  shows "a \<in> set (due now1 m) \<Longrightarrow> heap m' a =
           (if repeat (the (heap m a)) \<and>
               (a, t_sequence (the (heap m a))) \<notin> batch_cancels m (due now1 m)
            then Some (Timer_restart (the (heap m a)) now2) else None)"
    and "dom (heap m') = set (timers m')"
    and "heap m' a = Some t \<Longrightarrow> \<exists>e. TimerManager_getNextExpiration m' = Some e \<and> e \<le> expiration t"
proof -
  note inv = tm_reach_inv[OF assms(1,2)]
  obtain m1 where m1: "TimerManager_processExpiredTimers alloc now1 now2 m =
      Some (concat (map (\<lambda>a. effects_of (callback_at m a)) (due now1 m)), m1)" "tm_inv [] m1"
    "\<forall>a \<in> set (due now1 m). heap m1 a =
       (if (a, t_sequence (the (heap m a))) \<notin> batch_cancels m (due now1 m) \<and> repeat (the (heap m a))
        then Some (Timer_restart (the (heap m a)) now2) else None)"
    by (rule process_inv[OF inv assms(2,3), of now2]) blast
  have m': "m1 = m'" using m1(1) assms(4) by simp
  show "a \<in> set (due now1 m) \<Longrightarrow> heap m' a =
           (if repeat (the (heap m a)) \<and>
               (a, t_sequence (the (heap m a))) \<notin> batch_cancels m (due now1 m)
            then Some (Timer_restart (the (heap m a)) now2) else None)"
    using m1(3) unfolding m' by auto
  show dom: "dom (heap m') = set (timers m')"
    using tm_inv_parts(2)[OF m1(2)] unfolding m' by simp
  assume t: "heap m' a = Some t"
  then have a: "a \<in> set (timers m')" using dom by auto
  then have "hd (timers m') \<in> dom (heap m')" unfolding dom by (cases "timers m'") auto
  then obtain u where "heap m' (hd (timers m')) = Some u" by auto
  then show "\<exists>e. TimerManager_getNextExpiration m' = Some e \<and> e \<le> expiration t"
    using timers_least[OF m1(2), of a] a t unfolding m'
    by (auto simp: TimerManager_getNextExpiration_def)
qed

text \<open>
  C12: After the callbacks, a timer that was due is armed again, one interval after the
  second clock reading, exactly when it repeats and no callback of the batch cancelled it;
  otherwise its object is deleted. No timer object is leaked and none is left dangling: the
  live objects are exactly those of the set, and the reported next expiration is the earliest
  of theirs.
\<close>

theorem processExpiredTimers_rearms:
  assumes "tm_reach alloc m" "allocates alloc"
    and "numCreated m + 1 + int (batch_adds m (due now1 m)) < 2 ^ 63"
    and "TimerManager_processExpiredTimers alloc now1 now2 m = Some (es, m')"
  shows "(a \<in> set (due now1 m) \<longrightarrow> (heap m' a =
           (if repeat (the (heap m a)) \<and>
               (a, t_sequence (the (heap m a))) \<notin> batch_cancels m (due now1 m)
            then Some (Timer_restart (the (heap m a)) now2) else None))) \<and>
    (dom (heap m') = set (timers m')) \<and>
    (heap m' a = Some t \<longrightarrow> (\<exists>e. TimerManager_getNextExpiration m' = Some e \<and> e \<le> expiration t))"
  using processExpiredTimers_rearms_parts[OF assms] by blast

lemma processExpiredTimers_rearms_witness:
  "\<exists>es m'. TimerManager_processExpiredTimers bump_alloc 25 25 two_timers = Some (es, m') \<and>
     heap m' 0 = None \<and> heap m' 1 = None"
proof -
  have d: "due 25 two_timers = [1, 0]" by (simp add: due_def two_timers_def Timer_new_def)
  have n: "numCreated two_timers + 1 + int (batch_adds two_timers (due 25 two_timers)) < 2 ^ 63"
    unfolding d by (simp add: batch_adds_def callback_at_def two_timers_def Timer_new_def)
  obtain es m' where p: "TimerManager_processExpiredTimers bump_alloc 25 25 two_timers = Some (es, m')"
    using process_inv[OF tm_reach_inv[OF two_timers_reach bump_allocates] bump_allocates n] by metis
  note r = processExpiredTimers_rearms(1)[OF two_timers_reach bump_allocates n p]
  have "heap m' 0 = None" "heap m' 1 = None"
    using r[of 0] r[of 1] unfolding d
    by (simp_all add: batch_cancels_def callback_at_def two_timers_def Timer_new_def)
  then show ?thesis using p by blast
qed

lemma cancel_exact_parts:
  assumes "tm_reach alloc m" "allocates alloc" and "TimerManager_cancel (a, sq) m = Some m'"
  shows "heap m' b = Some t \<longleftrightarrow> heap m b = Some t \<and> \<not> (b = a \<and> t_sequence t = sq)"
    and "b \<in> set (timers m') \<longleftrightarrow> (\<exists>t. heap m' b = Some t)"
proof -
  note inv = tm_reach_inv[OF assms(1,2)]
  have inv': "tm_inv [] m'" using cancel_inv[OF inv, of a sq] assms(3) by (metis option.inject)
  have h: "b \<noteq> a \<or> (a, sq) \<notin> activeTimers m \<Longrightarrow> heap m' b = heap m b"
    "(a, sq) \<in> activeTimers m \<Longrightarrow> heap m' a = None" for b
    using cancel_inv[OF inv, of a sq] assms(3) by (metis option.inject)+
  have act: "(a, sq) \<in> activeTimers m \<longleftrightarrow> (\<exists>t. heap m a = Some t \<and> t_sequence t = sq)"
    using tm_invD(5)[OF inv, of a sq] tm_inv_parts(2)[OF inv] by force
  show "heap m' b = Some t \<longleftrightarrow> heap m b = Some t \<and> \<not> (b = a \<and> t_sequence t = sq)"
    using h act by (cases "b = a"; cases "(a, sq) \<in> activeTimers m") auto
  show "b \<in> set (timers m') \<longleftrightarrow> (\<exists>t. heap m' b = Some t)"
    using tm_inv_parts(2)[OF inv'] by auto
qed

text \<open>
  Cancelling removes exactly the timer the identity was issued for. An identity whose
  timer has been deleted cancels nothing, even when the allocator has handed its address to a
  newer timer.
\<close>

theorem cancel_exact:
  assumes "tm_reach alloc m" "allocates alloc" and "TimerManager_cancel (a, sq) m = Some m'"
  shows "((heap m' b = Some t \<longleftrightarrow> heap m b = Some t \<and> \<not> (b = a \<and> t_sequence t = sq))) \<and>
    ((b \<in> set (timers m') \<longleftrightarrow> (\<exists>t. heap m' b = Some t)))"
  using cancel_exact_parts[OF assms] by blast

lemma cancel_exact_witness:
  "\<exists>m1 m2. TimerManager_cancel (1, 2) two_timers = Some m1 \<and> heap m1 1 = None \<and> heap m1 0 = heap two_timers 0 \<and>
     TimerManager_cancel (1, 9) two_timers = Some m2 \<and> heap m2 1 = heap two_timers 1"
proof -
  obtain m1 where c1: "TimerManager_cancel (1, 2) two_timers = Some m1"
    by (simp add: TimerManager_cancel_def two_timers_def)
  obtain m2 where c2: "TimerManager_cancel (1, 9) two_timers = Some m2"
    by (simp add: TimerManager_cancel_def two_timers_def)
  note e1 = cancel_exact(1)[OF two_timers_reach bump_allocates c1]
  note e2 = cancel_exact(1)[OF two_timers_reach bump_allocates c2]
  have "heap m1 1 = None" using e1[of 1] by (cases "heap m1 1") (auto simp: two_timers_def Timer_new_def)
  moreover have "heap m1 0 = heap two_timers 0" using e1[of 0] by (simp add: two_timers_def)
  moreover have "heap m2 1 = heap two_timers 1" using e2[of 1] by (simp add: two_timers_def Timer_new_def)
  ultimately show ?thesis using c1 c2 by blast
qed

end
