(* ===== verification/ThreadPools.thy ===== *)
theory ThreadPools
  imports Queues "HOL-Library.Multiset"
begin

text \<open>
  \<^verbatim>\<open>src/common/thread/thread_pool.h\<close> and \<^verbatim>\<open>thread_pool.cpp\<close>: the worker
  threads of a pool run interleaved, each at its own place in \<^verbatim>\<open>workerThread\<close>; one
  step of a worker is one access to shared state. A task is a value, running it adds it to the
  history \<open>ran\<close> (an exception it throws is swallowed). \<open>stop\<close> is two steps, the
  request and the return from joining the workers.
\<close>

subsection \<open>The pool\<close>

record thread_pool_config =
  minThreads :: nat
  maxThreads :: nat
  maxQueueSize :: nat
  idleTimeout :: nat

definition ThreadPoolConfig_default :: thread_pool_config where
  "ThreadPoolConfig_default = \<lparr>minThreads = 2, maxThreads = 8, maxQueueSize = 1000, idleTimeout = 60000\<rparr>"

text \<open>Where a worker is: the loop head, asleep in \<open>pop\<close>, or at a place of the loop body.\<close>

datatype 'a worker =
  AtLoop | Asleep | Popped 'a | Counted 'a | Busy 'a | Done | Uncounted | Exited

record 'a thread_pool =
  tp_config :: thread_pool_config
  tp_started :: bool
  tp_workers :: "'a worker list"
  taskQueue :: "'a monitor_queue"
  activeWorkers :: uint32
  idleWorkers :: uint32
  ran :: "'a list"

definition ThreadPool_new :: "thread_pool_config \<Rightarrow> 'a thread_pool" where
  "ThreadPool_new c =
     \<lparr>tp_config = c, tp_started = False, tp_workers = [], taskQueue = queue_new,
      activeWorkers = 0, idleWorkers = 0, ran = []\<rparr>"

definition ThreadPool_start :: "nat \<Rightarrow> 'a thread_pool \<Rightarrow> 'a thread_pool" where
  "ThreadPool_start numThreads p =
     (if tp_started p then p
      else (let n = (if numThreads = 0 then minThreads (tp_config p) else numThreads);
                n' = min n (maxThreads (tp_config p))
            in p\<lparr>tp_started := True, tp_workers := tp_workers p @ replicate n' AtLoop\<rparr>))"

definition ThreadPool_execute :: "'a \<Rightarrow> 'a thread_pool \<Rightarrow> 'a thread_pool" where
  "ThreadPool_execute t p =
     (if tp_started p then p\<lparr>taskQueue := TaskQueue_push t (taskQueue p)\<rparr> else p)"

definition ThreadPool_submit :: "'a \<Rightarrow> 'a thread_pool \<Rightarrow> 'a thread_pool" where
  "ThreadPool_submit t p = p\<lparr>taskQueue := TaskQueue_push t (taskQueue p)\<rparr>"

definition ThreadPool_stop_request :: "'a thread_pool \<Rightarrow> 'a thread_pool" where
  "ThreadPool_stop_request p =
     (if tp_started p then p\<lparr>tp_started := False, taskQueue := TaskQueue_stop (taskQueue p)\<rparr> else p)"

definition ThreadPool_stop_joined :: "'a thread_pool \<Rightarrow> 'a thread_pool option" where
  "ThreadPool_stop_joined p =
     (if \<forall>w \<in> set (tp_workers p). w = Exited then Some (p\<lparr>tp_workers := []\<rparr>) else None)"

text \<open>The condition on which \<open>wait\<close> returns.\<close>

definition ThreadPool_wait_returns :: "'a thread_pool \<Rightarrow> bool" where
  "ThreadPool_wait_returns p \<longleftrightarrow> \<not> (TaskQueue_size (taskQueue p) > 0 \<or> activeWorkers p > 0)"

definition ThreadPool_workerCount :: "'a thread_pool \<Rightarrow> nat" where
  "ThreadPool_workerCount p = length (tp_workers p)"

definition ThreadPool_idleCount :: "'a thread_pool \<Rightarrow> uint32" where
  "ThreadPool_idleCount p = idleWorkers p"

definition ThreadPool_queueSize :: "'a thread_pool \<Rightarrow> nat" where
  "ThreadPool_queueSize p = TaskQueue_size (taskQueue p)"

definition ThreadPool_createWorker :: "'a thread_pool \<Rightarrow> 'a thread_pool" where
  "ThreadPool_createWorker p =
     (if length (tp_workers p) < maxThreads (tp_config p)
      then p\<lparr>tp_workers := tp_workers p @ [AtLoop]\<rparr> else p)"

definition after_pop :: "'a pop_outcome \<Rightarrow> 'a worker" where
  "after_pop res = (case res of Sleeps \<Rightarrow> Asleep | Returns None \<Rightarrow> AtLoop | Returns (Some t) \<Rightarrow> Popped t)"

text \<open>One step of worker \<open>i\<close>; \<open>None\<close> when it cannot move.\<close>

definition ThreadPool_workerThread :: "nat \<Rightarrow> 'a thread_pool \<Rightarrow> 'a thread_pool option" where
  "ThreadPool_workerThread i p =
     (let at = (\<lambda>w q. q\<lparr>tp_workers := (tp_workers q)[i := w]\<rparr>) in
      if length (tp_workers p) \<le> i then None
      else case tp_workers p ! i of
        AtLoop \<Rightarrow>
          if tp_started p
          then (let (res, q) = TaskQueue_pop (taskQueue p) in Some (at (after_pop res) (p\<lparr>taskQueue := q\<rparr>)))
          else Some (at Exited p)
      | Asleep \<Rightarrow>
          if 0 < woken (notEmpty (taskQueue p))
          then (let (res, q) = TaskQueue_pop ((taskQueue p)\<lparr>notEmpty := Condition_resume (notEmpty (taskQueue p))\<rparr>)
                in Some (at (after_pop res) (p\<lparr>taskQueue := q\<rparr>)))
          else None
      | Popped t \<Rightarrow> Some (at (Counted t) (p\<lparr>activeWorkers := activeWorkers p + 1\<rparr>))
      | Counted t \<Rightarrow> Some (at (Busy t) (p\<lparr>idleWorkers := idleWorkers p - 1\<rparr>))
      | Busy t \<Rightarrow> Some (at Done (p\<lparr>ran := ran p @ [t]\<rparr>))
      | Done \<Rightarrow> Some (at Uncounted (p\<lparr>activeWorkers := activeWorkers p - 1\<rparr>))
      | Uncounted \<Rightarrow> Some (at AtLoop (p\<lparr>idleWorkers := idleWorkers p + 1\<rparr>))
      | Exited \<Rightarrow> None)"

inductive tp_step :: "'a thread_pool \<Rightarrow> 'a list \<Rightarrow> 'a thread_pool \<Rightarrow> bool" where
  tp_start: "tp_step p [] (ThreadPool_start n p)"
| tp_execute: "tp_step p (if tp_started p then [t] else []) (ThreadPool_execute t p)"
| tp_submit: "tp_step p [t] (ThreadPool_submit t p)"
| tp_worker: "ThreadPool_workerThread i p = Some p' \<Longrightarrow> tp_step p [] p'"
| tp_spurious: "tp_step p [] (p\<lparr>taskQueue := (taskQueue p)\<lparr>notEmpty := Condition_notify (notEmpty (taskQueue p))\<rparr>\<rparr>)"
| tp_stop: "tp_step p [] (ThreadPool_stop_request p)"
| tp_joined: "ThreadPool_stop_joined p = Some p' \<Longrightarrow> tp_step p [] p'"

inductive_cases tp_stepE: "tp_step p ts p'"

text \<open>Runs, with the tasks accepted on the way.\<close>

inductive tp_run :: "'a thread_pool \<Rightarrow> 'a list \<Rightarrow> 'a thread_pool \<Rightarrow> bool" for p0 where
  tp_here: "tp_run p0 [] p0"
| tp_then: "tp_run p0 ts p \<Longrightarrow> tp_step p us p' \<Longrightarrow> tp_run p0 (ts @ us) p'"

fun held :: "'a worker \<Rightarrow> 'a list" where
  "held (Popped t) = [t]" | "held (Counted t) = [t]" | "held (Busy t) = [t]" | "held _ = []"

fun is_active :: "'a worker \<Rightarrow> bool" where
  "is_active (Counted t) = True" | "is_active (Busy t) = True" | "is_active Done = True"
| "is_active _ = False"

fun is_unidle :: "'a worker \<Rightarrow> bool" where
  "is_unidle (Busy t) = True" | "is_unidle Done = True" | "is_unidle Uncounted = True"
| "is_unidle _ = False"

definition in_flight :: "'a thread_pool \<Rightarrow> 'a multiset" where
  "in_flight p = mset (concat (map held (tp_workers p)))"

subsection \<open>Counting workers\<close>

lemma update_split:
  assumes "i < length xs"
  shows "xs[i := y] = take i xs @ y # drop (Suc i) xs" "xs = take i xs @ xs ! i # drop (Suc i) xs"
  using assms by (simp_all add: upd_conv_take_nth_drop id_take_nth_drop[symmetric])

lemma held_update:
  assumes "i < length ws"
  shows "mset (concat (map held (ws[i := w]))) + mset (held (ws ! i)) =
         mset (concat (map held ws)) + mset (held w)"
proof -
  have "mset (concat (map held ws)) =
      mset (concat (map held (take i ws))) + mset (held (ws ! i)) + mset (concat (map held (drop (Suc i) ws)))"
    by (subst (1) update_split(2)[OF assms]) simp
  then show ?thesis by (simp add: update_split(1)[OF assms])
qed

definition count_if :: "('a \<Rightarrow> bool) \<Rightarrow> 'a list \<Rightarrow> nat" where
  "count_if P ws = length (filter P ws)"

lemma count_if_update:
  assumes "i < length ws"
  shows "count_if P (ws[i := w]) + of_bool (P (ws ! i)) = count_if P ws + of_bool (P w)"
proof -
  have "count_if P ws = count_if P (take i ws) + of_bool (P (ws ! i)) + count_if P (drop (Suc i) ws)"
    unfolding count_if_def by (subst (1) update_split(2)[OF assms]) simp
  then show ?thesis by (simp add: update_split(1)[OF assms] count_if_def)
qed

lemma count_if_word:
  assumes "i < length ws"
  shows "(of_nat (count_if P (ws[i := w])) :: uint32) =
     of_nat (count_if P ws) + of_bool (P w) - of_bool (P (ws ! i))"
  using arg_cong[OF count_if_update[OF assms, of P w], of "of_nat :: nat \<Rightarrow> uint32"]
  by (simp add: algebra_simps)

definition counters_ok :: "'a thread_pool \<Rightarrow> bool" where
  "counters_ok p \<longleftrightarrow> activeWorkers p = of_nat (count_if is_active (tp_workers p)) \<and>
     idleWorkers p = - of_nat (count_if is_unidle (tp_workers p))"

lemma count_if_append [simp]: "count_if P (xs @ ys) = count_if P xs + count_if P ys"
  by (simp add: count_if_def)

lemma count_if_replicate [simp]: "\<not> P w \<Longrightarrow> count_if P (replicate n w) = 0"
  by (simp add: count_if_def)

lemma count_if_Nil [simp]: "count_if P [] = 0"
  and count_if_single [simp]: "count_if P [w] = of_bool (P w)"
  by (simp_all add: count_if_def)

lemma count_if_none: "\<forall>w \<in> set ws. \<not> P w \<Longrightarrow> count_if P ws = 0"
  by (simp add: count_if_def filter_empty_conv)

lemma after_pop_flags [simp]: "\<not> is_active (after_pop res)" "\<not> is_unidle (after_pop res)"
  "held (after_pop res) = outcome_items res"
  by (auto simp: after_pop_def split: pop_outcome.splits option.splits)

lemma TaskQueue_pop_items:
  "TaskQueue_pop q = (res, q') \<Longrightarrow> outcome_items res @ q_items q' = q_items q"
  by (auto simp: TaskQueue_pop_def split: if_splits)

subsection \<open>Every step keeps the counters and the tasks\<close>

lemma worker_counters:
  assumes "counters_ok p" "ThreadPool_workerThread i p = Some p'"
  shows "counters_ok p'"
proof -
  have i: "i < length (tp_workers p)"
    using assms(2) by (auto simp: ThreadPool_workerThread_def Let_def split: if_splits)
  note cw = count_if_word[OF i]
  show ?thesis
    using assms i
    by (cases "tp_workers p ! i")
      (auto simp: ThreadPool_workerThread_def Let_def counters_ok_def cw
        split: if_splits prod.splits)
qed

definition all_tasks :: "'a thread_pool \<Rightarrow> 'a multiset" where
  "all_tasks p = mset (q_items (taskQueue p)) + in_flight p + mset (ran p)"

lemma worker_tasks:
  assumes "ThreadPool_workerThread i p = Some p'"
  shows "all_tasks p' = all_tasks p"
proof -
  have i: "i < length (tp_workers p)"
    using assms by (auto simp: ThreadPool_workerThread_def Let_def split: if_splits)
  note hu = held_update[OF i]
  show ?thesis
  proof (cases "tp_workers p ! i")
    case AtLoop
    show ?thesis
    proof (cases "tp_started p")
      case True
      obtain res q where q: "TaskQueue_pop (taskQueue p) = (res, q)" by (meson surj_pair)
      have p': "p' = p\<lparr>taskQueue := q, tp_workers := (tp_workers p)[i := after_pop res]\<rparr>"
        using assms i AtLoop True q by (simp add: ThreadPool_workerThread_def)
      have m: "mset (outcome_items res) + mset (q_items q) = mset (q_items (taskQueue p))"
        unfolding TaskQueue_pop_items[OF q, symmetric] by simp
      have "in_flight p' = in_flight p + mset (outcome_items res)"
        using hu[of "after_pop res"] AtLoop by (simp add: p' in_flight_def)
      then show ?thesis unfolding all_tasks_def m[symmetric] by (simp add: p')
    next
      case False
      then show ?thesis
        using assms i AtLoop hu[of Exited]
        by (auto simp: ThreadPool_workerThread_def all_tasks_def in_flight_def)
    qed
  next
    case Asleep
    let ?q = "(taskQueue p)\<lparr>notEmpty := Condition_resume (notEmpty (taskQueue p))\<rparr>"
    obtain res q where q: "TaskQueue_pop ?q = (res, q)" by (meson surj_pair)
    have p': "p' = p\<lparr>taskQueue := q, tp_workers := (tp_workers p)[i := after_pop res]\<rparr>"
      using assms i Asleep q by (simp add: ThreadPool_workerThread_def split: if_splits)
    have "mset (outcome_items res) + mset (q_items q) = mset (q_items ?q)"
      unfolding TaskQueue_pop_items[OF q, symmetric] by simp
    then have m: "mset (outcome_items res) + mset (q_items q) = mset (q_items (taskQueue p))" by simp
    have "in_flight p' = in_flight p + mset (outcome_items res)"
      using hu[of "after_pop res"] Asleep by (simp add: p' in_flight_def)
    then show ?thesis unfolding all_tasks_def m[symmetric] by (simp add: p')
  next
    case (Popped t)
    then show ?thesis using assms i hu[of "Counted t"]
      by (auto simp: ThreadPool_workerThread_def all_tasks_def in_flight_def)
  next
    case (Counted t)
    then show ?thesis using assms i hu[of "Busy t"]
      by (auto simp: ThreadPool_workerThread_def all_tasks_def in_flight_def)
  next
    case (Busy t)
    then show ?thesis using assms i hu[of Done]
      by (auto simp: ThreadPool_workerThread_def all_tasks_def in_flight_def)
  next
    case Done
    then show ?thesis using assms i hu[of Uncounted]
      by (auto simp: ThreadPool_workerThread_def all_tasks_def in_flight_def)
  next
    case Uncounted
    then show ?thesis using assms i hu[of AtLoop]
      by (auto simp: ThreadPool_workerThread_def all_tasks_def in_flight_def)
  next
    case Exited
    then show ?thesis using assms i by (simp add: ThreadPool_workerThread_def)
  qed
qed

lemma exited_idle:
  assumes "\<forall>w \<in> set ws. w = Exited"
  shows "count_if is_active ws = 0" "count_if is_unidle ws = 0" "concat (map held ws) = []"
proof -
  show "count_if is_active ws = 0" "count_if is_unidle ws = 0"
    by (rule count_if_none; use assms in force)+
  show "concat (map held ws) = []" using assms by auto
qed

lemmas pool_ops = ThreadPool_start_def ThreadPool_execute_def ThreadPool_submit_def
  ThreadPool_stop_request_def ThreadPool_stop_joined_def TaskQueue_push_def TaskQueue_stop_def Let_def

lemma step_counters: "tp_step p us p' \<Longrightarrow> counters_ok p \<Longrightarrow> counters_ok p'"
proof (induction rule: tp_step.induct)
  case (tp_worker i p p')
  then show ?case by (rule worker_counters[rotated])
qed (auto simp: counters_ok_def pool_ops exited_idle split: if_splits)

lemma step_tasks: "tp_step p us p' \<Longrightarrow> all_tasks p' = all_tasks p + mset us"
proof (induction rule: tp_step.induct)
  case (tp_worker i p p')
  then show ?case by (simp add: worker_tasks)
qed (auto simp: all_tasks_def in_flight_def pool_ops exited_idle split: if_splits)

lemma run_counters: "tp_run p0 ts p \<Longrightarrow> counters_ok p0 \<Longrightarrow> counters_ok p"
  by (induction rule: tp_run.induct) (simp_all add: step_counters)

lemma run_tasks: "tp_run p0 ts p \<Longrightarrow> all_tasks p = all_tasks p0 + mset ts"
  by (induction rule: tp_run.induct) (auto simp: step_tasks)

lemma new_pool: "counters_ok (ThreadPool_new c)" "all_tasks (ThreadPool_new c) = {#}"
  by (simp_all add: counters_ok_def all_tasks_def in_flight_def ThreadPool_new_def queue_new_def)

text \<open>A stopped queue stays stopped, and the workers of a pool behind it get nothing.\<close>

definition starved :: "'a thread_pool \<Rightarrow> bool" where
  "starved p \<longleftrightarrow> q_stopped (taskQueue p) \<and> (\<forall>w \<in> set (tp_workers p). held w = [])"

lemma set_update: "w' \<in> set (ws[i := w]) \<Longrightarrow> w' = w \<or> w' \<in> set ws"
  by (metis in_set_conv_nth length_list_update nth_list_update_eq nth_list_update_neq)

lemma starved_step: "tp_step p us p' \<Longrightarrow> starved p \<Longrightarrow> starved p' \<and> ran p' = ran p"
proof (induction rule: tp_step.induct)
  case (tp_worker i p p')
  have i: "i < length (tp_workers p)"
    using tp_worker.hyps by (auto simp: ThreadPool_workerThread_def Let_def split: if_splits)
  then have "held (tp_workers p ! i) = []" using tp_worker.prems by (simp add: starved_def)
  then show ?case using tp_worker i
    by (cases "tp_workers p ! i")
      (auto simp: ThreadPool_workerThread_def starved_def TaskQueue_pop_def after_pop_def Let_def
        dest!: set_update split: if_splits)
qed (auto simp: starved_def pool_ops split: if_splits)

lemma starved_run: "tp_run p0 ts p \<Longrightarrow> starved p0 \<Longrightarrow> starved p \<and> ran p = ran p0"
  by (induction rule: tp_run.induct) (auto dest: starved_step)

subsection \<open>Properties\<close>

text \<open>
  C14: A thread pool neither loses nor duplicates a task it accepted: in every interleaving of
  workers, submissions, starts and stops, the tasks accepted are those still queued, those a
  worker is holding and those that ran, each counted once.
\<close>

theorem ThreadPool_conserves_tasks:
  assumes "tp_run (ThreadPool_new c) accepted p"
  shows "mset accepted = mset (q_items (taskQueue p)) + in_flight p + mset (ran p)"
  using run_tasks[OF assms] new_pool(2)[of c] by (simp add: all_tasks_def)

definition one_worker :: "nat thread_pool" where
  "one_worker = ThreadPool_execute 7 (ThreadPool_start 1 (ThreadPool_new ThreadPoolConfig_default))"

definition one_popped :: "nat thread_pool" where
  "one_popped = the (ThreadPool_workerThread 0 one_worker)"

lemma one_popped_eval:
  "one_popped = \<lparr>tp_config = ThreadPoolConfig_default, tp_started = True, tp_workers = [Popped 7],
     taskQueue = queue_new, activeWorkers = 0, idleWorkers = 0, ran = []\<rparr>"
  by (simp add: one_popped_def one_worker_def pool_ops ThreadPool_new_def ThreadPoolConfig_default_def
      ThreadPool_workerThread_def TaskQueue_pop_def after_pop_def queue_new_def cond_defs)

lemma one_popped_run: "tp_run (ThreadPool_new ThreadPoolConfig_default) [7] one_popped"
proof -
  have s: "tp_started (ThreadPool_start 1 (ThreadPool_new ThreadPoolConfig_default) :: nat thread_pool)"
    by (simp add: ThreadPool_start_def ThreadPool_new_def)
  have w: "ThreadPool_workerThread 0 one_worker = Some one_popped"
    unfolding one_popped_eval
    by (simp add: one_worker_def pool_ops ThreadPool_new_def ThreadPoolConfig_default_def
      ThreadPool_workerThread_def TaskQueue_pop_def after_pop_def queue_new_def cond_defs)
  have 1: "tp_run (ThreadPool_new ThreadPoolConfig_default) []
      (ThreadPool_start 1 (ThreadPool_new ThreadPoolConfig_default) :: nat thread_pool)"
    using tp_then[OF tp_here tp_start[of "ThreadPool_new ThreadPoolConfig_default" 1]] by simp
  have 2: "tp_run (ThreadPool_new ThreadPoolConfig_default) [7] one_worker"
    using tp_then[OF 1 tp_execute[of _ "7 :: nat"]] s by (simp add: one_worker_def)
  show ?thesis using tp_then[OF 2 tp_worker[OF w]] by simp
qed

lemma ThreadPool_conserves_tasks_witness:
  "mset [7] = mset (q_items (taskQueue one_popped)) + in_flight one_popped + mset (ran one_popped)"
  by (rule ThreadPool_conserves_tasks[OF one_popped_run])

lemma ThreadPool_idleCount_negated_parts:
  assumes "tp_run (ThreadPool_new c) ts p"
  shows "ThreadPool_idleCount p = - of_nat (count_if is_unidle (tp_workers p))"
    and "\<forall>w \<in> set (tp_workers p). w = Asleep \<Longrightarrow> ThreadPool_idleCount p = 0"
proof -
  show *: "ThreadPool_idleCount p = - of_nat (count_if is_unidle (tp_workers p))"
    using run_counters[OF assms new_pool(1)] by (simp add: ThreadPool_idleCount_def counters_ok_def)
  assume "\<forall>w \<in> set (tp_workers p). w = Asleep"
  then have "count_if is_unidle (tp_workers p) = 0" by (intro count_if_none) auto
  then show "ThreadPool_idleCount p = 0" using * by simp
qed

text \<open>
  The idle counter of a pool counts down from zero: with \<open>k\<close> workers running a task
  it holds minus \<open>k\<close> modulo 2 to the 32, and zero when every worker is idle. So
  \<open>idleCount\<close> never reports how many workers are idle.
\<close>

theorem ThreadPool_idleCount_negated:
  assumes "tp_run (ThreadPool_new c) ts p"
  shows "(ThreadPool_idleCount p = - of_nat (count_if is_unidle (tp_workers p))) \<and>
    ((\<forall>w \<in> set (tp_workers p). w = Asleep) \<longrightarrow> ThreadPool_idleCount p = 0)"
  using ThreadPool_idleCount_negated_parts[OF assms] by blast

lemma ThreadPool_idleCount_negated_witness:
  "ThreadPool_idleCount one_popped = 0 \<and> tp_run (ThreadPool_new ThreadPoolConfig_default) [7] one_popped"
  using ThreadPool_idleCount_negated(1)[OF one_popped_run] one_popped_run
  by (simp add: one_popped_eval)

text \<open>
  A pool that has been stopped cannot be used again: its queue stays stopped, so after
  another start no task that is submitted ever runs, in any continuation.
\<close>

theorem ThreadPool_restart_never_runs:
  assumes "tp_started p" and "ThreadPool_stop_joined q = Some p1"
    and "tp_run (ThreadPool_stop_request p) ts q"
    and "tp_run (ThreadPool_start n p1) us p2"
  shows "ran p2 = ran p1"
proof -
  have st: "q_stopped (taskQueue q)"
  proof -
    have "q_stopped (taskQueue r)" if "tp_run (ThreadPool_stop_request p) ts r" for ts r
      using that
    proof (induction rule: tp_run.induct)
      case tp_here
      then show ?case using assms(1) by (simp add: pool_ops)
    next
      case (tp_then ts r us r')
      from tp_then.hyps(2) tp_then.IH show ?case
      proof (induction rule: tp_step.induct)
        case (tp_worker i p p')
        then show ?case
          by (cases "tp_workers p ! i") (auto simp: ThreadPool_workerThread_def TaskQueue_pop_def
              Let_def split: if_splits)
      qed (auto simp: pool_ops split: if_splits)
    qed
    then show ?thesis using assms(3) .
  qed
  have "starved (ThreadPool_start n p1)"
    using assms(2) st by (auto simp: starved_def pool_ops split: if_splits)
  moreover have "ran (ThreadPool_start n p1) = ran p1" by (simp add: pool_ops)
  ultimately show ?thesis using starved_run[OF assms(4)] by simp
qed

lemma ThreadPool_restart_never_runs_witness:
  "let p = ThreadPool_start 1 (ThreadPool_new ThreadPoolConfig_default);
       q = the (ThreadPool_workerThread 0 (ThreadPool_stop_request p));
       p2 = ThreadPool_submit (7::nat) (ThreadPool_start 2 (the (ThreadPool_stop_joined q)))
   in q_items (taskQueue p2) = [7] \<and> ran p2 = ran (the (ThreadPool_stop_joined q))"
proof -
  define p where "p = ThreadPool_start 1 (ThreadPool_new ThreadPoolConfig_default :: nat thread_pool)"
  define q where "q = the (ThreadPool_workerThread 0 (ThreadPool_stop_request p))"
  note ev = p_def q_def pool_ops ThreadPool_new_def ThreadPoolConfig_default_def
      ThreadPool_workerThread_def queue_new_def cond_defs
  have s: "tp_started p" by (simp add: ev)
  have w: "ThreadPool_workerThread 0 (ThreadPool_stop_request p) = Some q" by (simp add: ev)
  have j: "ThreadPool_stop_joined q = Some (the (ThreadPool_stop_joined q))" by (simp add: ev)
  have r: "tp_run (ThreadPool_stop_request p) [] q" using tp_then[OF tp_here tp_worker[OF w]] by simp
  have u: "tp_run (ThreadPool_start 2 (the (ThreadPool_stop_joined q))) [7]
      (ThreadPool_submit 7 (ThreadPool_start 2 (the (ThreadPool_stop_joined q))))"
    using tp_then[OF tp_here tp_submit[of _ 7]] by simp
  show ?thesis
    using ThreadPool_restart_never_runs[OF s j r u]
    unfolding Let_def p_def[symmetric] q_def[symmetric] by (simp add: ev)
qed

text \<open>
  \<open>wait\<close> may return before all tasks have run: a worker has taken the task off the
  queue but has not yet counted itself active, so the condition holds although an accepted task
  has not run and is still in a worker's hands.
\<close>

theorem ThreadPool_wait_returns_early:
  "\<exists>c p t. tp_run (ThreadPool_new c) [t] p \<and> ThreadPool_wait_returns p \<and>
     in_flight p = {#t :: nat#} \<and> ran p = []"
proof -
  have "ThreadPool_wait_returns one_popped" "in_flight one_popped = {#7#}" "ran one_popped = []"
    by (simp_all add: one_popped_eval ThreadPool_wait_returns_def TaskQueue_size_def queue_new_def
        in_flight_def)
  then show ?thesis using one_popped_run by blast
qed

end
