(* ===== verification/Scene.thy ===== *)
theory Scene
  imports Prelude "HOL-Library.Monad_Syntax"
begin

text \<open>
  \<^verbatim>\<open>src/game/scene\<close>: the nine-grid area of interest (\<^verbatim>\<open>aoi.cpp\<close>),
  scenes (\<^verbatim>\<open>scene.cpp\<close>) and the scene manager (\<^verbatim>\<open>scene_manager.cpp\<close>).
  A hash set is the list of its elements, each once. \<open>None\<close> is undefined behaviour (a
  division by zero, an index outside \<open>grids\<close>, signed overflow) or, for the manager, a
  thread that waits for a mutex it already holds.
\<close>

subsection \<open>The area of interest\<close>

definition hs_insert :: "'a \<Rightarrow> 'a list \<Rightarrow> 'a list" where
  "hs_insert x xs = (if x \<in> set xs then xs else xs @ [x])"

definition hs_erase :: "'a \<Rightarrow> 'a list \<Rightarrow> 'a list" where
  "hs_erase x xs = removeAll x xs"

lemma set_hs [simp]: "set (hs_insert x xs) = insert x (set xs)" "set (hs_erase x xs) = set xs - {x}"
  by (auto simp: hs_insert_def hs_erase_def)

lemma distinct_hs [simp]: "distinct xs \<Longrightarrow> distinct (hs_insert x xs)" "distinct xs \<Longrightarrow> distinct (hs_erase x xs)"
  by (auto simp: hs_insert_def hs_erase_def distinct_removeAll)

record aoi =
  width :: int
  height :: int
  gridX :: int
  gridY :: int
  gridWidth :: int
  gridHeight :: int
  grids :: "int list list"
  roleToGrid :: "int \<rightharpoonup> int"
  rolePositions :: "int \<rightharpoonup> int \<times> int"

definition AOI_new :: "int \<Rightarrow> int \<Rightarrow> int \<Rightarrow> int \<Rightarrow> aoi option" where
  "AOI_new w h gx gy =
     (if gx = 0 \<or> gy = 0 \<or> \<not> fits32 (w + gx - 1) \<or> \<not> fits32 (h + gy - 1) \<or>
         \<not> fits32 (gx * gy) \<or> gx * gy < 0
      then None
      else Some \<lparr>width = w, height = h, gridX = gx, gridY = gy,
                 gridWidth = cdiv (w + gx - 1) gx, gridHeight = cdiv (h + gy - 1) gy,
                 grids = replicate (nat (gx * gy)) [], roleToGrid = Map.empty,
                 rolePositions = Map.empty\<rparr>)"

definition AOI_positionToGrid :: "aoi \<Rightarrow> int \<Rightarrow> int \<Rightarrow> int" where
  "AOI_positionToGrid a x y =
     (let gx = min (cdiv x (gridWidth a)) (gridX a - 1);
          gy = min (cdiv y (gridHeight a)) (gridY a - 1)
      in gy * gridX a + gx)"

definition in_grids :: "aoi \<Rightarrow> int \<Rightarrow> bool" where
  "in_grids a g \<longleftrightarrow> 0 \<le> g \<and> g < int (length (grids a))"

definition AOI_enter :: "aoi \<Rightarrow> int \<Rightarrow> int \<Rightarrow> int \<Rightarrow> aoi option" where
  "AOI_enter a roleId x y =
     (if gridWidth a = 0 \<or> gridHeight a = 0 then None
      else (let g = AOI_positionToGrid a x y in
            if in_grids a g
            then Some (a\<lparr>grids := (grids a)[nat g := hs_insert roleId (grids a ! nat g)],
                         roleToGrid := (roleToGrid a)(roleId \<mapsto> g),
                         rolePositions := (rolePositions a)(roleId \<mapsto> (x, y))\<rparr>)
            else None))"

definition AOI_leave :: "aoi \<Rightarrow> int \<Rightarrow> aoi option" where
  "AOI_leave a roleId =
     (case roleToGrid a roleId of
        None \<Rightarrow> Some a
      | Some g \<Rightarrow>
          if in_grids a g
          then Some (a\<lparr>grids := (grids a)[nat g := hs_erase roleId (grids a ! nat g)],
                       roleToGrid := (roleToGrid a)(roleId := None),
                       rolePositions := (rolePositions a)(roleId := None)\<rparr>)
          else None)"

definition AOI_move :: "aoi \<Rightarrow> int \<Rightarrow> int \<Rightarrow> int \<Rightarrow> aoi option" where
  "AOI_move a roleId newX newY =
     (if gridWidth a = 0 \<or> gridHeight a = 0 then None
      else (let newGrid = AOI_positionToGrid a newX newY in
            case roleToGrid a roleId of
              None \<Rightarrow> Some a
            | Some g \<Rightarrow>
                do { a1 \<leftarrow> (if g \<noteq> newGrid
                           then (if in_grids a g \<and> in_grids a newGrid
                                 then (let gs = (grids a)[nat g := hs_erase roleId (grids a ! nat g)]
                                       in Some (a\<lparr>grids := gs[nat newGrid := hs_insert roleId (gs ! nat newGrid)],
                                                  roleToGrid := (roleToGrid a)(roleId \<mapsto> newGrid)\<rparr>))
                                 else None)
                           else Some a);
                     Some (a1\<lparr>rolePositions := (rolePositions a1)(roleId \<mapsto> (newX, newY))\<rparr>) }))"

definition AOI_getAroundGrids :: "aoi \<Rightarrow> int \<Rightarrow> int list" where
  "AOI_getAroundGrids a gridIndex =
     (let gy = cdiv gridIndex (gridX a); gx = cmod gridIndex (gridX a)
      in concat (map (\<lambda>dy. concat (map (\<lambda>dx.
           let ny = gy + dy; nx = gx + dx
           in if 0 \<le> ny \<and> ny < gridY a \<and> 0 \<le> nx \<and> nx < gridX a then [ny * gridX a + nx] else [])
           [-1, 0, 1])) [-1, 0, 1]))"

definition AOI_getAroundRoles :: "aoi \<Rightarrow> int \<Rightarrow> int list option" where
  "AOI_getAroundRoles a roleId =
     (case roleToGrid a roleId of
        None \<Rightarrow> Some []
      | Some g \<Rightarrow>
          (let gs = AOI_getAroundGrids a g in
           if \<forall>g' \<in> set gs. in_grids a g'
           then Some (concat (map (\<lambda>g'. filter (\<lambda>i. i \<noteq> roleId) (grids a ! nat g')) gs))
           else None))"

definition AOI_getAroundRoles_at :: "aoi \<Rightarrow> int \<Rightarrow> int \<Rightarrow> int list option" where
  "AOI_getAroundRoles_at a x y =
     (if gridWidth a = 0 \<or> gridHeight a = 0 then None
      else (let gs = AOI_getAroundGrids a (AOI_positionToGrid a x y) in
            if \<forall>g' \<in> set gs. in_grids a g'
            then Some (concat (map (\<lambda>g'. grids a ! nat g') gs))
            else None))"

definition AOI_getRolesInGrid :: "aoi \<Rightarrow> int \<Rightarrow> int list" where
  "AOI_getRolesInGrid a g = (if in_grids a g then grids a ! nat g else [])"

definition AOI_getRoleGrid :: "aoi \<Rightarrow> int \<Rightarrow> int" where
  "AOI_getRoleGrid a roleId = (case roleToGrid a roleId of Some g \<Rightarrow> g | None \<Rightarrow> - 1)"

subsection \<open>Scenes\<close>

record scene_role =
  sr_roleId :: int
  sr_x :: int
  sr_y :: int
  sr_hp :: int
  sr_mp :: int

record scene =
  scene_id :: int
  scene_width :: int
  scene_height :: int
  scene_aoi :: aoi
  scene_roles :: "int \<rightharpoonup> scene_role"

definition Scene_new :: "int \<Rightarrow> int \<Rightarrow> int \<Rightarrow> scene option" where
  "Scene_new i w h =
     (if \<not> fits32 (w + 99) \<or> \<not> fits32 (h + 99) then None
      else do { a \<leftarrow> AOI_new w h (cdiv (w + 99) 100) (cdiv (h + 99) 100);
                Some \<lparr>scene_id = i, scene_width = w, scene_height = h, scene_aoi = a,
                      scene_roles = Map.empty\<rparr> })"

definition Scene_enter :: "scene \<Rightarrow> int \<Rightarrow> int \<Rightarrow> int \<Rightarrow> scene option" where
  "Scene_enter s roleId x y =
     do { a \<leftarrow> AOI_enter (scene_aoi s) roleId x y;
          Some (s\<lparr>scene_roles := (scene_roles s)(roleId \<mapsto>
                    \<lparr>sr_roleId = roleId, sr_x = x, sr_y = y, sr_hp = 0, sr_mp = 0\<rparr>),
                  scene_aoi := a\<rparr>) }"

definition Scene_leave :: "scene \<Rightarrow> int \<Rightarrow> scene option" where
  "Scene_leave s roleId =
     do { a \<leftarrow> AOI_leave (scene_aoi s) roleId;
          Some (s\<lparr>scene_roles := (scene_roles s)(roleId := None), scene_aoi := a\<rparr>) }"

definition Scene_move :: "scene \<Rightarrow> int \<Rightarrow> int \<Rightarrow> int \<Rightarrow> scene option" where
  "Scene_move s roleId newX newY =
     (case scene_roles s roleId of
        None \<Rightarrow> Some s
      | Some r \<Rightarrow>
          do { a \<leftarrow> AOI_move (scene_aoi s) roleId newX newY;
               Some (s\<lparr>scene_roles := (scene_roles s)(roleId \<mapsto> r\<lparr>sr_x := newX, sr_y := newY\<rparr>),
                       scene_aoi := a\<rparr>) })"

definition Scene_getAroundRoles :: "scene \<Rightarrow> int \<Rightarrow> int list option" where
  "Scene_getAroundRoles s roleId = AOI_getAroundRoles (scene_aoi s) roleId"

definition Scene_getRole :: "scene \<Rightarrow> int \<Rightarrow> scene_role option" where
  "Scene_getRole s roleId = scene_roles s roleId"

definition Scene_roleCount :: "scene \<Rightarrow> nat" where
  "Scene_roleCount s = card (dom (scene_roles s))"

subsection \<open>The scene manager\<close>

text \<open>
  The manager's mutex is a field of the model, since one operation takes it twice.
  \<open>Mutex_lock\<close> by the thread that already holds the (non-recursive) mutex does not
  return. Between operations the mutex is free.
\<close>

record scene_manager =
  mutex :: bool
  scenes :: "int \<rightharpoonup> scene"
  roleScenes :: "int \<rightharpoonup> int"
  nextSceneId :: int

definition SceneManager_init :: scene_manager where
  "SceneManager_init =
     \<lparr>mutex = False, scenes = Map.empty, roleScenes = Map.empty, nextSceneId = 0\<rparr>"

definition Mutex_lock :: "scene_manager \<Rightarrow> scene_manager option" where
  "Mutex_lock m = (if mutex m then None else Some (m\<lparr>mutex := True\<rparr>))"

definition Mutex_unlock :: "scene_manager \<Rightarrow> scene_manager" where
  "Mutex_unlock m = m\<lparr>mutex := False\<rparr>"

definition SceneManager_createScene :: "scene_manager \<Rightarrow> int \<Rightarrow> int \<Rightarrow> (int \<times> scene_manager) option" where
  "SceneManager_createScene m w h =
     do { m \<leftarrow> Mutex_lock m;
          let i = wrap64 (nextSceneId m + 1);
          s \<leftarrow> Scene_new i w h;
          Some (i, Mutex_unlock (m\<lparr>nextSceneId := i, scenes := (scenes m)(i \<mapsto> s)\<rparr>)) }"

definition SceneManager_destroyScene :: "scene_manager \<Rightarrow> int \<Rightarrow> scene_manager option" where
  "SceneManager_destroyScene m sceneId =
     do { m \<leftarrow> Mutex_lock m;
          Some (Mutex_unlock (m\<lparr>scenes := (scenes m)(sceneId := None)\<rparr>)) }"

definition SceneManager_getScene :: "scene_manager \<Rightarrow> int \<Rightarrow> (scene option \<times> scene_manager) option" where
  "SceneManager_getScene m sceneId =
     do { m \<leftarrow> Mutex_lock m;
          Some (scenes m sceneId, Mutex_unlock m) }"

definition SceneManager_getRoleScene :: "scene_manager \<Rightarrow> int \<Rightarrow> (int \<times> scene_manager) option" where
  "SceneManager_getRoleScene m roleId =
     do { m \<leftarrow> Mutex_lock m;
          Some (case roleScenes m roleId of Some i \<Rightarrow> i | None \<Rightarrow> 0, Mutex_unlock m) }"

definition SceneManager_enterScene ::
    "scene_manager \<Rightarrow> int \<Rightarrow> int \<Rightarrow> int \<Rightarrow> int \<Rightarrow> (bool \<times> scene_manager) option" where
  "SceneManager_enterScene m sceneId roleId x y =
     do { m \<leftarrow> Mutex_lock m;
          (case scenes m sceneId of
             None \<Rightarrow> Some (False, Mutex_unlock m)
           | Some s \<Rightarrow>
               do { s' \<leftarrow> Scene_enter s roleId x y;
                    Some (True, Mutex_unlock (m\<lparr>scenes := (scenes m)(sceneId \<mapsto> s'),
                                                roleScenes := (roleScenes m)(roleId \<mapsto> sceneId)\<rparr>)) }) }"

definition SceneManager_leaveScene :: "scene_manager \<Rightarrow> int \<Rightarrow> scene_manager option" where
  "SceneManager_leaveScene m roleId =
     do { m \<leftarrow> Mutex_lock m;
          (case roleScenes m roleId of
             None \<Rightarrow> Some (Mutex_unlock m)
           | Some i \<Rightarrow>
               do { (found, m) \<leftarrow> SceneManager_getScene m i;
                    m \<leftarrow> (case found of
                            Some s \<Rightarrow> do { s' \<leftarrow> Scene_leave s roleId; Some (m\<lparr>scenes := (scenes m)(i \<mapsto> s')\<rparr>) }
                          | None \<Rightarrow> Some m);
                    Some (Mutex_unlock (m\<lparr>roleScenes := (roleScenes m)(roleId := None)\<rparr>)) }) }"

subsection \<open>Invariant of the area of interest\<close>

definition cell :: "aoi \<Rightarrow> int \<times> int \<Rightarrow> int \<times> int" where
  "cell a p = (min (fst p div gridWidth a) (gridX a - 1), min (snd p div gridHeight a) (gridY a - 1))"

definition aoi_shape :: "aoi \<Rightarrow> bool" where
  "aoi_shape a \<longleftrightarrow> 0 < gridX a \<and> 0 < gridY a \<and> 0 < gridWidth a \<and> 0 < gridHeight a \<and>
     int (length (grids a)) = gridX a * gridY a"

definition aoi_inv :: "aoi \<Rightarrow> bool" where
  "aoi_inv a \<longleftrightarrow> aoi_shape a \<and>
     (\<forall>g < length (grids a). distinct (grids a ! g) \<and>
        (\<forall>r. r \<in> set (grids a ! g) \<longleftrightarrow> roleToGrid a r = Some (int g))) \<and>
     (\<forall>r. roleToGrid a r =
        map_option (\<lambda>p. AOI_positionToGrid a (fst p) (snd p)) (rolePositions a r)) \<and>
     (\<forall>r p. rolePositions a r = Some p \<longrightarrow> 0 \<le> fst p \<and> 0 \<le> snd p)"

lemma cell_range:
  assumes "aoi_shape a" "0 \<le> fst p" "0 \<le> snd p"
  shows "0 \<le> fst (cell a p)" "fst (cell a p) < gridX a" "0 \<le> snd (cell a p)" "snd (cell a p) < gridY a"
  using assms by (auto simp: cell_def aoi_shape_def pos_imp_zdiv_nonneg_iff)

lemma positionToGrid_cell:
  assumes "aoi_shape a" "0 \<le> fst p" "0 \<le> snd p"
  shows "AOI_positionToGrid a (fst p) (snd p) = snd (cell a p) * gridX a + fst (cell a p)"
  using assms by (simp add: AOI_positionToGrid_def cell_def aoi_shape_def Let_def)

lemma grid_div_mod:
  fixes X :: int
  assumes "0 \<le> x" "x < X"
  shows "(y * X + x) div X = y" "(y * X + x) mod X = x"
  using assms by (simp_all add: div_pos_pos_trivial)

lemma grid_inj:
  fixes X :: int
  assumes "y * X + x = y' * X + x'" "0 \<le> x" "x < X" "0 \<le> x'" "x' < X"
  shows "y = y' \<and> x = x'"
  using assms grid_div_mod by metis

lemma grid_index_range:
  fixes X :: int
  assumes "0 \<le> x" "x < X" "0 \<le> y" "y < Y"
  shows "0 \<le> y * X + x" "y * X + x < X * Y"
proof -
  show "0 \<le> y * X + x" using assms by simp
  have "y * X + x < (y + 1) * X" using assms by (simp add: algebra_simps)
  also have "\<dots> \<le> Y * X" using assms by (intro mult_right_mono) auto
  finally show "y * X + x < X * Y" by (simp add: mult.commute)
qed

lemma positionToGrid_in:
  assumes "aoi_shape a" "0 \<le> x" "0 \<le> y"
  shows "in_grids a (AOI_positionToGrid a x y)"
proof -
  let ?p = "(x, y)"
  have "AOI_positionToGrid a x y = snd (cell a ?p) * gridX a + fst (cell a ?p)"
    using positionToGrid_cell[of a ?p] assms by simp
  then show ?thesis
    using grid_index_range[OF cell_range(1,2)[of a ?p] cell_range(3,4)[of a ?p]] assms
    by (simp add: in_grids_def aoi_shape_def)
qed

lemma concat_if:
  "concat (map (\<lambda>(a, b). if P a b then [f a b] else []) xs) =
    map (\<lambda>(a, b). f a b) (filter (\<lambda>(a, b). P a b) xs)"
  by (induction xs) auto

lemma concat_product:
  "concat (map (\<lambda>a. concat (map (\<lambda>b. F a b) bs)) as) = concat (map (\<lambda>(a, b). F a b) (List.product as bs))"
  by (induction as) (simp_all add: comp_def)

definition offsets :: "(int \<times> int) list" where
  "offsets = List.product [-1, 0, 1] [-1, 0, 1]"

lemma abs_le_1: "\<bar>d\<bar> \<le> 1 \<longleftrightarrow> d \<in> {-1, 0, 1 :: int}"
  by auto

lemma offsets_iff: "(dy, dx) \<in> set offsets \<longleftrightarrow> \<bar>dy\<bar> \<le> 1 \<and> \<bar>dx\<bar> \<le> 1"
  unfolding offsets_def set_product abs_le_1 by simp blast

lemma distinct_offsets: "distinct offsets"
  unfolding offsets_def by (rule distinct_product) simp_all

lemma around_grids_offsets:
  assumes "aoi_shape a" "0 \<le> i"
  shows "AOI_getAroundGrids a i =
     map (\<lambda>(dy, dx). (i div gridX a + dy) * gridX a + (i mod gridX a + dx))
       (filter (\<lambda>(dy, dx). 0 \<le> i div gridX a + dy \<and> i div gridX a + dy < gridY a \<and>
                          0 \<le> i mod gridX a + dx \<and> i mod gridX a + dx < gridX a) offsets)"
proof -
  have X: "0 < gridX a" using assms(1) by (simp add: aoi_shape_def)
  show ?thesis
    unfolding AOI_getAroundGrids_def Let_def cdiv_nonneg[OF assms(2) X] cmod_nonneg[OF assms(2) X]
      concat_product offsets_def
    by (rule concat_if[of "\<lambda>dy dx. 0 \<le> i div gridX a + dy \<and> i div gridX a + dy < gridY a \<and>
        0 \<le> i mod gridX a + dx \<and> i mod gridX a + dx < gridX a"
        "\<lambda>dy dx. (i div gridX a + dy) * gridX a + (i mod gridX a + dx)"
        "List.product [-1, 0, 1] [-1, 0, 1]"])
qed

text \<open>The grids around a grid are those whose row and column differ by at most one.\<close>

lemma around_grids:
  assumes "aoi_shape a" "0 \<le> i"
  shows "g \<in> set (AOI_getAroundGrids a i) \<longleftrightarrow>
           (\<exists>nx ny. g = ny * gridX a + nx \<and> 0 \<le> nx \<and> nx < gridX a \<and> 0 \<le> ny \<and> ny < gridY a \<and>
              \<bar>nx - i mod gridX a\<bar> \<le> 1 \<and> \<bar>ny - i div gridX a\<bar> \<le> 1)"
    and "distinct (AOI_getAroundGrids a i)"
proof -
  let ?X = "gridX a" and ?Y = "gridY a"
  let ?gy = "i div ?X" and ?gx = "i mod ?X"
  let ?P = "\<lambda>(dy, dx). 0 \<le> ?gy + dy \<and> ?gy + dy < ?Y \<and> 0 \<le> ?gx + dx \<and> ?gx + dx < ?X"
  let ?f = "\<lambda>(dy, dx). (?gy + dy) * ?X + (?gx + dx)"
  have mem: "g \<in> set (AOI_getAroundGrids a i) \<longleftrightarrow> (\<exists>dy dx. (dy, dx) \<in> set offsets \<and> ?P (dy, dx) \<and> g = ?f (dy, dx))"
    unfolding around_grids_offsets[OF assms] by auto
  show "g \<in> set (AOI_getAroundGrids a i) \<longleftrightarrow>
           (\<exists>nx ny. g = ny * gridX a + nx \<and> 0 \<le> nx \<and> nx < gridX a \<and> 0 \<le> ny \<and> ny < gridY a \<and>
              \<bar>nx - i mod gridX a\<bar> \<le> 1 \<and> \<bar>ny - i div gridX a\<bar> \<le> 1)" (is "_ \<longleftrightarrow> ?R")
  proof
    assume "g \<in> set (AOI_getAroundGrids a i)"
    then obtain dy dx where "(dy, dx) \<in> set offsets" "?P (dy, dx)" "g = ?f (dy, dx)"
      unfolding mem by blast
    then show ?R unfolding offsets_iff
      by (intro exI[of _ "?gx + dx"] exI[of _ "?gy + dy"]) simp
  next
    assume ?R
    then obtain nx ny where "g = ny * ?X + nx" "0 \<le> nx" "nx < ?X" "0 \<le> ny" "ny < ?Y"
      "\<bar>nx - ?gx\<bar> \<le> 1" "\<bar>ny - ?gy\<bar> \<le> 1" by blast
    then show "g \<in> set (AOI_getAroundGrids a i)"
      unfolding mem offsets_iff by (intro exI[of _ "ny - ?gy"] exI[of _ "nx - ?gx"]) simp
  qed
  have "inj_on ?f (set (filter ?P offsets))"
  proof (rule inj_onI)
    fix u v assume u: "u \<in> set (filter ?P offsets)" and v: "v \<in> set (filter ?P offsets)" and e: "?f u = ?f v"
    obtain dy dx ey ex where uv: "u = (dy, dx)" "v = (ey, ex)" by (metis surj_pair)
    have "0 \<le> ?gx + dx" "?gx + dx < ?X" "0 \<le> ?gx + ex" "?gx + ex < ?X"
      using u v by (simp_all add: uv)
    moreover have "(?gy + dy) * ?X + (?gx + dx) = (?gy + ey) * ?X + (?gx + ex)"
      using e unfolding uv prod.case .
    ultimately have "?gy + dy = ?gy + ey \<and> ?gx + dx = ?gx + ex" by (intro grid_inj)
    then show "u = v" by (simp add: uv)
  qed
  then show "distinct (AOI_getAroundGrids a i)"
    unfolding around_grids_offsets[OF assms] by (simp add: distinct_map distinct_offsets)
qed

subsection \<open>Operations keep the invariant\<close>

lemma aoi_inv_shape: "aoi_inv a \<Longrightarrow> aoi_shape a"
  by (simp add: aoi_inv_def)

lemma in_grids_iff: "aoi_inv a \<Longrightarrow> in_grids a g \<Longrightarrow> r \<in> set (grids a ! nat g) \<longleftrightarrow> roleToGrid a r = Some g"
  by (auto simp: aoi_inv_def in_grids_def)

lemma role_grid:
  assumes "aoi_inv a" "roleToGrid a r = Some g"
  obtains p where "rolePositions a r = Some p" "g = AOI_positionToGrid a (fst p) (snd p)"
    "0 \<le> fst p" "0 \<le> snd p" "in_grids a g"
proof -
  obtain p where p: "rolePositions a r = Some p" "g = AOI_positionToGrid a (fst p) (snd p)"
    using assms by (auto simp: aoi_inv_def)
  then have "0 \<le> fst p" "0 \<le> snd p" using assms(1) unfolding aoi_inv_def by blast+
  then show ?thesis using that[OF p] positionToGrid_in[OF aoi_inv_shape[OF assms(1)]] p(2) by auto
qed

lemma positionToGrid_update [simp]:
  "AOI_positionToGrid (a\<lparr>grids := gs\<rparr>) = AOI_positionToGrid a"
  "AOI_positionToGrid (a\<lparr>roleToGrid := rg\<rparr>) = AOI_positionToGrid a"
  "AOI_positionToGrid (a\<lparr>rolePositions := rp\<rparr>) = AOI_positionToGrid a"
  by (simp_all add: fun_eq_iff AOI_positionToGrid_def)

lemma shape_update [simp]:
  "aoi_shape (a\<lparr>roleToGrid := rg\<rparr>) = aoi_shape a" "aoi_shape (a\<lparr>rolePositions := rp\<rparr>) = aoi_shape a"
  "length gs = length (grids a) \<Longrightarrow> aoi_shape (a\<lparr>grids := gs\<rparr>) = aoi_shape a"
  by (simp_all add: aoi_shape_def)

text \<open>A role that is not on the map is put on it.\<close>

lemma AOI_enter_inv:
  assumes "aoi_inv a" "roleToGrid a r = None" "0 \<le> x" "0 \<le> y"
  obtains a' where "AOI_enter a r x y = Some a'" "aoi_inv a'"
    "rolePositions a' = (rolePositions a)(r \<mapsto> (x, y))"
    "gridX a' = gridX a" "gridY a' = gridY a" "gridWidth a' = gridWidth a" "gridHeight a' = gridHeight a"
proof -
  define g where "g = AOI_positionToGrid a x y"
  note shape = aoi_inv_shape[OF assms(1)]
  have g: "in_grids a g" unfolding g_def by (rule positionToGrid_in[OF shape assms(3,4)])
  let ?gs = "(grids a)[nat g := hs_insert r (grids a ! nat g)]"
  let ?a = "a\<lparr>grids := ?gs, roleToGrid := (roleToGrid a)(r \<mapsto> g),
      rolePositions := (rolePositions a)(r \<mapsto> (x, y))\<rparr>"
  have new: "r \<notin> set (grids a ! k)" if "k < length (grids a)" for k
    using assms(1,2) that by (auto simp: aoi_inv_def)
  have "distinct (?gs ! k) \<and> (\<forall>r'. r' \<in> set (?gs ! k) \<longleftrightarrow> roleToGrid ?a r' = Some (int k))"
    if k: "k < length ?gs" for k
  proof -
    have "nat g = k \<longleftrightarrow> g = int k" using g by (auto simp: in_grids_def)
    then show ?thesis
      using k assms(1) new[of k] by (auto simp: aoi_inv_def nth_list_update)
  qed
  then have "aoi_inv ?a"
    using assms shape by (auto simp: aoi_inv_def g_def)
  moreover have "AOI_enter a r x y = Some ?a"
    using g shape by (simp add: AOI_enter_def Let_def g_def[symmetric] aoi_shape_def)
  ultimately show ?thesis using that by simp
qed

lemma AOI_leave_inv:
  assumes "aoi_inv a"
  obtains a' where "AOI_leave a r = Some a'" "aoi_inv a'"
    "rolePositions a' = (rolePositions a)(r := None)"
    "gridX a' = gridX a" "gridY a' = gridY a" "gridWidth a' = gridWidth a" "gridHeight a' = gridHeight a"
proof (cases "roleToGrid a r")
  case None
  then have "rolePositions a r = None" using assms by (auto simp: aoi_inv_def)
  then show ?thesis using None that[of a] assms by (auto simp: AOI_leave_def fun_upd_idem)
next
  case (Some g)
  note shape = aoi_inv_shape[OF assms]
  have g: "in_grids a g" using role_grid[OF assms Some] by blast
  let ?gs = "(grids a)[nat g := hs_erase r (grids a ! nat g)]"
  let ?a = "a\<lparr>grids := ?gs, roleToGrid := (roleToGrid a)(r := None),
      rolePositions := (rolePositions a)(r := None)\<rparr>"
  have "distinct (?gs ! k) \<and> (\<forall>r'. r' \<in> set (?gs ! k) \<longleftrightarrow> roleToGrid ?a r' = Some (int k))"
    if k: "k < length ?gs" for k
  proof -
    have "nat g = k \<longleftrightarrow> g = int k" using g by (auto simp: in_grids_def)
    then show ?thesis
      using k assms Some by (auto simp: aoi_inv_def nth_list_update)
  qed
  then have "aoi_inv ?a"
    using assms shape by (auto simp: aoi_inv_def)
  moreover have "AOI_leave a r = Some ?a"
    using g Some by (simp add: AOI_leave_def)
  ultimately show ?thesis using that by simp
qed

lemma AOI_move_inv:
  assumes "aoi_inv a" "roleToGrid a r \<noteq> None" "0 \<le> x" "0 \<le> y"
  obtains a' where "AOI_move a r x y = Some a'" "aoi_inv a'"
    "rolePositions a' = (rolePositions a)(r \<mapsto> (x, y))"
    "gridX a' = gridX a" "gridY a' = gridY a" "gridWidth a' = gridWidth a" "gridHeight a' = gridHeight a"
proof -
  note shape = aoi_inv_shape[OF assms(1)]
  obtain g where Some: "roleToGrid a r = Some g" using assms(2) by blast
  have g: "in_grids a g" using role_grid[OF assms(1) Some] by blast
  define n where "n = AOI_positionToGrid a x y"
  have n: "in_grids a n" unfolding n_def by (rule positionToGrid_in[OF shape assms(3,4)])
  have W: "gridWidth a \<noteq> 0" "gridHeight a \<noteq> 0" using shape by (auto simp: aoi_shape_def)
  show ?thesis
  proof (cases "g = n")
    case True
    let ?a = "a\<lparr>rolePositions := (rolePositions a)(r \<mapsto> (x, y))\<rparr>"
    have "aoi_inv ?a" using assms shape Some True by (auto simp: aoi_inv_def n_def)
    moreover have "AOI_move a r x y = Some ?a"
      using Some True W by (simp add: AOI_move_def Let_def n_def[symmetric])
    ultimately show ?thesis using that by simp
  next
    case False
    let ?gs1 = "(grids a)[nat g := hs_erase r (grids a ! nat g)]"
    let ?gs = "?gs1[nat n := hs_insert r (?gs1 ! nat n)]"
    let ?a = "a\<lparr>grids := ?gs, roleToGrid := (roleToGrid a)(r \<mapsto> n),
      rolePositions := (rolePositions a)(r \<mapsto> (x, y))\<rparr>"
    have "distinct (?gs ! k) \<and> (\<forall>r'. r' \<in> set (?gs ! k) \<longleftrightarrow> roleToGrid ?a r' = Some (int k))"
      if k: "k < length ?gs" for k
    proof -
      have e: "nat g = k \<longleftrightarrow> g = int k" "nat n = k \<longleftrightarrow> n = int k" "nat g < length (grids a)"
        using g n by (auto simp: in_grids_def)
      have ks: "distinct (grids a ! k)" "\<And>r'. r' \<in> set (grids a ! k) \<longleftrightarrow> roleToGrid a r' = Some (int k)"
        using k assms(1) by (simp_all add: aoi_inv_def)
      have "nat g \<noteq> nat n" using False g n by (auto simp: in_grids_def)
      then have u: "?gs ! k = (if n = int k then hs_insert r (grids a ! k)
          else if g = int k then hs_erase r (grids a ! k) else grids a ! k)"
        using k e by (simp add: nth_list_update)
      show ?thesis unfolding u using ks Some False by auto
    qed
    then have gs: "\<forall>k < length (grids ?a). distinct (grids ?a ! k) \<and>
        (\<forall>r'. r' \<in> set (grids ?a ! k) \<longleftrightarrow> roleToGrid ?a r' = Some (int k))" by simp
    have "aoi_inv ?a"
      unfolding aoi_inv_def
    proof (intro conjI)
      show "aoi_shape ?a" using shape by simp
      show "\<forall>k < length (grids ?a). distinct (grids ?a ! k) \<and>
        (\<forall>r'. r' \<in> set (grids ?a ! k) \<longleftrightarrow> roleToGrid ?a r' = Some (int k))" by (rule gs)
    qed (use assms in \<open>auto simp: aoi_inv_def n_def\<close>)
    moreover have "AOI_move a r x y = Some ?a"
      using Some False W g n by (simp add: AOI_move_def Let_def n_def[symmetric])
    ultimately show ?thesis using that by simp
  qed
qed

subsection \<open>Scenes\<close>

inductive scene_reach :: "scene \<Rightarrow> bool" where
  scene_start: "Scene_new i w h = Some s \<Longrightarrow> 0 < w \<Longrightarrow> 0 < h \<Longrightarrow> scene_reach s"
| scene_entered: "scene_reach s \<Longrightarrow> Scene_getRole s r = None \<Longrightarrow> 0 \<le> x \<Longrightarrow> 0 \<le> y \<Longrightarrow>
    Scene_enter s r x y = Some s' \<Longrightarrow> scene_reach s'"
| scene_left: "scene_reach s \<Longrightarrow> Scene_leave s r = Some s' \<Longrightarrow> scene_reach s'"
| scene_moved: "scene_reach s \<Longrightarrow> 0 \<le> x \<Longrightarrow> 0 \<le> y \<Longrightarrow> Scene_move s r x y = Some s' \<Longrightarrow> scene_reach s'"

definition role_pos :: "scene_role \<Rightarrow> int \<times> int" where
  "role_pos q = (sr_x q, sr_y q)"

definition scene_inv :: "scene \<Rightarrow> bool" where
  "scene_inv s \<longleftrightarrow> aoi_inv (scene_aoi s) \<and>
     (\<forall>r. rolePositions (scene_aoi s) r = map_option role_pos (scene_roles s r))"

lemma scene_inv_absent: "scene_inv s \<Longrightarrow> roleToGrid (scene_aoi s) r = None \<longleftrightarrow> scene_roles s r = None"
  by (simp add: scene_inv_def aoi_inv_def)

lemma AOI_new_inv:
  assumes "AOI_new w h gx gy = Some a" "0 < w" "0 < h" "0 < gx" "0 < gy"
  shows "aoi_inv a" and "rolePositions a = Map.empty"
proof -
  have ge: "gx \<le> w + gx - 1" "gy \<le> h + gy - 1" using assms(2,3) by auto
  have nn: "0 \<le> w + gx - 1" "0 \<le> h + gy - 1" using ge assms(4,5) by linarith+
  have d: "0 < (w + gx - 1) div gx" "0 < (h + gy - 1) div gy"
    using ge assms(4,5) by (simp_all only: pos_imp_zdiv_pos_iff)
  have a: "a = \<lparr>width = w, height = h, gridX = gx, gridY = gy,
      gridWidth = (w + gx - 1) div gx, gridHeight = (h + gy - 1) div gy,
      grids = replicate (nat (gx * gy)) [], roleToGrid = Map.empty, rolePositions = Map.empty\<rparr>"
    using assms(1) unfolding AOI_new_def cdiv_nonneg[OF nn(1) assms(4)] cdiv_nonneg[OF nn(2) assms(5)]
    by (metis option.distinct(1) option.inject)
  then have "aoi_shape a" using d assms(4,5) by (simp add: aoi_shape_def)
  then show "aoi_inv a" by (simp add: aoi_inv_def a)
  show "rolePositions a = Map.empty" by (simp add: a)
qed

lemma Scene_new_inv:
  assumes "Scene_new i w h = Some s" "0 < w" "0 < h"
  shows "scene_inv s"
proof -
  have nn: "0 \<le> w + 99" "0 \<le> h + 99" using assms(2,3) by auto
  have c: "cdiv (w + 99) 100 = (w + 99) div 100" "cdiv (h + 99) 100 = (h + 99) div 100"
    using nn by (simp_all only: cdiv_nonneg zero_less_numeral)
  have g: "0 < (w + 99) div 100" "0 < (h + 99) div 100" using assms(2,3) by (simp_all add: pos_imp_zdiv_pos_iff)
  have "\<exists>a. AOI_new w h ((w + 99) div 100) ((h + 99) div 100) = Some a \<and> scene_aoi s = a \<and>
      scene_roles s = Map.empty"
    using assms(1) unfolding Scene_new_def c
    by (cases "AOI_new w h ((w + 99) div 100) ((h + 99) div 100)") (auto split: if_splits)
  then show ?thesis
    using AOI_new_inv[OF _ assms(2,3) g] by (auto simp: scene_inv_def)
qed

lemma Scene_enter_inv:
  assumes "scene_inv s" "Scene_getRole s r = None" "0 \<le> x" "0 \<le> y"
  obtains s' where "Scene_enter s r x y = Some s'" "scene_inv s'"
    "map_option role_pos \<circ> scene_roles s' = (map_option role_pos \<circ> scene_roles s)(r \<mapsto> (x, y))"
proof -
  have ai: "aoi_inv (scene_aoi s)" using assms(1) by (simp add: scene_inv_def)
  have "roleToGrid (scene_aoi s) r = None"
    using assms(2) scene_inv_absent[OF assms(1)] by (simp add: Scene_getRole_def)
  then obtain a where a: "AOI_enter (scene_aoi s) r x y = Some a" "aoi_inv a"
    "rolePositions a = (rolePositions (scene_aoi s))(r \<mapsto> (x, y))"
    using AOI_enter_inv[OF ai _ assms(3,4)] by metis
  then show ?thesis
    using that assms(1) by (simp add: Scene_enter_def scene_inv_def role_pos_def fun_eq_iff)
qed

lemma Scene_leave_inv:
  assumes "scene_inv s"
  obtains s' where "Scene_leave s r = Some s'" "scene_inv s'" "scene_roles s' = (scene_roles s)(r := None)"
proof -
  have ai: "aoi_inv (scene_aoi s)" using assms(1) by (simp add: scene_inv_def)
  obtain a where "AOI_leave (scene_aoi s) r = Some a" "aoi_inv a"
    "rolePositions a = (rolePositions (scene_aoi s))(r := None)"
    using AOI_leave_inv[OF ai] by metis
  then show ?thesis using that assms by (simp add: Scene_leave_def scene_inv_def)
qed

lemma Scene_move_inv:
  assumes "scene_inv s" "0 \<le> x" "0 \<le> y"
  obtains s' where "Scene_move s r x y = Some s'" "scene_inv s'"
    "map_option role_pos \<circ> scene_roles s' =
       (case scene_roles s r of None \<Rightarrow> map_option role_pos \<circ> scene_roles s
        | Some q \<Rightarrow> (map_option role_pos \<circ> scene_roles s)(r \<mapsto> (x, y)))"
proof (cases "scene_roles s r")
  case None
  then show ?thesis using that[of s] assms(1) by (simp add: Scene_move_def)
next
  case (Some q)
  have ai: "aoi_inv (scene_aoi s)" using assms(1) by (simp add: scene_inv_def)
  have "roleToGrid (scene_aoi s) r \<noteq> None" using Some scene_inv_absent[OF assms(1)] by simp
  then obtain a where "AOI_move (scene_aoi s) r x y = Some a" "aoi_inv a"
    "rolePositions a = (rolePositions (scene_aoi s))(r \<mapsto> (x, y))"
    using AOI_move_inv[OF ai _ assms(2,3)] by metis
  then show ?thesis
    using that assms(1) Some by (simp add: Scene_move_def scene_inv_def role_pos_def fun_eq_iff)
qed

lemma scene_reach_inv: "scene_reach s \<Longrightarrow> scene_inv s"
proof (induction rule: scene_reach.induct)
  case (scene_start i w h s)
  then show ?case by (rule Scene_new_inv)
next
  case (scene_entered s r x y s')
  then show ?case by (metis Scene_enter_inv option.inject)
next
  case (scene_left s r s')
  then show ?case by (metis Scene_leave_inv option.inject)
next
  case (scene_moved s x y r s')
  then show ?case by (metis Scene_move_inv option.inject)
qed

text \<open>What is seen from a grid.\<close>

definition near :: "aoi \<Rightarrow> int \<times> int \<Rightarrow> int \<times> int \<Rightarrow> bool" where
  "near a p q \<longleftrightarrow> \<bar>fst (cell a q) - fst (cell a p)\<bar> \<le> 1 \<and> \<bar>snd (cell a q) - snd (cell a p)\<bar> \<le> 1"

lemma around_in:
  assumes shape: "aoi_shape a" and nn: "0 \<le> fst p" "0 \<le> snd p"
    and g: "g = AOI_positionToGrid a (fst p) (snd p)"
  shows "\<forall>g' \<in> set (AOI_getAroundGrids a g). in_grids a g'" and "g \<in> set (AOI_getAroundGrids a g)"
    and "0 \<le> g" and "g div gridX a = snd (cell a p)" "g mod gridX a = fst (cell a p)"
proof -
  note cp = cell_range[OF shape nn]
  have gc: "g = snd (cell a p) * gridX a + fst (cell a p)"
    using positionToGrid_cell[OF shape nn] g by simp
  show g0: "0 \<le> g" unfolding gc using cp by simp
  show dm: "g div gridX a = snd (cell a p)" "g mod gridX a = fst (cell a p)"
    unfolding gc using grid_div_mod cp by auto
  show "\<forall>g' \<in> set (AOI_getAroundGrids a g). in_grids a g'"
  proof
    fix g' assume "g' \<in> set (AOI_getAroundGrids a g)"
    then obtain nx ny where n: "g' = ny * gridX a + nx" "0 \<le> nx" "nx < gridX a" "0 \<le> ny" "ny < gridY a"
      unfolding around_grids(1)[OF shape g0] by blast
    then show "in_grids a g'"
      using grid_index_range[OF n(2-5)] shape by (simp add: in_grids_def aoi_shape_def)
  qed
  show "g \<in> set (AOI_getAroundGrids a g)"
    unfolding around_grids(1)[OF shape g0] dm
    using gc cp by (intro exI[of _ "fst (cell a p)"] exI[of _ "snd (cell a p)"]) simp
qed

lemma around_cells:
  assumes "aoi_inv a" "0 \<le> fst p" "0 \<le> snd p" and g: "g = AOI_positionToGrid a (fst p) (snd p)"
    and r: "roleToGrid a r = Some g'"
  shows "g' \<in> set (AOI_getAroundGrids a g) \<longleftrightarrow> (\<exists>q. rolePositions a r = Some q \<and> near a p q)"
proof -
  note shape = aoi_inv_shape[OF assms(1)]
  note g0 = around_in(3)[OF shape assms(2,3) g] and dm = around_in(4,5)[OF shape assms(2,3) g]
  obtain q where q: "rolePositions a r = Some q" "g' = AOI_positionToGrid a (fst q) (snd q)"
    "0 \<le> fst q" "0 \<le> snd q" using role_grid[OF assms(1) r] by metis
  note cq = cell_range[OF shape q(3,4)]
  have g'c: "g' = snd (cell a q) * gridX a + fst (cell a q)"
    using positionToGrid_cell[OF shape q(3,4)] q(2) by simp
  have "g' \<in> set (AOI_getAroundGrids a g) \<longleftrightarrow> near a p q"
  proof
    assume "near a p q"
    then show "g' \<in> set (AOI_getAroundGrids a g)"
      unfolding around_grids(1)[OF shape g0] dm near_def using cq g'c by blast
  next
    assume "g' \<in> set (AOI_getAroundGrids a g)"
    then obtain nx ny where n: "g' = ny * gridX a + nx" "0 \<le> nx" "nx < gridX a"
      "\<bar>nx - fst (cell a p)\<bar> \<le> 1" "\<bar>ny - snd (cell a p)\<bar> \<le> 1"
      unfolding around_grids(1)[OF shape g0] dm by blast
    have "ny = snd (cell a q) \<and> nx = fst (cell a q)"
      using n(1-3) cq g'c by (intro grid_inj) auto
    then show "near a p q" using n(4,5) by (simp add: near_def)
  qed
  then show ?thesis using q(1) by auto
qed

lemma distinct_concat_grids:
  assumes "aoi_inv a" "distinct gs" "\<forall>g \<in> set gs. in_grids a g"
  shows "distinct (concat (map (\<lambda>g. filter P (grids a ! nat g)) gs))"
  using assms(2,3)
proof (induction gs)
  case (Cons g gs)
  have "distinct (grids a ! nat g)" using assms(1) Cons.prems(2) by (auto simp: aoi_inv_def in_grids_def)
  moreover have "set (grids a ! nat g) \<inter> set (grids a ! nat g') = {}" if "g' \<in> set gs" for g'
    using that Cons.prems in_grids_iff[OF assms(1)] by fastforce
  ultimately show ?case using Cons by auto
qed simp

lemma near_close:
  assumes "aoi_shape a" "0 \<le> fst p" "0 \<le> snd p" "0 \<le> fst q" "0 \<le> snd q"
    and "\<bar>fst q - fst p\<bar> \<le> gridWidth a" "\<bar>snd q - snd p\<bar> \<le> gridHeight a"
  shows "near a p q"
proof -
  have step: "\<bar>min (v div W) n - min (u div W) n\<bar> \<le> 1" if "0 < W" "\<bar>v - u\<bar> \<le> W" for u v W n :: int
  proof -
    have "v div W \<le> (u + W) div W" "u div W \<le> (v + W) div W"
      using that by (intro zdiv_mono1; linarith)+
    moreover have "(u + W) div W = u div W + 1" "(v + W) div W = v div W + 1"
      using that(1) by (simp_all add: div_add_self2)
    ultimately have "v div W \<le> u div W + 1" "u div W \<le> v div W + 1" by linarith+
    then show ?thesis by linarith
  qed
  show ?thesis using assms by (simp add: near_def cell_def aoi_shape_def step)
qed


text \<open>A scene of four cells with two roles in it.\<close>

definition small_scene :: "int list list \<Rightarrow> (int \<rightharpoonup> int) \<Rightarrow> (int \<rightharpoonup> int \<times> int) \<Rightarrow> (int \<rightharpoonup> scene_role) \<Rightarrow> scene" where
  "small_scene gs rg rp rs =
     \<lparr>scene_id = 1, scene_width = 400, scene_height = 100,
      scene_aoi = \<lparr>width = 400, height = 100, gridX = 4, gridY = 1, gridWidth = 100, gridHeight = 100,
                   grids = gs, roleToGrid = rg, rolePositions = rp\<rparr>,
      scene_roles = rs\<rparr>"

definition at_pos :: "int \<Rightarrow> int \<Rightarrow> int \<Rightarrow> scene_role" where
  "at_pos r x y = \<lparr>sr_roleId = r, sr_x = x, sr_y = y, sr_hp = 0, sr_mp = 0\<rparr>"

definition two_roles :: scene where
  "two_roles = small_scene [[7], [8], [], []] [7 \<mapsto> 0, 8 \<mapsto> 1] [7 \<mapsto> (50, 20), 8 \<mapsto> (130, 40)]
     [7 \<mapsto> at_pos 7 50 20, 8 \<mapsto> at_pos 8 130 40]"

lemma four_cells: "replicate 4 x = [x, x, x, x]"
  by (simp add: numeral_eq_Suc)

lemma small_scene_new: "Scene_new 1 400 100 = Some (small_scene [[], [], [], []] Map.empty Map.empty Map.empty)"
  by (simp add: Scene_new_def AOI_new_def fits32_def small_scene_def four_cells)

lemma two_roles_reach: "scene_reach two_roles"
proof -
  let ?s0 = "small_scene [[], [], [], []] Map.empty Map.empty Map.empty"
  let ?s1 = "small_scene [[7], [], [], []] [7 \<mapsto> 0] [7 \<mapsto> (50, 20)] [7 \<mapsto> at_pos 7 50 20]"
  have 0: "scene_reach ?s0" by (rule scene_start[OF small_scene_new]) simp_all
  have e1: "Scene_enter ?s0 7 50 20 = Some ?s1"
    by (simp add: Scene_enter_def AOI_enter_def AOI_positionToGrid_def in_grids_def small_scene_def
        hs_insert_def at_pos_def)
  have 1: "scene_reach ?s1"
    by (rule scene_entered[OF 0 _ _ _ e1]) (simp_all add: Scene_getRole_def small_scene_def)
  have e2: "Scene_enter ?s1 8 130 40 = Some two_roles"
    by (simp add: Scene_enter_def AOI_enter_def AOI_positionToGrid_def in_grids_def small_scene_def
        hs_insert_def at_pos_def two_roles_def)
  show ?thesis
    by (rule scene_entered[OF 1 _ _ _ e2]) (simp_all add: Scene_getRole_def small_scene_def)
qed


lemma Scene_reenter_leaves_ghost_parts:
  assumes "scene_reach s" "Scene_getRole s r = Some q" "0 \<le> x" "0 \<le> y"
    and "AOI_positionToGrid (scene_aoi s) x y \<noteq> AOI_positionToGrid (scene_aoi s) (sr_x q) (sr_y q)"
    and "Scene_enter s r x y = Some s1" "Scene_leave s1 r = Some s2"
  shows "Scene_getRole s2 r = None"
    and "\<exists>vs. AOI_getAroundRoles_at (scene_aoi s2) (sr_x q) (sr_y q) = Some vs \<and> r \<in> set vs"
proof -
  let ?a = "scene_aoi s"
  have ai: "aoi_inv ?a" and pos: "rolePositions ?a r = Some (sr_x q, sr_y q)"
    using scene_reach_inv[OF assms(1)] assms(2) by (simp_all add: scene_inv_def Scene_getRole_def role_pos_def)
  note shape = aoi_inv_shape[OF ai]
  have nn: "0 \<le> sr_x q" "0 \<le> sr_y q" using ai pos unfolding aoi_inv_def by fastforce+
  define g where "g = AOI_positionToGrid ?a (sr_x q) (sr_y q)"
  define n where "n = AOI_positionToGrid ?a x y"
  have gi: "in_grids ?a g" "in_grids ?a n"
    unfolding g_def n_def using positionToGrid_in[OF shape] nn assms(3,4) by auto
  have rg: "roleToGrid ?a r = Some g" using ai pos by (simp add: aoi_inv_def g_def)
  have gn: "nat g \<noteq> nat n" "nat n < length (grids ?a)"
    using assms(5) gi by (auto simp: in_grids_def g_def n_def)
  have s1: "scene_aoi s1 = ?a\<lparr>grids := (grids ?a)[nat n := hs_insert r (grids ?a ! nat n)],
      roleToGrid := (roleToGrid ?a)(r \<mapsto> n), rolePositions := (rolePositions ?a)(r \<mapsto> (x, y))\<rparr>"
    using assms(6) gi shape by (auto simp: Scene_enter_def AOI_enter_def Let_def n_def[symmetric] aoi_shape_def)
  have i1: "in_grids (scene_aoi s1) n" using gi(2) by (simp add: s1 in_grids_def)
  obtain a2 where a2: "AOI_leave (scene_aoi s1) r = Some a2" "scene_aoi s2 = a2"
    and roles: "scene_roles s2 = (scene_roles s1)(r := None)"
    using assms(7) by (auto simp: Scene_leave_def split: bind_splits)
  show "Scene_getRole s2 r = None" by (simp add: Scene_getRole_def roles)
  have a2e: "grids a2 = (grids (scene_aoi s1))[nat n := hs_erase r (grids (scene_aoi s1) ! nat n)]"
    "gridX a2 = gridX ?a" "gridY a2 = gridY ?a" "gridWidth a2 = gridWidth ?a" "gridHeight a2 = gridHeight ?a"
    using a2(1) i1 unfolding AOI_leave_def s1 by (auto split: if_splits)
  have len: "length (grids a2) = length (grids ?a)"
    by (simp add: a2e(1) s1)
  have shape2: "aoi_shape a2" using shape unfolding aoi_shape_def a2e(2-5) len .
  have "r \<in> set (grids ?a ! nat g)" using in_grids_iff[OF ai gi(1)] rg by simp
  then have ghost: "r \<in> set (grids a2 ! nat g)" using gn unfolding a2e(1) s1 by simp
  have g2: "g = AOI_positionToGrid a2 (fst (sr_x q, sr_y q)) (snd (sr_x q, sr_y q))"
    unfolding g_def AOI_positionToGrid_def a2e(2-5) by simp
  note ar = around_in(1,2)[OF shape2 _ _ g2]
  have "AOI_getAroundRoles_at a2 (sr_x q) (sr_y q) =
      Some (concat (map (\<lambda>g'. grids a2 ! nat g') (AOI_getAroundGrids a2 g)))"
    using ar(1) nn shape2 g2 by (simp add: AOI_getAroundRoles_at_def aoi_shape_def Let_def)
  moreover have "g \<in> set (AOI_getAroundGrids a2 g)" using ar(2) nn by simp
  ultimately show "\<exists>vs. AOI_getAroundRoles_at (scene_aoi s2) (sr_x q) (sr_y q) = Some vs \<and> r \<in> set vs"
    using ghost a2(2) by auto
qed

text \<open>
  A role that enters a scene it is already in, at a place in another cell, leaves a ghost:
  after it has left the scene, the scene has no such role, but everyone near its first
  position is still told that it is there.
\<close>

theorem Scene_reenter_leaves_ghost:
  assumes "scene_reach s" "Scene_getRole s r = Some q" "0 \<le> x" "0 \<le> y"
    and "AOI_positionToGrid (scene_aoi s) x y \<noteq> AOI_positionToGrid (scene_aoi s) (sr_x q) (sr_y q)"
    and "Scene_enter s r x y = Some s1" "Scene_leave s1 r = Some s2"
  shows "(Scene_getRole s2 r = None) \<and>
    ((\<exists>vs. AOI_getAroundRoles_at (scene_aoi s2) (sr_x q) (sr_y q) = Some vs \<and> r \<in> set vs))"
  using Scene_reenter_leaves_ghost_parts[OF assms] by blast

lemma Scene_reenter_leaves_ghost_witness:
  "\<exists>s1 s2 vs. Scene_enter two_roles 7 350 20 = Some s1 \<and> Scene_leave s1 7 = Some s2 \<and>
     Scene_getRole s2 7 = None \<and> AOI_getAroundRoles_at (scene_aoi s2) 50 20 = Some vs \<and> 7 \<in> set vs"
proof -
  let ?s1 = "small_scene [[7], [8], [], [7]] [7 \<mapsto> 3, 8 \<mapsto> 1] [7 \<mapsto> (350, 20), 8 \<mapsto> (130, 40)]
     [7 \<mapsto> at_pos 7 350 20, 8 \<mapsto> at_pos 8 130 40]"
  let ?s2 = "small_scene [[7], [8], [], []] [8 \<mapsto> 1] [8 \<mapsto> (130, 40)] [8 \<mapsto> at_pos 8 130 40]"
  have e: "Scene_enter two_roles 7 350 20 = Some ?s1"
    by (simp add: Scene_enter_def AOI_enter_def AOI_positionToGrid_def in_grids_def small_scene_def
        hs_insert_def at_pos_def two_roles_def numeral_eq_Suc fun_upd_twist)
  have l: "Scene_leave ?s1 7 = Some ?s2"
    by (simp add: Scene_leave_def AOI_leave_def in_grids_def small_scene_def hs_erase_def
        fun_upd_twist numeral_eq_Suc)
  have r: "Scene_getRole two_roles 7 = Some (at_pos 7 50 20)"
    by (simp add: two_roles_def Scene_getRole_def small_scene_def)
  have "AOI_positionToGrid (scene_aoi two_roles) 350 20 \<noteq>
      AOI_positionToGrid (scene_aoi two_roles) (sr_x (at_pos 7 50 20)) (sr_y (at_pos 7 50 20))"
    by (simp add: AOI_positionToGrid_def two_roles_def small_scene_def at_pos_def)
  from Scene_reenter_leaves_ghost[OF two_roles_reach r _ _ this e l]
  show ?thesis using e l by (auto simp: at_pos_def)
qed

text \<open>
  Leaving a scene never returns. \<open>leaveScene\<close> locks the manager's mutex and then
  calls \<open>getScene\<close>, which locks it again: for every role that has entered a scene the
  call blocks its thread for ever.
\<close>

theorem SceneManager_leaveScene_deadlocks:
  assumes "SceneManager_enterScene m sceneId roleId x y = Some (True, m')"
  shows "SceneManager_leaveScene m' roleId = None"
proof -
  have "roleScenes m' roleId = Some sceneId"
    using assms by (auto simp: SceneManager_enterScene_def Mutex_lock_def Mutex_unlock_def
        split: option.splits bind_splits if_splits)
  then show ?thesis
    by (simp add: SceneManager_leaveScene_def SceneManager_getScene_def Mutex_lock_def)
qed

lemma SceneManager_leaveScene_deadlocks_witness:
  "\<exists>i m1 m2. SceneManager_createScene SceneManager_init 400 100 = Some (i, m1) \<and>
     SceneManager_enterScene m1 i 7 50 20 = Some (True, m2) \<and> SceneManager_leaveScene m2 7 = None"
proof -
  obtain i m1 where c: "SceneManager_createScene SceneManager_init 400 100 = Some (i, m1)"
    and s: "i = 1" "scenes m1 1 = Some (small_scene [[], [], [], []] Map.empty Map.empty Map.empty)"
      "mutex m1 = False"
    by (simp add: SceneManager_createScene_def SceneManager_init_def Mutex_lock_def Mutex_unlock_def
        small_scene_new)
  obtain m2 where e: "SceneManager_enterScene m1 i 7 50 20 = Some (True, m2)"
    using s by (simp add: SceneManager_enterScene_def Mutex_lock_def Scene_enter_def AOI_enter_def
        AOI_positionToGrid_def in_grids_def small_scene_def)
  show ?thesis using c e SceneManager_leaveScene_deadlocks[OF e] by blast
qed

end
