(* ===== verification/Database.thy ===== *)
theory Database
  imports Prelude
begin

text \<open>
  What the modules use of the database layer: statement parameters
  (\<^verbatim>\<open>MySQLParam\<close>), result sets (\<^verbatim>\<open>MySQLResult\<close> of
  \<^verbatim>\<open>src/database/mysql/mysql_connection.cpp\<close>) and the interface of the
  MySQL and Redis servers, which are not part of the repository: records of functions over
  their state, arguments of the operations that use them.
\<close>

subsection \<open>Parameters and results\<close>

text \<open>A floating-point number is its bit pattern; the code only passes it on.\<close>

datatype sql_param =
  PInt int | PUInt nat | PFloat uint32 | PDouble uint64 | PString string | PBlob string | PNull

text \<open>
  A result set: the field names, the number of rows and the rows left, a field of a row being text or null;
  \<open>current\<close> is the row \<open>next\<close> moved to. \<open>std::stoll\<close> and its kin are
  \<open>parse_int\<close>: white space, an optional sign and digits; they throw on anything else and
  on numbers out of range, which is \<open>None\<close>.
\<close>

type_synonym row = "string option list"

record mysql_result =
  res_valid :: bool
  res_fields :: "string list"
  res_count :: nat
  res_rows :: "row list"
  current :: "row option"

definition MySQLResult_new :: mysql_result where
  "MySQLResult_new = \<lparr>res_valid = False, res_fields = [], res_count = 0, res_rows = [], current = None\<rparr>"

definition MySQLResult_setResult :: "string list \<Rightarrow> row list \<Rightarrow> mysql_result" where
  "MySQLResult_setResult fs rs = \<lparr>res_valid = True, res_fields = fs, res_count = length rs, res_rows = rs, current = None\<rparr>"

definition MySQLResult_rowCount :: "mysql_result \<Rightarrow> nat" where
  "MySQLResult_rowCount r = (if res_valid r then res_count r else 0)"

definition MySQLResult_fieldCount :: "mysql_result \<Rightarrow> nat" where
  "MySQLResult_fieldCount r = (if res_valid r then length (res_fields r) else 0)"

definition MySQLResult_fieldName :: "mysql_result \<Rightarrow> nat \<Rightarrow> string" where
  "MySQLResult_fieldName r i = (if i < length (res_fields r) then res_fields r ! i else [])"

text \<open>The field map keeps the last index of a repeated name.\<close>

fun last_index :: "'a \<Rightarrow> 'a list \<Rightarrow> nat option" where
  "last_index x [] = None"
| "last_index x (y # ys) =
     (case last_index x ys of Some i \<Rightarrow> Some (Suc i) | None \<Rightarrow> if x = y then Some 0 else None)"

definition MySQLResult_fieldIndex :: "mysql_result \<Rightarrow> string \<Rightarrow> int" where
  "MySQLResult_fieldIndex r name =
     (case last_index name (res_fields r) of Some i \<Rightarrow> int i | None \<Rightarrow> - 1)"

definition MySQLResult_next :: "mysql_result \<Rightarrow> bool \<times> mysql_result" where
  "MySQLResult_next r =
     (if \<not> res_valid r then (False, r)
      else case res_rows r of
             [] \<Rightarrow> (False, r\<lparr>current := None\<rparr>)
           | x # xs \<Rightarrow> (True, r\<lparr>res_rows := xs, current := Some x\<rparr>))"

text \<open>Decimal digits, and numbers printed as \<^verbatim>\<open>std::to_string\<close> does.\<close>

definition digit_char :: "nat \<Rightarrow> char" where
  "digit_char d = char_of (48 + d)"

function nat_to_string :: "nat \<Rightarrow> string" where
  "nat_to_string n = (if n < 10 then [digit_char n] else nat_to_string (n div 10) @ [digit_char (n mod 10)])"
  by auto
termination by (relation "measure id") auto

declare nat_to_string.simps [simp del]

definition int_to_string :: "int \<Rightarrow> string" where
  "int_to_string n = (if n < 0 then CHR ''-'' # nat_to_string (nat (- n)) else nat_to_string (nat n))"

definition is_digit :: "char \<Rightarrow> bool" where
  "is_digit c \<longleftrightarrow> 48 \<le> (of_char c :: nat) \<and> (of_char c :: nat) \<le> 57"

fun digits_value :: "nat \<Rightarrow> string \<Rightarrow> nat" where
  "digits_value acc [] = acc"
| "digits_value acc (c # cs) =
     (if is_digit c then digits_value (10 * acc + (of_char c - 48)) cs else acc)"

definition is_space :: "char \<Rightarrow> bool" where
  "is_space c \<longleftrightarrow> (let n = (of_char c :: nat) in n = 32 \<or> 9 \<le> n \<and> n \<le> 13)"

definition parse_int :: "string \<Rightarrow> int option" where
  "parse_int s0 =
     (let s = dropWhile is_space s0;
          (neg, ds) = (case s of
              c # cs \<Rightarrow> if c = CHR ''-'' then (True, cs) else if c = CHR ''+'' then (False, cs) else (False, s)
            | [] \<Rightarrow> (False, []))
      in case ds of
           [] \<Rightarrow> None
         | d # _ \<Rightarrow> if is_digit d then Some (if neg then - int (digits_value 0 ds) else int (digits_value 0 ds))
                    else None)"

definition field_at :: "mysql_result \<Rightarrow> nat \<Rightarrow> string option" where
  "field_at r i = (case current r of Some x \<Rightarrow> (if i < length x then x ! i else None) | None \<Rightarrow> None)"

text \<open>
  A number outside the range of the result type throws as well; \<open>stoul\<close> and \<open>stoull\<close>
  accept a sign and wrap a negative number at 64 bits.
\<close>

definition in_range :: "nat \<Rightarrow> int option \<Rightarrow> int option" where
  "in_range w v = (case v of Some n \<Rightarrow> if - (2 ^ (w - 1)) \<le> n \<and> n < 2 ^ (w - 1) then Some n else None
     | None \<Rightarrow> None)"

definition MySQLResult_getInt64 :: "mysql_result \<Rightarrow> nat \<Rightarrow> int option" where
  "MySQLResult_getInt64 r i =
     (case field_at r i of Some s \<Rightarrow> in_range 64 (parse_int s) | None \<Rightarrow> Some 0)"

definition MySQLResult_getInt32 :: "mysql_result \<Rightarrow> nat \<Rightarrow> int option" where
  "MySQLResult_getInt32 r i =
     (case field_at r i of Some s \<Rightarrow> in_range 32 (parse_int s) | None \<Rightarrow> Some 0)"

definition MySQLResult_getString :: "mysql_result \<Rightarrow> nat \<Rightarrow> string" where
  "MySQLResult_getString r i = (case field_at r i of Some s \<Rightarrow> s | None \<Rightarrow> [])"

definition parse_unsigned :: "string \<Rightarrow> int option" where
  "parse_unsigned s =
     (case parse_int s of Some n \<Rightarrow> if \<bar>n\<bar> < 2 ^ 64 then Some (n mod 2 ^ 64) else None | None \<Rightarrow> None)"

definition MySQLResult_getUInt64 :: "mysql_result \<Rightarrow> nat \<Rightarrow> int option" where
  "MySQLResult_getUInt64 r i =
     (case field_at r i of Some s \<Rightarrow> parse_unsigned s | None \<Rightarrow> Some 0)"

definition MySQLResult_getUInt32 :: "mysql_result \<Rightarrow> nat \<Rightarrow> int option" where
  "MySQLResult_getUInt32 r i =
     (case field_at r i of Some s \<Rightarrow> map_option (\<lambda>n. n mod 2 ^ 32) (parse_unsigned s) | None \<Rightarrow> Some 0)"

definition MySQLResult_getBlob :: "mysql_result \<Rightarrow> nat \<Rightarrow> string" where
  "MySQLResult_getBlob r i = (case field_at r i of Some s \<Rightarrow> s | None \<Rightarrow> [])"

definition MySQLResult_isNull :: "mysql_result \<Rightarrow> nat \<Rightarrow> bool" where
  "MySQLResult_isNull r i \<longleftrightarrow> field_at r i = None"

definition MySQLResult_getInt64_by :: "mysql_result \<Rightarrow> string \<Rightarrow> int option" where
  "MySQLResult_getInt64_by r name =
     (let i = MySQLResult_fieldIndex r name in if 0 \<le> i then MySQLResult_getInt64 r (nat i) else Some 0)"

definition MySQLResult_getInt32_by :: "mysql_result \<Rightarrow> string \<Rightarrow> int option" where
  "MySQLResult_getInt32_by r name =
     (let i = MySQLResult_fieldIndex r name in if 0 \<le> i then MySQLResult_getInt32 r (nat i) else Some 0)"

definition MySQLResult_getUInt64_by :: "mysql_result \<Rightarrow> string \<Rightarrow> int option" where
  "MySQLResult_getUInt64_by r name =
     (let i = MySQLResult_fieldIndex r name in if 0 \<le> i then MySQLResult_getUInt64 r (nat i) else Some 0)"

definition MySQLResult_getUInt32_by :: "mysql_result \<Rightarrow> string \<Rightarrow> int option" where
  "MySQLResult_getUInt32_by r name =
     (let i = MySQLResult_fieldIndex r name in if 0 \<le> i then MySQLResult_getUInt32 r (nat i) else Some 0)"

definition MySQLResult_getString_by :: "mysql_result \<Rightarrow> string \<Rightarrow> string" where
  "MySQLResult_getString_by r name =
     (let i = MySQLResult_fieldIndex r name in if 0 \<le> i then MySQLResult_getString r (nat i) else [])"

subsection \<open>The servers\<close>

text \<open>
  \<open>'d\<close> is the state of the MySQL server behind a pool connection: a query returns a
  result set, an update the number of rows affected or -1, an insert the new id or -1.
\<close>

record 'd mysql_api =
  executeQuery :: "string \<Rightarrow> sql_param list \<Rightarrow> 'd \<Rightarrow> mysql_result \<times> 'd"
  executeUpdate :: "string \<Rightarrow> sql_param list \<Rightarrow> 'd \<Rightarrow> int \<times> 'd"
  insertAndGetId :: "string \<Rightarrow> sql_param list \<Rightarrow> 'd \<Rightarrow> int \<times> 'd"

subsection \<open>Printing and parsing numbers\<close>

lemma of_char_digit: "d < 10 \<Longrightarrow> (of_char (digit_char d) :: nat) = 48 + d"
  by (simp add: digit_char_def)

lemma is_digit_digit [simp]: "d < 10 \<Longrightarrow> is_digit (digit_char d)"
  by (simp add: is_digit_def of_char_digit)

lemma digits_value_append:
  "\<forall>c \<in> set xs. is_digit c \<Longrightarrow> digits_value acc (xs @ ys) = digits_value (digits_value acc xs) ys"
  by (induction xs arbitrary: acc) auto

lemma nat_to_string_digits: "\<forall>c \<in> set (nat_to_string n). is_digit c"
  by (induction n rule: nat_to_string.induct) (subst nat_to_string.simps, auto)

lemma nat_to_string_nonempty: "nat_to_string n \<noteq> []"
  by (subst nat_to_string.simps) simp

lemma digits_value_nat_to_string: "digits_value 0 (nat_to_string n) = n"
proof (induction n rule: nat_to_string.induct)
  case (1 n)
  show ?case
  proof (cases "n < 10")
    case True
    then show ?thesis by (subst nat_to_string.simps) (simp add: of_char_digit)
  next
    case False
    then have "digits_value 0 (nat_to_string n) =
        digits_value (digits_value 0 (nat_to_string (n div 10))) [digit_char (n mod 10)]"
      by (subst nat_to_string.simps) (simp add: digits_value_append nat_to_string_digits del: digits_value.simps)
    then show ?thesis using 1 False by (simp add: of_char_digit)
  qed
qed

lemma is_space_minus: "\<not> is_space (CHR ''-'')"
  by (simp add: is_space_def)

lemma parse_int_to_string: "parse_int (int_to_string n) = Some n"
proof -
  have head: "\<exists>d ds. nat_to_string m = d # ds \<and> is_digit d \<and> d \<noteq> CHR ''-'' \<and> d \<noteq> CHR ''+'' \<and> \<not> is_space d" for m
  proof -
    obtain d ds where d: "nat_to_string m = d # ds" using nat_to_string_nonempty[of m] by (cases "nat_to_string m") auto
    then have "is_digit d" using nat_to_string_digits[of m] by simp
    moreover have "\<not> is_digit (CHR ''-'')" "\<not> is_digit (CHR ''+'')" "is_digit c \<Longrightarrow> \<not> is_space c" for c
      by (auto simp: is_digit_def is_space_def Let_def)
    ultimately show ?thesis using d by metis
  qed
  show ?thesis
    using head[of "nat n"] head[of "nat (- n)"] digits_value_nat_to_string[of "nat n"]
      digits_value_nat_to_string[of "nat (- n)"]
    by (auto simp: parse_int_def int_to_string_def Let_def is_space_minus)
qed

end
