(* ===== verification/Social.thy ===== *)
theory Social
  imports Session Database
begin

text \<open>
  The social modules under \<^verbatim>\<open>src/game/modules\<close>: teams
  (\<^verbatim>\<open>team_manager.cpp\<close>, \<^verbatim>\<open>team_module.cpp\<close>), friends
  (\<^verbatim>\<open>friend_manager.cpp\<close>, \<^verbatim>\<open>friend_module.cpp\<close>) and chat
  (\<^verbatim>\<open>chat_module.cpp\<close>, \<^verbatim>\<open>chat_channel.cpp\<close>). A module's
  operation takes the session, the manager's state and the database; whether the connection
  guard got a connection is the argument \<open>conn\<close>. \<open>None\<close> in the result of a module
  operation is an exception of the number parser.
\<close>

subsection \<open>Teams\<close>

record team_info =
  teamId :: int
  leaderId :: int
  teamName :: string
  memberIds :: "int list"
  team_status :: int

record team_manager =
  teams :: "int \<rightharpoonup> team_info"
  roleTeams :: "int \<rightharpoonup> int"
  nextTeamId :: int

definition TeamManager_init :: team_manager where
  "TeamManager_init = \<lparr>teams = Map.empty, roleTeams = Map.empty, nextTeamId = 0\<rparr>"

definition TeamManager_createTeam :: "team_manager \<Rightarrow> int \<Rightarrow> int \<times> team_manager" where
  "TeamManager_createTeam m leader =
     (let i = wrap64 (nextTeamId m + 1);
          t = \<lparr>teamId = i, leaderId = leader, teamName = [], memberIds = [leader], team_status = 0\<rparr>
      in (i, m\<lparr>nextTeamId := i, teams := (teams m)(i \<mapsto> t), roleTeams := (roleTeams m)(leader \<mapsto> i)\<rparr>))"

definition TeamManager_dissolveTeam :: "team_manager \<Rightarrow> int \<Rightarrow> team_manager" where
  "TeamManager_dissolveTeam m i =
     (case teams m i of
        None \<Rightarrow> m
      | Some t \<Rightarrow> m\<lparr>roleTeams := (roleTeams m) |` (- set (memberIds t)), teams := (teams m)(i := None)\<rparr>)"

definition TeamManager_addMember :: "team_manager \<Rightarrow> int \<Rightarrow> int \<Rightarrow> bool \<times> team_manager" where
  "TeamManager_addMember m i r =
     (case teams m i of
        None \<Rightarrow> (False, m)
      | Some t \<Rightarrow> (True, m\<lparr>teams := (teams m)(i \<mapsto> t\<lparr>memberIds := memberIds t @ [r]\<rparr>),
                             roleTeams := (roleTeams m)(r \<mapsto> i)\<rparr>))"

definition TeamManager_removeMember :: "team_manager \<Rightarrow> int \<Rightarrow> int \<Rightarrow> bool \<times> team_manager" where
  "TeamManager_removeMember m i r =
     (case teams m i of
        None \<Rightarrow> (False, m)
      | Some t \<Rightarrow> (True, m\<lparr>teams := (teams m)(i \<mapsto> t\<lparr>memberIds := removeAll r (memberIds t)\<rparr>),
                             roleTeams := (roleTeams m)(r := None)\<rparr>))"

definition TeamManager_getTeam :: "team_manager \<Rightarrow> int \<Rightarrow> team_info option" where
  "TeamManager_getTeam m i = teams m i"

definition TeamManager_getTeamByRole :: "team_manager \<Rightarrow> int \<Rightarrow> int" where
  "TeamManager_getTeamByRole m r = (case roleTeams m r of Some i \<Rightarrow> i | None \<Rightarrow> 0)"

definition TeamModule_getTeam :: "team_manager \<Rightarrow> int \<Rightarrow> team_info option" where
  "TeamModule_getTeam m i = TeamManager_getTeam m i"

definition TeamModule_getTeamByRole :: "team_manager \<Rightarrow> int \<Rightarrow> team_info option" where
  "TeamModule_getTeamByRole m r =
     (let i = TeamManager_getTeamByRole m r in if 0 < i then TeamModule_getTeam m i else None)"

definition TeamModule_createTeam ::
    "'d mysql_api \<Rightarrow> bool \<Rightarrow> session \<Rightarrow> string \<Rightarrow> team_manager \<times> 'd \<Rightarrow> int \<times> team_manager \<times> 'd" where
  "TeamModule_createTeam api conn s name st =
     (let (m, d) = st in
      if TeamModule_getTeamByRole m (roleId s) \<noteq> None then (0, m, d)
      else if \<not> conn then (0, m, d)
      else (let (i, d) = insertAndGetId api ''INSERT INTO team (leader_role_id, team_name) VALUES (?, ?)''
                           [PInt (roleId s), PString name] d
            in if 0 < i
               then (let (_, d) = executeUpdate api ''INSERT INTO team_member (team_id, role_id) VALUES (?, ?)''
                                    [PInt i, PInt (roleId s)] d
                     in (i, m, d))
               else (i, m, d)))"

definition join_query :: string where
  "join_query = ''SELECT t.team_id, COUNT(m.role_id) as member_count FROM team t LEFT JOIN team_member m ON t.team_id = m.team_id WHERE t.team_id = ? AND t.status = 0 GROUP BY t.team_id''"

definition TeamModule_joinTeam ::
    "'d mysql_api \<Rightarrow> bool \<Rightarrow> session \<Rightarrow> int \<Rightarrow> team_manager \<times> 'd \<Rightarrow> (bool \<times> team_manager \<times> 'd) option" where
  "TeamModule_joinTeam api conn s i st =
     (let (m, d) = st in
      if TeamModule_getTeamByRole m (roleId s) \<noteq> None then Some (False, m, d)
      else if \<not> conn then Some (False, m, d)
      else (let (res, d) = executeQuery api join_query [PInt i] d; (found, res) = MySQLResult_next res in
            if \<not> found then Some (False, m, d)
            else (case MySQLResult_getInt32_by res ''member_count'' of
                    None \<Rightarrow> None
                  | Some n \<Rightarrow>
                      if 5 \<le> n then Some (False, m, d)
                      else (let (_, d) = executeUpdate api ''INSERT INTO team_member (team_id, role_id) VALUES (?, ?)''
                                           [PInt i, PInt (roleId s)] d
                            in Some (True, m, d)))))"

definition TeamModule_leaveTeam ::
    "'d mysql_api \<Rightarrow> bool \<Rightarrow> session \<Rightarrow> team_manager \<times> 'd \<Rightarrow> (bool \<times> team_manager \<times> 'd) option" where
  "TeamModule_leaveTeam api conn s st =
     (let (m, d) = st in
      case TeamModule_getTeamByRole m (roleId s) of
        None \<Rightarrow> Some (False, m, d)
      | Some t \<Rightarrow>
          if \<not> conn then Some (False, m, d)
          else (let (_, d) = executeUpdate api ''DELETE FROM team_member WHERE team_id = ? AND role_id = ?''
                               [PInt (teamId t), PInt (roleId s)] d in
                if leaderId t = roleId s
                then (let (res, d) = executeQuery api
                            ''SELECT role_id FROM team_member WHERE team_id = ? ORDER BY join_time ASC LIMIT 1''
                            [PInt (teamId t)] d;
                          (found, res) = MySQLResult_next res
                      in if found
                         then (case MySQLResult_getInt64 res 0 of
                                 None \<Rightarrow> None
                               | Some newLeader \<Rightarrow>
                                   (let (_, d) = executeUpdate api ''UPDATE team SET leader_role_id = ? WHERE team_id = ?''
                                                   [PInt newLeader, PInt (teamId t)] d
                                    in Some (True, m, d)))
                         else (let (_, d) = executeUpdate api ''UPDATE team SET status = 1 WHERE team_id = ?''
                                              [PInt (teamId t)] d
                               in Some (True, m, d)))
                else Some (True, m, d)))"

definition TeamModule_kickMember ::
    "'d mysql_api \<Rightarrow> bool \<Rightarrow> session \<Rightarrow> int \<Rightarrow> team_manager \<times> 'd \<Rightarrow> bool \<times> team_manager \<times> 'd" where
  "TeamModule_kickMember api conn s target st =
     (let (m, d) = st in
      case TeamModule_getTeamByRole m (roleId s) of
        None \<Rightarrow> (False, m, d)
      | Some t \<Rightarrow>
          if leaderId t \<noteq> roleId s then (False, m, d)
          else if \<not> conn then (False, m, d)
          else (let (_, d) = executeUpdate api ''DELETE FROM team_member WHERE team_id = ? AND role_id = ?''
                               [PInt (teamId t), PInt target] d
                in (True, m, d)))"

subsection \<open>Friends\<close>

type_synonym friend_map = "int \<rightharpoonup> int set"

definition friends_at :: "friend_map \<Rightarrow> int \<Rightarrow> int set" where
  "friends_at fm r = (case fm r of Some s \<Rightarrow> s | None \<Rightarrow> {})"

definition FriendManager_addFriend :: "friend_map \<Rightarrow> int \<Rightarrow> int \<Rightarrow> friend_map" where
  "FriendManager_addFriend fm r f =
     (let fm1 = fm(r \<mapsto> insert f (friends_at fm r)) in fm1(f \<mapsto> insert r (friends_at fm1 f)))"

definition FriendManager_removeFriend :: "friend_map \<Rightarrow> int \<Rightarrow> int \<Rightarrow> friend_map" where
  "FriendManager_removeFriend fm r f =
     (let fm1 = (case fm r of Some s \<Rightarrow> fm(r \<mapsto> s - {f}) | None \<Rightarrow> fm)
      in case fm1 f of Some s \<Rightarrow> fm1(f \<mapsto> s - {r}) | None \<Rightarrow> fm1)"

definition FriendManager_isFriend :: "friend_map \<Rightarrow> int \<Rightarrow> int \<Rightarrow> bool" where
  "FriendManager_isFriend fm r f = (case fm r of Some s \<Rightarrow> f \<in> s | None \<Rightarrow> False)"

definition FriendManager_getFriends :: "friend_map \<Rightarrow> int \<Rightarrow> int set" where
  "FriendManager_getFriends fm r = (case fm r of Some s \<Rightarrow> s | None \<Rightarrow> {})"

definition FriendModule_isFriend :: "friend_map \<Rightarrow> int \<Rightarrow> int \<Rightarrow> bool" where
  "FriendModule_isFriend fm r f = FriendManager_isFriend fm r f"

definition FriendModule_addFriend ::
    "'d mysql_api \<Rightarrow> bool \<Rightarrow> session \<Rightarrow> int \<Rightarrow> friend_map \<times> 'd \<Rightarrow> bool \<times> friend_map \<times> 'd" where
  "FriendModule_addFriend api conn s f st =
     (let (fm, d) = st; r = roleId s in
      if FriendModule_isFriend fm r f then (False, fm, d)
      else if \<not> conn then (False, fm, d)
      else (let (_, d) = executeUpdate api
                  ''INSERT INTO friend_relation (role_id, friend_role_id) VALUES (?, ?), (?, ?)''
                  [PInt r, PInt f, PInt f, PInt r] d
            in (True, FriendManager_addFriend fm r f, d)))"

definition FriendModule_removeFriend ::
    "'d mysql_api \<Rightarrow> bool \<Rightarrow> session \<Rightarrow> int \<Rightarrow> friend_map \<times> 'd \<Rightarrow> bool \<times> friend_map \<times> 'd" where
  "FriendModule_removeFriend api conn s f st =
     (let (fm, d) = st; r = roleId s in
      if \<not> conn then (False, fm, d)
      else (let (_, d) = executeUpdate api
                  ''DELETE FROM friend_relation WHERE (role_id = ? AND friend_role_id = ?) OR (role_id = ? AND friend_role_id = ?)''
                  [PInt r, PInt f, PInt f, PInt r] d
            in (True, FriendManager_removeFriend fm r f, d)))"

record friend_info =
  fi_roleId :: int
  fi_name :: string
  fi_level :: int
  fi_profession :: int
  fi_intimacy :: int
  fi_online :: bool

definition friend_row :: "mysql_result \<Rightarrow> friend_info option" where
  "friend_row res =
     (case (MySQLResult_getInt64_by res ''friend_role_id'', MySQLResult_getInt32_by res ''level'',
            MySQLResult_getInt32_by res ''profession'', MySQLResult_getInt32_by res ''intimacy'') of
        (Some r, Some l, Some p, Some i) \<Rightarrow>
          Some \<lparr>fi_roleId = r, fi_name = MySQLResult_getString_by res ''role_name'', fi_level = l,
                fi_profession = p, fi_intimacy = i, fi_online = False\<rparr>
      | _ \<Rightarrow> None)"

text \<open>The loop over the rows; the number of rows left bounds it.\<close>

fun collect_rows :: "(mysql_result \<Rightarrow> 'a option) \<Rightarrow> nat \<Rightarrow> mysql_result \<Rightarrow> 'a list option" where
  "collect_rows f 0 res = Some []"
| "collect_rows f (Suc n) res =
     (let (found, res) = MySQLResult_next res in
      if \<not> found then Some []
      else case f res of None \<Rightarrow> None | Some x \<Rightarrow> map_option ((#) x) (collect_rows f n res))"

definition FriendModule_getFriendList ::
    "'d mysql_api \<Rightarrow> bool \<Rightarrow> int \<Rightarrow> 'd \<Rightarrow> friend_info list option \<times> 'd" where
  "FriendModule_getFriendList api conn r d =
     (if \<not> conn then (Some [], d)
      else (let (res, d) = executeQuery api
                  ''SELECT f.friend_role_id, f.intimacy, r.role_name, r.level, r.profession FROM friend_relation f LEFT JOIN player_role r ON f.friend_role_id = r.role_id WHERE f.role_id = ?''
                  [PInt r] d
            in (collect_rows friend_row (length (res_rows res)) res, d)))"

subsection \<open>Chat\<close>

datatype chat_channel_type = WORLD | PRIVATE | TEAM | GUILD

record chat_message =
  channel :: chat_channel_type
  fromRoleId :: int
  fromName :: string
  toRoleId :: int
  content :: string
  chat_timestamp :: int

record chat_module =
  cooldowns :: "int \<rightharpoonup> int"
  worldMessages :: "chat_message list"

definition ChatModule_new :: chat_module where
  "ChatModule_new = \<lparr>cooldowns = Map.empty, worldMessages = []\<rparr>"

definition chat_cooldown :: "chat_channel_type \<Rightarrow> int" where
  "chat_cooldown ch = (case ch of WORLD \<Rightarrow> 5000 | PRIVATE \<Rightarrow> 1000 | _ \<Rightarrow> 0)"

definition ChatModule_checkCooldown ::
    "chat_module \<Rightarrow> int \<Rightarrow> chat_channel_type \<Rightarrow> int \<Rightarrow> bool \<times> chat_module" where
  "ChatModule_checkCooldown m r ch now =
     (let cd = chat_cooldown ch in
      case cooldowns m r of
        Some t \<Rightarrow> (if now - t < cd then (False, m) else (True, m\<lparr>cooldowns := (cooldowns m)(r \<mapsto> now)\<rparr>))
      | None \<Rightarrow> (True, m\<lparr>cooldowns := (cooldowns m)(r \<mapsto> now)\<rparr>))"

definition ChatModule_pushWorld :: "chat_module \<Rightarrow> chat_message \<Rightarrow> chat_module" where
  "ChatModule_pushWorld m msg =
     (let ws = worldMessages m @ [msg] in m\<lparr>worldMessages := (if length ws > 100 then tl ws else ws)\<rparr>)"

text \<open>The clock is read in \<open>checkCooldown\<close> (\<open>now1\<close>) and for the message (\<open>now2\<close>).\<close>

definition ChatModule_sendMessage ::
    "chat_module \<Rightarrow> session option \<Rightarrow> chat_channel_type \<Rightarrow> int \<Rightarrow> string \<Rightarrow> int \<Rightarrow> int
       \<Rightarrow> bool \<times> chat_module" where
  "ChatModule_sendMessage m s ch to text now1 now2 =
     (case s of
        None \<Rightarrow> (False, m)
      | Some s \<Rightarrow>
          (let (ok, m) = ChatModule_checkCooldown m (roleId s) ch now1 in
           if \<not> ok then (False, m)
           else (let msg = \<lparr>channel = ch, fromRoleId = roleId s, fromName = [], toRoleId = to,
                            content = text, chat_timestamp = now2\<rparr>
                 in case ch of
                      WORLD \<Rightarrow> (True, ChatModule_pushWorld m msg)
                    | PRIVATE \<Rightarrow> (True, m)
                    | TEAM \<Rightarrow> (True, m)
                    | GUILD \<Rightarrow> (True, m))))"

text \<open>\<open>count\<close> is an \<open>int\<close> converted to \<open>size_t\<close>: a negative one is huge.\<close>

definition ChatModule_getHistory :: "chat_module \<Rightarrow> chat_channel_type \<Rightarrow> int \<Rightarrow> chat_message list" where
  "ChatModule_getHistory m ch count =
     (if ch = WORLD
      then (let n = length (worldMessages m); c = nat (count mod 2 ^ 64);
                start = (if c < n then n - c else 0)
            in drop start (worldMessages m))
      else [])"

record chat_channel =
  cc_type :: chat_channel_type
  maxMessages :: nat
  messages :: "chat_message list"

definition ChatChannel_new :: "chat_channel_type \<Rightarrow> nat \<Rightarrow> chat_channel" where
  "ChatChannel_new ty mx = \<lparr>cc_type = ty, maxMessages = mx, messages = []\<rparr>"

fun pop_front_while :: "nat \<Rightarrow> 'a list \<Rightarrow> 'a list" where
  "pop_front_while mx [] = []"
| "pop_front_while mx (x # xs) = (if length (x # xs) > mx then pop_front_while mx xs else x # xs)"

definition ChatChannel_addMessage :: "chat_channel \<Rightarrow> chat_message \<Rightarrow> chat_channel" where
  "ChatChannel_addMessage c msg = c\<lparr>messages := pop_front_while (maxMessages c) (messages c @ [msg])\<rparr>"

definition ChatChannel_getMessages :: "chat_channel \<Rightarrow> nat \<Rightarrow> chat_message list" where
  "ChatChannel_getMessages c count =
     (let n = length (messages c); start = (if count < n then n - count else 0) in drop start (messages c))"

definition ChatChannel_clear :: "chat_channel \<Rightarrow> chat_channel" where
  "ChatChannel_clear c = c\<lparr>messages := []\<rparr>"

definition ChatChannel_messageCount :: "chat_channel \<Rightarrow> nat" where
  "ChatChannel_messageCount c = length (messages c)"

subsection \<open>Properties of teams\<close>

definition team_inv :: "team_manager \<Rightarrow> bool" where
  "team_inv m \<longleftrightarrow> 0 \<le> nextTeamId m \<and>
     (\<forall>i t. teams m i = Some t \<longrightarrow> 0 < i \<and> i \<le> nextTeamId m \<and> distinct (memberIds t)) \<and>
     (\<forall>r i. roleTeams m r = Some i \<longleftrightarrow> (\<exists>t. teams m i = Some t \<and> r \<in> set (memberIds t)))"

text \<open>
  Use of the team manager that respects its records: only a role without a team founds or
  joins one, only a member is removed.
\<close>

inductive team_reach :: "team_manager \<Rightarrow> bool" where
  team_start: "team_reach TeamManager_init"
| team_founded: "team_reach m \<Longrightarrow> TeamManager_getTeamByRole m r = 0 \<Longrightarrow> nextTeamId m + 1 < 2 ^ 63 \<Longrightarrow>
    TeamManager_createTeam m r = (i, m') \<Longrightarrow> team_reach m'"
| team_joined: "team_reach m \<Longrightarrow> TeamManager_getTeamByRole m r = 0 \<Longrightarrow>
    TeamManager_addMember m i r = (ok, m') \<Longrightarrow> team_reach m'"
| team_left: "team_reach m \<Longrightarrow> TeamManager_getTeamByRole m r = i \<Longrightarrow>
    TeamManager_removeMember m i r = (ok, m') \<Longrightarrow> team_reach m'"
| team_dissolved: "team_reach m \<Longrightarrow> team_reach (TeamManager_dissolveTeam m i)"

lemma team_inv_free:
  assumes "team_inv m" "TeamManager_getTeamByRole m r = 0"
  shows "roleTeams m r = None"
proof (rule ccontr)
  assume "roleTeams m r \<noteq> None"
  then obtain i where "roleTeams m r = Some i" by blast
  moreover from this obtain t where "teams m i = Some t" using assms(1) unfolding team_inv_def by blast
  moreover from this have "0 < i" using assms(1) unfolding team_inv_def by blast
  ultimately show False using assms(2) by (simp add: TeamManager_getTeamByRole_def)
qed

lemma team_inv_found:
  assumes "team_inv m" "roleTeams m r = None" "nextTeamId m + 1 < 2 ^ 63"
  shows "team_inv (snd (TeamManager_createTeam m r))"
proof -
  have w: "wrap64 (nextTeamId m + 1) = nextTeamId m + 1"
    using assms by (intro wrap64_small) (auto simp: team_inv_def)
  have new: "teams m (nextTeamId m + 1) = None"
    using assms(1) unfolding team_inv_def
    by (cases "teams m (nextTeamId m + 1)") (auto, metis add_le_same_cancel1 not_one_le_zero)
  have no: "\<not> (\<exists>t. teams m i = Some t \<and> r \<in> set (memberIds t))" for i
    using assms(1,2) unfolding team_inv_def by (metis option.distinct(1))
  have le: "i \<le> nextTeamId m + 1" if "teams m i = Some t" for i t
    using assms(1) that unfolding team_inv_def by (metis add.commute add_increasing zero_le_one)
  show ?thesis
    using assms(1) new no le
    by (auto simp: TeamManager_createTeam_def Let_def w team_inv_def)
qed

lemma team_inv_add:
  assumes "team_inv m" "roleTeams m r = None"
  shows "team_inv (snd (TeamManager_addMember m i r))"
proof (cases "teams m i")
  case None
  then show ?thesis using assms by (simp add: TeamManager_addMember_def)
next
  case (Some t)
  have no: "\<not> (\<exists>t. teams m j = Some t \<and> r \<in> set (memberIds t))" for j
    using assms unfolding team_inv_def by (metis option.distinct(1))
  show ?thesis
    using assms Some no by (auto simp: TeamManager_addMember_def team_inv_def)
qed

lemma team_inv_remove:
  assumes "team_inv m" "TeamManager_getTeamByRole m r = i"
  shows "team_inv (snd (TeamManager_removeMember m i r))"
proof (cases "teams m i")
  case None
  then show ?thesis using assms by (simp add: TeamManager_removeMember_def)
next
  case (Some t)
  have i: "roleTeams m r = Some i"
    using assms Some by (auto simp: TeamManager_getTeamByRole_def team_inv_def split: option.splits)
  have one: "roleTeams m q = Some j \<longleftrightarrow> (\<exists>t. teams m j = Some t \<and> q \<in> set (memberIds t))" for q j
    using assms(1) unfolding team_inv_def by blast
  have "((roleTeams m)(r := None)) q = Some j \<longleftrightarrow>
      (\<exists>t'. ((teams m)(i \<mapsto> t\<lparr>memberIds := removeAll r (memberIds t)\<rparr>)) j = Some t' \<and> q \<in> set (memberIds t'))" for q j
    using one[of q j] one[of r j] i Some by auto
  then show ?thesis
    using assms(1) Some by (auto simp: TeamManager_removeMember_def team_inv_def distinct_removeAll)
qed

lemma team_inv_dissolve:
  assumes "team_inv m"
  shows "team_inv (TeamManager_dissolveTeam m i)"
proof (cases "teams m i")
  case None
  then show ?thesis using assms by (simp add: TeamManager_dissolveTeam_def)
next
  case (Some t)
  have one: "roleTeams m q = Some j \<longleftrightarrow> (\<exists>t. teams m j = Some t \<and> q \<in> set (memberIds t))" for q j
    using assms(1) unfolding team_inv_def by blast
  have "(roleTeams m |` (- set (memberIds t))) q = Some j \<longleftrightarrow>
      (\<exists>t'. ((teams m)(i := None)) j = Some t' \<and> q \<in> set (memberIds t'))" for q j
    using one[of q j] one[of q i] Some by (auto simp: restrict_map_def)
  then show ?thesis
    using assms Some by (auto simp: TeamManager_dissolveTeam_def team_inv_def)
qed

lemma team_reach_inv: "team_reach m \<Longrightarrow> team_inv m"
proof (induction rule: team_reach.induct)
  case team_start
  then show ?case by (simp add: team_inv_def TeamManager_init_def)
next
  case (team_founded m r i m')
  then show ?case using team_inv_found[of m r] team_inv_free[of m r] by simp
next
  case (team_joined m r i ok m')
  then show ?case using team_inv_add[of m r i] team_inv_free[of m r] by simp
next
  case (team_left m r i ok m')
  then show ?case using team_inv_remove[of m r i] by simp
next
  case (team_dissolved m i)
  then show ?case by (simp add: team_inv_dissolve)
qed

lemma TeamManager_tables_agree_parts:
  assumes "team_reach m"
  shows "TeamManager_getTeamByRole m r = i \<and> 0 < i \<longleftrightarrow>
           (\<exists>t. TeamManager_getTeam m i = Some t \<and> r \<in> set (memberIds t))"
    and "TeamManager_getTeam m i = Some t \<Longrightarrow> distinct (memberIds t)"
proof -
  note inv = team_reach_inv[OF assms]
  have one: "roleTeams m r = Some i \<longleftrightarrow> (\<exists>t. teams m i = Some t \<and> r \<in> set (memberIds t))"
    using inv unfolding team_inv_def by blast
  have pos: "0 < j" if "roleTeams m r = Some j" for j
    using inv that unfolding team_inv_def by blast
  have "TeamManager_getTeamByRole m r = i \<and> 0 < i \<longleftrightarrow> roleTeams m r = Some i"
    using pos by (cases "roleTeams m r") (auto simp: TeamManager_getTeamByRole_def)
  then show "TeamManager_getTeamByRole m r = i \<and> 0 < i \<longleftrightarrow>
           (\<exists>t. TeamManager_getTeam m i = Some t \<and> r \<in> set (memberIds t))"
    unfolding one TeamManager_getTeam_def .
  show "TeamManager_getTeam m i = Some t \<Longrightarrow> distinct (memberIds t)"
    using inv unfolding team_inv_def TeamManager_getTeam_def by blast
qed



lemma TeamModule_forgets_membership_parts:
  assumes "TeamManager_getTeamByRole m (roleId s) = 0"
    and "TeamModule_joinTeam api conn s i (m, d) = Some (True, m1, d1) \<or>
         TeamModule_createTeam api conn s name (m, d) = (i, m1, d1)"
  shows "TeamModule_getTeamByRole m1 (roleId s) = None"
    and "TeamModule_leaveTeam api conn s (m1, d2) = Some (False, m1, d2)"
    and "TeamModule_kickMember api conn s target (m1, d2) = (False, m1, d2)"
proof -
  have "m1 = m"
    using assms(2) by (auto simp: TeamModule_joinTeam_def TeamModule_createTeam_def Let_def
        split: if_splits prod.splits option.splits)
  then show none: "TeamModule_getTeamByRole m1 (roleId s) = None"
    using assms(1) by (simp add: TeamModule_getTeamByRole_def)
  show "TeamModule_leaveTeam api conn s (m1, d2) = Some (False, m1, d2)"
    by (simp add: TeamModule_leaveTeam_def none)
  show "TeamModule_kickMember api conn s target (m1, d2) = (False, m1, d2)"
    by (simp add: TeamModule_kickMember_def none)
qed

text \<open>
  The team module writes teams only to the database and never to the team manager it
  reads them from. After a role has joined a team (or founded one), the manager still has no
  team for it: it can join another team at once, and it can neither leave the team nor kick
  anybody from it.
\<close>

theorem TeamModule_forgets_membership:
  assumes "TeamManager_getTeamByRole m (roleId s) = 0"
    and "TeamModule_joinTeam api conn s i (m, d) = Some (True, m1, d1) \<or>
         TeamModule_createTeam api conn s name (m, d) = (i, m1, d1)"
  shows "(TeamModule_getTeamByRole m1 (roleId s) = None) \<and>
    (TeamModule_leaveTeam api conn s (m1, d2) = Some (False, m1, d2)) \<and>
    (TeamModule_kickMember api conn s target (m1, d2) = (False, m1, d2))"
  using TeamModule_forgets_membership_parts[OF assms] by blast

text \<open>A database with one team of two members that accepts every statement.\<close>

definition team_db :: "unit mysql_api" where
  "team_db = \<lparr>executeQuery = (\<lambda>_ _ d. (MySQLResult_setResult [''team_id'', ''member_count''] [[Some ''4'', Some ''2'']], d)),
     executeUpdate = (\<lambda>_ _ d. (1, d)), insertAndGetId = (\<lambda>_ _ d. (9, d))\<rparr>"

lemma TeamModule_forgets_membership_witness:
  "\<exists>s. TeamModule_joinTeam team_db True s 4 (TeamManager_init, ()) = Some (True, TeamManager_init, ()) \<and>
     TeamModule_joinTeam team_db True s 5 (TeamManager_init, ()) = Some (True, TeamManager_init, ()) \<and>
     TeamModule_leaveTeam team_db True s (TeamManager_init, ()) = Some (False, TeamManager_init, ())"
proof -
  let ?s = "Session_new 1 0"
  have f: "TeamManager_getTeamByRole TeamManager_init (roleId ?s) = 0"
    by (simp add: TeamManager_getTeamByRole_def TeamManager_init_def)
  have p: "parse_int ''2'' = Some 2" by code_simp
  have j: "TeamModule_joinTeam team_db True ?s i (TeamManager_init, ()) = Some (True, TeamManager_init, ())" for i
    by (simp add: TeamModule_joinTeam_def TeamModule_getTeamByRole_def f team_db_def
        MySQLResult_setResult_def MySQLResult_next_def MySQLResult_getInt32_by_def
        MySQLResult_fieldIndex_def MySQLResult_getInt32_def field_at_def in_range_def p)
  show ?thesis using TeamModule_forgets_membership[OF f, of team_db True 4 "()" _ "()" "[]"] j by blast
qed

subsection \<open>Properties of friends\<close>

datatype friend_op = AddFriend int int | RemoveFriend int int

fun FriendManager_run :: "friend_map \<Rightarrow> friend_op list \<Rightarrow> friend_map" where
  "FriendManager_run fm [] = fm"
| "FriendManager_run fm (AddFriend r f # ops) = FriendManager_run (FriendManager_addFriend fm r f) ops"
| "FriendManager_run fm (RemoveFriend r f # ops) = FriendManager_run (FriendManager_removeFriend fm r f) ops"

text \<open>The specification: the last operation on the unordered pair decides.\<close>

fun are_friends :: "bool \<Rightarrow> friend_op list \<Rightarrow> int \<Rightarrow> int \<Rightarrow> bool" where
  "are_friends b [] x y = b"
| "are_friends b (AddFriend r f # ops) x y = are_friends (b \<or> {x, y} = {r, f}) ops x y"
| "are_friends b (RemoveFriend r f # ops) x y = are_friends (b \<and> {x, y} \<noteq> {r, f}) ops x y"

lemma isFriend_add:
  "FriendManager_isFriend (FriendManager_addFriend fm r f) x y \<longleftrightarrow>
     FriendManager_isFriend fm x y \<or> {x, y} = {r, f}"
  by (auto simp: FriendManager_isFriend_def FriendManager_addFriend_def Let_def friends_at_def
      doubleton_eq_iff split: option.splits if_splits)

lemma isFriend_remove:
  "FriendManager_isFriend (FriendManager_removeFriend fm r f) x y \<longleftrightarrow>
     FriendManager_isFriend fm x y \<and> {x, y} \<noteq> {r, f}"
  by (auto simp: FriendManager_isFriend_def FriendManager_removeFriend_def Let_def
      doubleton_eq_iff split: option.splits if_splits)

lemma FriendManager_run_spec:
  "FriendManager_isFriend (FriendManager_run fm ops) x y = are_friends (FriendManager_isFriend fm x y) ops x y"
  by (induction fm ops rule: FriendManager_run.induct) (simp_all add: isFriend_add isFriend_remove)

lemma are_friends_sym: "are_friends b ops x y = are_friends b ops y x"
proof (induction ops arbitrary: b)
  case (Cons op ops)
  then show ?case by (cases op) (simp_all add: insert_commute)
qed simp

text \<open>
  After any sequence of additions and removals, two roles are friends exactly when the
  last operation on their pair, in either order, added it; friendship is symmetric, and the
  list of a role's friends is the set of those it is friends with.
\<close>

theorem FriendManager_last_operation_decides:
  "FriendManager_isFriend (FriendManager_run Map.empty ops) x y = are_friends False ops x y \<and>
   FriendManager_isFriend (FriendManager_run Map.empty ops) x y =
     FriendManager_isFriend (FriendManager_run Map.empty ops) y x \<and>
   FriendManager_getFriends (FriendManager_run Map.empty ops) x =
     {f. FriendManager_isFriend (FriendManager_run Map.empty ops) x f}"
proof -
  let ?fm = "FriendManager_run Map.empty ops"
  have "FriendManager_isFriend Map.empty a b = False" for a b by (simp add: FriendManager_isFriend_def)
  then have s: "FriendManager_isFriend ?fm a b = are_friends False ops a b" for a b
    by (simp add: FriendManager_run_spec)
  have "FriendManager_getFriends ?fm x = {f. FriendManager_isFriend ?fm x f}"
    by (auto simp: FriendManager_getFriends_def FriendManager_isFriend_def split: option.splits)
  then show ?thesis unfolding s using are_friends_sym[of False ops x y] by simp
qed

subsection \<open>Properties of chat\<close>

definition lastn :: "nat \<Rightarrow> 'a list \<Rightarrow> 'a list" where
  "lastn n xs = drop (length xs - n) xs"

lemma lastn_rev: "lastn n xs = rev (take n (rev xs))"
  by (simp add: lastn_def take_rev)

lemma lastn_snoc: "lastn n (lastn n xs @ ys) = lastn n (xs @ ys)"
  by (simp add: lastn_rev min_def)

lemma lastn_lastn: "lastn k (lastn n xs) = lastn (min k n) xs"
  by (simp add: lastn_rev min_def)

lemma lastn_all: "length xs \<le> n \<Longrightarrow> lastn n xs = xs"
  by (simp add: lastn_def)

text \<open>A log that keeps its last \<open>cap\<close> entries.\<close>

locale bounded_log =
  fixes log :: "'s \<Rightarrow> 'm list" and add :: "'s \<Rightarrow> 'm \<Rightarrow> 's" and cap :: nat
  assumes log_add: "length (log s) \<le> cap \<Longrightarrow> log (add s m) = lastn cap (log s @ [m])"
begin

lemma log_foldl: "length (log s) \<le> cap \<Longrightarrow> log (foldl add s ms) = lastn cap (log s @ ms)"
proof (induction ms rule: rev_induct)
  case Nil
  then show ?case by (simp add: lastn_all)
next
  case (snoc m ms)
  then have "length (log (foldl add s ms)) \<le> cap" by (simp add: lastn_def)
  then show ?case using snoc by (simp add: log_add lastn_snoc)
qed

lemma log_bounded: "length (log s) \<le> cap \<Longrightarrow> length (log (foldl add s ms)) \<le> cap"
  by (simp add: log_foldl lastn_def)

end

lemma pop_front_while_lastn: "pop_front_while mx xs = lastn mx xs"
  by (induction mx xs rule: pop_front_while.induct) (auto simp: lastn_def Suc_diff_le not_less)

interpretation world_log: bounded_log worldMessages ChatModule_pushWorld 100
proof
  fix m :: chat_module and msg
  assume "length (worldMessages m) \<le> 100"
  then consider "length (worldMessages m) < 100" | "length (worldMessages m) = 100" by linarith
  then show "worldMessages (ChatModule_pushWorld m msg) = lastn 100 (worldMessages m @ [msg])"
    by cases (auto simp: ChatModule_pushWorld_def lastn_def Let_def drop_Suc tl_append split: list.split)
qed

text \<open>A channel whose limit is fixed at 100, as \<open>chat_channel.h\<close> defaults it.\<close>

definition ChatChannel_log :: "chat_channel \<Rightarrow> chat_message \<Rightarrow> chat_channel" where
  "ChatChannel_log c msg = ChatChannel_addMessage (c\<lparr>maxMessages := 100\<rparr>) msg"

interpretation channel_log: bounded_log messages ChatChannel_log 100
  by unfold_locales (simp add: ChatChannel_log_def ChatChannel_addMessage_def pop_front_while_lastn)

text \<open>Attempts to chat: who, where, to whom, what, and the two clock readings.\<close>

type_synonym chat_attempt = "session \<times> chat_channel_type \<times> int \<times> string \<times> int \<times> int"

fun ChatModule_run :: "chat_module \<Rightarrow> chat_attempt list \<Rightarrow> bool list \<times> chat_module" where
  "ChatModule_run m [] = ([], m)"
| "ChatModule_run m ((s, ch, to, body, now1, now2) # ats) =
     (let (ok, m1) = ChatModule_sendMessage m (Some s) ch to body now1 now2;
          (oks, m2) = ChatModule_run m1 ats
      in (ok # oks, m2))"

definition attempt_role :: "chat_attempt \<Rightarrow> int" where "attempt_role a = roleId (fst a)"
definition attempt_channel :: "chat_attempt \<Rightarrow> chat_channel_type" where "attempt_channel a = fst (snd a)"
definition attempt_time :: "chat_attempt \<Rightarrow> int" where "attempt_time a = fst (snd (snd (snd (snd a))))"

definition attempt_message :: "chat_attempt \<Rightarrow> chat_message" where
  "attempt_message a = (case a of (s, ch, to, body, now1, now2) \<Rightarrow>
     \<lparr>channel = ch, fromRoleId = roleId s, fromName = [], toRoleId = to, content = body,
      chat_timestamp = now2\<rparr>)"

lemma sendMessage_cases:
  assumes "ChatModule_sendMessage m (Some s) ch to body now1 now2 = (ok, m')"
  shows "ok \<longleftrightarrow> (case cooldowns m (roleId s) of Some t \<Rightarrow> chat_cooldown ch \<le> now1 - t | None \<Rightarrow> True)"
    and "cooldowns m' = (if ok then (cooldowns m)(roleId s \<mapsto> now1) else cooldowns m)"
    and "worldMessages m' = (if ok \<and> ch = WORLD
           then worldMessages (ChatModule_pushWorld m (attempt_message (s, ch, to, body, now1, now2)))
           else worldMessages m)"
  using assms
  by (auto simp: ChatModule_sendMessage_def ChatModule_checkCooldown_def Let_def attempt_message_def
      ChatModule_pushWorld_def split: option.splits if_splits chat_channel_type.splits)

lemma run_length: "ChatModule_run m ats = (oks, m') \<Longrightarrow> length oks = length ats"
  by (induction m ats arbitrary: oks m' rule: ChatModule_run.induct) (auto simp: Let_def split: prod.splits)

text \<open>An accepted attempt comes its channel's cooldown after any time recorded before.\<close>

lemma run_cooldown:
  assumes "ChatModule_run m ats = (oks, m')" "j < length ats" "oks ! j"
    and "cooldowns m (attempt_role (ats ! j)) = Some t"
    and "sorted (t # map attempt_time ats)"
  shows "chat_cooldown (attempt_channel (ats ! j)) \<le> attempt_time (ats ! j) - t"
  using assms
proof (induction m ats arbitrary: oks m' j t rule: ChatModule_run.induct)
  case (2 m s ch to body now1 now2 ats)
  obtain ok m1 where sd: "ChatModule_sendMessage m (Some s) ch to body now1 now2 = (ok, m1)" by (meson surj_pair)
  obtain oks' where r: "ChatModule_run m1 ats = (oks', m')" "oks = ok # oks'"
    using "2.prems"(1) sd by (auto simp: Let_def split: prod.splits)
  note sc = sendMessage_cases[OF sd]
  have tm: "attempt_time (s, ch, to, body, now1, now2) = now1" by (simp add: attempt_time_def)
  show ?case
  proof (cases j)
    case 0
    then show ?thesis using "2.prems"(3,4) r(2) sc(1)
      by (simp add: attempt_role_def attempt_time_def attempt_channel_def)
  next
    case (Suc k)
    let ?t = "if ok \<and> attempt_role (ats ! k) = roleId s then now1 else t"
    have "t \<le> now1" "sorted (now1 # map attempt_time ats)" "sorted (t # map attempt_time ats)"
      using "2.prems"(5) tm by auto
    then have le: "t \<le> ?t" "sorted (?t # map attempt_time ats)" by auto
    have "cooldowns m1 (attempt_role (ats ! k)) = Some ?t"
      using "2.prems"(4) Suc sc(2) by auto
    then have "chat_cooldown (attempt_channel (ats ! k)) \<le> attempt_time (ats ! k) - ?t"
      using "2.IH"[OF sd[symmetric] refl, of oks' m' k ?t] r "2.prems"(2,3) Suc le(2) by simp
    then show ?thesis using Suc le(1) by simp
  qed
qed simp

lemma run_spaced:
  assumes "ChatModule_run m ats = (oks, m')" "i < j" "j < length ats" "oks ! i" "oks ! j"
    and "attempt_role (ats ! i) = attempt_role (ats ! j)" "sorted (map attempt_time ats)"
  shows "chat_cooldown (attempt_channel (ats ! j)) \<le> attempt_time (ats ! j) - attempt_time (ats ! i)"
  using assms
proof (induction m ats arbitrary: oks m' i j rule: ChatModule_run.induct)
  case (2 m s ch to body now1 now2 ats)
  obtain ok m1 where sd: "ChatModule_sendMessage m (Some s) ch to body now1 now2 = (ok, m1)" by (meson surj_pair)
  obtain oks' where r: "ChatModule_run m1 ats = (oks', m')" "oks = ok # oks'"
    using "2.prems"(1) sd by (auto simp: Let_def split: prod.splits)
  obtain k where j: "j = Suc k" using "2.prems"(2) by (cases j) auto
  have tm: "attempt_time (s, ch, to, body, now1, now2) = now1" by (simp add: attempt_time_def)
  show ?case
  proof (cases i)
    case 0
    then have "cooldowns m1 (attempt_role (ats ! k)) = Some now1"
      using sendMessage_cases(2)[OF sd] r(2) "2.prems"(4,6) j by (simp add: attempt_role_def)
    moreover have "sorted (now1 # map attempt_time ats)" using "2.prems"(7) tm by simp
    ultimately show ?thesis
      using run_cooldown[OF r(1), of k now1] "2.prems"(3,5) r(2) j 0 tm by simp
  next
    case (Suc l)
    then show ?thesis
      using "2.IH"[OF sd[symmetric] refl r(1), of l k] "2.prems" r(2) j by simp
  qed
qed simp

text \<open>
  C27: With a clock that does not run backwards, two messages a role gets through are spaced
  by at least the cooldown of the later one's channel, five seconds for world chat and one for
  private messages, whatever channel the earlier one went to and whatever was refused between.
\<close>

theorem ChatModule_cooldown_enforced:
  assumes "ChatModule_run ChatModule_new ats = (oks, m)" "sorted (map attempt_time ats)"
    and "i < j" "j < length ats" "oks ! i" "oks ! j"
    and "attempt_role (ats ! i) = attempt_role (ats ! j)"
  shows "chat_cooldown (attempt_channel (ats ! j)) \<le> attempt_time (ats ! j) - attempt_time (ats ! i)"
  by (rule run_spaced[OF assms(1,3-7,2)])

lemma ChatModule_cooldown_enforced_witness:
  "let s = Session_new 1 0; ats = [(s, TEAM, 0, ''a'', 0, 0), (s, WORLD, 0, ''b'', 4999, 4999), (s, WORLD, 0, ''c'', 5000, 5000)]
   in fst (ChatModule_run ChatModule_new ats) = [True, False, True] \<and>
      chat_cooldown WORLD \<le> attempt_time (ats ! 2) - attempt_time (ats ! 0)"
proof -
  define s where "s = Session_new 1 0"
  define ats where "ats = [(s, TEAM, 0::int, ''a'', 0::int, 0::int), (s, WORLD, 0, ''b'', 4999, 4999), (s, WORLD, 0, ''c'', 5000, 5000)]"
  obtain oks m where r: "ChatModule_run ChatModule_new ats = (oks, m)" by (meson surj_pair)
  then have o: "oks = [True, False, True]"
    by (auto simp: ats_def s_def Session_new_def ChatModule_new_def ChatModule_sendMessage_def
        ChatModule_checkCooldown_def chat_cooldown_def ChatModule_pushWorld_def)
  have "sorted (map attempt_time ats)" by (simp add: ats_def attempt_time_def)
  from ChatModule_cooldown_enforced[OF r this, of 0 2]
  have "chat_cooldown WORLD \<le> attempt_time (ats ! 2) - attempt_time (ats ! 0)"
    using o by (simp add: ats_def attempt_role_def attempt_channel_def)
  then show ?thesis using r o unfolding Let_def s_def[symmetric] ats_def[symmetric] by simp
qed

definition accepted_world :: "chat_attempt list \<Rightarrow> bool list \<Rightarrow> chat_message list" where
  "accepted_world ats oks =
     map (\<lambda>(a, ok). attempt_message a) (filter (\<lambda>(a, ok). ok \<and> attempt_channel a = WORLD) (zip ats oks))"

lemma run_world:
  assumes "ChatModule_run m ats = (oks, m')" "length (worldMessages m) \<le> 100"
  shows "worldMessages m' = worldMessages (foldl ChatModule_pushWorld m (accepted_world ats oks))"
  using assms
proof (induction m ats arbitrary: oks m' rule: ChatModule_run.induct)
  case (1 m)
  then show ?case by (simp add: accepted_world_def)
next
  case (2 m s ch to body now1 now2 ats)
  obtain ok m1 where sd: "ChatModule_sendMessage m (Some s) ch to body now1 now2 = (ok, m1)" by (meson surj_pair)
  obtain oks' where r: "ChatModule_run m1 ats = (oks', m')" "oks = ok # oks'"
    using "2.prems"(1) sd by (auto simp: Let_def split: prod.splits)
  let ?a = "(s, ch, to, body, now1, now2)"
  let ?m = "if ok \<and> ch = WORLD then ChatModule_pushWorld m (attempt_message ?a) else m"
  have w: "worldMessages m1 = worldMessages ?m" using sendMessage_cases(3)[OF sd] by simp
  have b: "length (worldMessages ?m) \<le> 100"
  proof -
    have "length (worldMessages (ChatModule_pushWorld m x)) \<le> 100" for x
      using world_log.log_bounded[of m "[x]"] "2.prems"(2) by simp
    then show ?thesis using "2.prems"(2) by simp
  qed
  have "worldMessages m' = worldMessages (foldl ChatModule_pushWorld m1 (accepted_world ats oks'))"
    using "2.IH"[OF sd[symmetric] refl r(1)] b w by simp
  also have "\<dots> = worldMessages (foldl ChatModule_pushWorld ?m (accepted_world ats oks'))"
    using b w by (simp add: world_log.log_foldl)
  also have "\<dots> = worldMessages (foldl ChatModule_pushWorld m (accepted_world (?a # ats) oks))"
    by (simp add: accepted_world_def r(2) attempt_channel_def)
  finally show ?case .
qed

lemma ChatModule_history_is_last_100_parts:
  assumes "ChatModule_run ChatModule_new ats = (oks, m)" "k < 2 ^ 31"
  shows "ChatModule_getHistory m WORLD (int k) = lastn (min k 100) (accepted_world ats oks)"
    and "ChatChannel_getMessages (foldl ChatChannel_addMessage (ChatChannel_new WORLD 100) (accepted_world ats oks)) k =
           ChatModule_getHistory m WORLD (int k)"
proof -
  have w: "worldMessages m = lastn 100 (accepted_world ats oks)"
    using run_world[OF assms(1)] world_log.log_foldl[of ChatModule_new "accepted_world ats oks"]
    by (simp add: ChatModule_new_def)
  have drop_if: "drop (if k < n then n - k else 0) xs = lastn k xs" if "n = length xs" for n and xs :: "'z list"
    using that by (simp add: lastn_def)
  show h: "ChatModule_getHistory m WORLD (int k) = lastn (min k 100) (accepted_world ats oks)"
    using assms(2) by (simp add: ChatModule_getHistory_def Let_def drop_if w lastn_lastn)
  have same: "foldl ChatChannel_addMessage c xs = foldl ChatChannel_log c xs" if "maxMessages c = 100" for c xs
    using that
  proof (induction xs arbitrary: c)
    case (Cons x xs)
    have "c\<lparr>maxMessages := 100\<rparr> = c" using Cons.prems by simp
    then have "ChatChannel_log c x = ChatChannel_addMessage c x" by (simp only: ChatChannel_log_def)
    moreover have "maxMessages (ChatChannel_addMessage c x) = 100"
      using Cons.prems by (simp add: ChatChannel_addMessage_def)
    ultimately show ?case using Cons.IH by simp
  qed simp
  have "messages (foldl ChatChannel_addMessage (ChatChannel_new WORLD 100) (accepted_world ats oks)) =
      lastn 100 (accepted_world ats oks)"
    using channel_log.log_foldl[of "ChatChannel_new WORLD 100" "accepted_world ats oks"]
    by (simp add: same ChatChannel_new_def)
  then show "ChatChannel_getMessages (foldl ChatChannel_addMessage (ChatChannel_new WORLD 100) (accepted_world ats oks)) k =
           ChatModule_getHistory m WORLD (int k)"
    unfolding h by (simp add: ChatChannel_getMessages_def Let_def drop_if lastn_lastn)
qed

text \<open>
  C28: World chat history is the last hundred accepted world messages, oldest first, and a
  request for \<open>k\<close> of them gets the last \<open>k\<close>; a \<open>ChatChannel\<close> of the default
  size that is given the same messages answers every request the same way.
\<close>

theorem ChatModule_history_is_last_100:
  assumes "ChatModule_run ChatModule_new ats = (oks, m)" "k < 2 ^ 31"
  shows "(ChatModule_getHistory m WORLD (int k) = lastn (min k 100) (accepted_world ats oks)) \<and>
    (ChatChannel_getMessages (foldl ChatChannel_addMessage (ChatChannel_new WORLD 100) (accepted_world ats oks)) k =
           ChatModule_getHistory m WORLD (int k))"
  using ChatModule_history_is_last_100_parts[OF assms] by blast

lemma ChatModule_history_is_last_100_witness:
  "\<exists>oks m. ChatModule_run ChatModule_new [(Session_new 1 0, WORLD, 0, ''a'', 0, 0)] = (oks, m) \<and>
     map content (ChatModule_getHistory m WORLD 10) = [''a'']"
proof -
  let ?ats = "[(Session_new 1 0, WORLD, 0, ''a'', 0, 0)]"
  obtain oks m where r: "ChatModule_run ChatModule_new ?ats = (oks, m)" by (meson surj_pair)
  then have "oks = [True]"
    by (auto simp: Session_new_def ChatModule_new_def ChatModule_sendMessage_def
        ChatModule_checkCooldown_def chat_cooldown_def ChatModule_pushWorld_def)
  moreover have "ChatModule_getHistory m WORLD 10 = lastn 10 (accepted_world ?ats oks)"
    using ChatModule_history_is_last_100[OF r, of 10] by simp
  ultimately show ?thesis
    using r by (auto simp: accepted_world_def attempt_channel_def attempt_message_def lastn_def)
qed

end
