(* ===== verification/ConnPools.thy ===== *)
theory ConnPools
  imports Queues "HOL-Library.Multiset"
begin

text \<open>
  The connection pools: \<^verbatim>\<open>src/database/mysql/mysql_connection_pool.cpp\<close> and
  \<^verbatim>\<open>src/database/redis/redis_pool.cpp\<close>. A connection is a number, the address of
  its object. What the servers answer is an argument of the operation that asks them: the
  connection a \<open>createConnection\<close> makes (\<open>None\<close> when it fails), whether a
  \<open>ping\<close> and a reconnect succeed. A \<open>getConnection\<close> is its entry test and then
  rounds of its loop; between two rounds the thread waits on the condition variable
  (\<open>cond\<close> of theory Queues) and gives the mutex away.
\<close>

subsection \<open>The two pools\<close>

record conn_pool =
  pool_running :: bool
  pool_queue :: "nat list"
  allConnections :: "nat list"
  minConnections :: nat
  maxConnections :: nat
  pool_notEmpty :: cond

datatype get_outcome = MustWait | GotNull | Got nat

definition ConnPool_new :: "nat \<Rightarrow> nat \<Rightarrow> conn_pool" where
  "ConnPool_new mn mx =
     \<lparr>pool_running = False, pool_queue = [], allConnections = [], minConnections = mn, maxConnections = mx,
      pool_notEmpty = Condition_new\<rparr>"

text \<open>A thread goes to sleep on the pool's condition variable; a released one has the mutex again.\<close>

definition pool_wait :: "conn_pool \<Rightarrow> conn_pool" where
  "pool_wait p = p\<lparr>pool_notEmpty := Condition_wait (pool_notEmpty p)\<rparr>"

definition pool_resume :: "conn_pool \<Rightarrow> conn_pool" where
  "pool_resume p = p\<lparr>pool_notEmpty := Condition_resume (pool_notEmpty p)\<rparr>"

definition pool_timeout :: "conn_pool \<Rightarrow> conn_pool" where
  "pool_timeout p = p\<lparr>pool_notEmpty := Condition_timeout (pool_notEmpty p)\<rparr>"

lemmas pool_cv_defs = pool_wait_def pool_resume_def pool_timeout_def

text \<open>The connections \<open>init\<close> makes; it stops at the first failure.\<close>

fun MySQLConnectionPool_init_loop :: "nat option list \<Rightarrow> nat \<Rightarrow> conn_pool \<Rightarrow> bool \<times> conn_pool" where
  "MySQLConnectionPool_init_loop made 0 p = (True, p)"
| "MySQLConnectionPool_init_loop made (Suc n) p =
     (case made of
        Some c # made \<Rightarrow> MySQLConnectionPool_init_loop made n
            (p\<lparr>pool_queue := pool_queue p @ [c], allConnections := allConnections p @ [c]\<rparr>)
      | _ \<Rightarrow> (False, p))"

definition MySQLConnectionPool_init :: "nat option list \<Rightarrow> conn_pool \<Rightarrow> bool \<times> conn_pool" where
  "MySQLConnectionPool_init made p =
     (if pool_running p then (True, p)
      else (let (ok, p) = MySQLConnectionPool_init_loop made (minConnections p) p
            in if ok then (True, p\<lparr>pool_running := True\<rparr>) else (False, p)))"

definition MySQLConnectionPool_entry :: "conn_pool \<Rightarrow> get_outcome option" where
  "MySQLConnectionPool_entry p = (if \<not> pool_running p then Some GotNull else None)"

definition MySQLConnectionPool_round ::
    "nat option \<Rightarrow> bool \<Rightarrow> bool \<Rightarrow> conn_pool \<Rightarrow> get_outcome \<times> conn_pool" where
  "MySQLConnectionPool_round made ping reconnect p =
     (case pool_queue p of
        [] \<Rightarrow>
          (if length (allConnections p) < maxConnections p
           then (case made of
                   Some c \<Rightarrow> (Got c, p\<lparr>allConnections := allConnections p @ [c]\<rparr>)
                 | None \<Rightarrow> (MustWait, pool_wait p))
           else (MustWait, pool_wait p))
      | c # cs \<Rightarrow>
          (let p = p\<lparr>pool_queue := cs\<rparr> in
           if \<not> ping then (if reconnect then (Got c, p) else (GotNull, p)) else (Got c, p)))"

definition MySQLConnectionPool_returnConnection :: "nat option \<Rightarrow> conn_pool \<Rightarrow> conn_pool" where
  "MySQLConnectionPool_returnConnection conn p =
     (case conn of
        None \<Rightarrow> p
      | Some c \<Rightarrow> if pool_running p
                  then p\<lparr>pool_queue := pool_queue p @ [c], pool_notEmpty := Condition_notify (pool_notEmpty p)\<rparr>
                  else p)"

definition MySQLConnectionPool_close :: "conn_pool \<Rightarrow> conn_pool" where
  "MySQLConnectionPool_close p =
     p\<lparr>pool_running := False, pool_notEmpty := Condition_notifyAll (pool_notEmpty p), pool_queue := [],
       allConnections := []\<rparr>"

definition MySQLConnectionPool_size :: "conn_pool \<Rightarrow> nat" where
  "MySQLConnectionPool_size p = length (allConnections p)"

definition MySQLConnectionPool_availableSize :: "conn_pool \<Rightarrow> nat" where
  "MySQLConnectionPool_availableSize p = length (pool_queue p)"

text \<open>
  A Redis connection is made when it connects, authenticates (if there is a password) and
  selects its database (if that is not 0); a reconnect ignores the answers of the last two.
\<close>

definition RedisPool_createConnection :: "string \<Rightarrow> int \<Rightarrow> nat \<Rightarrow> bool \<Rightarrow> bool \<Rightarrow> bool \<Rightarrow> nat option" where
  "RedisPool_createConnection password db fresh connect auth select =
     (if connect
      then if password \<noteq> [] \<and> \<not> auth then None
           else if 0 < db \<and> \<not> select then None
           else Some fresh
      else None)"

fun RedisPool_init_loop :: "nat option list \<Rightarrow> nat \<Rightarrow> conn_pool \<Rightarrow> bool \<times> conn_pool" where
  "RedisPool_init_loop made 0 p = (True, p)"
| "RedisPool_init_loop made (Suc n) p =
     (case made of
        Some c # made \<Rightarrow> RedisPool_init_loop made n
            (p\<lparr>pool_queue := pool_queue p @ [c], allConnections := allConnections p @ [c]\<rparr>)
      | _ \<Rightarrow> (False, p))"

definition RedisPool_init :: "nat option list \<Rightarrow> conn_pool \<Rightarrow> bool \<times> conn_pool" where
  "RedisPool_init made p =
     (if pool_running p then (True, p)
      else (let (ok, p) = RedisPool_init_loop made (minConnections p) p
            in if ok then (True, p\<lparr>pool_running := True\<rparr>) else (False, p)))"

definition RedisPool_entry :: "conn_pool \<Rightarrow> get_outcome option" where
  "RedisPool_entry p = (if \<not> pool_running p then Some GotNull else None)"

definition RedisPool_round ::
    "nat option \<Rightarrow> bool \<Rightarrow> bool \<Rightarrow> conn_pool \<Rightarrow> get_outcome \<times> conn_pool" where
  "RedisPool_round made ping reconnect p =
     (case pool_queue p of
        [] \<Rightarrow>
          (if length (allConnections p) < maxConnections p
           then (case made of
                   Some c \<Rightarrow> (Got c, p\<lparr>allConnections := allConnections p @ [c]\<rparr>)
                 | None \<Rightarrow> (MustWait, pool_wait p))
           else (MustWait, pool_wait p))
      | c # cs \<Rightarrow>
          (let p = p\<lparr>pool_queue := cs\<rparr> in
           if \<not> ping then (if reconnect then (Got c, p) else (GotNull, p)) else (Got c, p)))"

definition RedisPool_returnConnection :: "nat option \<Rightarrow> conn_pool \<Rightarrow> conn_pool" where
  "RedisPool_returnConnection conn p =
     (case conn of
        None \<Rightarrow> p
      | Some c \<Rightarrow> if pool_running p
                  then p\<lparr>pool_queue := pool_queue p @ [c], pool_notEmpty := Condition_notify (pool_notEmpty p)\<rparr>
                  else p)"

definition RedisPool_close :: "conn_pool \<Rightarrow> conn_pool" where
  "RedisPool_close p =
     p\<lparr>pool_running := False, pool_notEmpty := Condition_notifyAll (pool_notEmpty p), pool_queue := [],
       allConnections := []\<rparr>"

definition RedisPool_size :: "conn_pool \<Rightarrow> nat" where
  "RedisPool_size p = length (allConnections p)"

definition RedisPool_availableSize :: "conn_pool \<Rightarrow> nat" where
  "RedisPool_availableSize p = length (pool_queue p)"

subsection \<open>The contract of a bounded pool\<close>

text \<open>
  Runs of a pool through its two operations, from \<open>p0\<close>: the connections held by
  callers, those lost (dropped by a round that answered null), the pool. A round is run by a
  thread that has just come in or (\<open>released\<close>) by one the condition variable has let go; a
  sleeping thread may run out of time or be released without a signal.
\<close>

definition at_mutex :: "bool \<Rightarrow> conn_pool \<Rightarrow> conn_pool" where
  "at_mutex released p = (if released then pool_resume p else p)"

definition may_run :: "bool \<Rightarrow> conn_pool \<Rightarrow> bool" where
  "may_run released p \<longleftrightarrow> (released \<longrightarrow> 0 < woken (pool_notEmpty p))"

inductive pool_run ::
    "(nat option \<Rightarrow> bool \<Rightarrow> bool \<Rightarrow> conn_pool \<Rightarrow> get_outcome \<times> conn_pool) \<Rightarrow>
     (nat option \<Rightarrow> conn_pool \<Rightarrow> conn_pool) \<Rightarrow> conn_pool \<Rightarrow> nat multiset \<Rightarrow> nat multiset \<Rightarrow>
     conn_pool \<Rightarrow> bool"
  for round give p0 where
  opened: "pool_run round give p0 {#} {#} p0"
| got: "pool_run round give p0 held lost p \<Longrightarrow> may_run released p \<Longrightarrow>
    round made ping rec (at_mutex released p) = (Got c, p') \<Longrightarrow> pool_run round give p0 (held + {#c#}) lost p'"
| null: "pool_run round give p0 held lost p \<Longrightarrow> may_run released p \<Longrightarrow>
    round made ping rec (at_mutex released p) = (GotNull, p') \<Longrightarrow> pool_queue p = c # cs \<Longrightarrow>
    pool_run round give p0 held (lost + {#c#}) p'"
| waits: "pool_run round give p0 held lost p \<Longrightarrow> may_run released p \<Longrightarrow>
    round made ping rec (at_mutex released p) = (MustWait, p') \<Longrightarrow> pool_run round give p0 held lost p'"
| given: "pool_run round give p0 held lost p \<Longrightarrow> c \<in># held \<Longrightarrow>
    pool_run round give p0 (held - {#c#}) lost (give (Some c) p)"
| timed_out: "pool_run round give p0 held lost p \<Longrightarrow> pool_run round give p0 held lost (pool_timeout p)"
| spurious: "pool_run round give p0 held lost p \<Longrightarrow>
    pool_run round give p0 held lost (p\<lparr>pool_notEmpty := Condition_notify (pool_notEmpty p)\<rparr>)"

definition pool_conserved :: "nat multiset \<Rightarrow> nat multiset \<Rightarrow> conn_pool \<Rightarrow> bool" where
  "pool_conserved held lost p \<longleftrightarrow> pool_running p \<and>
     mset (allConnections p) = mset (pool_queue p) + held + lost \<and>
     length (allConnections p) \<le> maxConnections p"

text \<open>No caller sleeps beside an idle connection unless a released one is on its way to it.\<close>

definition pool_wakeup :: "conn_pool \<Rightarrow> bool" where
  "pool_wakeup p \<longleftrightarrow> (0 < sleepers (pool_notEmpty p) \<longrightarrow> length (pool_queue p) \<le> woken (pool_notEmpty p))"

lemma pool_conserved_cv [simp]:
  "pool_conserved held lost (p\<lparr>pool_notEmpty := c\<rparr>) = pool_conserved held lost p"
  by (simp add: pool_conserved_def)

lemma cv_frame [simp]:
  "pool_queue (pool_wait p) = pool_queue p" "pool_queue (pool_timeout p) = pool_queue p"
  "allConnections (pool_wait p) = allConnections p" "pool_running (pool_wait p) = pool_running p"
  "pool_queue (at_mutex r p) = pool_queue p" "allConnections (at_mutex r p) = allConnections p"
  "maxConnections (pool_wait p) = maxConnections p" "maxConnections (pool_timeout p) = maxConnections p"
  "maxConnections (at_mutex r p) = maxConnections p"
  "pool_conserved held lost (pool_wait p) = pool_conserved held lost p"
  "pool_conserved held lost (pool_timeout p) = pool_conserved held lost p"
  "pool_conserved held lost (at_mutex r p) = pool_conserved held lost p"
  by (simp_all add: pool_cv_defs at_mutex_def)

lemma pool_wakeup_cv:
  "pool_wakeup p \<Longrightarrow> pool_wakeup (pool_timeout p)"
  "pool_wakeup p \<Longrightarrow> pool_wakeup (p\<lparr>pool_notEmpty := Condition_notify (pool_notEmpty p)\<rparr>)"
  by (auto simp: pool_wakeup_def pool_cv_defs cond_defs)

text \<open>
  What a client of either pool can rely on. \<open>lost p held\<close> are the connections the pool
  counts that are neither in its queue nor held by a caller.
\<close>

locale bounded_pool =
  fixes round :: "nat option \<Rightarrow> bool \<Rightarrow> bool \<Rightarrow> conn_pool \<Rightarrow> get_outcome \<times> conn_pool"
    and give :: "nat option \<Rightarrow> conn_pool \<Rightarrow> conn_pool"
  assumes round_made: "pool_queue p = [] \<Longrightarrow> length (allConnections p) < maxConnections p \<Longrightarrow>
      round (Some c) ping rec p = (Got c, p\<lparr>allConnections := allConnections p @ [c]\<rparr>)"
    and round_not_made: "pool_queue p = [] \<Longrightarrow> round None ping rec p = (MustWait, pool_wait p)"
    and round_full: "pool_queue p = [] \<Longrightarrow> maxConnections p \<le> length (allConnections p) \<Longrightarrow>
      round made ping rec p = (MustWait, pool_wait p)"
    and round_queued: "pool_queue p = c # cs \<Longrightarrow> round made ping rec p =
      (if ping \<or> rec then Got c else GotNull, p\<lparr>pool_queue := cs\<rparr>)"
    and give_running: "pool_running p \<Longrightarrow> give (Some c) p =
      p\<lparr>pool_queue := pool_queue p @ [c], pool_notEmpty := Condition_notify (pool_notEmpty p)\<rparr>"
begin

lemma round_cases:
  obtains (made) c where "pool_queue p = []" "made = Some c" "length (allConnections p) < maxConnections p"
      "round made ping rec p = (Got c, p\<lparr>allConnections := allConnections p @ [c]\<rparr>)"
    | (wait) "pool_queue p = []" "round made ping rec p = (MustWait, pool_wait p)"
    | (queued) c cs where "pool_queue p = c # cs"
      "round made ping rec p = (if ping \<or> rec then Got c else GotNull, p\<lparr>pool_queue := cs\<rparr>)"
proof (cases "pool_queue p")
  case Nil
  show ?thesis
  proof (cases made)
    case None
    then show ?thesis using that(2) Nil round_not_made by simp
  next
    case (Some c)
    then show ?thesis using that(1,2) Nil round_made round_full by (metis not_less)
  qed
next
  case (Cons c cs)
  then show ?thesis using that(3) round_queued by simp
qed

lemma round_conserved:
  assumes "pool_conserved held lost p" "round made ping rec p = (out, p')"
  shows "case out of
      Got c \<Rightarrow> pool_conserved (held + {#c#}) lost p'
    | MustWait \<Rightarrow> pool_conserved held lost p'
    | GotNull \<Rightarrow> (\<exists>c cs. pool_queue p = c # cs \<and> pool_conserved held (lost + {#c#}) p')"
  using assms by - (rule round_cases[of p made ping rec]; auto simp: pool_conserved_def split: if_splits)

lemma round_maximum: "round made ping rec p = (out, p') \<Longrightarrow> maxConnections p' = maxConnections p"
  by (rule round_cases[of p made ping rec]) (auto split: if_splits)

text \<open>A round keeps the wake-ups, for a thread that comes in and for a released one.\<close>

lemma round_wakeup:
  assumes "pool_wakeup p" "may_run r p" "round made ping rec (at_mutex r p) = (out, p')"
  shows "pool_wakeup p'"
proof (cases rule: round_cases[of "at_mutex r p" made ping rec])
  case (made c)
  then show ?thesis using assms(3) by (auto simp: pool_wakeup_def)
next
  case wait
  then show ?thesis using assms(3) by (auto simp: pool_wakeup_def)
next
  case (queued c cs)
  then have "p' = (at_mutex r p)\<lparr>pool_queue := cs\<rparr>" using assms(3) by (auto split: if_splits)
  then show ?thesis using assms(1,2) queued(1)
    by (auto simp: pool_wakeup_def may_run_def at_mutex_def pool_resume_def Condition_resume_def)
qed

lemma give_wakeup: "pool_wakeup p \<Longrightarrow> pool_running p \<Longrightarrow> pool_wakeup (give (Some c) p)"
  by (auto simp: pool_wakeup_def give_running Condition_notify_def)

definition run_inv :: "conn_pool \<Rightarrow> nat multiset \<Rightarrow> nat multiset \<Rightarrow> conn_pool \<Rightarrow> bool" where
  "run_inv p0 held lost p \<longleftrightarrow>
     pool_conserved held lost p \<and> maxConnections p = maxConnections p0 \<and> pool_wakeup p"

lemma run_inv_holds:
  assumes "pool_run round give p0 held lost p" "pool_conserved {#} {#} p0" "pool_wakeup p0"
  shows "run_inv p0 held lost p"
  using assms
proof (induction rule: pool_run.induct)
  case (got held lost p r made ping rec c p')
  then show ?case
    using round_conserved[of held lost "at_mutex r p" made ping rec "Got c" p'] round_wakeup[of p r made ping rec]
      round_maximum[of made ping rec "at_mutex r p"]
    by (auto simp: run_inv_def)
next
  case (null held lost p r made ping rec p' c cs)
  then show ?case
    using round_conserved[of held lost "at_mutex r p" made ping rec GotNull p'] round_wakeup[of p r made ping rec]
      round_maximum[of made ping rec "at_mutex r p"]
    by (auto simp: run_inv_def)
next
  case (waits held lost p r made ping rec p')
  then show ?case
    using round_conserved[of held lost "at_mutex r p" made ping rec MustWait p'] round_wakeup[of p r made ping rec]
      round_maximum[of made ping rec "at_mutex r p"]
    by (auto simp: run_inv_def)
next
  case (given held lost p c)
  then show ?case using give_wakeup[of p c] by (auto simp: run_inv_def pool_conserved_def give_running)
qed (simp_all add: run_inv_def pool_wakeup_cv)

lemmas run_conserved = run_inv_holds[unfolded run_inv_def]

lemma exhausted_round:
  assumes "pool_conserved {#} lost p" "size lost = maxConnections p"
  shows "round made ping rec p = (MustWait, pool_wait p)"
proof -
  have e: "mset (allConnections p) = mset (pool_queue p) + lost"
    and le: "length (allConnections p) \<le> maxConnections p"
    using assms(1) by (simp_all add: pool_conserved_def)
  have "length (allConnections p) = length (pool_queue p) + size lost"
    using arg_cong[OF e, of size] by simp
  then have "pool_queue p = []" "length (allConnections p) = maxConnections p"
    using le assms(2) by auto
  then show ?thesis using round_full by simp
qed

end

interpretation mysql_pool: bounded_pool MySQLConnectionPool_round MySQLConnectionPool_returnConnection
  by unfold_locales
    (auto simp: MySQLConnectionPool_round_def MySQLConnectionPool_returnConnection_def Let_def)

interpretation redis_pool: bounded_pool RedisPool_round RedisPool_returnConnection
  by unfold_locales (auto simp: RedisPool_round_def RedisPool_returnConnection_def Let_def)

subsection \<open>What the two pools guarantee\<close>

lemma MySQLConnectionPool_init_loop_conserves:
  "MySQLConnectionPool_init_loop made n p = (True, p') \<Longrightarrow>
     mset (allConnections p) = mset (pool_queue p) \<Longrightarrow>
     mset (allConnections p') = mset (pool_queue p') \<and>
     length (allConnections p') = length (allConnections p) + n \<and>
     maxConnections p' = maxConnections p \<and> pool_notEmpty p' = pool_notEmpty p"
  by (induction made n p rule: MySQLConnectionPool_init_loop.induct) (fastforce split: list.splits option.splits)+

lemma RedisPool_init_loop_eq: "RedisPool_init_loop made n p = MySQLConnectionPool_init_loop made n p"
  by (induction made n p rule: RedisPool_init_loop.induct) (auto split: list.splits option.splits)

lemma MySQLConnectionPool_init_conserved:
  "MySQLConnectionPool_init made (ConnPool_new mn mx) = (True, p0) \<Longrightarrow> mn \<le> mx \<Longrightarrow>
     pool_conserved {#} {#} p0 \<and> pool_wakeup p0 \<and> maxConnections p0 = mx"
  using MySQLConnectionPool_init_loop_conserves[of made mn "ConnPool_new mn mx"]
  by (auto simp: MySQLConnectionPool_init_def ConnPool_new_def pool_conserved_def pool_wakeup_def Condition_new_def Let_def
      split: prod.splits if_splits)

lemma RedisPool_init_conserved:
  "RedisPool_init made (ConnPool_new mn mx) = (True, p0) \<Longrightarrow> mn \<le> mx \<Longrightarrow>
     pool_conserved {#} {#} p0 \<and> pool_wakeup p0 \<and> maxConnections p0 = mx"
  using MySQLConnectionPool_init_conserved[of made mn mx]
  unfolding MySQLConnectionPool_init_def RedisPool_init_def RedisPool_init_loop_eq by blast


text \<open>A pool of one connection, and what is left when the connection fails twice.\<close>

definition one_connection :: "nat list \<Rightarrow> conn_pool" where
  "one_connection q =
     \<lparr>pool_running = True, pool_queue = q, allConnections = [10], minConnections = 1, maxConnections = 1,
      pool_notEmpty = Condition_new\<rparr>"

lemma one_connection_init: "MySQLConnectionPool_init [Some 10] (ConnPool_new 1 1) = (True, one_connection [10])"
  by (simp add: MySQLConnectionPool_init_def ConnPool_new_def one_connection_def)

lemma pool_run_example:
  "pool_run MySQLConnectionPool_round MySQLConnectionPool_returnConnection
     (one_connection [10]) {#} {#10#} (one_connection [])"
proof -
  have "pool_run MySQLConnectionPool_round MySQLConnectionPool_returnConnection
     (one_connection [10]) {#} ({#} + {#10#}) (one_connection [])"
    by (rule pool_run.null[where made = None and ping = False and rec = False and released = False and cs = "[]"])
      (rule pool_run.opened,
        simp_all add: MySQLConnectionPool_round_def one_connection_def may_run_def at_mutex_def)
  then show ?thesis by simp
qed

text \<open>A caller that waits while the connection is out, and the connection coming back.\<close>

lemma pool_run_sleeper:
  obtains p where "pool_run MySQLConnectionPool_round MySQLConnectionPool_returnConnection (one_connection [10]) {#} {#} p"
    "pool_notEmpty p = \<lparr>sleepers = 1, woken = 1\<rparr>" "MySQLConnectionPool_availableSize p = 1"
proof -
  let ?run = "pool_run MySQLConnectionPool_round MySQLConnectionPool_returnConnection (one_connection [10])"
  have g: "?run ({#} + {#10#}) {#} (one_connection [])"
    by (rule pool_run.got[where made = None and ping = True and rec = False and released = False])
      (rule pool_run.opened, simp_all add: MySQLConnectionPool_round_def one_connection_def may_run_def at_mutex_def)
  have w: "?run ({#} + {#10#}) {#} (pool_wait q)" if "?run ({#} + {#10#}) {#} q" "pool_queue q = []"
      "length (allConnections q) = maxConnections q" for q
    by (rule pool_run.waits[OF that(1), where made = None and ping = True and rec = False and released = False])
      (use that(2,3) in \<open>simp_all add: MySQLConnectionPool_round_def may_run_def at_mutex_def\<close>)
  have "?run ({#} + {#10#}) {#} (pool_wait (pool_wait (one_connection [])))"
    by (intro w g) (simp_all add: one_connection_def pool_wait_def)
  from pool_run.given[OF this, of 10] show ?thesis
    by (intro that)
      (auto simp: MySQLConnectionPool_returnConnection_def MySQLConnectionPool_availableSize_def one_connection_def
        pool_wait_def cond_defs)
qed


text \<open>
  A connection whose ping and reconnect both fail is handed to nobody and put back nowhere,
  yet it stays counted. Once as many have failed as the pool may have, no caller holds any, so
  none will be returned, and every round of every later \<open>getConnection\<close> waits, even
  when the server is reachable again.
\<close>
theorem MySQLConnectionPool_exhausted_for_good:
  assumes "MySQLConnectionPool_init made (ConnPool_new mn mx) = (True, p0)" "mn \<le> mx"
    and "pool_run MySQLConnectionPool_round MySQLConnectionPool_returnConnection p0 held lost p"
    and "size lost = mx"
  shows "held = {#} \<and> MySQLConnectionPool_round made' ping rec p = (MustWait, pool_wait p)"
proof -
  have c: "pool_conserved held lost p" and m: "maxConnections p = mx"
    using mysql_pool.run_conserved[OF assms(3)] MySQLConnectionPool_init_conserved[OF assms(1,2)] by auto
  have "length (allConnections p) = length (pool_queue p) + size held + size lost"
    using c by (auto simp: pool_conserved_def dest: arg_cong[of _ _ size])
  then have h: "held = {#}" using c assms(4) m by (auto simp: pool_conserved_def)
  then show ?thesis using mysql_pool.exhausted_round[of lost p] c m assms(4) by simp
qed

theorem MySQLConnectionPool_exhausted_for_good_witness:
  "MySQLConnectionPool_round (Some 11) True True (one_connection []) = (MustWait, pool_wait (one_connection []))"
  using MySQLConnectionPool_exhausted_for_good[OF one_connection_init _ pool_run_example] by simp

theorem RedisPool_accounts_for_every_connection:
  assumes "RedisPool_init made (ConnPool_new mn mx) = (True, p0)" "mn \<le> mx"
    and "pool_run RedisPool_round RedisPool_returnConnection p0 held lost p"
  shows "mset (allConnections p) = mset (pool_queue p) + held + lost \<and> RedisPool_size p \<le> mx \<and>
    (0 < sleepers (pool_notEmpty p) \<longrightarrow> RedisPool_availableSize p \<le> woken (pool_notEmpty p))"
  using redis_pool.run_conserved[OF assms(3)] RedisPool_init_conserved[OF assms(1,2)]
  by (auto simp: pool_conserved_def pool_wakeup_def RedisPool_size_def RedisPool_availableSize_def)

text \<open>Closing releases every sleeper, and a thread that comes in later gets nothing.\<close>

lemma ConnPool_close_then_null:
  "MySQLConnectionPool_entry (MySQLConnectionPool_close p) = Some GotNull"
  "RedisPool_entry (RedisPool_close p) = Some GotNull"
  "sleepers (pool_notEmpty (MySQLConnectionPool_close p)) = 0"
  "sleepers (pool_notEmpty (RedisPool_close p)) = 0"
  by (simp_all add: MySQLConnectionPool_entry_def MySQLConnectionPool_close_def RedisPool_entry_def
      RedisPool_close_def Condition_notifyAll_def)

end
