(* ===== verification/MySQL.thy ===== *)
theory MySQL
  imports Database
begin

text \<open>
  \<^verbatim>\<open>MySQLStatement\<close> (\<^verbatim>\<open>src/database/mysql/mysql_statement.cpp\<close>) and
  \<^verbatim>\<open>MySQLConnection\<close> (\<^verbatim>\<open>src/database/mysql/mysql_connection.cpp\<close>) over the
  MySQL client library, which is not part of the repository: \<open>mysql_client\<close> is the
  library with the server behind it, a record of functions over their state. Preparing a
  statement gives the number of its placeholders; executing it is given the binding of each
  placeholder, \<open>None\<close> for one the code has not bound; \<open>stmt_metadata\<close> is
  \<open>mysql_stmt_result_metadata\<close>, a result set or null. What the library documents of
  that result set is the hypothesis \<open>metadata_without_rows\<close> of the lemmas that need it:
  it carries the columns only, the rows being delivered by \<open>mysql_stmt_fetch\<close>.
\<close>

record 'd mysql_client =
  stmt_prepare :: "string \<Rightarrow> 'd \<Rightarrow> nat option"
  stmt_metadata :: "string \<Rightarrow> 'd \<Rightarrow> (string list \<times> row list) option"
  stmt_execute :: "string \<Rightarrow> sql_param option list \<Rightarrow> 'd \<Rightarrow> bool \<times> 'd"
  stmt_affected_rows :: "'d \<Rightarrow> int"
  stmt_insert_id :: "'d \<Rightarrow> int"
  real_query :: "string \<Rightarrow> 'd \<Rightarrow> bool \<times> 'd"
  store_result :: "'d \<Rightarrow> (string list \<times> row list) option"
  affected_rows :: "'d \<Rightarrow> int"

definition metadata_without_rows :: "'d mysql_client \<Rightarrow> bool" where
  "metadata_without_rows c \<longleftrightarrow> (\<forall>sql d fs rs. stmt_metadata c sql d = Some (fs, rs) \<longrightarrow> rs = [])"

subsection \<open>Statements\<close>

record mysql_statement =
  st_valid :: bool
  st_sql :: string
  bindParams :: "sql_param option list"
  fieldCount :: nat

definition MySQLStatement_new :: "'d mysql_client \<Rightarrow> string \<Rightarrow> 'd \<Rightarrow> mysql_statement" where
  "MySQLStatement_new c sql d =
     (case stmt_prepare c sql d of
        None \<Rightarrow> \<lparr>st_valid = False, st_sql = sql, bindParams = [], fieldCount = 0\<rparr>
      | Some n \<Rightarrow> \<lparr>st_valid = True, st_sql = sql, bindParams = replicate n None,
          fieldCount = (case stmt_metadata c sql d of Some (fs, rs) \<Rightarrow> length fs | None \<Rightarrow> 0)\<rparr>)"

definition MySQLStatement_bindParam :: "mysql_statement \<Rightarrow> nat \<Rightarrow> sql_param \<Rightarrow> mysql_statement" where
  "MySQLStatement_bindParam st i p =
     (if length (bindParams st) \<le> i then st else st\<lparr>bindParams := (bindParams st)[i := Some p]\<rparr>)"

definition MySQLStatement_bindNull :: "mysql_statement \<Rightarrow> nat \<Rightarrow> mysql_statement" where
  "MySQLStatement_bindNull st i =
     (if length (bindParams st) \<le> i then st else st\<lparr>bindParams := (bindParams st)[i := Some PNull]\<rparr>)"

definition MySQLStatement_execute :: "'d mysql_client \<Rightarrow> mysql_statement \<Rightarrow> 'd \<Rightarrow> bool \<times> 'd" where
  "MySQLStatement_execute c st d = stmt_execute c (st_sql st) (bindParams st) d"

definition MySQLStatement_getResult :: "'d mysql_client \<Rightarrow> mysql_statement \<Rightarrow> 'd \<Rightarrow> mysql_result" where
  "MySQLStatement_getResult c st d =
     (if fieldCount st = 0 then MySQLResult_new
      else case stmt_metadata c (st_sql st) d of
             None \<Rightarrow> MySQLResult_new
           | Some (fs, rs) \<Rightarrow> MySQLResult_setResult fs rs)"

subsection \<open>Queries of a connection\<close>

text \<open>
  The loops over the parameters: \<open>executeQuery\<close> and \<open>executeUpdate\<close> bind every
  type but blobs, \<open>insertAndGetId\<close> has no case for floating-point numbers.
\<close>

definition bind_one :: "nat \<Rightarrow> sql_param \<Rightarrow> mysql_statement \<Rightarrow> mysql_statement" where
  "bind_one i p st =
     (case p of
        PInt _ \<Rightarrow> MySQLStatement_bindParam st i p
      | PUInt _ \<Rightarrow> MySQLStatement_bindParam st i p
      | PFloat _ \<Rightarrow> MySQLStatement_bindParam st i p
      | PDouble _ \<Rightarrow> MySQLStatement_bindParam st i p
      | PString _ \<Rightarrow> MySQLStatement_bindParam st i p
      | PNull \<Rightarrow> MySQLStatement_bindNull st i
      | PBlob _ \<Rightarrow> st)"

definition bind_one_insert :: "nat \<Rightarrow> sql_param \<Rightarrow> mysql_statement \<Rightarrow> mysql_statement" where
  "bind_one_insert i p st =
     (case p of
        PInt _ \<Rightarrow> MySQLStatement_bindParam st i p
      | PUInt _ \<Rightarrow> MySQLStatement_bindParam st i p
      | PString _ \<Rightarrow> MySQLStatement_bindParam st i p
      | PNull \<Rightarrow> MySQLStatement_bindNull st i
      | _ \<Rightarrow> st)"

fun bind_loop ::
    "(nat \<Rightarrow> sql_param \<Rightarrow> mysql_statement \<Rightarrow> mysql_statement) \<Rightarrow> sql_param list \<Rightarrow> nat \<Rightarrow>
     mysql_statement \<Rightarrow> mysql_statement" where
  "bind_loop one [] i st = st"
| "bind_loop one (p # ps) i st = bind_loop one ps (Suc i) (one i p st)"

definition MySQLConnection_executeQuery ::
    "'d mysql_client \<Rightarrow> string \<Rightarrow> sql_param list \<Rightarrow> 'd \<Rightarrow> mysql_result \<times> 'd" where
  "MySQLConnection_executeQuery c sql ps d =
     (let st = MySQLStatement_new c sql d in
      if \<not> st_valid st then (MySQLResult_new, d)
      else (let st = bind_loop bind_one ps 0 st; (ok, d) = MySQLStatement_execute c st d in
            if \<not> ok then (MySQLResult_new, d) else (MySQLStatement_getResult c st d, d)))"

definition MySQLConnection_executeUpdate ::
    "'d mysql_client \<Rightarrow> string \<Rightarrow> sql_param list \<Rightarrow> 'd \<Rightarrow> int \<times> 'd" where
  "MySQLConnection_executeUpdate c sql ps d =
     (let st = MySQLStatement_new c sql d in
      if \<not> st_valid st then (- 1, d)
      else (let st = bind_loop bind_one ps 0 st; (ok, d) = MySQLStatement_execute c st d in
            if \<not> ok then (- 1, d) else (stmt_affected_rows c d, d)))"

definition MySQLConnection_insertAndGetId ::
    "'d mysql_client \<Rightarrow> string \<Rightarrow> sql_param list \<Rightarrow> 'd \<Rightarrow> int \<times> 'd" where
  "MySQLConnection_insertAndGetId c sql ps d =
     (let st = MySQLStatement_new c sql d in
      if \<not> st_valid st then (- 1, d)
      else (let st = bind_loop bind_one_insert ps 0 st; (ok, d) = MySQLStatement_execute c st d in
            if \<not> ok then (- 1, d) else (stmt_insert_id c d, d)))"

text \<open>The interface of the connection that the modules are modelled over.\<close>

definition MySQLConnection_api :: "'d mysql_client \<Rightarrow> 'd mysql_api" where
  "MySQLConnection_api c =
     \<lparr>executeQuery = MySQLConnection_executeQuery c, executeUpdate = MySQLConnection_executeUpdate c,
      insertAndGetId = MySQLConnection_insertAndGetId c\<rparr>"

lemma MySQLConnection_api_simps [simp]:
  "executeQuery (MySQLConnection_api c) = MySQLConnection_executeQuery c"
  "executeUpdate (MySQLConnection_api c) = MySQLConnection_executeUpdate c"
  "insertAndGetId (MySQLConnection_api c) = MySQLConnection_insertAndGetId c"
  by (simp_all add: MySQLConnection_api_def)

subsection \<open>The connection's state\<close>

text \<open>
  \<open>autocommit\<close> is the mode of the session at the server: the library sets it, and a new
  session starts with it on. The library's answers are arguments.
\<close>

record mysql_connection =
  my_connected :: bool
  inTransaction :: bool
  autocommit :: bool

definition MySQLConnection_new :: mysql_connection where
  "MySQLConnection_new = \<lparr>my_connected = False, inTransaction = False, autocommit = True\<rparr>"

definition MySQLConnection_disconnect :: "mysql_connection \<Rightarrow> mysql_connection" where
  "MySQLConnection_disconnect c = (if my_connected c then c\<lparr>my_connected := False\<rparr> else c)"

definition MySQLConnection_connect :: "bool \<Rightarrow> mysql_connection \<Rightarrow> bool \<times> mysql_connection" where
  "MySQLConnection_connect real_connect c =
     (let c = (if my_connected c then MySQLConnection_disconnect c else c) in
      if \<not> real_connect then (False, c)
      else (True, c\<lparr>my_connected := True, autocommit := True\<rparr>))"

definition MySQLConnection_query ::
    "'d mysql_client \<Rightarrow> mysql_connection \<Rightarrow> string \<Rightarrow> 'd \<Rightarrow> mysql_result \<times> 'd" where
  "MySQLConnection_query cl c sql d =
     (if \<not> my_connected c then (MySQLResult_new, d)
      else (let (ok, d) = real_query cl sql d in
            if ok then (case store_result cl d of
                          Some (fs, rs) \<Rightarrow> (MySQLResult_setResult fs rs, d)
                        | None \<Rightarrow> (MySQLResult_new, d))
            else (MySQLResult_new, d)))"

definition MySQLConnection_update ::
    "'d mysql_client \<Rightarrow> mysql_connection \<Rightarrow> string \<Rightarrow> 'd \<Rightarrow> int \<times> 'd" where
  "MySQLConnection_update cl c sql d =
     (if \<not> my_connected c then (- 1, d)
      else (let (ok, d) = real_query cl sql d in
            if \<not> ok then (- 1, d) else (affected_rows cl d, d)))"

definition MySQLConnection_beginTransaction :: "bool \<Rightarrow> mysql_connection \<Rightarrow> bool \<times> mysql_connection" where
  "MySQLConnection_beginTransaction set_ok c =
     (if \<not> my_connected c \<or> inTransaction c then (False, c)
      else if \<not> set_ok then (False, c)
      else (True, c\<lparr>autocommit := False, inTransaction := True\<rparr>))"

definition MySQLConnection_commit :: "bool \<Rightarrow> bool \<Rightarrow> mysql_connection \<Rightarrow> bool \<times> mysql_connection" where
  "MySQLConnection_commit commit_ok set_ok c =
     (if \<not> my_connected c \<or> \<not> inTransaction c then (False, c)
      else if \<not> commit_ok then (False, c)
      else (True, c\<lparr>autocommit := (autocommit c \<or> set_ok), inTransaction := False\<rparr>))"

definition MySQLConnection_rollback :: "bool \<Rightarrow> bool \<Rightarrow> mysql_connection \<Rightarrow> bool \<times> mysql_connection" where
  "MySQLConnection_rollback rollback_ok set_ok c =
     (if \<not> my_connected c \<or> \<not> inTransaction c then (False, c)
      else if \<not> rollback_ok then (False, c)
      else (True, c\<lparr>autocommit := (autocommit c \<or> set_ok), inTransaction := False\<rparr>))"

lemmas transaction_defs = MySQLConnection_beginTransaction_def MySQLConnection_commit_def
  MySQLConnection_rollback_def MySQLConnection_connect_def MySQLConnection_disconnect_def
  MySQLConnection_new_def

subsection \<open>Binding\<close>

definition bindable :: "sql_param \<Rightarrow> bool" where
  "bindable p \<longleftrightarrow> (case p of PBlob _ \<Rightarrow> False | _ \<Rightarrow> True)"

definition insert_bindable :: "sql_param \<Rightarrow> bool" where
  "insert_bindable p \<longleftrightarrow> (case p of PBlob _ \<Rightarrow> False | PFloat _ \<Rightarrow> False | PDouble _ \<Rightarrow> False | _ \<Rightarrow> True)"

definition bound :: "(sql_param \<Rightarrow> bool) \<Rightarrow> sql_param list \<Rightarrow> sql_param option list" where
  "bound can ps = map (\<lambda>p. if can p then Some p else None) ps"

lemma bound_simps [simp]: "bound can [] = []"
  "bound can (p # ps) = (if can p then Some p else None) # bound can ps" "length (bound can ps) = length ps"
  by (simp_all add: bound_def)

lemma bind_one_spec:
  assumes "bindParams st = bs @ None # rest" "length bs = i"
  shows "bind_one i p st = st\<lparr>bindParams := bs @ (if bindable p then Some p else None) # rest\<rparr>"
    and "bind_one_insert i p st =
      st\<lparr>bindParams := bs @ (if insert_bindable p then Some p else None) # rest\<rparr>"
  using assms
  by (cases st; cases p; simp add: bind_one_def bind_one_insert_def MySQLStatement_bindParam_def
      MySQLStatement_bindNull_def bindable_def insert_bindable_def list_update_append)+

text \<open>A loop binds the placeholders in order, those it can, and ignores further parameters.\<close>

lemma bind_loop_spec:
  assumes one: "\<And>i p st bs rest. bindParams st = bs @ None # rest \<Longrightarrow> length bs = i \<Longrightarrow>
      one i p st = st\<lparr>bindParams := bs @ (if can p then Some p else None) # rest\<rparr>"
  shows "length bs = i \<Longrightarrow> bindParams st = bs @ replicate (length ps) None \<Longrightarrow>
      bind_loop one ps i st = st\<lparr>bindParams := bs @ bound can ps\<rparr>"
proof (induction ps arbitrary: i st bs)
  case (Cons p ps)
  let ?b = "if can p then Some p else None"
  have "one i p st = st\<lparr>bindParams := bs @ ?b # replicate (length ps) None\<rparr>"
    using one[of st bs "replicate (length ps) None" i p] Cons.prems by simp
  then show ?case
    using Cons.IH[of "bs @ [?b]" "Suc i" "st\<lparr>bindParams := bs @ ?b # replicate (length ps) None\<rparr>"] Cons.prems
    by simp
qed simp

text \<open>
  A prepared update sends every parameter to the server, each for the placeholder at its
  position (blobs aside, which no caller uses); an insert leaves the placeholders of
  floating-point parameters unbound.
\<close>

theorem MySQLConnection_binds_in_order:
  assumes "stmt_prepare c sql d = Some (length ps)"
  shows "(list_all bindable ps \<longrightarrow> MySQLConnection_executeUpdate c sql ps d =
      (let (ok, d') = stmt_execute c sql (map Some ps) d in (if ok then stmt_affected_rows c d' else - 1, d'))) \<and>
    MySQLConnection_insertAndGetId c sql ps d =
      (let (ok, d') = stmt_execute c sql (bound insert_bindable ps) d in
       (if ok then stmt_insert_id c d' else - 1, d'))"
proof -
  let ?st = "\<lparr>st_valid = True, st_sql = sql, bindParams = replicate (length ps) None,
      fieldCount = (case stmt_metadata c sql d of Some (fs, rs) \<Rightarrow> length fs | None \<Rightarrow> 0)\<rparr>"
  have n: "MySQLStatement_new c sql d = ?st" using assms by (simp add: MySQLStatement_new_def)
  have u: "bind_loop bind_one ps 0 ?st = ?st\<lparr>bindParams := bound bindable ps\<rparr>"
    using bind_loop_spec[of bind_one bindable "[]" 0 ?st ps, OF bind_one_spec(1)] by simp
  have i: "bind_loop bind_one_insert ps 0 ?st = ?st\<lparr>bindParams := bound insert_bindable ps\<rparr>"
    using bind_loop_spec[of bind_one_insert insert_bindable "[]" 0 ?st ps, OF bind_one_spec(2)] by simp
  have "bound bindable ps = map Some ps" if "list_all bindable ps"
    using that by (induction ps) auto
  then show ?thesis
    by (auto simp: MySQLConnection_executeUpdate_def MySQLConnection_insertAndGetId_def n u i
        MySQLStatement_execute_def Let_def split: prod.splits)
qed

text \<open>A server that accepts every statement and records what it was sent.\<close>

definition recording_client :: "nat \<Rightarrow> sql_param option list mysql_client" where
  "recording_client n =
     \<lparr>stmt_prepare = (\<lambda>_ _. Some n), stmt_metadata = (\<lambda>_ _. Some ([''id''], [])), stmt_execute = (\<lambda>_ bs _. (True, bs)),
      stmt_affected_rows = (\<lambda>_. 1), stmt_insert_id = (\<lambda>_. 7), real_query = (\<lambda>_ d. (True, d)),
      store_result = (\<lambda>_. None), affected_rows = (\<lambda>_. 1)\<rparr>"

theorem MySQLConnection_binds_in_order_witness:
  "MySQLConnection_insertAndGetId (recording_client 2) ''INSERT INTO t VALUES (?, ?)''
     [PInt 3, PDouble 4] [] = (7, [Some (PInt 3), None])"
  using MySQLConnection_binds_in_order[of "recording_client 2" _ _ "[PInt 3, PDouble 4]"]
  by (simp add: recording_client_def insert_bindable_def)

subsection \<open>Results of prepared queries\<close>

lemma MySQLConnection_executeQuery_rows:
  assumes "metadata_without_rows c"
  shows "res_rows (fst (MySQLConnection_executeQuery c sql ps d)) = []"
    and "res_count (fst (MySQLConnection_executeQuery c sql ps d)) = 0"
  using assms
  by (auto simp: MySQLConnection_executeQuery_def MySQLStatement_getResult_def MySQLResult_new_def
      MySQLResult_setResult_def metadata_without_rows_def Let_def split: prod.splits option.splits)

lemma MySQLConnection_executeQuery_next:
  assumes "metadata_without_rows c"
  shows "fst (MySQLResult_next (fst (MySQLConnection_executeQuery c sql ps d))) = False"
  using MySQLConnection_executeQuery_rows(1)[OF assms, of sql ps d] by (simp add: MySQLResult_next_def)

text \<open>
  No prepared query ever returns a row, whatever the server answers: \<open>getResult\<close> reads
  the rows from the metadata of the statement, which has none, and never fetches one.
\<close>

theorem MySQLConnection_prepared_query_has_no_rows:
  assumes "metadata_without_rows c"
  shows "\<not> fst (MySQLResult_next (fst (MySQLConnection_executeQuery c sql ps d))) \<and>
    MySQLResult_rowCount (fst (MySQLConnection_executeQuery c sql ps d)) = 0"
  using MySQLConnection_executeQuery_rows[OF assms, of sql ps d]
  by (simp add: MySQLResult_next_def MySQLResult_rowCount_def)

lemma recording_metadata: "metadata_without_rows (recording_client n)"
  by (simp add: metadata_without_rows_def recording_client_def)

theorem MySQLConnection_prepared_query_has_no_rows_witness:
  "\<not> fst (MySQLResult_next (fst (MySQLConnection_executeQuery (recording_client 1) ''SELECT'' [PInt 3] [])))"
  using MySQLConnection_prepared_query_has_no_rows[OF recording_metadata] by blast

subsection \<open>Transactions\<close>

text \<open>Connections in use, the mode switch succeeding; \<open>careless\<close> allows a disconnect inside a transaction.\<close>

inductive txn_run :: "bool \<Rightarrow> mysql_connection \<Rightarrow> bool" for careless where
  txn_new: "txn_run careless MySQLConnection_new"
| txn_connect: "txn_run careless c \<Longrightarrow> careless \<or> \<not> inTransaction c \<Longrightarrow>
    txn_run careless (snd (MySQLConnection_connect ok c))"
| txn_disconnect: "txn_run careless c \<Longrightarrow> careless \<or> \<not> inTransaction c \<Longrightarrow>
    txn_run careless (MySQLConnection_disconnect c)"
| txn_begin: "txn_run careless c \<Longrightarrow> txn_run careless (snd (MySQLConnection_beginTransaction ok c))"
| txn_commit: "txn_run careless c \<Longrightarrow> txn_run careless (snd (MySQLConnection_commit ok True c))"
| txn_rollback: "txn_run careless c \<Longrightarrow> txn_run careless (snd (MySQLConnection_rollback ok True c))"

lemma txn_run_inv:
  "txn_run False c \<Longrightarrow> (inTransaction c \<longrightarrow> my_connected c) \<and> (autocommit c \<longleftrightarrow> \<not> inTransaction c)"
  by (induction rule: txn_run.induct) (auto simp: transaction_defs)

text \<open>
  While nobody disconnects inside a transaction, the connection's flag is right: it is set
  exactly while the server's session is in a transaction, and then beginning another is
  refused and commit and rollback reach the server.
\<close>

theorem MySQLConnection_transaction_flag_right:
  assumes "txn_run False c" "my_connected c"
  shows "(inTransaction c \<longleftrightarrow> \<not> autocommit c) \<and>
    (fst (MySQLConnection_beginTransaction True c) \<longleftrightarrow> autocommit c) \<and>
    (fst (MySQLConnection_commit True True c) \<longleftrightarrow> \<not> autocommit c) \<and>
    (fst (MySQLConnection_rollback True True c) \<longleftrightarrow> \<not> autocommit c)"
  using txn_run_inv[OF assms(1)] assms(2) by (auto simp: transaction_defs)

lemma txn_example:
  "txn_run b (snd (MySQLConnection_beginTransaction True (snd (MySQLConnection_connect True MySQLConnection_new))))"
  by (intro txn_begin txn_connect txn_new) (simp add: transaction_defs)

theorem MySQLConnection_transaction_flag_right_witness:
  "\<not> autocommit (snd (MySQLConnection_beginTransaction True (snd (MySQLConnection_connect True MySQLConnection_new))))"
  using MySQLConnection_transaction_flag_right[OF txn_example] by (simp add: transaction_defs)

text \<open>
  Reconnecting inside a transaction leaves the flag set, though the new session has none:
  the updates that follow are committed one by one, no transaction can be begun, and a
  rollback reports success without undoing anything.
\<close>

theorem MySQLConnection_reconnect_keeps_flag:
  assumes "my_connected c" "inTransaction c"
    and "MySQLConnection_connect True (MySQLConnection_disconnect c) = (ok, c')"
  shows "ok \<and> autocommit c' \<and> inTransaction c' \<and>
    MySQLConnection_beginTransaction b c' = (False, c') \<and> fst (MySQLConnection_rollback True True c')"
  using assms by (auto simp: transaction_defs)

theorem MySQLConnection_reconnect_keeps_flag_witness:
  "inTransaction (snd (MySQLConnection_connect True (MySQLConnection_disconnect
     \<lparr>my_connected = True, inTransaction = True, autocommit = False\<rparr>)))"
  using MySQLConnection_reconnect_keeps_flag[of "\<lparr>my_connected = True, inTransaction = True, autocommit = False\<rparr>"]
  by (simp add: transaction_defs)

end
