(* ===== verification/Orm.thy ===== *)
theory Orm
  imports Registry Database "HOL-Library.Monad_Syntax"
begin

text \<open>
  \<^verbatim>\<open>src/database/orm\<close>: the entities with the statements they save themselves with,
  the query builder and the entity manager. The database is the interface of
  \<open>Database\<close>. A class derived from \<^verbatim>\<open>Entity\<close> is a record that extends
  \<open>entity\<close>, its virtual functions are an \<open>entity_class\<close>. The function-local
  static variable of \<^verbatim>\<open>RoleEntity::getUpdateSQL\<close> lives as long as the program: it is
  passed through as the state \<open>first\<close>.
\<close>

subsection \<open>Entities\<close>

record entity =
  e_id :: int
  tableName :: string
  dirtyFields :: "string set"

definition Entity_new :: "string \<Rightarrow> entity" where
  "Entity_new name = \<lparr>e_id = 0, tableName = name, dirtyFields = {}\<rparr>"

definition Entity_isNew :: "'a entity_scheme \<Rightarrow> bool" where
  "Entity_isNew e \<longleftrightarrow> e_id e = 0"

definition Entity_isDirty :: "'a entity_scheme \<Rightarrow> bool" where
  "Entity_isDirty e \<longleftrightarrow> dirtyFields e \<noteq> {}"

definition Entity_isFieldDirty :: "'a entity_scheme \<Rightarrow> string \<Rightarrow> bool" where
  "Entity_isFieldDirty e f \<longleftrightarrow> f \<in> dirtyFields e"

definition Entity_markDirty :: "string \<Rightarrow> 'a entity_scheme \<Rightarrow> 'a entity_scheme" where
  "Entity_markDirty f e = e\<lparr>dirtyFields := insert f (dirtyFields e)\<rparr>"

definition Entity_clearDirty :: "'a entity_scheme \<Rightarrow> 'a entity_scheme" where
  "Entity_clearDirty e = e\<lparr>dirtyFields := {}\<rparr>"

definition Entity_setId :: "int \<Rightarrow> 'a entity_scheme \<Rightarrow> 'a entity_scheme" where
  "Entity_setId i e = e\<lparr>e_id := i\<rparr>"

record 'e entity_class =
  getInsertSQL :: "'e \<Rightarrow> string"
  getUpdateSQL :: "bool \<Rightarrow> 'e \<Rightarrow> string \<times> bool"
  bindInsertParams :: "'e \<Rightarrow> sql_param list"
  bindUpdateParams :: "'e \<Rightarrow> sql_param list"

definition Entity_save ::
    "'d mysql_api \<Rightarrow> 'a entity_scheme entity_class \<Rightarrow> 'a entity_scheme \<Rightarrow> bool \<Rightarrow> 'd \<Rightarrow>
     bool \<times> 'a entity_scheme \<times> bool \<times> 'd" where
  "Entity_save api cls e first d =
     (if Entity_isNew e
      then (let (newId, d) = insertAndGetId api (getInsertSQL cls e) (bindInsertParams cls e) d
            in if 0 < newId then (True, Entity_clearDirty (e\<lparr>e_id := newId\<rparr>), first, d)
               else (False, e, first, d))
      else if Entity_isDirty e
      then (let (sql, first) = getUpdateSQL cls first e;
                (affected, d) = executeUpdate api sql (bindUpdateParams cls e) d
            in if 0 < affected then (True, Entity_clearDirty e, first, d) else (False, e, first, d))
      else (False, e, first, d))"

definition Entity_remove :: "'d mysql_api \<Rightarrow> 'a entity_scheme \<Rightarrow> 'd \<Rightarrow> bool \<times> 'd" where
  "Entity_remove api e d =
     (if Entity_isNew e then (False, d)
      else (let (n, d) = executeUpdate api (''DELETE FROM '' @ tableName e @ '' WHERE id = ?'') [PInt (e_id e)] d
            in (0 < n, d)))"

text \<open>One assignment of a SET list, with its comma.\<close>

definition add_field :: "string \<Rightarrow> bool \<Rightarrow> string \<times> bool \<Rightarrow> string \<times> bool" where
  "add_field name dirty acc =
     (let (sql, first) = acc in
      if dirty then (sql @ (if first then [] else '', '') @ name @ '' = ?'', False) else (sql, first))"

subsection \<open>Accounts\<close>

record player_account_entity = entity +
  accountName :: string
  passwordHash :: string
  salt :: string
  registerTime :: int
  lastLoginTime :: int
  pa_loginIp :: string
  status :: int

definition PlayerAccountEntity_new :: player_account_entity where
  "PlayerAccountEntity_new = entity.extend (Entity_new ''player_account'')
     \<lparr>accountName = [], passwordHash = [], salt = [], registerTime = 0, lastLoginTime = 0,
      pa_loginIp = [], status = 0\<rparr>"

definition PlayerAccountEntity_setAccountName :: "string \<Rightarrow> player_account_entity \<Rightarrow> player_account_entity" where
  "PlayerAccountEntity_setAccountName v e = Entity_markDirty ''account_name'' (e\<lparr>accountName := v\<rparr>)"

definition PlayerAccountEntity_setPasswordHash :: "string \<Rightarrow> player_account_entity \<Rightarrow> player_account_entity" where
  "PlayerAccountEntity_setPasswordHash v e = Entity_markDirty ''password_hash'' (e\<lparr>passwordHash := v\<rparr>)"

definition PlayerAccountEntity_setSalt :: "string \<Rightarrow> player_account_entity \<Rightarrow> player_account_entity" where
  "PlayerAccountEntity_setSalt v e = Entity_markDirty ''salt'' (e\<lparr>salt := v\<rparr>)"

definition PlayerAccountEntity_setRegisterTime :: "int \<Rightarrow> player_account_entity \<Rightarrow> player_account_entity" where
  "PlayerAccountEntity_setRegisterTime v e = Entity_markDirty ''register_time'' (e\<lparr>registerTime := v\<rparr>)"

definition PlayerAccountEntity_setLastLoginTime :: "int \<Rightarrow> player_account_entity \<Rightarrow> player_account_entity" where
  "PlayerAccountEntity_setLastLoginTime v e = Entity_markDirty ''last_login_time'' (e\<lparr>lastLoginTime := v\<rparr>)"

definition PlayerAccountEntity_setLoginIp :: "string \<Rightarrow> player_account_entity \<Rightarrow> player_account_entity" where
  "PlayerAccountEntity_setLoginIp v e = Entity_markDirty ''login_ip'' (e\<lparr>pa_loginIp := v\<rparr>)"

definition PlayerAccountEntity_setStatus :: "int \<Rightarrow> player_account_entity \<Rightarrow> player_account_entity" where
  "PlayerAccountEntity_setStatus v e = Entity_markDirty ''status'' (e\<lparr>status := v\<rparr>)"

definition PlayerAccountEntity_getInsertSQL :: "player_account_entity \<Rightarrow> string" where
  "PlayerAccountEntity_getInsertSQL e = ''INSERT INTO player_account (account_name, password_hash, salt, register_time, last_login_time, login_ip, status) VALUES (?, ?, ?, ?, ?, ?, ?)''"

definition PlayerAccountEntity_getUpdateSQL :: "bool \<Rightarrow> player_account_entity \<Rightarrow> string \<times> bool" where
  "PlayerAccountEntity_getUpdateSQL static_first e =
     (let acc = (''UPDATE player_account SET '', True);
          acc = add_field ''password_hash'' (Entity_isFieldDirty e ''password_hash'') acc;
          acc = add_field ''last_login_time'' (Entity_isFieldDirty e ''last_login_time'') acc;
          acc = add_field ''login_ip'' (Entity_isFieldDirty e ''login_ip'') acc;
          acc = add_field ''status'' (Entity_isFieldDirty e ''status'') acc
      in (fst acc @ '' WHERE account_id = ?'', static_first))"

definition PlayerAccountEntity_bindInsertParams :: "player_account_entity \<Rightarrow> sql_param list" where
  "PlayerAccountEntity_bindInsertParams e =
     [PString (accountName e), PString (passwordHash e), PString (salt e), PInt (registerTime e),
      PInt (lastLoginTime e), PString (pa_loginIp e), PInt (status e)]"

definition PlayerAccountEntity_bindUpdateParams :: "player_account_entity \<Rightarrow> sql_param list" where
  "PlayerAccountEntity_bindUpdateParams e =
     (if Entity_isFieldDirty e ''password_hash'' then [PString (passwordHash e)] else []) @
     (if Entity_isFieldDirty e ''last_login_time'' then [PInt (lastLoginTime e)] else []) @
     (if Entity_isFieldDirty e ''login_ip'' then [PString (pa_loginIp e)] else []) @
     (if Entity_isFieldDirty e ''status'' then [PInt (status e)] else []) @ [PInt (e_id e)]"

definition PlayerAccountEntity_class :: "player_account_entity entity_class" where
  "PlayerAccountEntity_class =
     \<lparr>getInsertSQL = PlayerAccountEntity_getInsertSQL, getUpdateSQL = PlayerAccountEntity_getUpdateSQL,
      bindInsertParams = PlayerAccountEntity_bindInsertParams,
      bindUpdateParams = PlayerAccountEntity_bindUpdateParams\<rparr>"

subsection \<open>Roles\<close>

record role_entity = entity +
  accountId :: int
  roleName :: string
  serverId :: int
  level :: int
  re_exp :: int
  profession :: int
  gender :: int
  hp :: int
  mp :: int
  gold :: int
  diamond :: int

definition RoleEntity_new :: role_entity where
  "RoleEntity_new = entity.extend (Entity_new ''player_role'')
     \<lparr>accountId = 0, roleName = [], serverId = 1, level = 1, re_exp = 0, profession = 0, gender = 0,
      hp = 100, mp = 100, gold = 0, diamond = 0\<rparr>"

definition RoleEntity_setAccountId :: "int \<Rightarrow> role_entity \<Rightarrow> role_entity" where
  "RoleEntity_setAccountId v e = Entity_markDirty ''account_id'' (e\<lparr>accountId := v\<rparr>)"

definition RoleEntity_setRoleName :: "string \<Rightarrow> role_entity \<Rightarrow> role_entity" where
  "RoleEntity_setRoleName v e = Entity_markDirty ''role_name'' (e\<lparr>roleName := v\<rparr>)"

definition RoleEntity_setServerId :: "int \<Rightarrow> role_entity \<Rightarrow> role_entity" where
  "RoleEntity_setServerId v e = Entity_markDirty ''server_id'' (e\<lparr>serverId := v\<rparr>)"

definition RoleEntity_setLevel :: "int \<Rightarrow> role_entity \<Rightarrow> role_entity" where
  "RoleEntity_setLevel v e = Entity_markDirty ''level'' (e\<lparr>level := v\<rparr>)"

definition RoleEntity_setExp :: "int \<Rightarrow> role_entity \<Rightarrow> role_entity" where
  "RoleEntity_setExp v e = Entity_markDirty ''exp'' (e\<lparr>re_exp := v\<rparr>)"

definition RoleEntity_setProfession :: "int \<Rightarrow> role_entity \<Rightarrow> role_entity" where
  "RoleEntity_setProfession v e = Entity_markDirty ''profession'' (e\<lparr>profession := v\<rparr>)"

definition RoleEntity_setGender :: "int \<Rightarrow> role_entity \<Rightarrow> role_entity" where
  "RoleEntity_setGender v e = Entity_markDirty ''gender'' (e\<lparr>gender := v\<rparr>)"

definition RoleEntity_setHp :: "int \<Rightarrow> role_entity \<Rightarrow> role_entity" where
  "RoleEntity_setHp v e = Entity_markDirty ''hp'' (e\<lparr>hp := v\<rparr>)"

definition RoleEntity_setMp :: "int \<Rightarrow> role_entity \<Rightarrow> role_entity" where
  "RoleEntity_setMp v e = Entity_markDirty ''mp'' (e\<lparr>mp := v\<rparr>)"

definition RoleEntity_setGold :: "int \<Rightarrow> role_entity \<Rightarrow> role_entity" where
  "RoleEntity_setGold v e = Entity_markDirty ''gold'' (e\<lparr>gold := v\<rparr>)"

definition RoleEntity_setDiamond :: "int \<Rightarrow> role_entity \<Rightarrow> role_entity" where
  "RoleEntity_setDiamond v e = Entity_markDirty ''diamond'' (e\<lparr>diamond := v\<rparr>)"

definition RoleEntity_getInsertSQL :: "role_entity \<Rightarrow> string" where
  "RoleEntity_getInsertSQL e = ''INSERT INTO player_role (account_id, role_name, server_id, level, exp, profession, gender, hp, mp, gold, diamond) VALUES (?, ?, ?, ?, ?, ?, ?, ?, ?, ?, ?)''"

definition RoleEntity_getUpdateSQL :: "bool \<Rightarrow> role_entity \<Rightarrow> string \<times> bool" where
  "RoleEntity_getUpdateSQL static_first e =
     (let acc = (''UPDATE player_role SET '', static_first);
          acc = add_field ''level'' (Entity_isFieldDirty e ''level'') acc;
          acc = add_field ''exp'' (Entity_isFieldDirty e ''exp'') acc;
          acc = add_field ''hp'' (Entity_isFieldDirty e ''hp'') acc;
          acc = add_field ''mp'' (Entity_isFieldDirty e ''mp'') acc;
          acc = add_field ''gold'' (Entity_isFieldDirty e ''gold'') acc;
          acc = add_field ''diamond'' (Entity_isFieldDirty e ''diamond'') acc
      in (fst acc @ '' WHERE role_id = ?'', snd acc))"

definition RoleEntity_bindInsertParams :: "role_entity \<Rightarrow> sql_param list" where
  "RoleEntity_bindInsertParams e =
     [PInt (accountId e), PString (roleName e), PInt (serverId e), PInt (level e), PInt (re_exp e),
      PInt (profession e), PInt (gender e), PInt (hp e), PInt (mp e), PInt (gold e), PInt (diamond e)]"

definition RoleEntity_bindUpdateParams :: "role_entity \<Rightarrow> sql_param list" where
  "RoleEntity_bindUpdateParams e =
     (if Entity_isFieldDirty e ''level'' then [PInt (level e)] else []) @
     (if Entity_isFieldDirty e ''exp'' then [PInt (re_exp e)] else []) @
     (if Entity_isFieldDirty e ''hp'' then [PInt (hp e)] else []) @
     (if Entity_isFieldDirty e ''mp'' then [PInt (mp e)] else []) @
     (if Entity_isFieldDirty e ''gold'' then [PInt (gold e)] else []) @
     (if Entity_isFieldDirty e ''diamond'' then [PInt (diamond e)] else []) @ [PInt (e_id e)]"

definition RoleEntity_class :: "role_entity entity_class" where
  "RoleEntity_class =
     \<lparr>getInsertSQL = RoleEntity_getInsertSQL, getUpdateSQL = RoleEntity_getUpdateSQL,
      bindInsertParams = RoleEntity_bindInsertParams, bindUpdateParams = RoleEntity_bindUpdateParams\<rparr>"

subsection \<open>The query builder\<close>

text \<open>The map of columns is a list in the order the hash map iterates it.\<close>

datatype query_type = SELECT | INSERT | UPDATE | DELETE

record query_builder =
  qb_type :: query_type
  qb_table :: string
  columns :: string
  whereClause :: string
  orderByClause :: string
  limitClause :: string
  offsetClause :: string
  qb_data :: "(string \<times> sql_param) list"
  qb_params :: "sql_param list"

definition QueryBuilder_new :: query_builder where
  "QueryBuilder_new =
     \<lparr>qb_type = SELECT, qb_table = [], columns = [], whereClause = [], orderByClause = [], limitClause = [],
      offsetClause = [], qb_data = [], qb_params = []\<rparr>"

fun join :: "string \<Rightarrow> string list \<Rightarrow> string" where
  "join sep [] = []"
| "join sep [s] = s"
| "join sep (s # t # ss) = s @ sep @ join sep (t # ss)"

definition QueryBuilder_select :: "string \<Rightarrow> query_builder \<Rightarrow> query_builder" where
  "QueryBuilder_select cols q = q\<lparr>qb_type := SELECT, columns := cols\<rparr>"

definition QueryBuilder_select_list :: "string list \<Rightarrow> query_builder \<Rightarrow> query_builder" where
  "QueryBuilder_select_list cols q = q\<lparr>qb_type := SELECT, columns := join '', '' cols\<rparr>"

definition QueryBuilder_from :: "string \<Rightarrow> query_builder \<Rightarrow> query_builder" where
  "QueryBuilder_from t q = q\<lparr>qb_table := t\<rparr>"

definition QueryBuilder_where :: "string \<Rightarrow> query_builder \<Rightarrow> query_builder" where
  "QueryBuilder_where cond q = q\<lparr>whereClause := ''WHERE '' @ cond\<rparr>"

definition QueryBuilder_where_op :: "string \<Rightarrow> string \<Rightarrow> sql_param \<Rightarrow> query_builder \<Rightarrow> query_builder" where
  "QueryBuilder_where_op col oper v q =
     q\<lparr>whereClause := ''WHERE '' @ col @ '' '' @ oper @ '' ?'', qb_params := qb_params q @ [v]\<rparr>"

definition QueryBuilder_whereEq :: "string \<Rightarrow> sql_param \<Rightarrow> query_builder \<Rightarrow> query_builder" where
  "QueryBuilder_whereEq col v q = QueryBuilder_where_op col ''='' v q"

definition QueryBuilder_whereIn :: "string \<Rightarrow> sql_param list \<Rightarrow> query_builder \<Rightarrow> query_builder" where
  "QueryBuilder_whereIn col vs q =
     q\<lparr>qb_params := qb_params q @ vs,
       whereClause := ''WHERE '' @ col @ '' IN ('' @ join '', '' (map (\<lambda>_. ''?'') vs) @ '')''\<rparr>"

definition QueryBuilder_whereLike :: "string \<Rightarrow> string \<Rightarrow> query_builder \<Rightarrow> query_builder" where
  "QueryBuilder_whereLike col pat q =
     q\<lparr>whereClause := ''WHERE '' @ col @ '' LIKE ?'', qb_params := qb_params q @ [PString pat]\<rparr>"

definition QueryBuilder_whereNull :: "string \<Rightarrow> query_builder \<Rightarrow> query_builder" where
  "QueryBuilder_whereNull col q = q\<lparr>whereClause := ''WHERE '' @ col @ '' IS NULL''\<rparr>"

definition QueryBuilder_whereNotNull :: "string \<Rightarrow> query_builder \<Rightarrow> query_builder" where
  "QueryBuilder_whereNotNull col q = q\<lparr>whereClause := ''WHERE '' @ col @ '' IS NOT NULL''\<rparr>"

definition QueryBuilder_andWhere :: "string \<Rightarrow> query_builder \<Rightarrow> query_builder" where
  "QueryBuilder_andWhere cond q = q\<lparr>whereClause := whereClause q @ '' AND '' @ cond\<rparr>"

definition QueryBuilder_orWhere :: "string \<Rightarrow> query_builder \<Rightarrow> query_builder" where
  "QueryBuilder_orWhere cond q = q\<lparr>whereClause := whereClause q @ '' OR '' @ cond\<rparr>"

definition QueryBuilder_orderBy :: "string \<Rightarrow> string \<Rightarrow> query_builder \<Rightarrow> query_builder" where
  "QueryBuilder_orderBy col dir q = q\<lparr>orderByClause := ''ORDER BY '' @ col @ '' '' @ dir\<rparr>"

definition QueryBuilder_limit :: "int \<Rightarrow> query_builder \<Rightarrow> query_builder" where
  "QueryBuilder_limit n q = q\<lparr>limitClause := ''LIMIT '' @ int_to_string n\<rparr>"

definition QueryBuilder_offset :: "int \<Rightarrow> query_builder \<Rightarrow> query_builder" where
  "QueryBuilder_offset n q = q\<lparr>offsetClause := ''OFFSET '' @ int_to_string n\<rparr>"

definition QueryBuilder_insert :: "string \<Rightarrow> query_builder \<Rightarrow> query_builder" where
  "QueryBuilder_insert t q = q\<lparr>qb_type := INSERT, qb_table := t\<rparr>"

definition QueryBuilder_values :: "(string \<times> sql_param) list \<Rightarrow> query_builder \<Rightarrow> query_builder" where
  "QueryBuilder_values ds q = q\<lparr>qb_data := ds\<rparr>"

definition QueryBuilder_update :: "string \<Rightarrow> query_builder \<Rightarrow> query_builder" where
  "QueryBuilder_update t q = q\<lparr>qb_type := UPDATE, qb_table := t\<rparr>"

definition QueryBuilder_set :: "(string \<times> sql_param) list \<Rightarrow> query_builder \<Rightarrow> query_builder" where
  "QueryBuilder_set ds q = q\<lparr>qb_data := ds\<rparr>"

definition QueryBuilder_deleteFrom :: "string \<Rightarrow> query_builder \<Rightarrow> query_builder" where
  "QueryBuilder_deleteFrom t q = q\<lparr>qb_type := DELETE, qb_table := t\<rparr>"

definition clause :: "string \<Rightarrow> string" where
  "clause c = (if c = [] then [] else '' '' @ c)"

definition QueryBuilder_buildSelectSQL :: "query_builder \<Rightarrow> string" where
  "QueryBuilder_buildSelectSQL q =
     ''SELECT '' @ (if columns q = [] then ''*'' else columns q) @ '' FROM '' @ qb_table q @
     clause (whereClause q) @ clause (orderByClause q) @ clause (limitClause q) @ clause (offsetClause q)"

text \<open>Building an insert or an update also appends the data to the (mutable) parameters.\<close>

definition QueryBuilder_buildInsertSQL :: "query_builder \<Rightarrow> string \<times> query_builder" where
  "QueryBuilder_buildInsertSQL q =
     (''INSERT INTO '' @ qb_table q @ '' ('' @ join '', '' (map fst (qb_data q)) @ '') VALUES ('' @
        join '', '' (map (\<lambda>_. ''?'') (qb_data q)) @ '')'',
      q\<lparr>qb_params := qb_params q @ map snd (qb_data q)\<rparr>)"

definition QueryBuilder_buildUpdateSQL :: "query_builder \<Rightarrow> string \<times> query_builder" where
  "QueryBuilder_buildUpdateSQL q =
     (''UPDATE '' @ qb_table q @ '' SET '' @ join '', '' (map (\<lambda>(c, _). c @ '' = ?'') (qb_data q)) @
        clause (whereClause q),
      q\<lparr>qb_params := qb_params q @ map snd (qb_data q)\<rparr>)"

definition QueryBuilder_buildDeleteSQL :: "query_builder \<Rightarrow> string" where
  "QueryBuilder_buildDeleteSQL q = ''DELETE FROM '' @ qb_table q @ clause (whereClause q)"

definition QueryBuilder_reset :: "query_builder \<Rightarrow> query_builder" where
  "QueryBuilder_reset q =
     q\<lparr>qb_type := SELECT, qb_table := [], columns := [], whereClause := [], orderByClause := [],
       limitClause := [], offsetClause := [], qb_data := [], qb_params := []\<rparr>"

lemmas QueryBuilder_defs = QueryBuilder_select_def QueryBuilder_from_def QueryBuilder_where_def
  QueryBuilder_where_op_def QueryBuilder_whereEq_def QueryBuilder_whereIn_def QueryBuilder_insert_def
  QueryBuilder_values_def QueryBuilder_update_def QueryBuilder_set_def QueryBuilder_deleteFrom_def
  QueryBuilder_buildSelectSQL_def QueryBuilder_buildInsertSQL_def QueryBuilder_buildUpdateSQL_def
  QueryBuilder_buildDeleteSQL_def QueryBuilder_new_def clause_def

subsection \<open>The statements of an entity\<close>

definition set_list :: "string list \<Rightarrow> string" where
  "set_list cols = join '', '' (map (\<lambda>c. c @ '' = ?'') cols)"

definition placeholders :: "string \<Rightarrow> nat" where
  "placeholders sql = count_list sql (CHR ''?'')"

lemma placeholders_append [simp]: "placeholders (xs @ ys) = placeholders xs + placeholders ys"
  by (simp add: placeholders_def count_list_append)

lemma placeholders_Cons: "placeholders (c # xs) = (if c = CHR ''?'' then 1 else 0) + placeholders xs"
  by (simp add: placeholders_def)

lemma join_Cons: "join sep (s # ss) = s @ (if ss = [] then [] else sep @ join sep ss)"
  by (cases ss) simp_all

lemma placeholders_join:
  "placeholders sep = 0 \<Longrightarrow> placeholders (join sep ss) = sum_list (map placeholders ss)"
  by (induction ss) (auto simp: join_Cons placeholders_def)

lemma placeholders_comma [simp]: "placeholders '', '' = 0" "placeholders '' = ?'' = 1" "placeholders ''?'' = 1"
  by (simp_all add: placeholders_def)

lemma placeholders_set_list:
  "\<forall>c \<in> set cols. placeholders c = 0 \<Longrightarrow> placeholders (set_list cols) = length cols"
  unfolding set_list_def by (simp add: placeholders_join) (induction cols; simp)

definition add_fields :: "(string \<Rightarrow> bool) \<Rightarrow> string list \<Rightarrow> string \<times> bool \<Rightarrow> string \<times> bool" where
  "add_fields dirty cols acc = fold (\<lambda>c. add_field c (dirty c)) cols acc"

lemma add_fields_spec:
  "add_fields dirty cols (sql, first) =
     (let ds = filter dirty cols in
      (sql @ (if first \<or> ds = [] then [] else '', '') @ set_list ds, first \<and> ds = []))"
  unfolding add_fields_def
  by (induction cols arbitrary: sql first)
    (auto simp: add_field_def set_list_def join_Cons Let_def split: if_splits)

definition account_columns :: "string list" where
  "account_columns = [''password_hash'', ''last_login_time'', ''login_ip'', ''status'']"

definition account_value :: "player_account_entity \<Rightarrow> string \<Rightarrow> sql_param" where
  "account_value e c =
     (if c = ''password_hash'' then PString (passwordHash e)
      else if c = ''last_login_time'' then PInt (lastLoginTime e)
      else if c = ''login_ip'' then PString (pa_loginIp e) else PInt (status e))"

definition role_columns :: "string list" where
  "role_columns = [''level'', ''exp'', ''hp'', ''mp'', ''gold'', ''diamond'']"

definition role_value :: "role_entity \<Rightarrow> string \<Rightarrow> sql_param" where
  "role_value e c =
     (if c = ''level'' then PInt (level e) else if c = ''exp'' then PInt (re_exp e)
      else if c = ''hp'' then PInt (hp e) else if c = ''mp'' then PInt (mp e)
      else if c = ''gold'' then PInt (gold e) else PInt (diamond e))"

lemma account_update_sql:
  "PlayerAccountEntity_getUpdateSQL st e =
     (''UPDATE player_account SET '' @ set_list (filter (Entity_isFieldDirty e) account_columns) @
        '' WHERE account_id = ?'', st)"
proof -
  have "PlayerAccountEntity_getUpdateSQL st e =
     (fst (add_fields (Entity_isFieldDirty e) account_columns (''UPDATE player_account SET '', True)) @
        '' WHERE account_id = ?'', st)"
    by (simp add: PlayerAccountEntity_getUpdateSQL_def add_fields_def account_columns_def Let_def)
  then show ?thesis by (simp add: add_fields_spec Let_def)
qed

lemma role_update_sql:
  "RoleEntity_getUpdateSQL first e =
     (let ds = filter (Entity_isFieldDirty e) role_columns in
      (''UPDATE player_role SET '' @ (if first \<or> ds = [] then [] else '', '') @ set_list ds @
         '' WHERE role_id = ?'', first \<and> ds = []))"
proof -
  have "RoleEntity_getUpdateSQL first e =
     (fst (add_fields (Entity_isFieldDirty e) role_columns (''UPDATE player_role SET '', first)) @
        '' WHERE role_id = ?'',
      snd (add_fields (Entity_isFieldDirty e) role_columns (''UPDATE player_role SET '', first)))"
    by (simp add: RoleEntity_getUpdateSQL_def add_fields_def role_columns_def Let_def)
  then show ?thesis by (simp add: add_fields_spec Let_def)
qed

lemma account_update_params:
  "PlayerAccountEntity_bindUpdateParams e =
     map (account_value e) (filter (Entity_isFieldDirty e) account_columns) @ [PInt (e_id e)]"
  by (simp add: PlayerAccountEntity_bindUpdateParams_def account_columns_def account_value_def)

lemma role_update_params:
  "RoleEntity_bindUpdateParams e =
     map (role_value e) (filter (Entity_isFieldDirty e) role_columns) @ [PInt (e_id e)]"
  by (simp add: RoleEntity_bindUpdateParams_def role_columns_def role_value_def)

subsection \<open>Properties of the statements\<close>


text \<open>A saved role with a change the update statement knows of.\<close>

definition role_changed :: "role_entity \<Rightarrow> bool" where
  "role_changed e \<longleftrightarrow> e_id e \<noteq> 0 \<and> filter (Entity_isFieldDirty e) role_columns \<noteq> []"

lemma filter_role_columns_dirty: "filter (Entity_isFieldDirty e) role_columns \<noteq> [] \<Longrightarrow> Entity_isDirty e"
  by (auto simp: Entity_isDirty_def Entity_isFieldDirty_def filter_empty_conv)

lemma Entity_save_role:
  assumes "role_changed e"
  shows "Entity_save api RoleEntity_class e first d =
    (let (n, d) = executeUpdate api
           (''UPDATE player_role SET '' @ (if first then [] else '', '') @
             set_list (filter (Entity_isFieldDirty e) role_columns) @ '' WHERE role_id = ?'')
           (map (role_value e) (filter (Entity_isFieldDirty e) role_columns) @ [PInt (e_id e)]) d
     in if 0 < n then (True, Entity_clearDirty e, False, d) else (False, e, False, d))"
  using assms filter_role_columns_dirty[of e]
  by (simp add: role_changed_def Entity_save_def Entity_isNew_def RoleEntity_class_def role_update_sql
      role_update_params Let_def)

text \<open>
  Only the first role update of a process can work. The flag that decides about the comma
  is a static local variable, so after the first role has been saved, successfully or not,
  the statement for every later one begins with \<open>SET ,\<close>: a server that rejects such
  statements leaves the save without effect, and the role stays unsaved.
\<close>

theorem RoleEntity_saves_only_once:
  assumes "role_changed e1" "role_changed e2"
    and "\<And>s ps d. fst (executeUpdate api (''UPDATE player_role SET , '' @ s) ps d) \<le> 0"
    and "Entity_save api RoleEntity_class e1 first d1 = (ok1, e1', first1, d1')"
    and "Entity_save api RoleEntity_class e2 first1 d2 = (ok2, e2', first2, d2')"
  shows "\<not> ok2 \<and> e2' = e2 \<and> \<not> first2"
proof -
  let ?s = "set_list (filter (Entity_isFieldDirty e2) role_columns) @ '' WHERE role_id = ?''"
  let ?ps = "map (role_value e2) (filter (Entity_isFieldDirty e2) role_columns) @ [PInt (e_id e2)]"
  have "\<not> first1"
    using assms(4) unfolding Entity_save_role[OF assms(1)] by (auto simp: Let_def split: prod.splits if_splits)
  then have "Entity_save api RoleEntity_class e2 first1 d2 =
      (let (n, d) = executeUpdate api (''UPDATE player_role SET , '' @ ?s) ?ps d2
       in if 0 < n then (True, Entity_clearDirty e2, False, d) else (False, e2, False, d))"
    unfolding Entity_save_role[OF assms(2)] by simp
  moreover have "fst (executeUpdate api (''UPDATE player_role SET , '' @ ?s) ?ps d2) \<le> 0" by (rule assms(3))
  ultimately show ?thesis using assms(5) by (auto simp: Let_def split: prod.splits if_splits)
qed

text \<open>A server that rejects an update whose SET list starts with a comma, and accepts others.\<close>

definition strict_api :: "unit mysql_api" where
  "strict_api =
     \<lparr>executeQuery = (\<lambda>_ _ d. (MySQLResult_new, d)),
      executeUpdate = (\<lambda>s _ d. (if take 25 s = ''UPDATE player_role SET , '' then - 1 else 1, d)),
      insertAndGetId = (\<lambda>_ _ d. (1, d))\<rparr>"

definition gold_role :: role_entity where
  "gold_role = RoleEntity_setGold 50 (Entity_setId 3 RoleEntity_new)"

lemma gold_role_changed: "role_changed gold_role"
  by (simp add: role_changed_def gold_role_def RoleEntity_setGold_def Entity_setId_def RoleEntity_new_def
      Entity_new_def entity.defs Entity_markDirty_def Entity_isFieldDirty_def role_columns_def)

theorem RoleEntity_saves_only_once_witness:
  "fst (Entity_save strict_api RoleEntity_class gold_role True ()) \<and>
   \<not> fst (Entity_save strict_api RoleEntity_class gold_role
            (fst (snd (snd (Entity_save strict_api RoleEntity_class gold_role True ())))) ())"
proof -
  have f: "filter (Entity_isFieldDirty gold_role) role_columns = [''gold'']"
    by (simp add: gold_role_def RoleEntity_setGold_def Entity_setId_def RoleEntity_new_def
        Entity_new_def entity.defs Entity_markDirty_def Entity_isFieldDirty_def role_columns_def)
  have s: "Entity_save strict_api RoleEntity_class gold_role True () = (True, Entity_clearDirty gold_role, False, ())"
    by (simp add: Entity_save_role[OF gold_role_changed] f strict_api_def set_list_def)
  obtain ok e2 fi d where t: "Entity_save strict_api RoleEntity_class gold_role False () = (ok, e2, fi, d)"
    by (metis prod_cases4)
  have "\<not> ok"
    using RoleEntity_saves_only_once[OF gold_role_changed gold_role_changed _ s t] by (simp add: strict_api_def)
  then show ?thesis using s t by simp
qed

text \<open>
  Saving an entity is all or nothing on the entity: a successful save leaves it clean and
  with an id, so that saving again sends nothing and reports failure; a failed save leaves
  it as it was.
\<close>

theorem Entity_save_clean_or_unchanged:
  assumes "Entity_save api cls e first d = (ok, e', first', d')" "0 \<le> e_id e"
  shows "(ok \<longrightarrow> 0 < e_id e' \<and> \<not> Entity_isDirty e' \<and>
      Entity_save api cls e' first' d2 = (False, e', first', d2)) \<and> (\<not> ok \<longrightarrow> e' = e)"
  using assms
  by (auto simp: Entity_save_def Entity_isNew_def Entity_isDirty_def Entity_clearDirty_def Let_def
      split: if_splits prod.splits)

theorem Entity_save_clean_or_unchanged_witness:
  "Entity_save strict_api RoleEntity_class (Entity_clearDirty gold_role) False () =
     (False, Entity_clearDirty gold_role, False, ())"
proof -
  have f: "filter (Entity_isFieldDirty gold_role) role_columns = [''gold'']"
    by (simp add: gold_role_def RoleEntity_setGold_def Entity_setId_def RoleEntity_new_def
        Entity_new_def entity.defs Entity_markDirty_def Entity_isFieldDirty_def role_columns_def)
  have s: "Entity_save strict_api RoleEntity_class gold_role True () = (True, Entity_clearDirty gold_role, False, ())"
    by (simp add: Entity_save_role[OF gold_role_changed] f strict_api_def set_list_def)
  have "0 \<le> e_id gold_role"
    by (simp add: gold_role_def RoleEntity_setGold_def Entity_setId_def Entity_markDirty_def)
  then show ?thesis using Entity_save_clean_or_unchanged[OF s] by simp
qed

text \<open>
  An update the query builder makes binds its values to the wrong placeholders: the
  statement has the SET list first and the condition last, but the condition's value was
  recorded when the condition was given, before the building appended the values of the SET
  list. The order of an insert is right, once: building twice doubles the parameters.
\<close>

theorem QueryBuilder_update_values_shifted:
  "QueryBuilder_buildUpdateSQL
     (QueryBuilder_whereEq k v (QueryBuilder_set ds (QueryBuilder_update t QueryBuilder_new))) =
   (sql, q) \<Longrightarrow>
     sql = ''UPDATE '' @ t @ '' SET '' @ set_list (map fst ds) @ '' WHERE '' @ k @ '' = ?'' \<and>
     qb_params q = v # map snd ds \<and>
     (let q2 = QueryBuilder_values ds (QueryBuilder_insert t QueryBuilder_new);
          q3 = snd (QueryBuilder_buildInsertSQL q2)
      in qb_params q3 = map snd ds \<and>
         qb_params (snd (QueryBuilder_buildInsertSQL q3)) = map snd ds @ map snd ds)"
  by (auto simp: QueryBuilder_defs set_list_def comp_def case_prod_unfold)

theorem QueryBuilder_update_values_shifted_witness:
  "QueryBuilder_buildUpdateSQL
     (QueryBuilder_whereEq ''role_id'' (PInt 7) (QueryBuilder_set [(''level'', PInt 2)] (QueryBuilder_update ''player_role'' QueryBuilder_new))) =
   (''UPDATE player_role SET level = ? WHERE role_id = ?'',
    QueryBuilder_whereEq ''role_id'' (PInt 7) (QueryBuilder_set [(''level'', PInt 2)]
      (QueryBuilder_update ''player_role'' QueryBuilder_new))\<lparr>qb_params := [PInt 7, PInt 2]\<rparr>)"
proof -
  obtain sql q where b: "QueryBuilder_buildUpdateSQL
     (QueryBuilder_whereEq ''role_id'' (PInt 7) (QueryBuilder_set [(''level'', PInt 2)]
       (QueryBuilder_update ''player_role'' QueryBuilder_new))) = (sql, q)" by fastforce
  show ?thesis
    using QueryBuilder_update_values_shifted[OF b] b
    by (simp add: set_list_def QueryBuilder_buildUpdateSQL_def QueryBuilder_whereEq_def QueryBuilder_where_op_def
        QueryBuilder_set_def QueryBuilder_update_def QueryBuilder_new_def)
qed

subsection \<open>The entity manager\<close>

text \<open>
  A \<open>Ptr<RoleEntity>\<close> is an address in \<open>role_objects\<close>. \<open>conn\<close> tells whether
  the pool gave a connection; the methods that call \<open>getRole\<close> take a second one for it.
  \<open>None\<close> is the exception of a number that does not parse.
\<close>

record entity_manager =
  role_objects :: "role_entity list"
  roleCache :: "int \<rightharpoonup> nat"
  roleNameIndex :: "string \<rightharpoonup> int"

definition EntityManager_new :: entity_manager where
  "EntityManager_new = \<lparr>role_objects = [], roleCache = Map.empty, roleNameIndex = Map.empty\<rparr>"

definition role_at :: "entity_manager \<Rightarrow> nat \<Rightarrow> role_entity" where
  "role_at m a = role_objects m ! a"

definition new_role :: "role_entity \<Rightarrow> entity_manager \<Rightarrow> nat \<times> entity_manager" where
  "new_role e m = (length (role_objects m), m\<lparr>role_objects := role_objects m @ [e]\<rparr>)"

definition EntityManager_cacheRole :: "nat \<Rightarrow> entity_manager \<Rightarrow> entity_manager" where
  "EntityManager_cacheRole a m =
     m\<lparr>roleCache := (roleCache m)(e_id (role_at m a) \<mapsto> a),
       roleNameIndex := (roleNameIndex m)(roleName (role_at m a) \<mapsto> e_id (role_at m a))\<rparr>"

definition EntityManager_uncacheRole :: "int \<Rightarrow> entity_manager \<Rightarrow> entity_manager" where
  "EntityManager_uncacheRole i m =
     (case roleCache m i of
        Some a \<Rightarrow> m\<lparr>roleNameIndex := (roleNameIndex m)(roleName (role_at m a) := None),
                    roleCache := (roleCache m)(i := None)\<rparr>
      | None \<Rightarrow> m)"

text \<open>The entity a row describes: the setters in the code's order, then \<open>clearDirty\<close>.\<close>

definition account_of_row :: "mysql_result \<Rightarrow> player_account_entity option" where
  "account_of_row res =
     (case (MySQLResult_getInt64_by res ''account_id'', MySQLResult_getInt64_by res ''register_time'',
            MySQLResult_getInt64_by res ''last_login_time'', MySQLResult_getInt32_by res ''status'') of
        (Some i, Some rt, Some lt, Some stat) \<Rightarrow>
          (let e = Entity_setId i PlayerAccountEntity_new;
               e = PlayerAccountEntity_setAccountName (MySQLResult_getString_by res ''account_name'') e;
               e = PlayerAccountEntity_setPasswordHash (MySQLResult_getString_by res ''password_hash'') e;
               e = PlayerAccountEntity_setSalt (MySQLResult_getString_by res ''salt'') e;
               e = PlayerAccountEntity_setRegisterTime rt e;
               e = PlayerAccountEntity_setLastLoginTime lt e;
               e = PlayerAccountEntity_setLoginIp (MySQLResult_getString_by res ''login_ip'') e;
               e = PlayerAccountEntity_setStatus stat e
           in Some (Entity_clearDirty e))
      | _ \<Rightarrow> None)"

definition role_of_row :: "mysql_result \<Rightarrow> role_entity option" where
  "role_of_row res =
     do { i \<leftarrow> MySQLResult_getInt64_by res ''role_id'';
          acc \<leftarrow> MySQLResult_getInt64_by res ''account_id'';
          sv \<leftarrow> MySQLResult_getInt32_by res ''server_id'';
          lv \<leftarrow> MySQLResult_getInt32_by res ''level'';
          ex \<leftarrow> MySQLResult_getInt64_by res ''exp'';
          pr \<leftarrow> MySQLResult_getInt32_by res ''profession'';
          ge \<leftarrow> MySQLResult_getInt32_by res ''gender'';
          h \<leftarrow> MySQLResult_getInt32_by res ''hp'';
          mn \<leftarrow> MySQLResult_getInt32_by res ''mp'';
          go \<leftarrow> MySQLResult_getInt64_by res ''gold'';
          di \<leftarrow> MySQLResult_getInt32_by res ''diamond'';
          Some (Entity_clearDirty
            (RoleEntity_setDiamond di (RoleEntity_setGold go (RoleEntity_setMp mn (RoleEntity_setHp h
              (RoleEntity_setGender ge (RoleEntity_setProfession pr (RoleEntity_setExp ex
                (RoleEntity_setLevel lv (RoleEntity_setServerId sv
                  (RoleEntity_setRoleName (MySQLResult_getString_by res ''role_name'')
                    (RoleEntity_setAccountId acc (Entity_setId i RoleEntity_new))))))))))))) }"

definition EntityManager_getPlayerAccount ::
    "'d mysql_api \<Rightarrow> bool \<Rightarrow> int \<Rightarrow> 'd \<Rightarrow> player_account_entity option option \<times> 'd" where
  "EntityManager_getPlayerAccount api conn i d =
     (if \<not> conn then (Some None, d)
      else (let (res, d) = executeQuery api ''SELECT * FROM player_account WHERE account_id = ?'' [PInt i] d;
                (found, res) = MySQLResult_next res
            in (if found then map_option Some (account_of_row res) else Some None, d)))"

definition EntityManager_getPlayerAccountByName ::
    "'d mysql_api \<Rightarrow> bool \<Rightarrow> string \<Rightarrow> 'd \<Rightarrow> player_account_entity option option \<times> 'd" where
  "EntityManager_getPlayerAccountByName api conn name d =
     (if \<not> conn then (Some None, d)
      else (let (res, d) = executeQuery api ''SELECT * FROM player_account WHERE account_name = ?'' [PString name] d;
                (found, res) = MySQLResult_next res
            in (if found then map_option Some (account_of_row res) else Some None, d)))"

definition EntityManager_createPlayerAccount ::
    "'d mysql_api \<Rightarrow> bool \<Rightarrow> string \<Rightarrow> string \<Rightarrow> int \<Rightarrow> bool \<Rightarrow> 'd \<Rightarrow>
     player_account_entity option \<times> bool \<times> 'd" where
  "EntityManager_createPlayerAccount api conn name password now first d =
     (let e = PlayerAccountEntity_setAccountName name PlayerAccountEntity_new;
          e = PlayerAccountEntity_setPasswordHash password e;
          e = PlayerAccountEntity_setSalt ''random_salt'' e;
          e = PlayerAccountEntity_setRegisterTime now e
      in if \<not> conn then (None, first, d)
         else (let (ok, e, first, d) = Entity_save api PlayerAccountEntity_class e first d
               in (if ok then Some e else None, first, d)))"

definition EntityManager_savePlayerAccount ::
    "'d mysql_api \<Rightarrow> bool \<Rightarrow> player_account_entity \<Rightarrow> bool \<Rightarrow> 'd \<Rightarrow>
     bool \<times> player_account_entity \<times> bool \<times> 'd" where
  "EntityManager_savePlayerAccount api conn e first d =
     (if \<not> conn then (False, e, first, d) else Entity_save api PlayerAccountEntity_class e first d)"

definition EntityManager_getRole ::
    "'d mysql_api \<Rightarrow> bool \<Rightarrow> int \<Rightarrow> entity_manager \<times> 'd \<Rightarrow> (nat option \<times> entity_manager \<times> 'd) option" where
  "EntityManager_getRole api conn i st =
     (let (m, d) = st in
      case roleCache m i of
        Some a \<Rightarrow> Some (Some a, m, d)
      | None \<Rightarrow>
          if \<not> conn then Some (None, m, d)
          else (let (res, d) = executeQuery api ''SELECT * FROM player_role WHERE role_id = ?'' [PInt i] d;
                    (found, res) = MySQLResult_next res
                in if found
                   then do { e \<leftarrow> role_of_row res;
                             let (a, m) = new_role e m;
                             Some (Some a, EntityManager_cacheRole a m, d) }
                   else Some (None, m, d)))"

definition EntityManager_getRoleByName ::
    "'d mysql_api \<Rightarrow> bool \<Rightarrow> bool \<Rightarrow> string \<Rightarrow> entity_manager \<times> 'd \<Rightarrow>
     (nat option \<times> entity_manager \<times> 'd) option" where
  "EntityManager_getRoleByName api conn conn2 name st =
     (let (m, d) = st in
      if \<not> conn then Some (None, m, d)
      else (let (res, d) = executeQuery api ''SELECT role_id FROM player_role WHERE role_name = ?'' [PString name] d;
                (found, res) = MySQLResult_next res
            in if found then do { i \<leftarrow> MySQLResult_getInt64 res 0; EntityManager_getRole api conn2 i (m, d) }
               else Some (None, m, d)))"

text \<open>The loop over the rows of an account's roles; the number of rows bounds it.\<close>

fun get_roles_loop ::
    "'d mysql_api \<Rightarrow> bool \<Rightarrow> nat \<Rightarrow> mysql_result \<Rightarrow> entity_manager \<times> 'd \<Rightarrow>
     (nat list \<times> entity_manager \<times> 'd) option" where
  "get_roles_loop api conn2 0 res st = Some ([], st)"
| "get_roles_loop api conn2 (Suc n) res st =
     (let (found, res) = MySQLResult_next res in
      if \<not> found then Some ([], st)
      else do { i \<leftarrow> MySQLResult_getInt64 res 0;
                (r, m, d) \<leftarrow> EntityManager_getRole api conn2 i st;
                (rs, st) \<leftarrow> get_roles_loop api conn2 n res (m, d);
                Some ((case r of Some a \<Rightarrow> a # rs | None \<Rightarrow> rs), st) })"

definition EntityManager_getRolesByAccountId ::
    "'d mysql_api \<Rightarrow> bool \<Rightarrow> bool \<Rightarrow> int \<Rightarrow> entity_manager \<times> 'd \<Rightarrow>
     (nat list \<times> entity_manager \<times> 'd) option" where
  "EntityManager_getRolesByAccountId api conn conn2 acc st =
     (let (m, d) = st in
      if \<not> conn then Some ([], m, d)
      else (let (res, d) = executeQuery api ''SELECT role_id FROM player_role WHERE account_id = ?'' [PInt acc] d
            in get_roles_loop api conn2 (length (res_rows res)) res (m, d)))"

definition EntityManager_createRole ::
    "'d mysql_api \<Rightarrow> bool \<Rightarrow> int \<Rightarrow> string \<Rightarrow> int \<Rightarrow> int \<Rightarrow> bool \<Rightarrow> entity_manager \<times> 'd \<Rightarrow>
     nat option \<times> bool \<times> entity_manager \<times> 'd" where
  "EntityManager_createRole api conn acc name pr ge first st =
     (let (m, d) = st;
          e = RoleEntity_setGender ge (RoleEntity_setProfession pr
                (RoleEntity_setRoleName name (RoleEntity_setAccountId acc RoleEntity_new)))
      in if \<not> conn then (None, first, m, d)
         else (let (ok, e, first, d) = Entity_save api RoleEntity_class e first d
               in if ok then (let (a, m) = new_role e m in (Some a, first, EntityManager_cacheRole a m, d))
                  else (None, first, m, d)))"

definition EntityManager_saveRole ::
    "'d mysql_api \<Rightarrow> bool \<Rightarrow> nat \<Rightarrow> bool \<Rightarrow> entity_manager \<times> 'd \<Rightarrow> bool \<times> bool \<times> entity_manager \<times> 'd" where
  "EntityManager_saveRole api conn a first st =
     (let (m, d) = st in
      if \<not> conn then (False, first, m, d)
      else (let (ok, e, first, d) = Entity_save api RoleEntity_class (role_at m a) first d;
                m = m\<lparr>role_objects := (role_objects m)[a := e]\<rparr>
            in if ok then (True, first, EntityManager_cacheRole a m, d) else (False, first, m, d)))"

definition EntityManager_deleteRole ::
    "'d mysql_api \<Rightarrow> bool \<Rightarrow> int \<Rightarrow> entity_manager \<times> 'd \<Rightarrow> bool \<times> entity_manager \<times> 'd" where
  "EntityManager_deleteRole api conn i st =
     (let (m, d) = st in
      if \<not> conn then (False, m, d)
      else (let (n, d) = executeUpdate api ''DELETE FROM player_role WHERE role_id = ?'' [PInt i] d
            in if 0 < n then (True, EntityManager_uncacheRole i m, d) else (False, m, d)))"

subsection \<open>The role cache\<close>

definition em_inv :: "entity_manager \<Rightarrow> bool" where
  "em_inv m \<longleftrightarrow> (\<forall>i a. roleCache m i = Some a \<longrightarrow> a < length (role_objects m) \<and> e_id (role_at m a) = i)"

lemma em_invD: "em_inv m \<Longrightarrow> roleCache m i = Some a \<Longrightarrow> a < length (role_objects m) \<and> e_id (role_at m a) = i"
  by (simp add: em_inv_def)

lemma em_inv_new [inv_intros]: "em_inv EntityManager_new"
  by (simp add: em_inv_def EntityManager_new_def)

lemma em_inv_add [inv_intros]:
  "em_inv m \<Longrightarrow>
     em_inv (EntityManager_cacheRole (length (role_objects m)) (m\<lparr>role_objects := role_objects m @ [e]\<rparr>))"
  by (fastforce simp: em_inv_def EntityManager_cacheRole_def role_at_def nth_append split: if_splits)

lemma em_inv_cacheRole [inv_intros]:
  "em_inv m \<Longrightarrow> a < length (role_objects m) \<Longrightarrow> em_inv (EntityManager_cacheRole a m)"
  by (auto simp: em_inv_def EntityManager_cacheRole_def role_at_def)

lemma em_inv_uncacheRole [inv_intros]: "em_inv m \<Longrightarrow> em_inv (EntityManager_uncacheRole i m)"
  by (auto simp: em_inv_def EntityManager_uncacheRole_def role_at_def split: option.splits if_splits)

lemma em_inv_write [inv_intros]:
  "em_inv m \<Longrightarrow> e_id e = e_id (role_at m a) \<Longrightarrow> em_inv (m\<lparr>role_objects := (role_objects m)[a := e]\<rparr>)"
  by (cases "a < length (role_objects m)") (auto simp: em_inv_def role_at_def nth_list_update list_update_beyond)

lemma em_inv_getRole:
  "em_inv m \<Longrightarrow> EntityManager_getRole api conn i (m, d) = Some (r, m', d') \<Longrightarrow> em_inv m'"
  by (auto simp: EntityManager_getRole_def new_role_def Let_def bind_eq_Some_conv
      split: option.splits if_splits prod.splits intro: em_inv_add)

lemma em_inv_createRole:
  "em_inv m \<Longrightarrow> EntityManager_createRole api conn acc name pr ge first (m, d) = (r, first', m', d') \<Longrightarrow> em_inv m'"
  by (auto simp: EntityManager_createRole_def new_role_def Let_def split: if_splits prod.splits intro: em_inv_add)

lemma Entity_save_id: "e_id e \<noteq> 0 \<Longrightarrow> Entity_save api cls e first d = (ok, e', first', d') \<Longrightarrow> e_id e' = e_id e"
  by (auto simp: Entity_save_def Entity_isNew_def Entity_clearDirty_def Let_def split: if_splits prod.splits)

lemma em_inv_saveRole:
  assumes "em_inv m" "a < length (role_objects m)" "e_id (role_at m a) \<noteq> 0"
    and "EntityManager_saveRole api conn a first (m, d) = (ok, first', m', d')"
  shows "em_inv m'"
proof (cases conn)
  case True
  obtain ok1 e f1 d1 where s: "Entity_save api RoleEntity_class (role_at m a) first d = (ok1, e, f1, d1)"
    by (metis prod_cases4)
  let ?m = "m\<lparr>role_objects := (role_objects m)[a := e]\<rparr>"
  have i: "em_inv ?m" using em_inv_write assms(1) Entity_save_id[OF assms(3) s] by blast
  then have "em_inv (EntityManager_cacheRole a ?m)" using assms(2) by (intro em_inv_cacheRole) simp_all
  then show ?thesis
    using assms(4) i True by (auto simp: EntityManager_saveRole_def s Let_def split: if_splits)
qed (use assms in \<open>simp add: EntityManager_saveRole_def\<close>)

text \<open>
  The states an entity manager reaches: its own operations, a role being saved only after it
  has an id, and the callers' changes to the roles they hold, which the setters make.
\<close>

inductive em_reach :: "'d mysql_api \<Rightarrow> entity_manager \<Rightarrow> bool" for api where
  em_start: "em_reach api EntityManager_new"
| em_get: "em_reach api m \<Longrightarrow> EntityManager_getRole api conn i (m, d) = Some (r, m', d') \<Longrightarrow> em_reach api m'"
| em_create: "em_reach api m \<Longrightarrow>
    EntityManager_createRole api conn acc name pr ge first (m, d) = (r, first', m', d') \<Longrightarrow> em_reach api m'"
| em_save: "em_reach api m \<Longrightarrow> a < length (role_objects m) \<Longrightarrow> e_id (role_at m a) \<noteq> 0 \<Longrightarrow>
    EntityManager_saveRole api conn a first (m, d) = (ok, first', m', d') \<Longrightarrow> em_reach api m'"
| em_delete: "em_reach api m \<Longrightarrow> EntityManager_deleteRole api conn i (m, d) = (ok, m', d') \<Longrightarrow> em_reach api m'"
| em_write: "em_reach api m \<Longrightarrow> e_id e = e_id (role_at m a) \<Longrightarrow>
    em_reach api (m\<lparr>role_objects := (role_objects m)[a := e]\<rparr>)"

lemma em_reach_inv: "em_reach api m \<Longrightarrow> em_inv m"
proof (induction rule: em_reach.induct)
  case (em_delete m conn i d ok m' d')
  then show ?case
    by (auto simp: EntityManager_deleteRole_def Let_def split: if_splits prod.splits intro: em_inv_uncacheRole)
qed (blast intro: em_inv_new em_inv_getRole em_inv_createRole em_inv_saveRole em_inv_write)+

text \<open>
  C22: The role cache is coherent in every reachable state: what is cached under an id is the
  object of that role, one object per role; looking the role up returns this very object and
  asks the database nothing, and after the role has been deleted the cache has none.
\<close>

theorem EntityManager_cache_coherent:
  assumes "em_reach api m" "roleCache m i = Some a"
  shows "e_id (role_at m a) = i \<and> (\<forall>j. roleCache m j = Some a \<longrightarrow> j = i) \<and>
    EntityManager_getRole api2 conn i (m, d) = Some (Some a, m, d) \<and>
    (EntityManager_deleteRole api True i (m, d) = (True, m', d') \<longrightarrow> roleCache m' i = None)"
  using em_invD[OF em_reach_inv[OF assms(1)]] assms(2)
  by (auto simp: EntityManager_getRole_def EntityManager_deleteRole_def EntityManager_uncacheRole_def Let_def
      split: if_splits prod.splits)

theorem EntityManager_cache_coherent_witness:
  "\<exists>m. EntityManager_createRole strict_api True 9 ''Ann'' 0 1 True (EntityManager_new, ()) = (Some 0, True, m, ()) \<and>
     e_id (role_at m 0) = 1"
proof -
  obtain m where c: "EntityManager_createRole strict_api True 9 ''Ann'' 0 1 True (EntityManager_new, ()) = (Some 0, True, m, ())"
    and r: "roleCache m 1 = Some 0"
    by (simp add: EntityManager_createRole_def Entity_save_def Entity_isNew_def RoleEntity_new_def Entity_new_def
        entity.defs RoleEntity_setGender_def RoleEntity_setProfession_def RoleEntity_setRoleName_def
        RoleEntity_setAccountId_def Entity_markDirty_def strict_api_def new_role_def EntityManager_new_def
        EntityManager_cacheRole_def role_at_def Entity_clearDirty_def)
  have "em_reach strict_api m" using em_create[OF em_start c] .
  then have "e_id (role_at m 0) = 1" by (rule EntityManager_cache_coherent[OF _ r, THEN conjunct1])
  then show ?thesis using c by blast
qed

text \<open>
  Creating an account keeps the password as it was given and a salt that is the same for
  every account.
\<close>

lemma EntityManager_createPlayerAccount_plain:
  "EntityManager_createPlayerAccount api conn name password now first d = (Some e, first', d') \<Longrightarrow>
     passwordHash e = password \<and> salt e = ''random_salt''"
  by (auto simp: EntityManager_createPlayerAccount_def Entity_save_def PlayerAccountEntity_setAccountName_def
      PlayerAccountEntity_setPasswordHash_def PlayerAccountEntity_setSalt_def PlayerAccountEntity_setRegisterTime_def
      Entity_markDirty_def Entity_clearDirty_def Let_def split: if_splits prod.splits)

end
