(* ===== verification/Redis.thy ===== *)
theory Redis
  imports Database ConnPools "HOL-Library.Monad_Syntax"
begin

text \<open>
  \<^verbatim>\<open>RedisReply\<close> and \<^verbatim>\<open>RedisClient\<close>
  (\<^verbatim>\<open>src/database/redis/redis_client.cpp\<close>). The Redis server behind hiredis is not
  part of the repository: \<open>'r redis_server\<close> answers a command (the list of its words)
  with a reply, or with none when the connection is broken, and changes its state.

  A \<open>RedisReply\<close> owns its \<^verbatim>\<open>redisReply\<close> object and frees it when it is
  destroyed, and hiredis documents that freeing a reply frees its elements and that freeing
  an element of an array as well corrupts memory. An object is named by its path in the reply:
  \<open>[]\<close> is the reply, \<open>[i]\<close> its element \<open>i\<close>. An operation lists the objects it
  frees; when one of them is freed again with an object it belongs to, the operation is
  \<open>None\<close>.
\<close>

subsection \<open>Replies\<close>

datatype reply =
  RString string | RArray "reply list" | RInteger int | RNil | RStatus string | RError string

datatype reply_type = STRING | ARRAY | INTEGER | NIL | STATUS | ERROR

type_synonym 'r redis_server = "string list \<Rightarrow> 'r \<Rightarrow> reply option \<times> 'r"

definition RedisReply_valid :: "reply option \<Rightarrow> bool" where
  "RedisReply_valid r \<longleftrightarrow> r \<noteq> None"

definition RedisReply_type :: "reply option \<Rightarrow> reply_type" where
  "RedisReply_type r =
     (case r of
        None \<Rightarrow> NIL
      | Some (RString _) \<Rightarrow> STRING
      | Some (RArray _) \<Rightarrow> ARRAY
      | Some (RInteger _) \<Rightarrow> INTEGER
      | Some RNil \<Rightarrow> NIL
      | Some (RStatus _) \<Rightarrow> STATUS
      | Some (RError _) \<Rightarrow> ERROR)"

definition RedisReply_isNil :: "reply option \<Rightarrow> bool" where
  "RedisReply_isNil r \<longleftrightarrow> r = None \<or> r = Some RNil"

definition RedisReply_asString :: "reply option \<Rightarrow> string" where
  "RedisReply_asString r = (case r of Some (RString s) \<Rightarrow> s | _ \<Rightarrow> [])"

definition RedisReply_asInteger :: "reply option \<Rightarrow> int" where
  "RedisReply_asInteger r = (case r of Some (RInteger n) \<Rightarrow> n | _ \<Rightarrow> 0)"

definition RedisReply_arraySize :: "reply option \<Rightarrow> nat" where
  "RedisReply_arraySize r = (case r of Some (RArray xs) \<Rightarrow> length xs | _ \<Rightarrow> 0)"

definition RedisReply_errorMessage :: "reply option \<Rightarrow> string" where
  "RedisReply_errorMessage r = (case r of Some (RError s) \<Rightarrow> s | _ \<Rightarrow> [])"

text \<open>
  \<open>operator[]\<close> gives a new owner of element \<open>i\<close>; the owner is a temporary, so the
  expression also frees the element at the end of the statement.
\<close>

definition RedisReply_index :: "reply option \<Rightarrow> nat \<Rightarrow> reply option \<times> nat list list" where
  "RedisReply_index r i =
     (case r of
        Some (RArray xs) \<Rightarrow> if i < length xs then (Some (xs ! i), [[i]]) else (None, [])
      | _ \<Rightarrow> (None, []))"

definition belongs_to :: "nat list \<Rightarrow> nat list \<Rightarrow> bool" where
  "belongs_to p q \<longleftrightarrow> take (length q) p = q"

text \<open>The frees of an operation in order; no object may be freed twice, alone or with its parent.\<close>

fun frees_ok :: "nat list list \<Rightarrow> bool" where
  "frees_ok [] = True"
| "frees_ok (p # ps) \<longleftrightarrow> (\<forall>q \<in> set ps. \<not> belongs_to p q \<and> \<not> belongs_to q p) \<and> frees_ok ps"

subsection \<open>The client\<close>

record redis_client =
  ctx :: bool
  lastError :: string

definition RedisClient_new :: redis_client where
  "RedisClient_new = \<lparr>ctx = False, lastError = []\<rparr>"

definition RedisClient_disconnect :: "redis_client \<Rightarrow> redis_client" where
  "RedisClient_disconnect c = (if ctx c then c\<lparr>ctx := False\<rparr> else c)"

text \<open>
  What \<open>redisConnectWithTimeout\<close> gave: no context, a context with an error, a good one.
\<close>

datatype connect_result = NoContext | BadContext string | GoodContext

definition RedisClient_connect :: "connect_result \<Rightarrow> redis_client \<Rightarrow> bool \<times> redis_client" where
  "RedisClient_connect res c =
     (case res of
        NoContext \<Rightarrow> (False, RedisClient_disconnect (c\<lparr>ctx := False, lastError := ''Failed to connect''\<rparr>))
      | BadContext e \<Rightarrow> (False, RedisClient_disconnect (c\<lparr>ctx := True, lastError := e\<rparr>))
      | GoodContext \<Rightarrow> (True, c\<lparr>ctx := True\<rparr>))"

definition RedisClient_connectUnix :: "connect_result \<Rightarrow> redis_client \<Rightarrow> bool \<times> redis_client" where
  "RedisClient_connectUnix res c =
     (case res of
        NoContext \<Rightarrow> (False, RedisClient_disconnect (c\<lparr>ctx := False, lastError := ''Failed to connect''\<rparr>))
      | BadContext e \<Rightarrow> (False, RedisClient_disconnect (c\<lparr>ctx := True, lastError := e\<rparr>))
      | GoodContext \<Rightarrow> (True, c\<lparr>ctx := True\<rparr>))"

definition RedisClient_execute ::
    "'r redis_server \<Rightarrow> redis_client \<Rightarrow> string list \<Rightarrow> 'r \<Rightarrow> reply option \<times> 'r" where
  "RedisClient_execute srv c cmd r = (if \<not> ctx c then (None, r) else srv cmd r)"

definition reply_ok :: "reply option \<Rightarrow> bool" where
  "reply_ok r \<longleftrightarrow> RedisReply_valid r \<and> RedisReply_type r = STATUS"

definition reply_positive :: "reply option \<Rightarrow> bool" where
  "reply_positive r \<longleftrightarrow> RedisReply_valid r \<and> 0 < RedisReply_asInteger r"

definition reply_integer :: "int \<Rightarrow> reply option \<Rightarrow> int" where
  "reply_integer dflt r = (if RedisReply_valid r then RedisReply_asInteger r else dflt)"

definition reply_value :: "reply option \<Rightarrow> string option" where
  "reply_value r = (if RedisReply_valid r \<and> \<not> RedisReply_isNil r then Some (RedisReply_asString r) else None)"

text \<open>The operations that return a value through a reference return \<open>None\<close> for \<open>false\<close>.\<close>

definition RedisClient_set ::
    "'r redis_server \<Rightarrow> redis_client \<Rightarrow> string \<Rightarrow> string \<Rightarrow> nat \<Rightarrow> 'r \<Rightarrow> bool \<times> 'r" where
  "RedisClient_set srv c key v expire r =
     (if 0 < expire
      then map_prod reply_ok id (RedisClient_execute srv c [''SET'', key, v, ''EX'', int_to_string (int expire)] r)
      else map_prod reply_ok id (RedisClient_execute srv c [''SET'', key, v] r))"

definition RedisClient_get :: "'r redis_server \<Rightarrow> redis_client \<Rightarrow> string \<Rightarrow> 'r \<Rightarrow> string option \<times> 'r" where
  "RedisClient_get srv c key r = map_prod reply_value id (RedisClient_execute srv c [''GET'', key] r)"

definition RedisClient_del :: "'r redis_server \<Rightarrow> redis_client \<Rightarrow> string \<Rightarrow> 'r \<Rightarrow> bool \<times> 'r" where
  "RedisClient_del srv c key r = map_prod reply_positive id (RedisClient_execute srv c [''DEL'', key] r)"

definition RedisClient_exists :: "'r redis_server \<Rightarrow> redis_client \<Rightarrow> string \<Rightarrow> 'r \<Rightarrow> bool \<times> 'r" where
  "RedisClient_exists srv c key r = map_prod reply_positive id (RedisClient_execute srv c [''EXISTS'', key] r)"

definition RedisClient_expire :: "'r redis_server \<Rightarrow> redis_client \<Rightarrow> string \<Rightarrow> nat \<Rightarrow> 'r \<Rightarrow> bool \<times> 'r" where
  "RedisClient_expire srv c key seconds r = map_prod reply_positive id (RedisClient_execute srv c [''EXPIRE'', key, int_to_string (int seconds)] r)"

definition RedisClient_ttl :: "'r redis_server \<Rightarrow> redis_client \<Rightarrow> string \<Rightarrow> 'r \<Rightarrow> int \<times> 'r" where
  "RedisClient_ttl srv c key r = map_prod (reply_integer (- 1)) id (RedisClient_execute srv c [''TTL'', key] r)"

definition RedisClient_hset :: "'r redis_server \<Rightarrow> redis_client \<Rightarrow> string \<Rightarrow> string \<Rightarrow> string \<Rightarrow> 'r \<Rightarrow> bool \<times> 'r" where
  "RedisClient_hset srv c key fld v r = map_prod RedisReply_valid id (RedisClient_execute srv c [''HSET'', key, fld, v] r)"

definition RedisClient_hget :: "'r redis_server \<Rightarrow> redis_client \<Rightarrow> string \<Rightarrow> string \<Rightarrow> 'r \<Rightarrow> string option \<times> 'r" where
  "RedisClient_hget srv c key fld r = map_prod reply_value id (RedisClient_execute srv c [''HGET'', key, fld] r)"

definition RedisClient_hdel :: "'r redis_server \<Rightarrow> redis_client \<Rightarrow> string \<Rightarrow> string \<Rightarrow> 'r \<Rightarrow> bool \<times> 'r" where
  "RedisClient_hdel srv c key fld r = map_prod reply_positive id (RedisClient_execute srv c [''HDEL'', key, fld] r)"

definition RedisClient_hexists :: "'r redis_server \<Rightarrow> redis_client \<Rightarrow> string \<Rightarrow> string \<Rightarrow> 'r \<Rightarrow> bool \<times> 'r" where
  "RedisClient_hexists srv c key fld r = map_prod reply_positive id (RedisClient_execute srv c [''HEXISTS'', key, fld] r)"

definition RedisClient_hlen :: "'r redis_server \<Rightarrow> redis_client \<Rightarrow> string \<Rightarrow> 'r \<Rightarrow> int \<times> 'r" where
  "RedisClient_hlen srv c key r = map_prod (reply_integer 0) id (RedisClient_execute srv c [''HLEN'', key] r)"

definition RedisClient_lpush :: "'r redis_server \<Rightarrow> redis_client \<Rightarrow> string \<Rightarrow> string \<Rightarrow> 'r \<Rightarrow> int \<times> 'r" where
  "RedisClient_lpush srv c key v r = map_prod (reply_integer 0) id (RedisClient_execute srv c [''LPUSH'', key, v] r)"

definition RedisClient_rpush :: "'r redis_server \<Rightarrow> redis_client \<Rightarrow> string \<Rightarrow> string \<Rightarrow> 'r \<Rightarrow> int \<times> 'r" where
  "RedisClient_rpush srv c key v r = map_prod (reply_integer 0) id (RedisClient_execute srv c [''RPUSH'', key, v] r)"

definition RedisClient_lpop :: "'r redis_server \<Rightarrow> redis_client \<Rightarrow> string \<Rightarrow> 'r \<Rightarrow> string option \<times> 'r" where
  "RedisClient_lpop srv c key r = map_prod reply_value id (RedisClient_execute srv c [''LPOP'', key] r)"

definition RedisClient_rpop :: "'r redis_server \<Rightarrow> redis_client \<Rightarrow> string \<Rightarrow> 'r \<Rightarrow> string option \<times> 'r" where
  "RedisClient_rpop srv c key r = map_prod reply_value id (RedisClient_execute srv c [''RPOP'', key] r)"

definition RedisClient_llen :: "'r redis_server \<Rightarrow> redis_client \<Rightarrow> string \<Rightarrow> 'r \<Rightarrow> int \<times> 'r" where
  "RedisClient_llen srv c key r = map_prod (reply_integer 0) id (RedisClient_execute srv c [''LLEN'', key] r)"

definition RedisClient_sadd :: "'r redis_server \<Rightarrow> redis_client \<Rightarrow> string \<Rightarrow> string \<Rightarrow> 'r \<Rightarrow> int \<times> 'r" where
  "RedisClient_sadd srv c key v r = map_prod (reply_integer 0) id (RedisClient_execute srv c [''SADD'', key, v] r)"

definition RedisClient_srem :: "'r redis_server \<Rightarrow> redis_client \<Rightarrow> string \<Rightarrow> string \<Rightarrow> 'r \<Rightarrow> int \<times> 'r" where
  "RedisClient_srem srv c key v r = map_prod (reply_integer 0) id (RedisClient_execute srv c [''SREM'', key, v] r)"

definition RedisClient_sismember :: "'r redis_server \<Rightarrow> redis_client \<Rightarrow> string \<Rightarrow> string \<Rightarrow> 'r \<Rightarrow> bool \<times> 'r" where
  "RedisClient_sismember srv c key v r = map_prod reply_positive id (RedisClient_execute srv c [''SISMEMBER'', key, v] r)"

definition RedisClient_scard :: "'r redis_server \<Rightarrow> redis_client \<Rightarrow> string \<Rightarrow> 'r \<Rightarrow> int \<times> 'r" where
  "RedisClient_scard srv c key r = map_prod (reply_integer 0) id (RedisClient_execute srv c [''SCARD'', key] r)"

definition RedisClient_zrem :: "'r redis_server \<Rightarrow> redis_client \<Rightarrow> string \<Rightarrow> string \<Rightarrow> 'r \<Rightarrow> int \<times> 'r" where
  "RedisClient_zrem srv c key v r = map_prod (reply_integer 0) id (RedisClient_execute srv c [''ZREM'', key, v] r)"

definition RedisClient_zrank :: "'r redis_server \<Rightarrow> redis_client \<Rightarrow> string \<Rightarrow> string \<Rightarrow> 'r \<Rightarrow> int \<times> 'r" where
  "RedisClient_zrank srv c key v r = map_prod (\<lambda>x. if RedisReply_valid x \<and> \<not> RedisReply_isNil x then RedisReply_asInteger x else - 1) id (RedisClient_execute srv c [''ZRANK'', key, v] r)"

definition RedisClient_zcard :: "'r redis_server \<Rightarrow> redis_client \<Rightarrow> string \<Rightarrow> 'r \<Rightarrow> int \<times> 'r" where
  "RedisClient_zcard srv c key r = map_prod (reply_integer 0) id (RedisClient_execute srv c [''ZCARD'', key] r)"

definition RedisClient_publish :: "'r redis_server \<Rightarrow> redis_client \<Rightarrow> string \<Rightarrow> string \<Rightarrow> 'r \<Rightarrow> bool \<times> 'r" where
  "RedisClient_publish srv c channel msg r = map_prod RedisReply_valid id (RedisClient_execute srv c [''PUBLISH'', channel, msg] r)"

definition RedisClient_subscribe :: "'r redis_server \<Rightarrow> redis_client \<Rightarrow> string \<Rightarrow> 'r \<Rightarrow> bool \<times> 'r" where
  "RedisClient_subscribe srv c channel r = map_prod RedisReply_valid id (RedisClient_execute srv c [''SUBSCRIBE'', channel] r)"

definition RedisClient_unsubscribe :: "'r redis_server \<Rightarrow> redis_client \<Rightarrow> string \<Rightarrow> 'r \<Rightarrow> bool \<times> 'r" where
  "RedisClient_unsubscribe srv c channel r = map_prod RedisReply_valid id (RedisClient_execute srv c [''UNSUBSCRIBE'', channel] r)"

definition RedisClient_multi :: "'r redis_server \<Rightarrow> redis_client \<Rightarrow> 'r \<Rightarrow> bool \<times> 'r" where
  "RedisClient_multi srv c r = map_prod reply_ok id (RedisClient_execute srv c [''MULTI''] r)"

definition RedisClient_exec :: "'r redis_server \<Rightarrow> redis_client \<Rightarrow> 'r \<Rightarrow> bool \<times> 'r" where
  "RedisClient_exec srv c r = map_prod (\<lambda>x. RedisReply_valid x \<and> RedisReply_type x = ARRAY) id (RedisClient_execute srv c [''EXEC''] r)"

definition RedisClient_discard :: "'r redis_server \<Rightarrow> redis_client \<Rightarrow> 'r \<Rightarrow> bool \<times> 'r" where
  "RedisClient_discard srv c r = map_prod reply_ok id (RedisClient_execute srv c [''DISCARD''] r)"

definition RedisClient_auth :: "'r redis_server \<Rightarrow> redis_client \<Rightarrow> string \<Rightarrow> 'r \<Rightarrow> bool \<times> 'r" where
  "RedisClient_auth srv c password r = map_prod reply_ok id (RedisClient_execute srv c [''AUTH'', password] r)"

definition RedisClient_select :: "'r redis_server \<Rightarrow> redis_client \<Rightarrow> int \<Rightarrow> 'r \<Rightarrow> bool \<times> 'r" where
  "RedisClient_select srv c db r = map_prod reply_ok id (RedisClient_execute srv c [''SELECT'', int_to_string db] r)"

definition RedisClient_ping :: "'r redis_server \<Rightarrow> redis_client \<Rightarrow> 'r \<Rightarrow> bool \<times> 'r" where
  "RedisClient_ping srv c r = map_prod (\<lambda>x. RedisReply_valid x \<and> RedisReply_asString x = ''PONG'') id (RedisClient_execute srv c [''PING''] r)"

text \<open>
  The operations that read an array element by element: the elements' temporaries are freed
  in the loop, the array when the operation returns.
\<close>

fun read_elements :: "reply option \<Rightarrow> nat list \<Rightarrow> string list \<times> nat list list" where
  "read_elements r [] = ([], [])"
| "read_elements r (i # js) =
     (let (x, fr) = RedisReply_index r i; (ss, frs) = read_elements r js
      in (RedisReply_asString x # ss, fr @ frs))"

definition read_array :: "reply option \<Rightarrow> string list option option" where
  "read_array r =
     (if \<not> RedisReply_valid r \<or> RedisReply_type r \<noteq> ARRAY then Some None
      else (let (ss, frees) = read_elements r [0..<RedisReply_arraySize r]
            in if frees_ok (frees @ [[]]) then Some (Some ss) else None))"

fun pairs :: "'a list \<Rightarrow> ('a \<times> 'a) list" where
  "pairs (x # y # xs) = (x, y) # pairs xs"
| "pairs _ = []"

definition RedisClient_hgetall ::
    "'r redis_server \<Rightarrow> redis_client \<Rightarrow> string \<Rightarrow> 'r \<Rightarrow> ((string \<times> string) list option \<times> 'r) option" where
  "RedisClient_hgetall srv c key r =
     (let (x, r) = RedisClient_execute srv c [''HGETALL'', key] r in
      if \<not> RedisReply_valid x \<or> RedisReply_type x \<noteq> ARRAY then Some (None, r)
      else (let n = RedisReply_arraySize x; (ss, frees) = read_elements x [0..<n - n mod 2]
            in if frees_ok (frees @ [[]]) then Some (Some (pairs ss), r) else None))"

definition RedisClient_lrange :: "'r redis_server \<Rightarrow> redis_client \<Rightarrow> string \<Rightarrow> int \<Rightarrow> int \<Rightarrow> 'r \<Rightarrow> (string list option \<times> 'r) option" where
  "RedisClient_lrange srv c key start stop r =
     (let (x, r) = RedisClient_execute srv c [''LRANGE'', key, int_to_string start, int_to_string stop] r
      in map_option (\<lambda>ss. (ss, r)) (read_array x))"

definition RedisClient_smembers :: "'r redis_server \<Rightarrow> redis_client \<Rightarrow> string \<Rightarrow> 'r \<Rightarrow> (string list option \<times> 'r) option" where
  "RedisClient_smembers srv c key r =
     (let (x, r) = RedisClient_execute srv c [''SMEMBERS'', key] r
      in map_option (\<lambda>ss. (ss, r)) (read_array x))"

definition RedisClient_zrange :: "'r redis_server \<Rightarrow> redis_client \<Rightarrow> string \<Rightarrow> int \<Rightarrow> int \<Rightarrow> 'r \<Rightarrow> (string list option \<times> 'r) option" where
  "RedisClient_zrange srv c key start stop r =
     (let (x, r) = RedisClient_execute srv c [''ZRANGE'', key, int_to_string start, int_to_string stop] r
      in map_option (\<lambda>ss. (ss, r)) (read_array x))"

lemmas redis_defs = RedisClient_execute_def reply_ok_def reply_positive_def reply_integer_def reply_value_def
  RedisReply_valid_def RedisReply_type_def RedisReply_isNil_def RedisReply_asString_def RedisReply_asInteger_def

subsection \<open>Properties\<close>

lemma read_elements_frees:
  "set js \<subseteq> {..<length xs} \<Longrightarrow> snd (read_elements (Some (RArray xs)) js) = map (\<lambda>i. [i]) js"
  by (induction js) (auto simp: RedisReply_index_def Let_def case_prod_unfold)

lemma frees_with_parent: "frees \<noteq> [] \<Longrightarrow> \<not> frees_ok (frees @ [[]])"
  by (induction frees) (auto simp: belongs_to_def)

lemma read_array_nonempty: "xs \<noteq> [] \<Longrightarrow> read_array (Some (RArray xs)) = None"
proof -
  assume "xs \<noteq> []"
  let ?e = "read_elements (Some (RArray xs)) [0..<length xs]"
  have "snd ?e = map (\<lambda>i. [i]) [0..<length xs]" by (rule read_elements_frees) auto
  then have "\<not> frees_ok (snd ?e @ [[]])" using \<open>xs \<noteq> []\<close> by (intro frees_with_parent) simp
  then show ?thesis
    by (simp add: read_array_def RedisReply_valid_def RedisReply_type_def RedisReply_arraySize_def case_prod_unfold)
qed

lemma read_array_empty: "read_array (Some (RArray [])) = Some (Some [])"
  by (simp add: read_array_def RedisReply_valid_def RedisReply_type_def RedisReply_arraySize_def)

text \<open>
  Reading an array corrupts the heap. Whatever the server sends, an operation that lists
  elements returns only when the array is empty (or the reply is no array); with one element
  or more the element's temporary owner has freed it before the array's owner frees it again.
\<close>

theorem RedisClient_lists_double_free:
  assumes "ctx c"
  shows "(fst (srv [''SMEMBERS'', key] r) = Some (RArray (x # xs)) \<longrightarrow> RedisClient_smembers srv c key r = None) \<and>
    (fst (srv [''LRANGE'', key, int_to_string i, int_to_string j] r) = Some (RArray (x # xs)) \<longrightarrow>
       RedisClient_lrange srv c key i j r = None) \<and>
    (fst (srv [''HGETALL'', key] r) = Some (RArray (x # y # xs)) \<longrightarrow> RedisClient_hgetall srv c key r = None) \<and>
    (fst (srv [''SMEMBERS'', key] r) = Some (RArray []) \<longrightarrow>
       RedisClient_smembers srv c key r = Some (Some [], snd (srv [''SMEMBERS'', key] r)))"
proof -
  let ?a = "Some (RArray (x # y # xs))"
  let ?n = "Suc (Suc (length xs)) - length xs mod 2"
  have "snd (read_elements ?a [0..<?n]) = map (\<lambda>i. [i]) [0..<?n]" by (rule read_elements_frees) auto
  moreover have "0 < ?n" by (simp add: less_Suc_eq_le le_SucI)
  ultimately have "\<not> frees_ok (snd (read_elements ?a [0..<?n]) @ [[]])" by (intro frees_with_parent) simp
  then show ?thesis
    using assms
    by (auto simp: RedisClient_smembers_def RedisClient_lrange_def RedisClient_hgetall_def RedisClient_execute_def
        read_array_nonempty read_array_empty RedisReply_valid_def RedisReply_type_def RedisReply_arraySize_def
        Let_def case_prod_unfold)
qed

definition redis_answers :: "reply \<Rightarrow> unit redis_server" where
  "redis_answers x = (\<lambda>_ r. (Some x, r))"

definition redis_connected :: redis_client where
  "redis_connected = \<lparr>ctx = True, lastError = []\<rparr>"

theorem RedisClient_lists_double_free_witness:
  "RedisClient_smembers (redis_answers (RArray [RString ''a''])) redis_connected ''online'' () = None"
  using RedisClient_lists_double_free[of redis_connected "redis_answers (RArray [RString ''a''])" "''online''" "()" "RString ''a''" "[]"]
  by (simp add: redis_answers_def redis_connected_def)

text \<open>
  A pooled Redis connection is never used as it is. A server answers \<open>PING\<close> with a
  status reply, \<open>asString\<close> reads only string replies, so \<open>ping\<close> fails on a healthy
  connection: the pool closes and reopens every connection it takes from its queue, and loses
  it when that fails.
\<close>

theorem RedisPool_reconnects_healthy_connections:
  assumes "ctx c" "fst (srv [''PING''] r) = Some (RStatus ''PONG'')" "pool_queue p = k # ks"
  shows "RedisPool_round made (fst (RedisClient_ping srv c r)) reconnect p =
    (if reconnect then Got k else GotNull, p\<lparr>pool_queue := ks\<rparr>)"
  using assms
  by (simp add: RedisClient_ping_def RedisPool_round_def redis_defs Let_def)

theorem RedisPool_reconnects_healthy_connections_witness:
  "fst (RedisPool_round None (fst (RedisClient_ping (redis_answers (RStatus ''PONG'')) redis_connected ())) False
     \<lparr>pool_running = True, pool_queue = [5], allConnections = [5], minConnections = 1, maxConnections = 4,
      pool_notEmpty = Condition_new\<rparr>) = GotNull"
  using RedisPool_reconnects_healthy_connections[of redis_connected "redis_answers (RStatus ''PONG'')" "()"
      "\<lparr>pool_running = True, pool_queue = [5], allConnections = [5], minConnections = 1, maxConnections = 4,
      pool_notEmpty = Condition_new\<rparr>"]
  by (simp add: redis_answers_def redis_connected_def)

text \<open>An error reply counts as a value: \<open>get\<close> succeeds with the empty string.\<close>

lemma RedisClient_get_error:
  "ctx c \<Longrightarrow> srv [''GET'', key] r = (Some (RError e), r') \<Longrightarrow> RedisClient_get srv c key r = (Some [], r')"
  by (simp add: RedisClient_get_def redis_defs)

lemma RedisClient_get_string:
  "ctx c \<Longrightarrow> srv [''GET'', key] r = (Some (RString v), r') \<Longrightarrow> RedisClient_get srv c key r = (Some v, r')"
  by (simp add: RedisClient_get_def redis_defs)

lemma RedisClient_get_nil:
  "ctx c \<Longrightarrow> srv [''GET'', key] r = (Some RNil, r') \<Longrightarrow> RedisClient_get srv c key r = (None, r')"
  by (simp add: RedisClient_get_def redis_defs)

end
