(* ===== verification/Crypto.thy ===== *)
theory Crypto
  imports Prelude
begin

text \<open>
  \<^verbatim>\<open>src/common/crypto\<close>: MD5 (\<^verbatim>\<open>md5.cpp\<close>), the block cipher
  (\<^verbatim>\<open>aes.cpp\<close>) and the generator's \<^verbatim>\<open>uuid\<close>
  (\<^verbatim>\<open>random.cpp\<close>), at the width of their machine words. A block is a list of
  16 bytes, a string of the code a list of bytes.
\<close>

subsection \<open>MD5\<close>

definition MD5_F :: "uint32 \<Rightarrow> uint32 \<Rightarrow> uint32 \<Rightarrow> uint32" where
  "MD5_F x y z = (x AND y) OR (NOT x AND z)"

definition MD5_G :: "uint32 \<Rightarrow> uint32 \<Rightarrow> uint32 \<Rightarrow> uint32" where
  "MD5_G x y z = (x AND z) OR (y AND NOT z)"

definition MD5_H :: "uint32 \<Rightarrow> uint32 \<Rightarrow> uint32 \<Rightarrow> uint32" where
  "MD5_H x y z = x XOR y XOR z"

definition MD5_I :: "uint32 \<Rightarrow> uint32 \<Rightarrow> uint32 \<Rightarrow> uint32" where
  "MD5_I x y z = y XOR (x OR NOT z)"

definition rotateLeft :: "uint32 \<Rightarrow> nat \<Rightarrow> uint32" where
  "rotateLeft x n = (push_bit n x) OR (drop_bit (32 - n) x)"

text \<open>
  One call of FF, GG, HH or II. The state is in the order of the call's arguments; the next
  call of the code has the arguments rotated, \<open>(d, a, b, c)\<close>.
\<close>

type_synonym md5_words = "uint32 \<times> uint32 \<times> uint32 \<times> uint32"

definition MD5_step ::
    "(uint32 \<Rightarrow> uint32 \<Rightarrow> uint32 \<Rightarrow> uint32) \<Rightarrow> uint32 list \<Rightarrow> nat \<times> nat \<times> uint32 \<Rightarrow> md5_words \<Rightarrow> md5_words" where
  "MD5_step f x op abcd =
     (let (k, s, ac) = op; (a, b, c, d) = abcd
      in (d, rotateLeft (a + f b c d + x ! k + ac) s + b, b, c))"

definition MD5_round1 :: "(nat \<times> nat \<times> uint32) list" where
  "MD5_round1 =
     [(0, 7, 0xd76aa478), (1, 12, 0xe8c7b756), (2, 17, 0x242070db), (3, 22, 0xc1bdceee),
      (4, 7, 0xf57c0faf), (5, 12, 0x4787c62a), (6, 17, 0xa8304613), (7, 22, 0xfd469501),
      (8, 7, 0x698098d8), (9, 12, 0x8b44f7af), (10, 17, 0xffff5bb1), (11, 22, 0x895cd7be),
      (12, 7, 0x6b901122), (13, 12, 0xfd987193), (14, 17, 0xa679438e), (15, 22, 0x49b40821)]"

definition MD5_round2 :: "(nat \<times> nat \<times> uint32) list" where
  "MD5_round2 =
     [(1, 5, 0xf61e2562), (6, 9, 0xc040b340), (11, 14, 0x265e5a51), (0, 20, 0xe9b6c7aa),
      (5, 5, 0xd62f105d), (10, 9, 0x02441453), (15, 14, 0xd8a1e681), (4, 20, 0xe7d3fbc8),
      (9, 5, 0x21e1cde6), (14, 9, 0xc33707d6), (3, 14, 0xf4d50d87), (8, 20, 0x455a14ed),
      (13, 5, 0xa9e3e905), (2, 9, 0xfcefa3f8), (7, 14, 0x676f02d9), (12, 20, 0x8d2a4c8a)]"

definition MD5_round3 :: "(nat \<times> nat \<times> uint32) list" where
  "MD5_round3 =
     [(5, 4, 0xfffa3942), (8, 11, 0x8771f681), (11, 16, 0x6d9d6122), (14, 23, 0xfde5380c),
      (1, 4, 0xa4beea44), (4, 11, 0x4bdecfa9), (7, 16, 0xf6bb4b60), (10, 23, 0xbebfbc70),
      (13, 4, 0x289b7ec6), (0, 11, 0xeaa127fa), (3, 16, 0xd4ef3085), (6, 23, 0x04881d05),
      (9, 4, 0xd9d4d039), (12, 11, 0xe6db99e5), (15, 16, 0x1fa27cf8), (2, 23, 0xc4ac5665)]"

definition MD5_round4 :: "(nat \<times> nat \<times> uint32) list" where
  "MD5_round4 =
     [(0, 6, 0xf4292244), (7, 10, 0x432aff97), (14, 15, 0xab9423a7), (5, 21, 0xfc93a039),
      (12, 6, 0x655b59c3), (3, 10, 0x8f0ccc92), (10, 15, 0xffeff47d), (1, 21, 0x85845dd1),
      (8, 6, 0x6fa87e4f), (15, 10, 0xfe2ce6e0), (6, 15, 0xa3014314), (13, 21, 0x4e0811a1),
      (4, 6, 0xf7537e82), (11, 10, 0xbd3af235), (2, 15, 0x2ad7d2bb), (9, 21, 0xeb86d391)]"

text \<open>The block is read as sixteen words of the (little-endian) host.\<close>

definition MD5_words :: "byte list \<Rightarrow> uint32 list" where
  "MD5_words block = map (\<lambda>i. of_le_bytes (take 4 (drop (4 * i) block))) [0..<16]"

definition MD5_transform :: "md5_words \<Rightarrow> byte list \<Rightarrow> md5_words" where
  "MD5_transform st block =
     (let x = MD5_words block;
          (a, b, c, d) =
            fold (MD5_step MD5_I x) MD5_round4 (fold (MD5_step MD5_H x) MD5_round3
              (fold (MD5_step MD5_G x) MD5_round2 (fold (MD5_step MD5_F x) MD5_round1 st)));
          (s0, s1, s2, s3) = st
      in (s0 + a, s1 + b, s2 + c, s3 + d))"

record md5 =
  md5_state :: md5_words
  count0 :: uint32
  count1 :: uint32
  md5_buffer :: "byte list"
  md5_digest :: "byte list"
  finalized :: bool

definition MD5_start :: md5_words where
  "MD5_start = (0x67452301, 0xefcdab89, 0x98badcfe, 0x10325476)"

text \<open>\<open>init\<close> leaves the buffer and the digest as they are; a new object has anything in them.\<close>

definition MD5_init :: "md5 \<Rightarrow> md5" where
  "MD5_init m = m\<lparr>md5_state := MD5_start, count0 := 0, count1 := 0, finalized := False\<rparr>"

definition MD5_new :: "md5 \<Rightarrow> md5" where
  "MD5_new fresh = MD5_init (fresh\<lparr>finalized := False\<rparr>)"

text \<open>The whole blocks at the front of the data, and what is left.\<close>

function MD5_blocks :: "md5_words \<Rightarrow> byte list \<Rightarrow> md5_words \<times> byte list" where
  "MD5_blocks st xs =
     (if 64 \<le> length xs then MD5_blocks (MD5_transform st (take 64 xs)) (drop 64 xs) else (st, xs))"
  by auto
termination by (relation "measure (length \<circ> snd)") auto

declare MD5_blocks.simps [simp del]

definition write_at :: "nat \<Rightarrow> byte list \<Rightarrow> byte list \<Rightarrow> byte list" where
  "write_at i bs buf = take i buf @ bs @ drop (i + length bs) buf"

definition MD5_update :: "byte list \<Rightarrow> md5 \<Rightarrow> md5" where
  "MD5_update data m =
     (if finalized m then m
      else
        (let len = length data;
             index = unat (drop_bit 3 (count0 m) AND 0x3F);
             partLen = 64 - index;
             c0 = count0 m + of_nat (len * 8);
             c1 = (if unat c0 < (len * 8) mod 2 ^ 64 then count1 m + 1 else count1 m) + of_nat (len div 2 ^ 29);
             m = m\<lparr>count0 := c0, count1 := c1\<rparr>
         in if partLen \<le> len
            then (let buf = write_at index (take partLen data) (md5_buffer m);
                      (st, rest) = MD5_blocks (MD5_transform (md5_state m) buf) (drop partLen data)
                  in m\<lparr>md5_state := st, md5_buffer := write_at 0 rest buf\<rparr>)
            else m\<lparr>md5_buffer := write_at index data (md5_buffer m)\<rparr>))"

definition md5_digest_bytes :: "md5_words \<Rightarrow> byte list" where
  "md5_digest_bytes st =
     (let (a, b, c, d) = st
      in map (\<lambda>i. ucast (drop_bit ((i mod 4) * 8) ([a, b, c, d] ! (i div 4)))) [0..<16])"

definition MD5_final :: "md5 \<Rightarrow> md5" where
  "MD5_final m =
     (let bits = le_bytes (count0 m) @ le_bytes (count1 m);
          index = unat (drop_bit 3 (count0 m) AND 0x3F);
          padLen = (if index < 56 then 56 - index else 120 - index);
          m = MD5_update (take padLen (0x80 # replicate 63 0)) m;
          m = MD5_update bits m
      in m\<lparr>md5_digest := md5_digest_bytes (md5_state m), finalized := True\<rparr>)"

definition hex_digit :: "nat \<Rightarrow> char" where
  "hex_digit n = ''0123456789abcdef'' ! n"

definition MD5_hexDigest :: "md5 \<Rightarrow> string \<times> md5" where
  "MD5_hexDigest m =
     (let m = (if finalized m then m else MD5_final m)
      in (concat (map (\<lambda>b. [hex_digit (unat (drop_bit 4 b AND 0x0F)), hex_digit (unat (b AND 0x0F))]) (md5_digest m)), m))"

definition MD5_digest :: "md5 \<Rightarrow> byte list \<times> md5" where
  "MD5_digest m = (let m = (if finalized m then m else MD5_final m) in (md5_digest m, m))"

definition string_bytes :: "string \<Rightarrow> byte list" where
  "string_bytes s = map of_char s"

definition MD5_update_string :: "string \<Rightarrow> md5 \<Rightarrow> md5" where
  "MD5_update_string data m = MD5_update (string_bytes data) m"

definition MD5_new_bytes :: "byte list \<Rightarrow> md5 \<Rightarrow> md5" where
  "MD5_new_bytes data fresh = MD5_update data (MD5_init (fresh\<lparr>finalized := False\<rparr>))"

definition MD5_new_string :: "string \<Rightarrow> md5 \<Rightarrow> md5" where
  "MD5_new_string data fresh = MD5_update_string data (MD5_init (fresh\<lparr>finalized := False\<rparr>))"

definition MD5_hexDigest_bytes :: "md5 \<Rightarrow> byte list \<Rightarrow> string" where
  "MD5_hexDigest_bytes fresh data = fst (MD5_hexDigest (MD5_new_bytes data fresh))"

definition MD5_hexDigest_string :: "md5 \<Rightarrow> string \<Rightarrow> string" where
  "MD5_hexDigest_string fresh data = fst (MD5_hexDigest (MD5_new_string data fresh))"

text \<open>The static functions on an object of zeros; lemma \<open>MD5_hexDigest_static\<close> shows that the object does not matter.\<close>

definition md5_zeros :: md5 where
  "md5_zeros = \<lparr>md5_state = (0, 0, 0, 0), count0 = 0, count1 = 0, md5_buffer = replicate 64 0,
     md5_digest = replicate 16 0, finalized = False\<rparr>"

definition MD5_hexDigest_of :: "byte list \<Rightarrow> string" where
  "MD5_hexDigest_of data = MD5_hexDigest_bytes md5_zeros data"

subsection \<open>The block cipher\<close>

definition sbox :: "byte list" where
  "sbox =
     [0x63, 0x7c, 0x77, 0x7b, 0xf2, 0x6b, 0x6f, 0xc5, 0x30, 0x01, 0x67, 0x2b, 0xfe, 0xd7, 0xab, 0x76,
      0xca, 0x82, 0xc9, 0x7d, 0xfa, 0x59, 0x47, 0xf0, 0xad, 0xd4, 0xa2, 0xaf, 0x9c, 0xa4, 0x72, 0xc0,
      0xb7, 0xfd, 0x93, 0x26, 0x36, 0x3f, 0xf7, 0xcc, 0x34, 0xa5, 0xe5, 0xf1, 0x71, 0xd8, 0x31, 0x15,
      0x04, 0xc7, 0x23, 0xc3, 0x18, 0x96, 0x05, 0x9a, 0x07, 0x12, 0x80, 0xe2, 0xeb, 0x27, 0xb2, 0x75,
      0x09, 0x83, 0x2c, 0x1a, 0x1b, 0x6e, 0x5a, 0xa0, 0x52, 0x3b, 0xd6, 0xb3, 0x29, 0xe3, 0x2f, 0x84,
      0x53, 0xd1, 0x00, 0xed, 0x20, 0xfc, 0xb1, 0x5b, 0x6a, 0xcb, 0xbe, 0x39, 0x4a, 0x4c, 0x58, 0xcf,
      0xd0, 0xef, 0xaa, 0xfb, 0x43, 0x4d, 0x33, 0x85, 0x45, 0xf9, 0x02, 0x7f, 0x50, 0x3c, 0x9f, 0xa8,
      0x51, 0xa3, 0x40, 0x8f, 0x92, 0x9d, 0x38, 0xf5, 0xbc, 0xb6, 0xda, 0x21, 0x10, 0xff, 0xf3, 0xd2,
      0xcd, 0x0c, 0x13, 0xec, 0x5f, 0x97, 0x44, 0x17, 0xc4, 0xa7, 0x7e, 0x3d, 0x64, 0x5d, 0x19, 0x73,
      0x60, 0x81, 0x4f, 0xdc, 0x22, 0x2a, 0x90, 0x88, 0x46, 0xee, 0xb8, 0x14, 0xde, 0x5e, 0x0b, 0xdb,
      0xe0, 0x32, 0x3a, 0x0a, 0x49, 0x06, 0x24, 0x5c, 0xc2, 0xd3, 0xac, 0x62, 0x91, 0x95, 0xe4, 0x79,
      0xe7, 0xc8, 0x37, 0x6d, 0x8d, 0xd5, 0x4e, 0xa9, 0x6c, 0x56, 0xf4, 0xea, 0x65, 0x7a, 0xae, 0x08,
      0xba, 0x78, 0x25, 0x2e, 0x1c, 0xa6, 0xb4, 0xc6, 0xe8, 0xdd, 0x74, 0x1f, 0x4b, 0xbd, 0x8b, 0x8a,
      0x70, 0x3e, 0xb5, 0x66, 0x48, 0x03, 0xf6, 0x0e, 0x61, 0x35, 0x57, 0xb9, 0x86, 0xc1, 0x1d, 0x9e,
      0xe1, 0xf8, 0x98, 0x11, 0x69, 0xd9, 0x8e, 0x94, 0x9b, 0x1e, 0x87, 0xe9, 0xce, 0x55, 0x28, 0xdf,
      0x8c, 0xa1, 0x89, 0x0d, 0xbf, 0xe6, 0x42, 0x68, 0x41, 0x99, 0x2d, 0x0f, 0xb0, 0x54, 0xbb, 0x16]"

definition inv_sbox :: "byte list" where
  "inv_sbox =
     [0x52, 0x09, 0x6a, 0xd5, 0x30, 0x36, 0xa5, 0x38, 0xbf, 0x40, 0xa3, 0x9e, 0x81, 0xf3, 0xd7, 0xfb,
      0x7c, 0xe3, 0x39, 0x82, 0x9b, 0x2f, 0xff, 0x87, 0x34, 0x8e, 0x43, 0x44, 0xc4, 0xde, 0xe9, 0xcb,
      0x54, 0x7b, 0x94, 0x32, 0xa6, 0xc2, 0x23, 0x3d, 0xee, 0x4c, 0x95, 0x0b, 0x42, 0xfa, 0xc3, 0x4e,
      0x08, 0x2e, 0xa1, 0x66, 0x28, 0xd9, 0x24, 0xb2, 0x76, 0x5b, 0xa2, 0x49, 0x6d, 0x8b, 0xd1, 0x25,
      0x72, 0xf8, 0xf6, 0x64, 0x86, 0x68, 0x98, 0x16, 0xd4, 0xa4, 0x5c, 0xcc, 0x5d, 0x65, 0xb6, 0x92,
      0x6c, 0x70, 0x48, 0x50, 0xfd, 0xed, 0xb9, 0xda, 0x5e, 0x15, 0x46, 0x57, 0xa7, 0x8d, 0x9d, 0x84,
      0x90, 0xd8, 0xab, 0x00, 0x8c, 0xbc, 0xd3, 0x0a, 0xf7, 0xe4, 0x58, 0x05, 0xb8, 0xb3, 0x45, 0x06,
      0xd0, 0x2c, 0x1e, 0x8f, 0xca, 0x3f, 0x0f, 0x02, 0xc1, 0xaf, 0xbd, 0x03, 0x01, 0x13, 0x8a, 0x6b,
      0x3a, 0x91, 0x11, 0x41, 0x4f, 0x67, 0xdc, 0xea, 0x97, 0xf2, 0xcf, 0xce, 0xf0, 0xb4, 0xe6, 0x73,
      0x96, 0xac, 0x74, 0x22, 0xe7, 0xad, 0x35, 0x85, 0xe2, 0xf9, 0x37, 0xe8, 0x1c, 0x75, 0xdf, 0x6e,
      0x47, 0xf1, 0x1a, 0x71, 0x1d, 0x29, 0xc5, 0x89, 0x6f, 0xb7, 0x62, 0x0e, 0xaa, 0x18, 0xbe, 0x1b,
      0xfc, 0x56, 0x3e, 0x4b, 0xc6, 0xd2, 0x79, 0x20, 0x9a, 0xdb, 0xc0, 0xfe, 0x78, 0xcd, 0x5a, 0xf4,
      0x1f, 0xdd, 0xa8, 0x33, 0x88, 0x07, 0xc7, 0x31, 0xb1, 0x12, 0x10, 0x59, 0x27, 0x80, 0xec, 0x5f,
      0x60, 0x51, 0x7f, 0xa9, 0x19, 0xb5, 0x4a, 0x0d, 0x2d, 0xe5, 0x7a, 0x9f, 0x93, 0xc9, 0x9c, 0xef,
      0xa0, 0xe0, 0x3b, 0x4d, 0xae, 0x2a, 0xf5, 0xb0, 0xc8, 0xeb, 0xbb, 0x3c, 0x83, 0x53, 0x99, 0x61,
      0x17, 0x2b, 0x04, 0x7e, 0xba, 0x77, 0xd6, 0x26, 0xe1, 0x69, 0x14, 0x63, 0x55, 0x21, 0x0c, 0x7d]"

definition rcon :: "byte list" where
  "rcon = [0x00, 0x01, 0x02, 0x04, 0x08, 0x10, 0x20, 0x40, 0x80, 0x1b, 0x36]"

definition sub_at :: "byte list \<Rightarrow> uint32 \<Rightarrow> nat \<Rightarrow> uint32" where
  "sub_at box w n = ucast (box ! unat (drop_bit n w AND 0xff))"

fun AES_expand :: "nat \<Rightarrow> nat \<Rightarrow> uint32 list \<Rightarrow> uint32 list" where
  "AES_expand i 0 rk = rk"
| "AES_expand i (Suc n) rk =
     (let temp = rk ! (i - 1);
          temp = (if i mod 4 = 0
                  then (push_bit 24 (sub_at sbox temp 16) OR push_bit 16 (sub_at sbox temp 8) OR
                        push_bit 8 (sub_at sbox temp 0) OR sub_at sbox temp 24) XOR
                       push_bit 24 (ucast (rcon ! (i div 4)))
                  else temp)
      in AES_expand (Suc i) n (rk @ [rk ! (i - 4) XOR temp]))"

definition AES_keyExpansion :: "byte list \<Rightarrow> uint32 list" where
  "AES_keyExpansion key =
     AES_expand 4 40
       (map (\<lambda>i. push_bit 24 (ucast (key ! (4 * i))) OR push_bit 16 (ucast (key ! (4 * i + 1))) OR
                 push_bit 8 (ucast (key ! (4 * i + 2))) OR ucast (key ! (4 * i + 3))) [0..<4])"

record aes =
  roundKeys :: "uint32 list"
  iv :: "byte list"
  keySet :: bool

text \<open>The constructor sets the flag only: round keys and initialisation vector are what was there.\<close>

definition AES_new :: "aes \<Rightarrow> aes" where
  "AES_new fresh = fresh\<lparr>keySet := False\<rparr>"

definition AES_setKey :: "byte list \<Rightarrow> aes \<Rightarrow> bool \<times> aes" where
  "AES_setKey key c =
     (if length key \<noteq> 16 then (False, c)
      else (True, c\<lparr>roundKeys := AES_keyExpansion key, keySet := True\<rparr>))"

definition AES_setIv :: "byte list \<Rightarrow> aes \<Rightarrow> aes" where
  "AES_setIv v c = (if 16 \<le> length v then c\<lparr>iv := take 16 v\<rparr> else c)"

definition AES_setKey_string :: "string \<Rightarrow> aes \<Rightarrow> bool \<times> aes" where
  "AES_setKey_string key c = AES_setKey (string_bytes key) c"

definition AES_setIv_string :: "string \<Rightarrow> aes \<Rightarrow> aes" where
  "AES_setIv_string v c = AES_setIv (string_bytes v) c"

definition AES_addRoundKey :: "uint32 list \<Rightarrow> nat \<Rightarrow> byte list \<Rightarrow> byte list" where
  "AES_addRoundKey rk round b =
     map (\<lambda>i. b ! i XOR ucast (drop_bit (24 - 8 * (i mod 4)) (rk ! (4 * round + i div 4)))) [0..<16]"

definition AES_subBytes :: "byte list \<Rightarrow> byte list \<Rightarrow> byte list" where
  "AES_subBytes box b = map (\<lambda>i. box ! unat (b ! i)) [0..<16]"

text \<open>Byte \<open>i\<close> of the shifted block is the byte the assignments move there.\<close>

definition AES_shiftRows :: "byte list \<Rightarrow> byte list" where
  "AES_shiftRows b = map ((!) b) [0, 5, 10, 15, 4, 9, 14, 3, 8, 13, 2, 7, 12, 1, 6, 11]"

definition AES_invShiftRows :: "byte list \<Rightarrow> byte list" where
  "AES_invShiftRows b = map ((!) b) [0, 13, 10, 7, 4, 1, 14, 11, 8, 5, 2, 15, 12, 9, 6, 3]"

definition AES_mixColumns :: "byte list \<Rightarrow> byte list" where
  "AES_mixColumns b = concat (map (\<lambda>i.
     let a0 = b ! i; a1 = b ! (i + 1); a2 = b ! (i + 2); a3 = b ! (i + 3)
     in [a0 XOR a1 XOR a2 XOR a3 XOR a1 XOR a2, a0 XOR a1 XOR a2 XOR a3 XOR a0 XOR a2,
         a0 XOR a1 XOR a2 XOR a3 XOR a0 XOR a1, a0 XOR a1 XOR a2 XOR a3 XOR a1 XOR a3]) [0, 4, 8, 12])"

definition AES_invMixColumns :: "byte list \<Rightarrow> byte list" where
  "AES_invMixColumns b = concat (map (\<lambda>i.
     let x = b ! i XOR b ! (i + 1) XOR b ! (i + 2) XOR b ! (i + 3) in [x, x, x, x]) [0, 4, 8, 12])"

definition AES_round :: "uint32 list \<Rightarrow> nat \<Rightarrow> byte list \<Rightarrow> byte list" where
  "AES_round rk round b =
     AES_addRoundKey rk round (AES_mixColumns (AES_shiftRows (AES_subBytes sbox b)))"

definition AES_encryptBlock :: "uint32 list \<Rightarrow> byte list \<Rightarrow> byte list" where
  "AES_encryptBlock rk b =
     AES_addRoundKey rk 10 (AES_shiftRows (AES_subBytes sbox
       (fold (AES_round rk) [1..<10] (AES_addRoundKey rk 0 b))))"

definition AES_invRound :: "uint32 list \<Rightarrow> nat \<Rightarrow> byte list \<Rightarrow> byte list" where
  "AES_invRound rk round b =
     AES_invMixColumns (AES_addRoundKey rk round (AES_subBytes inv_sbox (AES_invShiftRows b)))"

fun AES_invRounds :: "uint32 list \<Rightarrow> nat \<Rightarrow> byte list \<Rightarrow> byte list" where
  "AES_invRounds rk 0 b = b"
| "AES_invRounds rk (Suc n) b = AES_invRounds rk n (AES_invRound rk (Suc n) b)"

definition AES_decryptBlock :: "uint32 list \<Rightarrow> byte list \<Rightarrow> byte list" where
  "AES_decryptBlock rk b =
     AES_addRoundKey rk 0 (AES_subBytes inv_sbox (AES_invShiftRows
       (AES_invRounds rk 9 (AES_addRoundKey rk 10 b))))"

definition pkcs7Pad :: "byte list \<Rightarrow> nat \<Rightarrow> byte list" where
  "pkcs7Pad data blockSize =
     (let padLen = blockSize - length data mod blockSize in data @ replicate padLen (of_nat padLen))"

definition pkcs7Unpad :: "byte list \<Rightarrow> byte list" where
  "pkcs7Unpad data =
     (if data = [] then []
      else (let padLen = unat (last data)
            in if length data < padLen \<or> 16 < padLen then data else take (length data - padLen) data))"

definition xorBlock :: "byte list \<Rightarrow> byte list \<Rightarrow> byte list" where
  "xorBlock a b = map2 (XOR) a b"

function AES_cbc_encrypt :: "uint32 list \<Rightarrow> byte list \<Rightarrow> byte list \<Rightarrow> byte list" where
  "AES_cbc_encrypt rk v [] = []"
| "AES_cbc_encrypt rk v (x # xs) =
     (let block = AES_encryptBlock rk (xorBlock (take 16 (x # xs)) v)
      in block @ AES_cbc_encrypt rk block (drop 16 (x # xs)))"
  by pat_completeness auto
termination by (relation "measure (\<lambda>(rk, v, xs). length xs)") auto

definition AES_encryptCBC :: "aes \<Rightarrow> byte list \<Rightarrow> byte list" where
  "AES_encryptCBC c plaintext =
     (if \<not> keySet c then [] else AES_cbc_encrypt (roundKeys c) (iv c) (pkcs7Pad plaintext 16))"

function AES_cbc_decrypt :: "uint32 list \<Rightarrow> byte list \<Rightarrow> byte list \<Rightarrow> byte list" where
  "AES_cbc_decrypt rk prev [] = []"
| "AES_cbc_decrypt rk prev (x # xs) =
     (let block = take 16 (x # xs)
      in xorBlock (AES_decryptBlock rk block) prev @ AES_cbc_decrypt rk block (drop 16 (x # xs)))"
  by pat_completeness auto
termination by (relation "measure (\<lambda>(rk, v, xs). length xs)") auto

definition AES_decryptCBC :: "aes \<Rightarrow> byte list \<Rightarrow> byte list" where
  "AES_decryptCBC c ciphertext =
     (if \<not> keySet c \<or> length ciphertext mod 16 \<noteq> 0 then []
      else pkcs7Unpad (AES_cbc_decrypt (roundKeys c) (iv c) ciphertext))"

definition AES_encrypt :: "aes \<Rightarrow> byte list \<Rightarrow> byte list" where
  "AES_encrypt c plaintext = AES_encryptCBC c plaintext"

definition AES_decrypt :: "aes \<Rightarrow> byte list \<Rightarrow> byte list" where
  "AES_decrypt c ciphertext = AES_decryptCBC c ciphertext"

subsection \<open>Identifiers\<close>

text \<open>A number in hexadecimal, filled with zeros to \<open>n\<close> digits; longer numbers keep their digits.\<close>

fun hex_fixed :: "nat \<Rightarrow> nat \<Rightarrow> string" where
  "hex_fixed 0 x = []"
| "hex_fixed (Suc n) x = hex_fixed n (x div 16) @ [hex_digit (x mod 16)]"

text \<open>
  \<open>uuid\<close> from the four numbers the generator draws. The stream's width is given for each
  field; no field is wider than it, as every operand is below 16 to the width.
\<close>

definition Random_uuid :: "uint32 \<Rightarrow> uint32 \<Rightarrow> uint32 \<Rightarrow> uint32 \<Rightarrow> string" where
  "Random_uuid d0 d1 d2 d3 =
     (let d1 = (d1 AND 0x0fffffff) OR 0x40000000; d2 = (d2 AND 0x3fffffff) OR 0x80000000
      in hex_fixed 8 (unat d0) @ ''-'' @ hex_fixed 4 (unat (drop_bit 16 d1)) @ ''-'' @
         hex_fixed 4 (unat (d1 AND 0xffff)) @ ''-'' @ hex_fixed 4 (unat (drop_bit 16 d2)) @ ''-'' @
         hex_fixed 4 (unat (d2 AND 0xffff)) @ hex_fixed 8 (unat d3))"

subsection \<open>MD5 does not depend on how its data arrives\<close>

lemma MD5_blocks_append:
  "MD5_blocks st (xs @ ys) = (let (st', r) = MD5_blocks st xs in MD5_blocks st' (r @ ys))"
proof (induction st xs rule: MD5_blocks.induct)
  case (1 st xs)
  show ?case
  proof (cases "64 \<le> length xs")
    case True
    then have "MD5_blocks st (xs @ ys) = MD5_blocks (MD5_transform st (take 64 xs)) (drop 64 xs @ ys)"
      by (subst MD5_blocks.simps) simp
    then show ?thesis using 1 True by (subst (2) MD5_blocks.simps) simp
  next
    case False
    then show ?thesis by (subst (2) MD5_blocks.simps) simp
  qed
qed

lemma MD5_blocks_rest: "MD5_blocks st xs = (st', r) \<Longrightarrow> length r = length xs mod 64"
proof (induction st xs rule: MD5_blocks.induct)
  case (1 st xs)
  show ?case
  proof (cases "64 \<le> length xs")
    case True
    then have "MD5_blocks (MD5_transform st (take 64 xs)) (drop 64 xs) = (st', r)"
      using 1(2) by (subst (asm) MD5_blocks.simps) simp
    then show ?thesis using 1(1)[OF True] True by (simp add: le_mod_geq)
  next
    case False
    then show ?thesis using 1(2) by (subst (asm) MD5_blocks.simps) auto
  qed
qed

lemma carry: "b < M \<Longrightarrow> (a + b :: nat) div M = a div M + (if (a + b) mod M < b then 1 else 0)"
proof -
  assume b: "b < M"
  then have a: "a mod M < M" by simp
  have m: "(a + b) mod M = (a mod M + b) mod M" by (rule mod_add_left_eq[symmetric])
  have d: "(a + b) div M = a div M + (a mod M + b) div M"
    using div_add1_eq[of a b M] b by (simp only: div_less mod_less)
  show ?thesis
  proof (cases "a mod M + b < M")
    case True
    then show ?thesis unfolding m d by simp
  next
    case False
    moreover have "a mod M + b - M < M" using a b by linarith
    ultimately have "(a mod M + b) mod M = a mod M + b - M" "(a mod M + b) div M = 1"
      using b by (simp_all add: le_mod_geq le_div_geq)
    then show ?thesis unfolding m d using a False by simp
  qed
qed

definition md5_rep :: "md5 \<Rightarrow> byte list \<Rightarrow> bool" where
  "md5_rep m msg \<longleftrightarrow>
     \<not> finalized m \<and> length (md5_buffer m) = 64 \<and>
     (let (st, r) = MD5_blocks (MD5_start) msg in md5_state m = st \<and> take (length r) (md5_buffer m) = r) \<and>
     count0 m = of_nat (8 * length msg) \<and> count1 m = of_nat (8 * length msg div 2 ^ 32)"

lemma md5_rep_init: "length (md5_buffer fresh) = 64 \<Longrightarrow> md5_rep (MD5_new fresh) []"
  by (simp add: md5_rep_def MD5_new_def MD5_init_def MD5_blocks.simps)

lemma md5_index: "unat (drop_bit 3 (of_nat (8 * n) :: uint32) AND 0x3F) = n mod 64"
proof -
  have w: "unat (drop_bit 3 w AND mask 6) = unat w div 2 ^ 3 mod 2 ^ 6" for w :: uint32
    unfolding take_bit_eq_mask[symmetric] unsigned_take_bit_eq unat_drop_bit_eq
    by (simp only: take_bit_eq_mod drop_bit_eq_div)
  have "unat (drop_bit 3 (of_nat (8 * n) :: uint32) AND mask 6) = (8 * n mod 2 ^ 32) div 2 ^ 3 mod 2 ^ 6"
    by (simp only: w unat_of_nat) simp
  also have "\<dots> = n mod 64"
  proof -
    have "8 * n mod 2 ^ 32 = 8 * (n mod 2 ^ 29)" by (simp add: mult_mod_right)
    then have "(8 * n mod 2 ^ 32) div 2 ^ 3 = n mod 2 ^ 29" by simp
    then show ?thesis by (simp add: mod_mod_cancel)
  qed
  finally show ?thesis by (simp add: mask_eq_exp_minus_1)
qed

lemma md5_count_carry:
  assumes "b < 2 ^ 32"
  shows "(if unat (of_nat (a + b) :: uint32) < b then of_nat (a div 2 ^ 32) + 1 else of_nat (a div 2 ^ 32)) =
    (of_nat ((a + b) div 2 ^ 32) :: uint32)"
proof -
  have u: "unat (of_nat (a + b) :: uint32) = (a + b) mod 2 ^ 32" unfolding unat_of_nat by simp
  show ?thesis
  proof (cases "(a + b) mod 2 ^ 32 < b")
    case True
    then have "(a + b) div 2 ^ 32 = Suc (a div 2 ^ 32)" using carry[OF assms, of a] by (simp only: if_True)
    then show ?thesis using True unfolding u by (simp only: if_True of_nat_Suc add.commute)
  next
    case False
    then have "(a + b) div 2 ^ 32 = a div 2 ^ 32" using carry[OF assms, of a] by (simp only: if_False)
    then show ?thesis using False unfolding u by (simp only: if_False)
  qed
qed

lemma md5_rep_update:
  assumes "md5_rep m msg" "length d < 2 ^ 29"
  shows "md5_rep (MD5_update d m) (msg @ d)"
proof -
  obtain st r where b: "MD5_blocks (MD5_start) msg = (st, r)" by fastforce
  have f: "\<not> finalized m" "length (md5_buffer m) = 64" "md5_state m = st" "take (length r) (md5_buffer m) = r"
    and c: "count0 m = of_nat (8 * length msg)" "count1 m = of_nat (8 * length msg div 2 ^ 32)"
    using assms(1) by (simp_all add: md5_rep_def b)
  have r: "length r = length msg mod 64" using MD5_blocks_rest[OF b] .
  have i: "unat (drop_bit 3 (count0 m) AND 0x3F) = length r" unfolding c(1) md5_index r ..
  have e: "MD5_blocks (MD5_start) (msg @ d) = MD5_blocks st (r @ d)"
    unfolding MD5_blocks_append[of _ msg d] b by simp
  have c0: "count0 m + of_nat (length d * 8) = of_nat (8 * length (msg @ d))"
    by (simp add: c(1) algebra_simps)
  have s: "8 * length d < 2 ^ 32" using assms(2) by simp
  have t: "8 * length (msg @ d) = 8 * length msg + 8 * length d" by simp
  have d: "length d * 8 mod 2 ^ 64 = 8 * length d" "length d div 2 ^ 29 = 0" using assms(2) by simp_all
  have c1: "(if unat (of_nat (8 * length (msg @ d)) :: uint32) < length d * 8 mod 2 ^ 64
      then count1 m + 1 else count1 m) + of_nat (length d div 2 ^ 29) = of_nat (8 * length (msg @ d) div 2 ^ 32)"
    by (simp only: d t c(2) semiring_1_class.of_nat_0 add_0_right md5_count_carry[OF s])
  show ?thesis
  proof (cases "64 - length r \<le> length d")
    case True
    let ?k = "64 - length r"
    have l: "length r \<le> 64" using r by simp
    have w: "write_at (length r) (take ?k d) (md5_buffer m) = r @ take ?k d"
      using True l f(2,4) by (simp add: write_at_def)
    obtain st' r' where s: "MD5_blocks (MD5_transform st (r @ take ?k d)) (drop ?k d) = (st', r')" by fastforce
    have "MD5_blocks st (r @ d) = (st', r')"
      using True l s by (subst MD5_blocks.simps) auto
    moreover have "length r' \<le> 64" using MD5_blocks_rest[OF s] by simp
    moreover have "MD5_update d m = m\<lparr>count0 := of_nat (8 * length (msg @ d)),
        count1 := of_nat (8 * length (msg @ d) div 2 ^ 32), md5_state := st',
        md5_buffer := write_at 0 r' (r @ take ?k d)\<rparr>"
      using f(1,3) True unfolding MD5_update_def Let_def i c0 c1 by (simp add: w s)
    ultimately show ?thesis
      using f True l by (simp add: md5_rep_def e write_at_def)
  next
    case False
    have "MD5_blocks st (r @ d) = (st, r @ d)" using False by (subst MD5_blocks.simps) auto
    moreover have "MD5_update d m = m\<lparr>count0 := of_nat (8 * length (msg @ d)),
        count1 := of_nat (8 * length (msg @ d) div 2 ^ 32), md5_buffer := write_at (length r) d (md5_buffer m)\<rparr>"
      using f(1) False unfolding MD5_update_def Let_def i c0 c1 by simp
    ultimately show ?thesis
      using f False by (simp add: md5_rep_def e write_at_def)
  qed
qed

lemma md5_rep_updates:
  "md5_rep m msg \<Longrightarrow> \<forall>d \<in> set ds. length d < 2 ^ 29 \<Longrightarrow>
     md5_rep (foldl (\<lambda>m d. MD5_update d m) m ds) (msg @ concat ds)"
proof (induction ds arbitrary: m msg)
  case (Cons d ds)
  then have "md5_rep (MD5_update d m) (msg @ d)" by (intro md5_rep_update) auto
  then show ?case using Cons.IH[of "MD5_update d m" "msg @ d"] Cons.prems(2) by simp
qed simp

text \<open>
  The specification (RFC 1321): the message, a one bit, zeros up to 56 bytes modulo 64, and
  the length in bits as two words, low word first; block by block.
\<close>

definition md5_padding :: "nat \<Rightarrow> byte list" where
  "md5_padding n = 0x80 # replicate ((119 - n mod 64) mod 64) 0"

definition md5_reference :: "byte list \<Rightarrow> byte list" where
  "md5_reference msg =
     md5_digest_bytes (fst (MD5_blocks (MD5_start)
       (msg @ md5_padding (length msg) @ le_bytes (of_nat (8 * length msg) :: uint32) @
        le_bytes (of_nat (8 * length msg div 2 ^ 32) :: uint32))))"

lemma md5_padding_eq:
  assumes "n mod 64 = index"
  shows "take (if index < 56 then 56 - index else 120 - index) (0x80 # replicate 63 0) = md5_padding n"
proof -
  have i: "index < 64" using assms by auto
  show ?thesis
  proof (cases "index < 56")
    case True
    then have "(119 - index) mod 64 = 55 - index" by (simp add: le_mod_geq)
    moreover have "56 - index = Suc (55 - index)" using True by simp
    ultimately show ?thesis using True by (simp add: md5_padding_def assms)
  next
    case False
    then have "(119 - index) mod 64 = 119 - index" by simp
    moreover have "120 - index = Suc (119 - index)" using i by simp
    ultimately show ?thesis using False i by (simp add: md5_padding_def assms)
  qed
qed

lemma length_md5_padding: "length (md5_padding n) < 2 ^ 29"
  by (simp add: md5_padding_def le_less_trans[of _ 64])

lemma MD5_final_reference:
  assumes "md5_rep m msg"
  shows "md5_digest (MD5_final m) = md5_reference msg \<and> finalized (MD5_final m)"
proof -
  have c: "count0 m = of_nat (8 * length msg)" "count1 m = of_nat (8 * length msg div 2 ^ 32)"
    using assms by (simp_all add: md5_rep_def)
  have i: "unat (drop_bit 3 (count0 m) AND 0x3F) = length msg mod 64" unfolding c(1) md5_index ..
  let ?bits = "le_bytes (count0 m) @ le_bytes (count1 m)"
  let ?m1 = "MD5_update (md5_padding (length msg)) m"
  have "md5_rep ?m1 (msg @ md5_padding (length msg))" by (rule md5_rep_update[OF assms length_md5_padding])
  then have "md5_rep (MD5_update ?bits ?m1) ((msg @ md5_padding (length msg)) @ ?bits)"
    by (rule md5_rep_update) simp
  then have "md5_state (MD5_update ?bits ?m1) =
      fst (MD5_blocks (MD5_start) (msg @ md5_padding (length msg) @ ?bits))"
    by (simp add: md5_rep_def case_prod_unfold Let_def)
  moreover have "MD5_final m = (MD5_update ?bits ?m1)\<lparr>md5_digest := md5_digest_bytes (md5_state (MD5_update ?bits ?m1)),
      finalized := True\<rparr>"
    unfolding MD5_final_def Let_def i md5_padding_eq[OF refl] ..
  ultimately show ?thesis by (simp add: md5_reference_def c)
qed



text \<open>
  The constructors with data and the static functions are a construction, an update and a digest:
  the hexadecimal digits of the reference digest, on any memory.
\<close>

lemma MD5_new_bytes_eq: "MD5_new_bytes data fresh = MD5_update data (MD5_new fresh)"
  by (simp add: MD5_new_bytes_def MD5_new_def)

lemma MD5_hexDigest_bytes_reference:
  assumes "length data < 2 ^ 29" "length (md5_buffer fresh) = 64"
  shows "MD5_hexDigest_bytes fresh data =
    concat (map (\<lambda>b. [hex_digit (unat (drop_bit 4 b AND 0x0F)), hex_digit (unat (b AND 0x0F))]) (md5_reference data))"
proof -
  have r: "md5_rep (MD5_new_bytes data fresh) data"
    using md5_rep_update[OF md5_rep_init[OF assms(2)] assms(1)] by (simp add: MD5_new_bytes_eq)
  then show ?thesis using MD5_final_reference[OF r]
    by (simp add: MD5_hexDigest_bytes_def MD5_hexDigest_def md5_rep_def Let_def)
qed

lemma MD5_hexDigest_static:
  assumes "length data < 2 ^ 29" "length (md5_buffer fresh) = 64"
  shows "MD5_hexDigest_bytes fresh data = MD5_hexDigest_of data"
  using MD5_hexDigest_bytes_reference[OF assms] MD5_hexDigest_bytes_reference[OF assms(1), of md5_zeros]
  by (simp add: MD5_hexDigest_of_def md5_zeros_def)

lemma MD5_hexDigest_string_eq: "MD5_hexDigest_string fresh s = MD5_hexDigest_bytes fresh (string_bytes s)"
  by (simp add: MD5_hexDigest_string_def MD5_hexDigest_bytes_def MD5_new_string_def MD5_new_bytes_def MD5_update_string_def)

lemma length_hexDigest [simp]: "length (MD5_hexDigest_of data) = 32"
proof -
  have "length (md5_digest (MD5_final m)) = 16" for m
    by (simp add: MD5_final_def Let_def md5_digest_bytes_def case_prod_unfold)
  moreover have "\<not> finalized (MD5_new_bytes data md5_zeros)"
    by (simp add: MD5_new_bytes_def MD5_update_def MD5_init_def Let_def case_prod_unfold)
  ultimately show ?thesis
    by (simp add: MD5_hexDigest_of_def MD5_hexDigest_bytes_def MD5_hexDigest_def Let_def length_concat comp_def sum_list_triv)
qed

text \<open>
  A single piece of half a gigabyte breaks the length: the carry test compares the 32-bit
  counter with the unreduced 64-bit bit count, so a carry is counted that did not happen, and
  the digest is that of no message of this length.
\<close>

theorem MD5_half_gigabyte_miscounted:
  assumes "length d = 2 ^ 29"
  shows "count1 (MD5_update d (MD5_new fresh)) = 2 \<and> of_nat (8 * length d div 2 ^ 32) = (1 :: uint32)"
proof -
  have "count1 (MD5_update d (MD5_new fresh)) = (if unat (of_nat (2 ^ 29 * 8) :: uint32) < 2 ^ 29 * 8 mod 2 ^ 64
      then 0 + 1 else 0) + (of_nat (2 ^ 29 div 2 ^ 29) :: uint32)"
    unfolding MD5_update_def Let_def assms by (simp add: MD5_new_def MD5_init_def case_prod_unfold)
  also have "\<dots> = 2" by simp
  finally show ?thesis unfolding assms by simp
qed

theorem MD5_half_gigabyte_miscounted_witness: "\<exists>d. length d = 2 ^ 29 \<and> count1 (MD5_update d (MD5_new md5_zeros)) = 2"
proof -
  obtain d :: "byte list" where "length d = 2 ^ 29" by (rule exE[OF Ex_list_of_length])
  then show ?thesis using MD5_half_gigabyte_miscounted by blast
qed

subsection \<open>The block cipher is not invertible\<close>

lemma upt_16: "[0..<16] = [0, 1, 2, 3, 4, 5, 6, 7, 8, 9, 10, 11, 12, 13, 14, 15 :: nat]"
  by (simp add: upt_rec)

lemma list_16:
  assumes "length (b :: 'a list) = 16"
  shows "\<exists>b0 b1 b2 b3 b4 b5 b6 b7 b8 b9 b10 b11 b12 b13 b14 b15.
    b = [b0, b1, b2, b3, b4, b5, b6, b7, b8, b9, b10, b11, b12, b13, b14, b15]"
  using assms by (auto simp: length_Suc_conv eval_nat_numeral)

lemma length_ops [simp]:
  "length (AES_addRoundKey rk n b) = 16" "length (AES_subBytes box b) = 16"
  "length (AES_shiftRows b) = 16" "length (AES_invShiftRows b) = 16" "length (AES_mixColumns b) = 16"
  "length (AES_invMixColumns b) = 16"
  by (simp_all add: AES_addRoundKey_def AES_subBytes_def AES_shiftRows_def AES_invShiftRows_def
      AES_mixColumns_def AES_invMixColumns_def Let_def)

lemma addRoundKey_twice: "length b = 16 \<Longrightarrow> AES_addRoundKey rk n (AES_addRoundKey rk n b) = b"
  by (rule nth_equalityI) (simp_all add: AES_addRoundKey_def xor.assoc)

lemma shift_inverse:
  assumes "length b = 16"
  shows "AES_shiftRows (AES_invShiftRows b) = b" "AES_invShiftRows (AES_shiftRows b) = b"
  using list_16[OF assms] by (auto simp: AES_shiftRows_def AES_invShiftRows_def)

lemma sbox_table: "list_all (\<lambda>i. unat (sbox ! unat (inv_sbox ! i)) = i \<and> unat (inv_sbox ! unat (sbox ! i)) = i) [0..<256]"
  by code_simp

lemma sbox_inverse: "sbox ! unat (inv_sbox ! unat x) = x" "inv_sbox ! unat (sbox ! unat x) = x" for x :: byte
proof -
  have "unat x < 256" using unsigned_less[of x] by simp
  then have "unat (sbox ! unat (inv_sbox ! unat x)) = unat x" "unat (inv_sbox ! unat (sbox ! unat x)) = unat x"
    using sbox_table by (auto simp: list_all_iff)
  then show "sbox ! unat (inv_sbox ! unat x) = x" "inv_sbox ! unat (sbox ! unat x) = x"
    by (simp_all only: unsigned_word_eqI word_unat_eq_iff)
qed

lemma sub_inverse:
  assumes "length b = 16"
  shows "AES_subBytes sbox (AES_subBytes inv_sbox b) = b" "AES_subBytes inv_sbox (AES_subBytes sbox b) = b"
  by (rule nth_equalityI; simp add: assms AES_subBytes_def sbox_inverse)+

text \<open>The block that reaches the first MixColumns as \<open>s\<close>.\<close>

definition before_mix :: "uint32 list \<Rightarrow> byte list \<Rightarrow> byte list" where
  "before_mix rk s = AES_addRoundKey rk 0 (AES_subBytes inv_sbox (AES_invShiftRows s))"

lemma before_mix:
  assumes "length s = 16"
  shows "AES_shiftRows (AES_subBytes sbox (AES_addRoundKey rk 0 (before_mix rk s))) = s"
  using assms by (simp add: before_mix_def addRoundKey_twice sub_inverse shift_inverse)

lemma encrypt_before_mix:
  assumes "length s = 16" "length s' = 16" "AES_mixColumns s = AES_mixColumns s'"
  shows "AES_encryptBlock rk (before_mix rk s) = AES_encryptBlock rk (before_mix rk s')"
proof -
  have "[1..<10] = 1 # [2..<10::nat]" by (simp add: upt_rec)
  then show ?thesis using assms by (simp add: AES_encryptBlock_def AES_round_def before_mix)
qed

text \<open>Every round of the decryption ends with a block whose columns are constant.\<close>

lemma invRounds_column: "(AES_invRounds rk (Suc n) b) ! 0 = (AES_invRounds rk (Suc n) b) ! 1"
  by (induction n arbitrary: b) (simp_all add: AES_invRound_def AES_invMixColumns_def Let_def)

lemma length_invRounds: "length (AES_invRounds rk (Suc n) b) = 16"
  by (induction n arbitrary: b) (simp_all add: AES_invRound_def)

lemma decrypt_before_mix: "AES_decryptBlock rk c = before_mix rk (AES_invRounds rk 9 (AES_addRoundKey rk 10 c))"
  by (simp add: AES_decryptBlock_def before_mix_def)

lemma after_nine_rounds:
  "length (AES_invRounds rk 9 b) = 16" "AES_invRounds rk 9 b ! 0 = AES_invRounds rk 9 b ! 1"
proof -
  have "Suc 8 = 9" by simp
  then show "length (AES_invRounds rk 9 b) = 16" "AES_invRounds rk 9 b ! 0 = AES_invRounds rk 9 b ! 1"
    using length_invRounds[of rk 8 b] invRounds_column[of rk 8 b] by (simp_all only:)
qed

lemma encrypt_collides:
  assumes "length s = 16" "length t = 16" "s \<noteq> t" "AES_mixColumns s = AES_mixColumns t"
  shows "\<exists>p q. length p = 16 \<and> length q = 16 \<and> p \<noteq> q \<and> AES_encryptBlock rk p = AES_encryptBlock rk q"
proof (intro exI conjI)
  show "length (before_mix rk s) = 16" "length (before_mix rk t) = 16" by (simp_all add: before_mix_def)
  show "before_mix rk s \<noteq> before_mix rk t" using before_mix[OF assms(1), of rk] before_mix[OF assms(2), of rk] assms(3) by metis
  show "AES_encryptBlock rk (before_mix rk s) = AES_encryptBlock rk (before_mix rk t)"
    by (rule encrypt_before_mix[OF assms(1,2,4)])
qed

lemma decrypt_misses:
  assumes "length u = 16" "u ! 0 \<noteq> u ! 1"
  shows "AES_decryptBlock rk c \<noteq> before_mix rk u"
proof
  assume "AES_decryptBlock rk c = before_mix rk u"
  then have "before_mix rk (AES_invRounds rk 9 (AES_addRoundKey rk 10 c)) = before_mix rk u"
    by (simp only: decrypt_before_mix)
  then have "AES_invRounds rk 9 (AES_addRoundKey rk 10 c) = u"
    using before_mix[OF assms(1), of rk] before_mix[OF after_nine_rounds(1), of rk] by metis
  then show False using assms(2) after_nine_rounds(2) by metis
qed

lemma mix_collision:
  "AES_mixColumns (replicate 16 0) = AES_mixColumns (1 # 1 # 1 # 1 # replicate 12 0)"
  by (simp add: AES_mixColumns_def Let_def eval_nat_numeral)

text \<open>
  C35: The cipher cannot be decrypted. Under every key two different blocks have the same
  ciphertext, because the mixing of the columns is not injective; and some block is the
  decryption of no ciphertext at all, because the simplified inverse leaves constant columns.
\<close>

theorem AES_not_invertible:
  "(\<exists>p q. length p = 16 \<and> length q = 16 \<and> p \<noteq> q \<and> AES_encryptBlock rk p = AES_encryptBlock rk q) \<and>
   (\<exists>p. length p = 16 \<and> (\<forall>c. AES_decryptBlock rk c \<noteq> p))"
proof
  have "replicate 16 (0 :: byte) \<noteq> 1 # 1 # 1 # 1 # replicate 12 0" by (simp add: eval_nat_numeral)
  then show "\<exists>p q. length p = 16 \<and> length q = 16 \<and> p \<noteq> q \<and> AES_encryptBlock rk p = AES_encryptBlock rk q"
    by (rule encrypt_collides[OF _ _ _ mix_collision, rotated 2]) simp_all
next
  have "length (before_mix rk (1 # replicate 15 0)) = 16" by (simp add: before_mix_def)
  moreover have "AES_decryptBlock rk c \<noteq> before_mix rk (1 # replicate 15 0)" for c
    by (rule decrypt_misses) simp_all
  ultimately show "\<exists>p. length p = 16 \<and> (\<forall>c. AES_decryptBlock rk c \<noteq> p)" by blast
qed

text \<open>
  The padding is undone exactly, for any data.\<close>

theorem pkcs7_roundtrip: "pkcs7Unpad (pkcs7Pad data 16) = data \<and> length (pkcs7Pad data 16) mod 16 = 0"
proof -
  define n where "n = 16 - length data mod 16"
  have n: "0 < n" "n \<le> 16" by (simp_all add: n_def)
  have p: "pkcs7Pad data 16 = data @ replicate n (of_nat n)" by (simp add: pkcs7Pad_def n_def Let_def)
  have "unat (of_nat n :: byte) = n" using n by (simp add: unat_of_nat)
  moreover have "last (data @ replicate n (of_nat n :: byte)) = of_nat n" using n by (simp add: last_append last_replicate)
  moreover have "(length data + n) mod 16 = 0" unfolding n_def by presburger
  ultimately show ?thesis using n by (auto simp: p pkcs7Unpad_def Let_def)
qed

subsection \<open>Identifiers\<close>

lemma length_hex_fixed [simp]: "length (hex_fixed n x) = n"
  by (induction n arbitrary: x) simp_all

lemma hex_fixed_hd: "hex_fixed (Suc n) x ! 0 = hex_digit (x div 16 ^ n mod 16)"
proof (induction n arbitrary: x)
  case (Suc n)
  have "hex_fixed (Suc (Suc n)) x ! 0 = hex_fixed (Suc n) (x div 16) ! 0" by (simp add: nth_append)
  also have "\<dots> = hex_digit (x div 16 div 16 ^ n mod 16)" by (rule Suc.IH)
  also have "x div 16 div 16 ^ n = x div 16 ^ Suc n" by (simp add: div_mult2_eq)
  finally show ?case .
qed simp

lemma hex_fixed_4_hd: "hex_fixed 4 x ! 0 = hex_digit (x div 4096 mod 16)"
  using hex_fixed_hd[of 3 x] by simp

lemma nth_fields:
  assumes "length a = 8" "length b = 4" "0 < length c"
  shows "(a @ x # b @ y # c @ zs) ! 9 = b ! 0" "(a @ x # b @ y # c @ zs) ! 14 = c ! 0"
  using assms by (simp_all add: nth_append nth_Cons')

lemma version_bits: "unat (drop_bit 16 d AND 4095 OR 16384 :: uint32) div 4096 mod 16 = 4"
proof -
  have d: "drop_bit 12 (drop_bit 16 d AND 4095 OR 16384 :: uint32) = 4"
    by (rule bit_word_eqI) (auto simp: bit_simps)
  have "unat (drop_bit 16 d AND 4095 OR 16384 :: uint32) div 2 ^ 12
      = unat (drop_bit 12 (drop_bit 16 d AND 4095 OR 16384 :: uint32))"
    by (simp only: unat_drop_bit_eq flip: drop_bit_eq_div)
  also have "\<dots> = 4" unfolding d by simp
  finally show ?thesis by simp
qed

text \<open>
  The version digit of a generated identifier is in the wrong group: the four that marks a
  random identifier is put at position 9 instead of 14, and position 14 is random.
\<close>

theorem Random_uuid_version_misplaced:
  "length (Random_uuid d0 d1 d2 d3) = 36 \<and> Random_uuid d0 d1 d2 d3 ! 9 = CHR ''4'' \<and>
   Random_uuid d0 0x1000 d2 d3 ! 14 = CHR ''1'' \<and> Random_uuid d0 0x7000 d2 d3 ! 14 = CHR ''7''"
  by (simp add: Random_uuid_def Let_def nth_fields hex_fixed_4_hd version_bits) (simp add: hex_digit_def)

text \<open>
  \<open>setIv\<close> ignores a vector that is too short, and nothing asks whether one was set: without it
  the first block is masked with whatever the object's memory held.
\<close>

lemma AES_encrypts_without_iv:
  assumes "length v < 16" "length key = 16"
  shows "AES_encryptCBC (AES_setIv v (snd (AES_setKey key (AES_new fresh)))) [] =
    AES_encryptBlock (AES_keyExpansion key) (xorBlock (replicate 16 16) (iv fresh))"
proof -
  have "pkcs7Pad [] 16 = replicate 16 16" by (simp add: pkcs7Pad_def)
  moreover have "AES_cbc_encrypt rk v (replicate 16 16) = AES_encryptBlock rk (xorBlock (replicate 16 16) v)" for rk v
    by (simp add: numeral_eq_Suc replicate_Suc[of 15] Let_def)
  ultimately show ?thesis using assms by (simp add: AES_encryptCBC_def AES_setIv_def AES_setKey_def AES_new_def)
qed

end
