(* ===== verification/Accounts.thy ===== *)
theory Accounts
  imports Session Social MySQL Orm Redis Crypto
begin

text \<open>
  \<^verbatim>\<open>src/game/modules/login\<close> and \<^verbatim>\<open>src/game/modules/role\<close>: logging in
  and out, tokens, and the roles of an account. The modules work on the session they are
  given, over the MySQL interface of \<open>Database\<close> and the Redis client of \<open>Redis\<close>.
  \<open>conn\<close> tells whether the module has a pool that gave a connection, \<open>rc\<close> is the
  client the Redis pool gave. The outer \<open>None\<close> is the exception of a number that does
  not parse; the clock, and the identifier \<^verbatim>\<open>Random::uuid\<close> makes, are arguments.
\<close>

subsection \<open>\<^verbatim>\<open>LoginModule\<close>\<close>

definition LoginModule_hashPassword :: "string \<Rightarrow> string \<Rightarrow> string" where
  "LoginModule_hashPassword password slt = MD5_hexDigest_of (string_bytes (password @ slt))"

definition LoginModule_checkPassword :: "string \<Rightarrow> string \<Rightarrow> string \<Rightarrow> bool" where
  "LoginModule_checkPassword password h slt \<longleftrightarrow> LoginModule_hashPassword password slt = h"

definition LoginModule_generateToken :: "int \<Rightarrow> string \<Rightarrow> int \<Rightarrow> string" where
  "LoginModule_generateToken acc uuid now = MD5_hexDigest_of (string_bytes (int_to_string acc @ uuid @ int_to_string now))"

definition save_token :: "'r redis_server \<Rightarrow> redis_client option \<Rightarrow> string \<Rightarrow> int \<Rightarrow> 'r \<Rightarrow> 'r" where
  "save_token srv rc tok acc r =
     (case rc of
        None \<Rightarrow> r
      | Some c \<Rightarrow>
          (let (_, r) = RedisClient_set srv c (''token:'' @ tok) (int_to_string acc) 86400 r;
               (_, r) = RedisClient_set srv c (''online:'' @ int_to_string acc) ''1'' 86400 r
           in r))"

definition LoginModule_handleLogin ::
    "'d mysql_api \<Rightarrow> 'r redis_server \<Rightarrow> bool \<Rightarrow> redis_client option \<Rightarrow> string \<Rightarrow> int \<Rightarrow> int \<Rightarrow>
     session \<Rightarrow> string \<Rightarrow> string \<Rightarrow> 'd \<times> 'r \<Rightarrow> (session \<times> 'd \<times> 'r) option" where
  "LoginModule_handleLogin api srv conn rc uuid now1 now2 s account password st =
     (let (d, r) = st in
      if \<not> conn then Some (s, d, r)
      else (let (res, d) = executeQuery api ''SELECT * FROM player_account WHERE account_name = ?'' [PString account] d;
                (found, res) = MySQLResult_next res
            in if \<not> found then Some (s, d, r)
               else do { acc \<leftarrow> MySQLResult_getInt64_by res ''account_id'';
                         let h = MySQLResult_getString_by res ''password_hash'';
                         let slt = MySQLResult_getString_by res ''salt'';
                         stat \<leftarrow> MySQLResult_getInt32_by res ''status'';
                         if stat = 1 then Some (s, d, r)
                         else if \<not> LoginModule_checkPassword password h slt then Some (s, d, r)
                         else (let tok = LoginModule_generateToken acc uuid now1;
                                   r = save_token srv rc tok acc r;
                                   (_, d) = executeUpdate api
                                     ''UPDATE player_account SET last_login_time = NOW() WHERE account_id = ?'' [PInt acc] d;
                                   s = Session_setPlayerId s acc;
                                   s = Session_setToken s tok;
                                   s = Session_setLoginTime s now2
                               in Some (s, d, r)) }))"

definition LoginModule_handleLogout ::
    "'r redis_server \<Rightarrow> redis_client option \<Rightarrow> session \<Rightarrow> 'r \<Rightarrow> 'r" where
  "LoginModule_handleLogout srv rc s r =
     (case rc of
        None \<Rightarrow> r
      | Some c \<Rightarrow>
          (let (_, r) = RedisClient_del srv c (''online:'' @ int_to_string (playerId s)) r;
               (_, r) = RedisClient_del srv c (''token:'' @ token s) r
           in r))"

definition LoginModule_verifyToken ::
    "'r redis_server \<Rightarrow> redis_client option \<Rightarrow> string \<Rightarrow> int \<Rightarrow> 'r \<Rightarrow> (bool \<times> 'r) option" where
  "LoginModule_verifyToken srv rc tok acc r =
     (case rc of
        None \<Rightarrow> Some (False, r)
      | Some c \<Rightarrow>
          (let (v, r) = RedisClient_get srv c (''token:'' @ tok) r in
           case v of
             None \<Rightarrow> Some (False, r)
           | Some stored \<Rightarrow> map_option (\<lambda>n. (n = acc, r)) (in_range 64 (parse_int stored))))"

text \<open>The handlers registered for login messages: only the heartbeat does anything.\<close>

definition LoginHandler_handleLoginRequest :: "session option \<Rightarrow> 'm \<Rightarrow> session option" where
  "LoginHandler_handleLoginRequest s msg = s"

definition LoginHandler_handleLogoutRequest :: "session option \<Rightarrow> 'm \<Rightarrow> session option" where
  "LoginHandler_handleLogoutRequest s msg = s"

definition LoginHandler_handleHeartbeat :: "session option \<Rightarrow> 'm \<Rightarrow> int \<Rightarrow> session option" where
  "LoginHandler_handleHeartbeat s msg now = map_option (\<lambda>x. Session_updateHeartbeat x now) s"

subsection \<open>\<^verbatim>\<open>RoleManager\<close>\<close>

text \<open>The cache holds pointers to shared role objects; a cached role is filed under its id.\<close>

type_synonym role_cache = "int \<rightharpoonup> nat"

definition RoleManager_cacheRole :: "role_entity list \<Rightarrow> role_cache \<Rightarrow> nat option \<Rightarrow> role_cache" where
  "RoleManager_cacheRole objs m role =
     (case role of None \<Rightarrow> m | Some a \<Rightarrow> m(e_id (objs ! a) \<mapsto> a))"

definition RoleManager_uncacheRole :: "role_cache \<Rightarrow> int \<Rightarrow> role_cache" where
  "RoleManager_uncacheRole m i = m(i := None)"

definition RoleManager_getRole :: "role_cache \<Rightarrow> int \<Rightarrow> nat option" where
  "RoleManager_getRole m i = m i"

definition RoleManager_cacheSize :: "role_cache \<Rightarrow> nat" where
  "RoleManager_cacheSize m = card (dom m)"

interpretation role_cache: object_cache "\<lambda>a. e_id (objs ! a)" RoleManager_getRole
  "\<lambda>m a. RoleManager_cacheRole objs m (Some a)" RoleManager_uncacheRole for objs
  by unfold_locales (auto simp: RoleManager_getRole_def RoleManager_cacheRole_def RoleManager_uncacheRole_def)

subsection \<open>\<^verbatim>\<open>RoleModule\<close>\<close>

record role_world =
  rw_objects :: "role_entity list"
  rw_cache :: role_cache

definition RoleModule_createRole ::
    "'d mysql_api \<Rightarrow> bool \<Rightarrow> session \<Rightarrow> string \<Rightarrow> int \<Rightarrow> int \<Rightarrow> 'd \<Rightarrow> int \<times> 'd" where
  "RoleModule_createRole api conn s name prof gend d =
     (if \<not> conn then (0, d)
      else (let (res, d) = executeQuery api ''SELECT role_id FROM player_role WHERE role_name = ?'' [PString name] d;
                (found, res) = MySQLResult_next res
            in if found then (0, d)
               else (let (rid, d) = insertAndGetId api
                           ''INSERT INTO player_role (account_id, role_name, profession, gender, hp, mp) VALUES (?, ?, ?, ?, 100, 100)''
                           [PInt (playerId s), PString name, PInt prof, PInt gend] d
                     in if 0 < rid
                        then (let (_, d) = executeUpdate api
                                ''INSERT INTO role_attribute (role_id, attack, defense, speed, hp_max, mp_max) VALUES (?, 10, 10, 10, 100, 100)''
                                [PInt rid] d
                              in (rid, d))
                        else (rid, d))))"

text \<open>The setters of \<open>getRole\<close>, in the code's order; the server id is not among them.\<close>

definition RoleModule_load :: "mysql_result \<Rightarrow> role_entity option" where
  "RoleModule_load res =
     do { i \<leftarrow> MySQLResult_getInt64_by res ''role_id'';
          acc \<leftarrow> MySQLResult_getInt64_by res ''account_id'';
          lv \<leftarrow> MySQLResult_getInt32_by res ''level'';
          ex \<leftarrow> MySQLResult_getInt64_by res ''exp'';
          pr \<leftarrow> MySQLResult_getInt32_by res ''profession'';
          ge \<leftarrow> MySQLResult_getInt32_by res ''gender'';
          h \<leftarrow> MySQLResult_getInt32_by res ''hp'';
          mn \<leftarrow> MySQLResult_getInt32_by res ''mp'';
          go \<leftarrow> MySQLResult_getInt64_by res ''gold'';
          di \<leftarrow> MySQLResult_getInt32_by res ''diamond'';
          Some (Entity_clearDirty
            (RoleEntity_setDiamond di (RoleEntity_setGold go (RoleEntity_setMp mn (RoleEntity_setHp h
              (RoleEntity_setGender ge (RoleEntity_setProfession pr (RoleEntity_setExp ex
                (RoleEntity_setLevel lv
                  (RoleEntity_setRoleName (MySQLResult_getString_by res ''role_name'')
                    (RoleEntity_setAccountId acc (Entity_setId i RoleEntity_new)))))))))))) }"

definition RoleModule_getRole ::
    "'d mysql_api \<Rightarrow> bool \<Rightarrow> int \<Rightarrow> role_world \<times> 'd \<Rightarrow> (nat option \<times> role_world \<times> 'd) option" where
  "RoleModule_getRole api conn i st =
     (let (w, d) = st in
      case RoleManager_getRole (rw_cache w) i of
        Some a \<Rightarrow> Some (Some a, w, d)
      | None \<Rightarrow>
          if \<not> conn then Some (None, w, d)
          else (let (res, d) = executeQuery api ''SELECT * FROM player_role WHERE role_id = ?'' [PInt i] d;
                    (found, res) = MySQLResult_next res
                in if \<not> found then Some (None, w, d)
                   else do { e \<leftarrow> RoleModule_load res;
                             let a = length (rw_objects w);
                             let objs = rw_objects w @ [e];
                             Some (Some a, \<lparr>rw_objects = objs, rw_cache = RoleManager_cacheRole objs (rw_cache w) (Some a)\<rparr>, d) }))"

definition RoleModule_getRoleIdsByAccountId :: "'d mysql_api \<Rightarrow> bool \<Rightarrow> int \<Rightarrow> 'd \<Rightarrow> int list option \<times> 'd" where
  "RoleModule_getRoleIdsByAccountId api conn acc d =
     (if \<not> conn then (Some [], d)
      else (let (res, d) = executeQuery api ''SELECT role_id FROM player_role WHERE account_id = ?'' [PInt acc] d
            in (collect_rows (\<lambda>res. MySQLResult_getInt64 res 0) (length (res_rows res)) res, d)))"

definition RoleModule_selectRole ::
    "'d mysql_api \<Rightarrow> bool \<Rightarrow> session \<Rightarrow> int \<Rightarrow> role_world \<times> 'd \<Rightarrow>
     (bool \<times> session \<times> role_world \<times> 'd) option" where
  "RoleModule_selectRole api conn s i st =
     do { (role, w, d) \<leftarrow> RoleModule_getRole api conn i st;
          case role of
            None \<Rightarrow> Some (False, s, w, d)
          | Some a \<Rightarrow>
              if accountId (rw_objects w ! a) \<noteq> playerId s then Some (False, s, w, d)
              else Some (True, Session_setRoleId s i, w, d) }"

definition RoleModule_updateRole ::
    "'d mysql_api \<Rightarrow> bool \<Rightarrow> nat option \<Rightarrow> bool \<Rightarrow> role_world \<times> 'd \<Rightarrow> bool \<times> role_world \<times> 'd" where
  "RoleModule_updateRole api conn role first st =
     (let (w, d) = st in
      case role of
        None \<Rightarrow> (first, w, d)
      | Some a \<Rightarrow>
          if \<not> conn then (first, w, d)
          else (let (ok, e, first, d) = Entity_save api RoleEntity_class (rw_objects w ! a) first d
                in (first, w\<lparr>rw_objects := (rw_objects w)[a := e]\<rparr>, d)))"

subsection \<open>Tokens\<close>

text \<open>
  What the server promises of the three commands the module uses, \<open>val r\<close> being the
  values it holds (the expiry of a key is a day away).
\<close>

definition redis_keeps :: "'r redis_server \<Rightarrow> ('r \<Rightarrow> string \<rightharpoonup> string) \<Rightarrow> bool" where
  "redis_keeps srv val \<longleftrightarrow>
     (\<forall>k v t r. val (snd (srv [''SET'', k, v, ''EX'', t] r)) = (val r)(k \<mapsto> v)) \<and>
     (\<forall>k r. srv [''GET'', k] r = (Some (case val r k of Some v \<Rightarrow> RString v | None \<Rightarrow> RNil), r)) \<and>
     (\<forall>k r. val (snd (srv [''DEL'', k] r)) = (val r)(k := None))"

lemma redis_keepsD:
  assumes "redis_keeps srv val" "ctx c"
  shows "val (snd (RedisClient_set srv c k v (Suc t) r)) = (val r)(k \<mapsto> v)"
    and "RedisClient_get srv c k r = (val r k, r)"
    and "val (snd (RedisClient_del srv c k r)) = (val r)(k := None)"
  using assms
  by (auto simp: redis_keeps_def RedisClient_set_def RedisClient_get_def RedisClient_del_def redis_defs
      split: option.splits)

lemma save_token_value:
  assumes "redis_keeps srv val" "ctx c"
  shows "val (save_token srv (Some c) tok acc r) (''token:'' @ tok) = Some (int_to_string acc)"
  using redis_keepsD(1)[OF assms, of _ _ 86399]
  by (simp add: save_token_def Let_def case_prod_unfold)

lemma verifyToken_value:
  assumes "redis_keeps srv val" "ctx c"
  shows "LoginModule_verifyToken srv (Some c) tok acc r =
    (case val r (''token:'' @ tok) of
       None \<Rightarrow> Some (False, r)
     | Some v \<Rightarrow> map_option (\<lambda>n. (n = acc, r)) (in_range 64 (parse_int v)))"
  by (simp add: LoginModule_verifyToken_def redis_keepsD(2)[OF assms] Let_def split: option.splits)

lemma handleLogout_value:
  assumes "redis_keeps srv val" "ctx c"
  shows "val (LoginModule_handleLogout srv (Some c) s r) (''token:'' @ token s) = None"
  by (simp add: LoginModule_handleLogout_def redis_keepsD(3)[OF assms] Let_def case_prod_unfold)

lemma in_range_mono: "in_range w v = Some n \<Longrightarrow> in_range w (Some n) = Some n"
  by (auto simp: in_range_def split: option.splits if_splits)

lemma getInt64_by_range: "MySQLResult_getInt64_by res name = Some n \<Longrightarrow> in_range 64 (Some n) = Some n"
  by (auto simp: MySQLResult_getInt64_by_def MySQLResult_getInt64_def Let_def in_range_def
      split: option.splits if_splits)

text \<open>A login either leaves everything but the query's effect alone or is accepted.\<close>

lemma handleLogin_cases:
  assumes "LoginModule_handleLogin api srv conn rc uuid now1 now2 s account password (d, r) = Some (s', d', r')"
  shows "s' = s \<and> r' = r \<or>
    (\<exists>acc tok. in_range 64 (Some acc) = Some acc \<and> tok = LoginModule_generateToken acc uuid now1 \<and>
       r' = save_token srv rc tok acc r \<and>
       s' = s\<lparr>playerId := acc, token := tok, loginTime := now2\<rparr>)"
  using assms
  by (auto simp: LoginModule_handleLogin_def Let_def bind_eq_Some_conv split: if_splits prod.splits
      dest: getInt64_by_range)

lemma login_token_lifecycle_parts:
  assumes redis: "redis_keeps srv val" "ctx c"
    and login: "LoginModule_handleLogin api srv conn (Some c) uuid now1 now2 s account password (d, r) = Some (s', d', r')"
    and new: "token s' \<noteq> token s"
  shows "LoginModule_verifyToken srv (Some c) (token s') a r' = Some (a = playerId s', r')"
    and "LoginModule_verifyToken srv (Some c) (token s') a (LoginModule_handleLogout srv (Some c) s' r') =
      Some (False, LoginModule_handleLogout srv (Some c) s' r')"
proof -
  obtain acc where acc: "in_range 64 (Some acc) = Some acc" "r' = save_token srv (Some c) (token s') acc r" "playerId s' = acc"
    using handleLogin_cases[OF login] new by force
  then have "val r' (''token:'' @ token s') = Some (int_to_string acc)"
    unfolding acc(2) by (intro save_token_value[OF redis])
  then show "LoginModule_verifyToken srv (Some c) (token s') a r' = Some (a = playerId s', r')"
    unfolding verifyToken_value[OF redis] using acc by (auto simp: parse_int_to_string)
  show "LoginModule_verifyToken srv (Some c) (token s') a (LoginModule_handleLogout srv (Some c) s' r') =
      Some (False, LoginModule_handleLogout srv (Some c) s' r')"
    unfolding verifyToken_value[OF redis] handleLogout_value[OF redis] by simp
qed


text \<open>A Redis server over a map of values, and a database with one account row.\<close>

definition map_redis :: "(string \<rightharpoonup> string) redis_server" where
  "map_redis cmd r =
     (case cmd of
        [op, k] \<Rightarrow> if op = ''GET'' then (Some (case r k of Some v \<Rightarrow> RString v | None \<Rightarrow> RNil), r)
                   else (Some (RInteger 1), r(k := None))
      | [op, k, v, ex, t] \<Rightarrow> (Some (RStatus ''OK''), r(k \<mapsto> v))
      | _ \<Rightarrow> (None, r))"

lemma map_redis_keeps: "redis_keeps map_redis (\<lambda>r. r)"
  by (simp add: redis_keeps_def map_redis_def)

definition account_db :: "string \<Rightarrow> string \<Rightarrow> unit mysql_api" where
  "account_db h slt =
     \<lparr>executeQuery = (\<lambda>_ _ d. (MySQLResult_setResult [''account_id'', ''password_hash'', ''salt'', ''status'']
        [[Some ''17'', Some h, Some slt, Some ''0'']], d)),
      executeUpdate = (\<lambda>_ _ d. (1, d)), insertAndGetId = (\<lambda>_ _ d. (17, d))\<rparr>"

lemmas result_defs = MySQLResult_setResult_def MySQLResult_next_def MySQLResult_getInt64_by_def
  MySQLResult_getInt64_def MySQLResult_getInt32_by_def MySQLResult_getInt32_def MySQLResult_getString_by_def
  MySQLResult_getString_def MySQLResult_fieldIndex_def field_at_def in_range_def parse_int_def is_space_def is_digit_def

lemma account_row:
  "MySQLResult_next (fst (executeQuery (account_db h slt) sql ps ())) =
     (True, \<lparr>res_valid = True, res_fields = [''account_id'', ''password_hash'', ''salt'', ''status''], res_count = 1,
        res_rows = [], current = Some [Some ''17'', Some h, Some slt, Some ''0'']\<rparr>)"
  by (simp add: account_db_def MySQLResult_setResult_def MySQLResult_next_def)

lemma account_login:
  "LoginModule_handleLogin (account_db h slt) srv True rc uuid t1 t2 s account pw ((), r) =
     (if LoginModule_checkPassword pw h slt
      then Some (s\<lparr>playerId := 17, token := LoginModule_generateToken 17 uuid t1, loginTime := t2\<rparr>, (),
             save_token srv rc (LoginModule_generateToken 17 uuid t1) 17 r)
      else Some (s, (), r))"
  by (simp add: LoginModule_handleLogin_def account_db_def result_defs Let_def)


text \<open>
  An error reply of the Redis server passes for a stored value, the empty string: verifying a
  token then does not refuse it but throws out of the handler.
\<close>

theorem verifyToken_throws_on_error_reply:
  assumes "ctx c" "fst (srv [''GET'', ''token:'' @ tok] r) = Some (RError e)"
  shows "LoginModule_verifyToken srv (Some c) tok acc r = None"
proof -
  have "RedisClient_get srv c (''token:'' @ tok) r = (Some [], snd (srv [''GET'', ''token:'' @ tok] r))"
    using RedisClient_get_error[OF assms(1), of srv _ r e] assms(2) by (metis prod.collapse)
  then show ?thesis unfolding LoginModule_verifyToken_def option.case by (simp add: parse_int_def in_range_def)
qed

theorem verifyToken_throws_on_error_reply_witness:
  "LoginModule_verifyToken (redis_answers (RError ''LOADING'')) (Some redis_connected) ''t'' 17 () = None"
  by (rule verifyToken_throws_on_error_reply) (simp_all add: redis_answers_def redis_connected_def)

subsection \<open>Passwords\<close>

text \<open>
  An account that the entity manager created cannot log in: it stores the password itself
  where the login compares with a digest of 32 digits, so only a password of exactly that
  length could match.
\<close>

theorem created_account_never_logs_in:
  assumes created: "EntityManager_createPlayerAccount api conn account pw now first d = (Some e, first', d')"
    and row: "executeQuery api2 ''SELECT * FROM player_account WHERE account_name = ?'' [PString account] d2 = (res, d3)"
      "MySQLResult_next res = (True, res')" "MySQLResult_getInt64_by res' ''account_id'' = Some i"
      "MySQLResult_getInt32_by res' ''status'' = Some stat"
      "MySQLResult_getString_by res' ''password_hash'' = passwordHash e"
      "MySQLResult_getString_by res' ''salt'' = salt e"
    and "length pw \<noteq> 32"
  shows "LoginModule_handleLogin api2 srv True rc uuid t1 t2 s account pw (d2, r) = Some (s, d3, r)"
proof -
  have "passwordHash e = pw" using EntityManager_createPlayerAccount_plain[OF created] by simp
  then have "LoginModule_hashPassword pw (salt e) \<noteq> passwordHash e"
    using \<open>length pw \<noteq> 32\<close> unfolding LoginModule_hashPassword_def by (metis length_hexDigest)
  then have "\<not> LoginModule_checkPassword pw (passwordHash e) (salt e)" by (simp add: LoginModule_checkPassword_def)
  then show ?thesis using row by (simp add: LoginModule_handleLogin_def Let_def)
qed

theorem created_account_never_logs_in_witness:
  "LoginModule_handleLogin (account_db ''secret'' ''random_salt'') map_redis True None ''u'' 1 2
     (Session_new 1 0) ''ann'' ''secret'' ((), Map.empty) = Some (Session_new 1 0, (), Map.empty)"
proof -
  have c: "\<exists>e. EntityManager_createPlayerAccount (account_db ''secret'' ''random_salt'') True ''ann'' ''secret'' 5 True () =
      (Some e, True, ()) \<and> passwordHash e = ''secret'' \<and> salt e = ''random_salt''"
    by (simp add: EntityManager_createPlayerAccount_def Entity_save_def Entity_isNew_def account_db_def
        PlayerAccountEntity_setAccountName_def PlayerAccountEntity_setPasswordHash_def PlayerAccountEntity_setSalt_def
        PlayerAccountEntity_setRegisterTime_def PlayerAccountEntity_new_def Entity_new_def entity.defs
        Entity_markDirty_def Entity_clearDirty_def)
  then obtain e where e: "EntityManager_createPlayerAccount (account_db ''secret'' ''random_salt'') True ''ann'' ''secret'' 5 True () =
      (Some e, True, ())" "passwordHash e = ''secret''" "salt e = ''random_salt''" by blast
  show ?thesis
    by (rule created_account_never_logs_in[OF e(1) _ account_row])
      (auto simp: e(2,3) result_defs account_db_def)
qed

subsection \<open>Sessions and players\<close>

text \<open>
  A login writes the player into the session and not into the manager's table. So a player
  whose login was accepted is not found by his id, and another session can be bound to the
  same player: two live sessions then carry it.
\<close>

theorem login_bypasses_player_table:
  assumes inv: "sm_inv sm" and live: "sessions sm i = Some a" "sessions sm j = Some b" "i \<noteq> j"
    and login: "LoginModule_handleLogin api srv conn rc uuid t1 t2 (deref sm a) account pw (d, r) = Some (s', d', r')"
    and "token s' \<noteq> token (deref sm a)" and free: "playerSessions sm (playerId s') = None"
    and sm': "sm' = set_object sm a s'"
  shows "SessionManager_getSessionByPlayerId sm' (playerId s') = None \<and>
    (case SessionManager_bindPlayer sm' j (playerId s') of (ok, sm'') \<Rightarrow>
       ok \<and> sessions sm'' i = Some a \<and> sessions sm'' j = Some b \<and>
       playerId (deref sm'' a) = playerId s' \<and> playerId (deref sm'' b) = playerId s')"
proof -
  have "a < length (objects sm)" "b < length (objects sm)" "a \<noteq> b"
    using sm_ids_pointer sm_ids_inj inv live by (metis sm_inv_parts(1))+
  then show ?thesis
    using live free
    by (simp add: sm' SessionManager_getSessionByPlayerId_def SessionManager_bindPlayer_def deref_set_object)
qed

theorem login_bypasses_player_table_witness:
  "\<exists>s' r'. LoginModule_handleLogin (account_db (LoginModule_hashPassword ''pw'' ''x'') ''x'') map_redis True
       None ''u'' 1 2 (deref two_sessions 1) ''ann'' ''pw'' ((), Map.empty) = Some (s', (), r') \<and>
     SessionManager_getSessionByPlayerId (set_object two_sessions 1 s') 17 = None"
proof -
  let ?tok = "LoginModule_generateToken 17 ''u'' 1"
  let ?s = "(Session_new 2 5)\<lparr>playerId := 17, token := ?tok, loginTime := 2\<rparr>"
  have d: "deref two_sessions 1 = Session_new 2 5" by (simp add: two_sessions_eval deref_def)
  have l: "LoginModule_handleLogin (account_db (LoginModule_hashPassword ''pw'' ''x'') ''x'') map_redis True
       None ''u'' 1 2 (deref two_sessions 1) ''ann'' ''pw'' ((), Map.empty) =
     Some (?s, (), save_token map_redis None ?tok 17 Map.empty)"
    by (simp add: account_login LoginModule_checkPassword_def d[simplified])
  have "length ?tok = 32" unfolding LoginModule_generateToken_def by (rule length_hexDigest)
  then have t: "token ?s \<noteq> token (deref two_sessions 1)" unfolding d by (auto simp: Session_new_def)
  have "sessions two_sessions 2 = Some 1" "sessions two_sessions 1 = Some 0" "playerSessions two_sessions (playerId ?s) = None"
    by (simp_all add: two_sessions_eval)
  then show ?thesis
    using login_bypasses_player_table[OF sm_reach_inv[OF two_sessions_reach] _ _ _ l t _ refl] l by force
qed

subsection \<open>Roles\<close>

text \<open>A world whose cache files every role under its id and points into the store.\<close>

definition role_world_ok :: "role_world \<Rightarrow> bool" where
  "role_world_ok w \<longleftrightarrow> role_cache.self_keyed (rw_objects w) (rw_cache w) \<and>
     (\<forall>i a. rw_cache w i = Some a \<longrightarrow> a < length (rw_objects w))"

lemma self_keyed_iff: "role_cache.self_keyed objs m \<longleftrightarrow> (\<forall>i a. m i = Some a \<longrightarrow> e_id (objs ! a) = i)"
  by (simp add: role_cache.self_keyed_def RoleManager_getRole_def)

lemma self_keyed_extend:
  assumes "role_world_ok w"
  shows "role_cache.self_keyed (rw_objects w @ es) (rw_cache w)"
  using assms unfolding self_keyed_iff role_world_ok_def by (auto simp: nth_append)

lemma RoleModule_getRole_ok:
  assumes "role_world_ok w" "RoleModule_getRole api conn i (w, d) = Some (role, w', d')"
  shows "role_world_ok w'" "\<And>a. role = Some a \<Longrightarrow> a < length (rw_objects w')"
proof -
  have "role_world_ok \<lparr>rw_objects = objs, rw_cache = RoleManager_cacheRole objs (rw_cache w) (Some (length (rw_objects w)))\<rparr>"
    if "objs = rw_objects w @ [e]" for e objs
    using role_cache.self_keyed_put[OF self_keyed_extend[OF assms(1)], of "[e]" "length (rw_objects w)"] assms(1) that
    by (auto simp: role_world_ok_def RoleManager_cacheRole_def less_Suc_eq)
  then show "role_world_ok w'"
    using assms by (auto simp: RoleModule_getRole_def Let_def bind_eq_Some_conv split: option.splits if_splits prod.splits)
  show "\<And>a. role = Some a \<Longrightarrow> a < length (rw_objects w')"
    using assms by (auto simp: RoleModule_getRole_def RoleManager_getRole_def role_world_ok_def Let_def
        bind_eq_Some_conv split: option.splits if_splits prod.splits)
qed

lemma RoleModule_selectRole_own_parts:
  assumes ok: "role_world_ok w"
    and sel: "RoleModule_selectRole api conn s i (w, d) = Some (sel_ok, s', w', d')"
  shows "\<not> sel_ok \<Longrightarrow> s' = s"
    and "sel_ok \<Longrightarrow> \<exists>a. a < length (rw_objects w') \<and> accountId (rw_objects w' ! a) = playerId s \<and> s' = s\<lparr>roleId := i\<rparr> \<and>
       (e_id (rw_objects w' ! a) = i \<longrightarrow> RoleModule_getRole api2 conn2 i (w', d2) = Some (Some a, w', d2))"
proof -
  obtain role where g: "RoleModule_getRole api conn i (w, d) = Some (role, w', d')"
    and c: "case role of None \<Rightarrow> \<not> sel_ok \<and> s' = s
      | Some a \<Rightarrow> if accountId (rw_objects w' ! a) \<noteq> playerId s then \<not> sel_ok \<and> s' = s
                 else sel_ok \<and> s' = Session_setRoleId s i"
    using sel by (auto simp: RoleModule_selectRole_def bind_eq_Some_conv split: option.splits if_splits)
  show "\<not> sel_ok \<Longrightarrow> s' = s" using c by (auto split: option.splits if_splits)
  assume sel_ok
  then obtain a where a: "role = Some a" "accountId (rw_objects w' ! a) = playerId s" "s' = s\<lparr>roleId := i\<rparr>"
    using c by (auto split: option.splits if_splits)
  have "rw_cache w' i = Some a" if "e_id (rw_objects w' ! a) = i"
    using g a(1) that
    by (auto simp: RoleModule_getRole_def RoleManager_getRole_def RoleManager_cacheRole_def Let_def
        bind_eq_Some_conv split: option.splits if_splits prod.splits)
  then show "\<exists>a. a < length (rw_objects w') \<and> accountId (rw_objects w' ! a) = playerId s \<and> s' = s\<lparr>roleId := i\<rparr> \<and>
       (e_id (rw_objects w' ! a) = i \<longrightarrow> RoleModule_getRole api2 conn2 i (w', d2) = Some (Some a, w', d2))"
    using a RoleModule_getRole_ok(2)[OF ok g a(1)]
    by (auto simp: RoleModule_getRole_def RoleManager_getRole_def)
qed

text \<open>
  A session selects only roles of its own player: when \<open>selectRole\<close> succeeds, the session
  carries the role's id and the role's account is the session's player; when it fails the
  session is as it was. A role that carries the id it was asked for is served from the cache
  afterwards, the same object without another query.
\<close>

theorem RoleModule_selectRole_own:
  assumes "role_world_ok w"
    and "RoleModule_selectRole api conn s i (w, d) = Some (sel_ok, s', w', d')"
  shows "(\<not> sel_ok \<longrightarrow> s' = s) \<and>
    (sel_ok \<longrightarrow> (\<exists>a. a < length (rw_objects w') \<and> accountId (rw_objects w' ! a) = playerId s \<and> s' = s\<lparr>roleId := i\<rparr> \<and>
       (e_id (rw_objects w' ! a) = i \<longrightarrow> RoleModule_getRole api2 conn2 i (w', d2) = Some (Some a, w', d2))))"
  by (intro conjI impI; rule RoleModule_selectRole_own_parts[OF assms]; assumption)

definition role_fields :: "string list" where
  "role_fields = [''role_id'', ''account_id'', ''server_id'']"

definition role_row :: row where
  "role_row = [Some ''4'', Some ''17'', Some ''3'']"

definition role_db :: "unit mysql_api" where
  "role_db = \<lparr>executeQuery = (\<lambda>_ _ d. (MySQLResult_setResult role_fields [role_row], d)),
     executeUpdate = (\<lambda>_ _ d. (1, d)), insertAndGetId = (\<lambda>_ _ d. (4, d))\<rparr>"

lemmas setter_defs = RoleEntity_new_def Entity_new_def entity.defs Entity_setId_def RoleEntity_setAccountId_def
  RoleEntity_setRoleName_def RoleEntity_setLevel_def RoleEntity_setServerId_def RoleEntity_setExp_def
  RoleEntity_setProfession_def RoleEntity_setGender_def RoleEntity_setHp_def RoleEntity_setMp_def
  RoleEntity_setGold_def RoleEntity_setDiamond_def Entity_markDirty_def Entity_clearDirty_def

definition role_result :: mysql_result where
  "role_result = \<lparr>res_valid = True, res_fields = role_fields, res_count = 1, res_rows = [], current = Some role_row\<rparr>"

lemma role_result_next: "MySQLResult_next (MySQLResult_setResult role_fields [role_row]) = (True, role_result)"
  by (simp add: MySQLResult_next_def MySQLResult_setResult_def role_result_def)

lemma getters_missing:
  assumes "name \<notin> set (res_fields res)"
  shows "MySQLResult_getInt64_by res name = Some 0" "MySQLResult_getInt32_by res name = Some 0"
proof -
  have "x \<notin> set xs \<Longrightarrow> last_index x xs = None" for x :: string and xs by (induction xs) auto
  then show "MySQLResult_getInt64_by res name = Some 0" "MySQLResult_getInt32_by res name = Some 0"
    using assms by (simp_all add: MySQLResult_getInt64_by_def MySQLResult_getInt32_by_def MySQLResult_fieldIndex_def)
qed

lemma role_result_gets:
  "MySQLResult_getInt64_by role_result ''role_id'' = Some 4"
  "MySQLResult_getInt64_by role_result ''account_id'' = Some 17"
  "MySQLResult_getInt32_by role_result ''server_id'' = Some 3"
  by (simp_all add: result_defs role_result_def role_fields_def role_row_def)

lemma dirty_frame [simp]:
  "e_id (Entity_markDirty f e) = e_id e" "e_id (Entity_clearDirty e) = e_id e"
  "accountId (Entity_markDirty f r) = accountId r" "accountId (Entity_clearDirty r) = accountId r"
  "serverId (Entity_markDirty f r) = serverId r" "serverId (Entity_clearDirty r) = serverId r"
  for e :: "'a entity_scheme" and r :: role_entity
  by (simp_all add: Entity_markDirty_def Entity_clearDirty_def)

lemma role_db_load:
  "\<exists>e. RoleModule_load role_result = Some e \<and> e_id e = 4 \<and> accountId e = 17"
  "\<exists>e. role_of_row role_result = Some e \<and> serverId e = 3"
proof -
  have g: "name \<notin> set role_fields \<Longrightarrow> MySQLResult_getInt64_by role_result name = Some 0"
    "name \<notin> set role_fields \<Longrightarrow> MySQLResult_getInt32_by role_result name = Some 0" for name
    by (simp_all add: getters_missing role_result_def)
  show "\<exists>e. RoleModule_load role_result = Some e \<and> e_id e = 4 \<and> accountId e = 17"
    by (simp add: RoleModule_load_def role_result_gets g role_fields_def RoleEntity_setAccountId_def
        RoleEntity_setRoleName_def RoleEntity_setLevel_def RoleEntity_setExp_def RoleEntity_setProfession_def
        RoleEntity_setGender_def RoleEntity_setHp_def RoleEntity_setMp_def RoleEntity_setGold_def
        RoleEntity_setDiamond_def Entity_setId_def)
  show "\<exists>e. role_of_row role_result = Some e \<and> serverId e = 3"
    by (simp add: role_of_row_def role_result_gets g role_fields_def RoleEntity_setAccountId_def
        RoleEntity_setServerId_def RoleEntity_setRoleName_def RoleEntity_setLevel_def RoleEntity_setExp_def
        RoleEntity_setProfession_def RoleEntity_setGender_def RoleEntity_setHp_def RoleEntity_setMp_def
        RoleEntity_setGold_def RoleEntity_setDiamond_def)
qed

lemma role_db_select:
  "\<exists>w. RoleModule_selectRole role_db True ((Session_new 1 0)\<lparr>playerId := 17\<rparr>) 4
     (\<lparr>rw_objects = [], rw_cache = Map.empty\<rparr>, ()) =
     Some (True, (Session_new 1 0)\<lparr>playerId := 17, roleId := 4\<rparr>, w, ())"
proof -
  obtain e where "RoleModule_load role_result = Some e" "e_id e = 4" "accountId e = 17" using role_db_load(1) by blast
  then show ?thesis
    by (simp add: RoleModule_selectRole_def RoleModule_getRole_def RoleManager_getRole_def role_db_def
        role_result_next Let_def Session_new_def)
qed

theorem RoleModule_selectRole_own_witness:
  "\<exists>w. RoleModule_selectRole role_db True ((Session_new 1 0)\<lparr>playerId := 17\<rparr>) 4
     (\<lparr>rw_objects = [], rw_cache = Map.empty\<rparr>, ()) =
     Some (True, (Session_new 1 0)\<lparr>playerId := 17, roleId := 4\<rparr>, w, ()) \<and>
     (\<exists>a. a < length (rw_objects w) \<and> accountId (rw_objects w ! a) = 17)"
proof -
  have "role_world_ok \<lparr>rw_objects = [], rw_cache = Map.empty\<rparr>"
    by (simp add: role_world_ok_def self_keyed_iff)
  moreover obtain w where w: "RoleModule_selectRole role_db True ((Session_new 1 0)\<lparr>playerId := 17\<rparr>) 4
     (\<lparr>rw_objects = [], rw_cache = Map.empty\<rparr>, ()) =
     Some (True, (Session_new 1 0)\<lparr>playerId := 17, roleId := 4\<rparr>, w, ())" using role_db_select by blast
  ultimately have "\<exists>a. a < length (rw_objects w) \<and> accountId (rw_objects w ! a) = 17"
    using RoleModule_selectRole_own[of _ role_db True _ 4 "()" True _ w "()" role_db True "()"] by force
  then show ?thesis using w by blast
qed

text \<open>
  The two loaders of roles disagree. From one row the role module and the entity manager
  build the same role but for the server it belongs to, which the role module leaves at 1.
\<close>

theorem role_loaders_disagree:
  assumes "RoleModule_load res = Some e" "role_of_row res = Some e'"
  shows "e = e'\<lparr>serverId := 1\<rparr> \<and> MySQLResult_getInt32_by res ''server_id'' = Some (serverId e')"
  using assms
  by (auto simp: RoleModule_load_def role_of_row_def bind_eq_Some_conv setter_defs)

theorem role_loaders_disagree_witness:
  "map_option serverId (RoleModule_load role_result) = Some 1 \<and> map_option serverId (role_of_row role_result) = Some 3"
proof -
  obtain e e' where e: "RoleModule_load role_result = Some e" "role_of_row role_result = Some e'" "serverId e' = 3"
    using role_db_load by blast
  then show ?thesis using role_loaders_disagree[OF e(1,2)] by auto
qed

end
