(* ===== verification/Battle.thy ===== *)
theory Battle
  imports Registry
begin

text \<open>
  \<^verbatim>\<open>src/game/modules/battle\<close>: battle scenes, the manager and the module that
  create them, and the skill table. A unit's fields that the module leaves uninitialised
  are \<open>None\<close>. A \<open>Ptr<BattleScene>\<close> is shared by the table and its callers; scenes are
  therefore objects in a store, and the tables hold pointers. The damage formulas use
  floating-point arithmetic and are not modelled; a \<open>float\<close> is its bit pattern. A skill's
  name is text for display and is left out.
\<close>

subsection \<open>\<^verbatim>\<open>BattleScene\<close>\<close>

record battle_unit =
  unit_roleId :: int
  unit_name :: string
  unit_hp :: int
  unit_hpMax :: int
  unit_mp :: "int option"
  unit_mpMax :: "int option"
  unit_attack :: "int option"
  unit_defense :: "int option"
  unit_speed :: "int option"
  criticalRate :: "uint32 option"
  criticalDamage :: "uint32 option"
  isAlive :: bool

record battle_scene =
  bs_id :: int
  bs_round :: int
  maxRounds :: int
  attackers :: "battle_unit list"
  defenders :: "battle_unit list"

definition BattleScene_new :: "int \<Rightarrow> battle_scene" where
  "BattleScene_new i = \<lparr>bs_id = i, bs_round = 0, maxRounds = 30, attackers = [], defenders = []\<rparr>"

definition BattleScene_addAttacker :: "battle_unit \<Rightarrow> battle_scene \<Rightarrow> battle_scene" where
  "BattleScene_addAttacker u b = b\<lparr>attackers := attackers b @ [u]\<rparr>"

definition BattleScene_addDefender :: "battle_unit \<Rightarrow> battle_scene \<Rightarrow> battle_scene" where
  "BattleScene_addDefender u b = b\<lparr>defenders := defenders b @ [u]\<rparr>"

definition BattleScene_executeRound :: "battle_scene \<Rightarrow> battle_scene" where
  "BattleScene_executeRound b = b\<lparr>bs_round := bs_round b + 1\<rparr>"

fun any_alive :: "battle_unit list \<Rightarrow> bool \<Rightarrow> bool" where
  "any_alive [] acc = acc"
| "any_alive (u # us) acc = any_alive us (if isAlive u then True else acc)"

text \<open>The four results: 0 the battle goes on, 1 the attackers win, 2 the defenders win, 3 a draw.\<close>

definition BattleScene_checkEnd :: "battle_scene \<Rightarrow> int" where
  "BattleScene_checkEnd b =
     (if \<not> any_alive (attackers b) False then 2
      else if \<not> any_alive (defenders b) False then 1
      else if maxRounds b \<le> bs_round b then 3
      else 0)"

subsection \<open>\<^verbatim>\<open>BattleManager\<close> and \<^verbatim>\<open>BattleModule\<close>\<close>

record battles =
  scenes_heap :: "battle_scene list"
  battle_table :: "int \<rightharpoonup> nat"
  nextBattleId :: int

definition new_battle :: "battle_scene \<Rightarrow> battles \<Rightarrow> nat \<times> battles" where
  "new_battle b w = (length (scenes_heap w), w\<lparr>scenes_heap := scenes_heap w @ [b]\<rparr>)"

definition BattleManager_createBattle :: "battles \<Rightarrow> int \<times> battles" where
  "BattleManager_createBattle w =
     (let i = wrap64 (nextBattleId w + 1);
          (a, w) = new_battle (BattleScene_new i) (w\<lparr>nextBattleId := i\<rparr>)
      in (i, w\<lparr>battle_table := (battle_table w)(i \<mapsto> a)\<rparr>))"

definition BattleManager_removeBattle :: "battles \<Rightarrow> int \<Rightarrow> battles" where
  "BattleManager_removeBattle w i = w\<lparr>battle_table := (battle_table w)(i := None)\<rparr>"

definition BattleManager_getBattle :: "battles \<Rightarrow> int \<Rightarrow> nat option" where
  "BattleManager_getBattle w i = battle_table w i"

text \<open>The unit the module makes for a role: the fields it sets, the others indeterminate.\<close>

definition module_unit :: "int \<Rightarrow> battle_unit" where
  "module_unit r = \<lparr>unit_roleId = r, unit_name = '''', unit_hp = 100, unit_hpMax = 100, unit_mp = None, unit_mpMax = None,
     unit_attack = None, unit_defense = None, unit_speed = None, criticalRate = None, criticalDamage = None,
     isAlive = True\<rparr>"

definition BattleModule_createBattle :: "int list \<Rightarrow> int list \<Rightarrow> battles \<Rightarrow> int \<times> battles" where
  "BattleModule_createBattle atts defs w =
     (let i = wrap64 (nextBattleId w + 1);
          b = BattleScene_new i;
          b = fold (\<lambda>r. BattleScene_addAttacker (module_unit r)) atts b;
          b = fold (\<lambda>r. BattleScene_addDefender (module_unit r)) defs b;
          (a, w) = new_battle b (w\<lparr>nextBattleId := i\<rparr>)
      in (i, w\<lparr>battle_table := (battle_table w)(i \<mapsto> a)\<rparr>))"

definition BattleModule_endBattle :: "battles \<Rightarrow> int \<Rightarrow> battles" where
  "BattleModule_endBattle w i = w\<lparr>battle_table := (battle_table w)(i := None)\<rparr>"

definition BattleModule_getBattle :: "battles \<Rightarrow> int \<Rightarrow> nat option" where
  "BattleModule_getBattle w i = battle_table w i"

subsection \<open>\<^verbatim>\<open>SkillSystem\<close>\<close>

record skill_config =
  skill_id :: int
  skill_type :: int
  mpCost :: int
  cooldown :: int
  damageRatio :: uint32
  skill_range :: int
  aoe :: bool

definition skill :: "int \<Rightarrow> int \<Rightarrow> int \<Rightarrow> int \<Rightarrow> uint32 \<Rightarrow> int \<Rightarrow> bool \<Rightarrow> skill_config" where
  "skill i ty mpc cd ratio rng area =
     \<lparr>skill_id = i, skill_type = ty, mpCost = mpc, cooldown = cd, damageRatio = ratio, skill_range = rng, aoe = area\<rparr>"

definition SkillSystem_init :: "(int \<rightharpoonup> skill_config) \<Rightarrow> (int \<rightharpoonup> skill_config)" where
  "SkillSystem_init skills =
     skills(1001 \<mapsto> skill 1001 1 0 0 0x3f800000 1 False,
            1002 \<mapsto> skill 1002 1 10 2000 0x3fc00000 1 False,
            1003 \<mapsto> skill 1003 1 20 5000 0x3f4ccccd 2 True,
            2001 \<mapsto> skill 2001 1 15 1500 0x3f99999a 5 False,
            2002 \<mapsto> skill 2002 1 25 4000 0x3f800000 4 True,
            3001 \<mapsto> skill 3001 1 12 1000 0x3f8ccccd 6 False,
            3002 \<mapsto> skill 3002 1 20 3000 0x3f19999a 5 False)"

definition SkillSystem_new :: "int \<rightharpoonup> skill_config" where
  "SkillSystem_new = SkillSystem_init Map.empty"

definition SkillSystem_getSkill :: "(int \<rightharpoonup> skill_config) \<Rightarrow> int \<Rightarrow> skill_config option" where
  "SkillSystem_getSkill skills i = skills i"

text \<open>Every skill is found under its own id.\<close>

lemma SkillSystem_getSkill_id: "SkillSystem_getSkill SkillSystem_new i = Some s \<Longrightarrow> skill_id s = i"
  by (auto simp: SkillSystem_getSkill_def SkillSystem_new_def SkillSystem_init_def skill_def split: if_splits)

subsection \<open>The end of a battle\<close>

lemma any_alive_iff: "any_alive us acc \<longleftrightarrow> acc \<or> (\<exists>u \<in> set us. isAlive u)"
  by (induction us arbitrary: acc) auto

text \<open>The loop a caller runs: rounds until \<open>checkEnd\<close> is not 0; \<open>None\<close> when the fuel does not suffice.\<close>

fun run_battle :: "nat \<Rightarrow> battle_scene \<Rightarrow> (int \<times> battle_scene) option" where
  "run_battle 0 b = (if BattleScene_checkEnd b \<noteq> 0 then Some (BattleScene_checkEnd b, b) else None)"
| "run_battle (Suc n) b =
     (if BattleScene_checkEnd b \<noteq> 0 then Some (BattleScene_checkEnd b, b)
      else run_battle n (BattleScene_executeRound b))"

lemma checkEnd_round [simp]:
  "attackers (BattleScene_executeRound b) = attackers b" "defenders (BattleScene_executeRound b) = defenders b"
  "maxRounds (BattleScene_executeRound b) = maxRounds b" "bs_round (BattleScene_executeRound b) = bs_round b + 1"
  by (simp_all add: BattleScene_executeRound_def)

lemma run_battle_draw:
  assumes "\<exists>u \<in> set (attackers b). isAlive u" "\<exists>u \<in> set (defenders b). isAlive u"
    and "bs_round b \<le> maxRounds b" "nat (maxRounds b - bs_round b) \<le> n"
  shows "run_battle n b = Some (3, b\<lparr>bs_round := maxRounds b\<rparr>)"
  using assms
proof (induction n arbitrary: b)
  case (Suc n)
  show ?case
  proof (cases "bs_round b = maxRounds b")
    case True
    then show ?thesis using Suc.prems by (simp add: BattleScene_checkEnd_def any_alive_iff)
  next
    case False
    then have "run_battle n (BattleScene_executeRound b) = Some (3, (BattleScene_executeRound b)\<lparr>bs_round := maxRounds b\<rparr>)"
      using Suc.IH[of "BattleScene_executeRound b"] Suc.prems by simp
    then show ?thesis
      using Suc.prems False by (auto simp: BattleScene_checkEnd_def any_alive_iff BattleScene_executeRound_def)
  qed
qed (auto simp: BattleScene_checkEnd_def any_alive_iff)

lemma fold_addAttacker:
  "fold (\<lambda>r. BattleScene_addAttacker (module_unit r)) rs b = b\<lparr>attackers := attackers b @ map module_unit rs\<rparr>"
  by (induction rs arbitrary: b) (simp_all add: BattleScene_addAttacker_def)

lemma fold_addDefender:
  "fold (\<lambda>r. BattleScene_addDefender (module_unit r)) rs b = b\<lparr>defenders := defenders b @ map module_unit rs\<rparr>"
  by (induction rs arbitrary: b) (simp_all add: BattleScene_addDefender_def)

definition module_scene :: "int \<Rightarrow> int list \<Rightarrow> int list \<Rightarrow> battle_scene" where
  "module_scene i atts defs = \<lparr>bs_id = i, bs_round = 0, maxRounds = 30,
     attackers = map module_unit atts, defenders = map module_unit defs\<rparr>"

lemma BattleModule_createBattle_scene:
  assumes "BattleModule_createBattle atts defs w = (i, w')"
  shows "\<exists>a. BattleModule_getBattle w' i = Some a \<and> scenes_heap w' ! a = module_scene i atts defs"
  using assms
  by (auto simp: BattleModule_createBattle_def BattleModule_getBattle_def new_battle_def fold_addAttacker
      fold_addDefender BattleScene_new_def module_scene_def Let_def)

text \<open>
  C30: Every battle ends, and a battle of the module ends in one of three ways that the sides alone
  decide: with no attackers the defenders have won, with attackers and no defenders the
  attackers have, and with both it runs exactly thirty rounds, in which nobody is hurt, and is a
  draw. Thirty rounds of fuel are enough for the caller's loop.
\<close>

theorem battle_outcome:
  assumes "BattleModule_createBattle atts defs w = (i, w')"
  shows "\<exists>a. BattleModule_getBattle w' i = Some a \<and>
    run_battle 30 (scenes_heap w' ! a) = Some
      (if atts = [] then (2, module_scene i atts defs) else if defs = [] then (1, module_scene i atts defs)
       else (3, (module_scene i atts defs)\<lparr>bs_round := 30\<rparr>))"
proof -
  obtain a where a: "BattleModule_getBattle w' i = Some a" "scenes_heap w' ! a = module_scene i atts defs"
    using BattleModule_createBattle_scene[OF assms] by blast
  have "run_battle 30 (module_scene i atts defs) = Some (3, (module_scene i atts defs)\<lparr>bs_round := 30\<rparr>)"
    if "atts \<noteq> []" "defs \<noteq> []"
    using run_battle_draw[of "module_scene i atts defs" 30] that
    by (cases atts; cases defs) (simp_all add: module_scene_def module_unit_def)
  moreover have "run_battle 30 b = Some (BattleScene_checkEnd b, b)" if "BattleScene_checkEnd b \<noteq> 0" for b
    using that run_battle.simps(2)[of 29 b] by simp
  moreover have "BattleScene_checkEnd (module_scene i atts defs) = (if atts = [] then 2 else 1)" if "atts = [] \<or> defs = []"
    using that by (auto simp: BattleScene_checkEnd_def module_scene_def any_alive_iff module_unit_def)
  ultimately show ?thesis using a by (cases "atts = []"; cases "defs = []") simp_all
qed

definition no_battles :: battles where
  "no_battles = \<lparr>scenes_heap = [], battle_table = Map.empty, nextBattleId = 0\<rparr>"

theorem battle_outcome_witness:
  "\<exists>w' a. BattleModule_createBattle [5, 6] [7] no_battles = (1, w') \<and> BattleModule_getBattle w' 1 = Some a \<and>
     run_battle 30 (scenes_heap w' ! a) = Some (3, (module_scene 1 [5, 6] [7])\<lparr>bs_round := 30\<rparr>)"
proof -
  obtain w' where w: "BattleModule_createBattle [5, 6] [7] no_battles = (1, w')"
    by (simp add: BattleModule_createBattle_def no_battles_def new_battle_def)
  then show ?thesis using battle_outcome[OF w] by auto
qed

subsection \<open>The tables\<close>

text \<open>
  The manager and the module are objects of their own with the same data. The states either
  can reach are among those of both sets of operations on one table.
\<close>

inductive battle_reach :: "battles \<Rightarrow> bool" where
  br_init: "battle_reach no_battles"
| br_manager: "battle_reach w \<Longrightarrow> nextBattleId w < 2 ^ 63 - 1 \<Longrightarrow> battle_reach (snd (BattleManager_createBattle w))"
| br_module: "battle_reach w \<Longrightarrow> nextBattleId w < 2 ^ 63 - 1 \<Longrightarrow> battle_reach (snd (BattleModule_createBattle atts defs w))"
| br_remove: "battle_reach w \<Longrightarrow> battle_reach (BattleManager_removeBattle w i)"
| br_round: "battle_reach w \<Longrightarrow> a < length (scenes_heap w) \<Longrightarrow>
    battle_reach (w\<lparr>scenes_heap := (scenes_heap w)[a := BattleScene_executeRound (scenes_heap w ! a)]\<rparr>)"

definition battle_inv :: "battles \<Rightarrow> bool" where
  "battle_inv w \<longleftrightarrow> 0 \<le> nextBattleId w \<and>
     (\<forall>i a. battle_table w i = Some a \<longrightarrow> a < length (scenes_heap w) \<and> bs_id (scenes_heap w ! a) = i \<and>
        0 < i \<and> i \<le> nextBattleId w)"

lemma battle_inv_new:
  assumes "battle_inv w" "nextBattleId w < 2 ^ 63 - 1" "bs_id b = nextBattleId w + 1"
  shows "battle_inv (w\<lparr>scenes_heap := scenes_heap w @ [b], battle_table := (battle_table w)(bs_id b \<mapsto> length (scenes_heap w)),
    nextBattleId := bs_id b\<rparr>)"
  using assms by (fastforce simp: battle_inv_def nth_append split: if_splits)

lemma battle_reach_inv: "battle_reach w \<Longrightarrow> battle_inv w"
proof (induction rule: battle_reach.induct)
  case br_init
  then show ?case by (simp add: battle_inv_def no_battles_def)
next
  case (br_manager w)
  have "wrap64 (nextBattleId w + 1) = nextBattleId w + 1" using br_manager by (simp add: battle_inv_def)
  then show ?case
    using battle_inv_new[OF br_manager.IH br_manager.hyps(2), of "BattleScene_new (nextBattleId w + 1)"]
    by (simp add: BattleManager_createBattle_def new_battle_def Let_def BattleScene_new_def battle_inv_def)
next
  case (br_module w atts defs)
  have "wrap64 (nextBattleId w + 1) = nextBattleId w + 1" using br_module by (simp add: battle_inv_def)
  then show ?case
    using battle_inv_new[OF br_module.IH br_module.hyps(2), of "module_scene (nextBattleId w + 1) atts defs"]
    by (simp add: BattleModule_createBattle_def new_battle_def Let_def BattleScene_new_def fold_addAttacker
        fold_addDefender module_scene_def battle_inv_def)
next
  case (br_remove w i)
  then show ?case by (auto simp: battle_inv_def BattleManager_removeBattle_def)
next
  case (br_round w a)
  then show ?case by (auto simp: battle_inv_def nth_list_update BattleScene_executeRound_def)
qed

text \<open>
  Battles are told apart: in every reachable state a lookup gives a scene that carries the id
  asked for, two ids never share a scene, and a new battle gets an id that no table entry has.
\<close>

theorem battle_ids_unique:
  assumes "battle_reach w" "nextBattleId w < 2 ^ 63 - 1"
  shows "(\<forall>i a. BattleManager_getBattle w i = Some a \<longrightarrow> bs_id (scenes_heap w ! a) = i) \<and>
    (\<forall>i j a. BattleManager_getBattle w i = Some a \<longrightarrow> BattleManager_getBattle w j = Some a \<longrightarrow> i = j) \<and>
    BattleManager_getBattle w (fst (BattleManager_createBattle w)) = None"
proof -
  note inv = battle_reach_inv[OF assms(1)]
  have "wrap64 (nextBattleId w + 1) = nextBattleId w + 1" using assms(2) inv by (simp add: battle_inv_def)
  then have "fst (BattleManager_createBattle w) = nextBattleId w + 1"
    by (simp add: BattleManager_createBattle_def new_battle_def Let_def)
  moreover have "battle_table w (nextBattleId w + 1) = None"
    using inv by (cases "battle_table w (nextBattleId w + 1)") (fastforce simp: battle_inv_def)+
  moreover have "\<forall>i a. battle_table w i = Some a \<longrightarrow> bs_id (scenes_heap w ! a) = i" using inv by (simp add: battle_inv_def)
  ultimately show ?thesis by (auto simp: BattleManager_getBattle_def)
qed

theorem battle_ids_unique_witness: "BattleManager_getBattle no_battles (fst (BattleManager_createBattle no_battles)) = None"
  using battle_ids_unique[OF br_init] by (simp add: no_battles_def)

end
