(* ===== verification/Address.thy ===== *)
theory Address
  imports Database
begin

text \<open>
  \<^verbatim>\<open>src/common/network/address.cpp\<close>: IPv4 and IPv6 addresses. The fields of
  \<open>sockaddr_in\<close> are the words the host reads from memory where the network's byte order
  was stored, so the code's conversions are byte swaps on the little-endian hosts the server
  is built for. The C library's \<open>inet_pton\<close> and \<open>inet_ntop\<close> are arguments, on the
  stored word; \<open>None\<close> is the exception of a port that does not parse.
\<close>

definition htons :: "uint16 \<Rightarrow> uint16" where
  "htons x = of_le_bytes (be_bytes x)"

definition ntohs :: "uint16 \<Rightarrow> uint16" where
  "ntohs x = of_be_bytes (le_bytes x)"

definition ntohl :: "uint32 \<Rightarrow> uint32" where
  "ntohl x = of_be_bytes (le_bytes x)"

lemma ntohs_htons [simp]: "ntohs (htons x) = x"
proof -
  have "le_bytes (of_le_bytes bs :: uint16) = bs" if "length bs = 2" for bs
  proof (rule nth_equalityI)
    fix i assume "i < length (le_bytes (of_le_bytes bs :: uint16))"
    then have i: "i < 2" by simp
    show "le_bytes (of_le_bytes bs :: uint16) ! i = bs ! i"
    proof (rule bit_word_eqI)
      fix n assume "n < LENGTH(8)"
      then have n: "n < 8" by simp
      then have "(8 * i + n) div 8 = i" "(8 * i + n) mod 8 = n" "8 * i + n < 16" using i by auto
      then show "bit (le_bytes (of_le_bytes bs :: uint16) ! i) n = bit (bs ! i) n"
        using i n that by (simp add: le_bytes_def bit_simps bit_of_le_bytes)
    qed
  qed (simp add: that)
  then show ?thesis by (simp add: htons_def ntohs_def of_be_bytes_def be_bytes_def)
qed

subsection \<open>IPv4\<close>

record ipv4 =
  sin_addr :: uint32
  sin_port :: uint16

definition IPv4Address_default :: ipv4 where
  "IPv4Address_default = \<lparr>sin_addr = 0, sin_port = 0\<rparr>"

definition IPv4Address_any :: "uint16 \<Rightarrow> ipv4" where
  "IPv4Address_any p = \<lparr>sin_addr = 0, sin_port = htons p\<rparr>"

text \<open>\<open>inet_pton\<close> writes the address only when the text is one; its result is ignored.\<close>

definition IPv4Address_of :: "(string \<Rightarrow> uint32 option) \<Rightarrow> string \<Rightarrow> uint16 \<Rightarrow> ipv4" where
  "IPv4Address_of pton ip p =
     \<lparr>sin_addr = (case pton ip of Some a \<Rightarrow> a | None \<Rightarrow> 0), sin_port = htons p\<rparr>"

definition IPv4Address_ip :: "(uint32 \<Rightarrow> string) \<Rightarrow> ipv4 \<Rightarrow> string" where
  "IPv4Address_ip ntop a = ntop (sin_addr a)"

definition IPv4Address_port :: "ipv4 \<Rightarrow> uint16" where
  "IPv4Address_port a = ntohs (sin_port a)"

definition IPv4Address_ipPort :: "(uint32 \<Rightarrow> string) \<Rightarrow> ipv4 \<Rightarrow> string" where
  "IPv4Address_ipPort ntop a = IPv4Address_ip ntop a @ '':'' @ nat_to_string (unat (IPv4Address_port a))"

definition IPv4Address_isWildcard :: "ipv4 \<Rightarrow> bool" where
  "IPv4Address_isWildcard a \<longleftrightarrow> sin_addr a = 0"

definition IPv4Address_isLoopback :: "ipv4 \<Rightarrow> bool" where
  "IPv4Address_isLoopback a \<longleftrightarrow> drop_bit 24 (ntohl (sin_addr a)) = 127"

definition IPv4Address_isPrivateNetwork :: "ipv4 \<Rightarrow> bool" where
  "IPv4Address_isPrivateNetwork a \<longleftrightarrow>
     (let addr = ntohl (sin_addr a) in
      if drop_bit 24 addr = 10 then True
      else if drop_bit 20 addr = 0xAC1 then True
      else if drop_bit 16 addr = 0xC0A8 then True
      else False)"

text \<open>Parsing, for a pointer that is not null: the value written, or \<open>false\<close> as the inner \<open>None\<close>.\<close>

definition IPv4Address_parse_at :: "(string \<Rightarrow> uint32 option) \<Rightarrow> string \<Rightarrow> uint16 \<Rightarrow> ipv4 option" where
  "IPv4Address_parse_at pton ip p = Some (IPv4Address_of pton ip p)"

definition IPv4Address_parse :: "(string \<Rightarrow> uint32 option) \<Rightarrow> string \<Rightarrow> ipv4 option option" where
  "IPv4Address_parse pton ipPort =
     (if CHR '':'' \<notin> set ipPort then Some None
      else (let ip = takeWhile (\<lambda>c. c \<noteq> CHR '':'') ipPort; rest = tl (dropWhile (\<lambda>c. c \<noteq> CHR '':'') ipPort)
            in map_option (\<lambda>n. IPv4Address_parse_at pton ip (of_int n)) (in_range 32 (parse_int rest))))"

subsection \<open>IPv6\<close>

record ipv6 =
  sin6_addr :: "128 word"
  sin6_port :: uint16

definition IPv6Address_default :: ipv6 where
  "IPv6Address_default = \<lparr>sin6_addr = 0, sin6_port = 0\<rparr>"

definition IPv6Address_any :: "uint16 \<Rightarrow> ipv6" where
  "IPv6Address_any p = \<lparr>sin6_addr = 0, sin6_port = htons p\<rparr>"

definition IPv6Address_of :: "(string \<Rightarrow> 128 word option) \<Rightarrow> string \<Rightarrow> uint16 \<Rightarrow> ipv6" where
  "IPv6Address_of pton ip p =
     \<lparr>sin6_addr = (case pton ip of Some a \<Rightarrow> a | None \<Rightarrow> 0), sin6_port = htons p\<rparr>"

definition IPv6Address_ip :: "(128 word \<Rightarrow> string) \<Rightarrow> ipv6 \<Rightarrow> string" where
  "IPv6Address_ip ntop a = ntop (sin6_addr a)"

definition IPv6Address_port :: "ipv6 \<Rightarrow> uint16" where
  "IPv6Address_port a = ntohs (sin6_port a)"

definition IPv6Address_ipPort :: "(128 word \<Rightarrow> string) \<Rightarrow> ipv6 \<Rightarrow> string" where
  "IPv6Address_ipPort ntop a = ''['' @ IPv6Address_ip ntop a @ '']:'' @ nat_to_string (unat (IPv6Address_port a))"

subsection \<open>Printing and parsing\<close>

text \<open>What the C library documents of the two functions: the printed address is read back, and has no colon.\<close>

definition inet_ok :: "(string \<Rightarrow> uint32 option) \<Rightarrow> (uint32 \<Rightarrow> string) \<Rightarrow> bool" where
  "inet_ok pton ntop \<longleftrightarrow> (\<forall>a. pton (ntop a) = Some a \<and> CHR '':'' \<notin> set (ntop a))"

lemma split_colon:
  assumes "CHR '':'' \<notin> set ip"
  shows "CHR '':'' \<in> set (ip @ '':'' @ rest)"
    "takeWhile (\<lambda>c. c \<noteq> CHR '':'') (ip @ '':'' @ rest) = ip"
    "tl (dropWhile (\<lambda>c. c \<noteq> CHR '':'') (ip @ '':'' @ rest)) = rest"
  using assms by (induction ip) auto

lemma parse_split:
  assumes "CHR '':'' \<notin> set ip"
  shows "IPv4Address_parse pton (ip @ '':'' @ rest) =
    map_option (\<lambda>n. Some (IPv4Address_of pton ip (of_int n))) (in_range 32 (parse_int rest))"
  unfolding IPv4Address_parse_def Let_def split_colon(2,3)[OF assms] IPv4Address_parse_at_def
  using split_colon(1)[OF assms, of rest] by (simp only: not_True_eq_False if_False)

lemma parse_nat: "parse_int (nat_to_string n) = Some (int n)"
  using parse_int_to_string[of "int n"] by (simp add: int_to_string_def)

lemma htons_ntohs: "htons (ntohs x) = x"
proof -
  have "inj htons" by (rule inj_on_inverseI[of _ ntohs]) simp
  then have "surj htons" by (simp add: finite_UNIV_inj_surj)
  then obtain y where "x = htons y" by blast
  then show ?thesis by simp
qed

text \<open>The dotted-decimal form, an implementation of the two functions.\<close>

definition dotted :: "uint32 \<Rightarrow> string" where
  "dotted a =
     (let p = \<lambda>i. nat_to_string (unat (le_bytes a ! i))
      in p 0 @ ''.'' @ p 1 @ ''.'' @ p 2 @ ''.'' @ p 3)"

fun split_on :: "char \<Rightarrow> string \<Rightarrow> string list" where
  "split_on c [] = [[]]"
| "split_on c (x # xs) =
     (if x = c then [] # split_on c xs
      else case split_on c xs of [] \<Rightarrow> [[x]] | p # ps \<Rightarrow> (x # p) # ps)"

definition octet :: "string \<Rightarrow> byte option" where
  "octet s = (if s \<noteq> [] \<and> length s \<le> 3 \<and> list_all is_digit s \<and> digits_value 0 s < 256
     then Some (of_nat (digits_value 0 s)) else None)"

definition undotted :: "string \<Rightarrow> uint32 option" where
  "undotted s =
     (case map octet (split_on (CHR ''.'') s) of
        [Some a, Some b, Some c, Some d] \<Rightarrow> Some (of_le_bytes [a, b, c, d])
      | _ \<Rightarrow> None)"

lemma split_on_piece:
  "c \<notin> set p \<Longrightarrow> split_on c (p @ c # rest) = p # split_on c rest" "c \<notin> set p \<Longrightarrow> split_on c p = [p]"
  by (induction p) auto

lemma digits_no_mark: "CHR ''.'' \<notin> set (nat_to_string n)" "CHR '':'' \<notin> set (nat_to_string n)"
  using nat_to_string_digits[of n] by (auto simp: is_digit_def)

lemma octet_of_byte: "octet (nat_to_string (unat (b :: byte))) = Some b"
proof -
  have "length (nat_to_string n) \<le> 3" if "n < 256" for n
    using that by (simp add: nat_to_string.simps[of n] nat_to_string.simps[of "n div 10"]
        nat_to_string.simps[of "n div 10 div 10"])
  moreover have "unat b < 256" using unsigned_less[of b] by simp
  ultimately show ?thesis
    by (simp add: octet_def nat_to_string_nonempty digits_value_nat_to_string list_all_iff nat_to_string_digits)
qed

lemma inet_ok_dotted: "inet_ok undotted dotted"
proof -
  have "[a ! 0, a ! 1, a ! 2, a ! 3] = a" if "length a = 4" for a :: "byte list"
    using that by (auto simp: length_Suc_conv eval_nat_numeral)
  then have "of_le_bytes [le_bytes a ! 0, le_bytes a ! 1, le_bytes a ! 2, le_bytes a ! 3] = a" for a :: uint32
    by simp
  then have "undotted (dotted a) = Some a" for a
    by (simp add: undotted_def dotted_def Let_def split_on_piece digits_no_mark octet_of_byte)
  moreover have "CHR '':'' \<notin> set (dotted a)" for a by (simp add: dotted_def Let_def digits_no_mark)
  ultimately show ?thesis by (simp add: inet_ok_def)
qed

text \<open>
  Every address is read back from its printed form.\<close>

theorem ipPort_parse_roundtrip:
  assumes "inet_ok pton ntop"
  shows "IPv4Address_parse pton (IPv4Address_ipPort ntop a) = Some (Some a)"
proof -
  let ?p = "IPv4Address_port a"
  have r: "in_range 32 (parse_int (nat_to_string (unat ?p))) = Some (int (unat ?p))"
    using uint_bounded[of ?p] order_trans[OF _ uint_nonnegative[of ?p], of "- 2147483648"]
    by (simp add: parse_nat in_range_def)
  have ip: "IPv4Address_of pton (IPv4Address_ip ntop a) (of_int (int (unat ?p))) = a"
    using assms by (simp add: IPv4Address_of_def IPv4Address_ip_def inet_ok_def IPv4Address_port_def htons_ntohs)
  have "CHR '':'' \<notin> set (IPv4Address_ip ntop a)" using assms by (simp add: IPv4Address_ip_def inet_ok_def)
  from parse_split[OF this, of pton "nat_to_string (unat ?p)"] show ?thesis
    unfolding IPv4Address_ipPort_def r option.map ip .
qed

theorem ipPort_parse_roundtrip_witness:
  "IPv4Address_parse undotted (IPv4Address_ipPort dotted \<lparr>sin_addr = 0x0100007f, sin_port = htons 8888\<rparr>) =
     Some (Some \<lparr>sin_addr = 0x0100007f, sin_port = htons 8888\<rparr>)"
  by (rule ipPort_parse_roundtrip[OF inet_ok_dotted])

text \<open>
  Parsing never fails on the address itself. Text that is no address gives \<open>true\<close> and the
  wildcard address, and a port beyond 65535 is reduced to 16 bits.
\<close>

theorem parse_accepts_bad_input:
  assumes "CHR '':'' \<notin> set ip" "pton ip = None" "n < 2 ^ 31"
  shows "\<exists>a. IPv4Address_parse pton (ip @ '':'' @ nat_to_string n) = Some (Some a) \<and>
    IPv4Address_isWildcard a \<and> IPv4Address_port a = of_nat n \<and> unat (IPv4Address_port a) = n mod 65536"
proof -
  have "in_range 32 (parse_int (nat_to_string n)) = Some (int n)" using assms(3) by (simp add: parse_nat in_range_def)
  then have "IPv4Address_parse pton (ip @ '':'' @ nat_to_string n) = Some (Some (IPv4Address_of pton ip (of_nat n)))"
    unfolding parse_split[OF assms(1)] by simp
  moreover have "unat (of_nat n :: uint16) = n mod 65536" by (simp add: unat_of_nat)
  ultimately show ?thesis
    using assms(2) by (simp add: IPv4Address_of_def IPv4Address_isWildcard_def IPv4Address_port_def)
qed

theorem parse_accepts_bad_input_witness:
  "\<exists>a. IPv4Address_parse undotted (''server'' @ '':'' @ nat_to_string 65616) = Some (Some a) \<and>
     IPv4Address_isWildcard a \<and> unat (IPv4Address_port a) = 80"
proof -
  have "undotted ''server'' = None" by (simp add: undotted_def octet_def is_digit_def)
  then show ?thesis using parse_accepts_bad_input[of "''server''" undotted 65616] by auto
qed

subsection \<open>Private networks\<close>

text \<open>The first and the last address of a block, in host order.\<close>

definition octets :: "nat \<Rightarrow> nat \<Rightarrow> nat \<Rightarrow> nat \<Rightarrow> nat" where
  "octets a b c d = ((a * 256 + b) * 256 + c) * 256 + d"

lemma drop_bit_unat: "drop_bit n w = c \<longleftrightarrow> unat w div 2 ^ n = unat c" for w c :: uint32
  by (metis unat_drop_bit_eq drop_bit_eq_div word_unat_eq_iff)

text \<open>The tests on the high bits are exactly the three blocks of private addresses and the loopback block.\<close>

theorem isPrivateNetwork_blocks:
  "(IPv4Address_isPrivateNetwork a \<longleftrightarrow>
     (let n = unat (ntohl (sin_addr a)) in
      octets 10 0 0 0 \<le> n \<and> n \<le> octets 10 255 255 255 \<or>
      octets 172 16 0 0 \<le> n \<and> n \<le> octets 172 31 255 255 \<or>
      octets 192 168 0 0 \<le> n \<and> n \<le> octets 192 168 255 255)) \<and>
   (IPv4Address_isLoopback a \<longleftrightarrow>
     (let n = unat (ntohl (sin_addr a)) in octets 127 0 0 0 \<le> n \<and> n \<le> octets 127 255 255 255))"
proof -
  have d: "n div 2 ^ 24 = 10 \<longleftrightarrow> 167772160 \<le> n \<and> n \<le> 184549375" "n div 2 ^ 20 = 2753 \<longleftrightarrow> 2886729728 \<le> n \<and> n \<le> 2887778303"
    "n div 2 ^ 16 = 49320 \<longleftrightarrow> 3232235520 \<le> n \<and> n \<le> 3232301055" "n div 2 ^ 24 = 127 \<longleftrightarrow> 2130706432 \<le> n \<and> n \<le> 2147483647"
    for n :: nat by auto
  show ?thesis
    by (simp add: IPv4Address_isPrivateNetwork_def IPv4Address_isLoopback_def Let_def drop_bit_unat octets_def
        d[simplified])
qed

end
