(* ===== verification/Reactor.thy ===== *)
theory Reactor
  imports Prelude "HOL-Library.Monad_Syntax"
begin

text \<open>
  \<^verbatim>\<open>src/core/reactor\<close>: channels, the poller over \<^verbatim>\<open>epoll\<close>, and the
  event loop. The kernel is outside: the poller's model is the sequence of
  \<^verbatim>\<open>epoll_ctl\<close> calls it makes (their results are ignored by the code), and what
  \<^verbatim>\<open>epoll_wait\<close> reports is an argument. A \<open>Channel*\<close> is an index into the store
  \<open>ch_heap\<close>. \<open>None\<close> is a failed assertion.
\<close>

subsection \<open>\<^verbatim>\<open>Channel\<close>\<close>

definition EPOLLIN :: uint32 where "EPOLLIN = 0x001"
definition EPOLLPRI :: uint32 where "EPOLLPRI = 0x002"
definition EPOLLOUT :: uint32 where "EPOLLOUT = 0x004"
definition EPOLLERR :: uint32 where "EPOLLERR = 0x008"
definition EPOLLHUP :: uint32 where "EPOLLHUP = 0x010"
definition EPOLLRDHUP :: uint32 where "EPOLLRDHUP = 0x2000"

definition kNoneEvent :: uint32 where "kNoneEvent = 0"
definition kReadEvent :: uint32 where "kReadEvent = EPOLLIN OR EPOLLPRI"
definition kWriteEvent :: uint32 where "kWriteEvent = EPOLLOUT"

lemmas event_bits = EPOLLIN_def EPOLLPRI_def EPOLLOUT_def EPOLLERR_def EPOLLHUP_def EPOLLRDHUP_def
  kNoneEvent_def kReadEvent_def kWriteEvent_def

record channel =
  ch_fd :: int
  ch_events :: uint32
  ch_index :: int
  addedToLoop :: bool

definition Channel_new :: "int \<Rightarrow> channel" where
  "Channel_new fd = \<lparr>ch_fd = fd, ch_events = 0, ch_index = - 1, addedToLoop = False\<rparr>"

definition Channel_isReading :: "channel \<Rightarrow> bool" where
  "Channel_isReading c \<longleftrightarrow> ch_events c AND kReadEvent \<noteq> 0"

definition Channel_isWriting :: "channel \<Rightarrow> bool" where
  "Channel_isWriting c \<longleftrightarrow> ch_events c AND kWriteEvent \<noteq> 0"

definition Channel_isNoneEvent :: "channel \<Rightarrow> bool" where
  "Channel_isNoneEvent c \<longleftrightarrow> ch_events c = kNoneEvent"

text \<open>
  The callbacks an event makes the channel call, in order; \<open>has\<close> tells which are installed.
\<close>

datatype callback = CloseCallback | ErrorCallback | ReadCallback | WriteCallback

definition Channel_handleEventWithGuard :: "(callback \<Rightarrow> bool) \<Rightarrow> uint32 \<Rightarrow> callback list" where
  "Channel_handleEventWithGuard has revents =
     (if revents AND EPOLLHUP \<noteq> 0 \<and> revents AND EPOLLIN = 0 then (if has CloseCallback then [CloseCallback] else []) else []) @
     (if revents AND EPOLLERR \<noteq> 0 then (if has ErrorCallback then [ErrorCallback] else []) else []) @
     (if revents AND (EPOLLIN OR EPOLLPRI OR EPOLLRDHUP) \<noteq> 0 then (if has ReadCallback then [ReadCallback] else []) else []) @
     (if revents AND EPOLLOUT \<noteq> 0 then (if has WriteCallback then [WriteCallback] else []) else [])"

definition Channel_handleEvent :: "bool \<Rightarrow> bool \<Rightarrow> (callback \<Rightarrow> bool) \<Rightarrow> uint32 \<Rightarrow> callback list" where
  "Channel_handleEvent tied owner_alive has revents =
     (if tied then (if owner_alive then Channel_handleEventWithGuard has revents else [])
      else Channel_handleEventWithGuard has revents)"

subsection \<open>\<^verbatim>\<open>EpollPoller\<close>\<close>

datatype epoll_op = EPOLL_CTL_ADD | EPOLL_CTL_MOD | EPOLL_CTL_DEL

type_synonym epoll_call = "epoll_op \<times> int \<times> uint32 \<times> nat"

record poller =
  ch_heap :: "channel list"
  poll_channels :: "int \<rightharpoonup> nat"
  ctl_calls :: "epoll_call list"
  event_list_size :: nat

definition kNew :: int where "kNew = - 1"
definition kAdded :: int where "kAdded = 1"
definition kDeleted :: int where "kDeleted = 2"
definition kInitEventListSize :: nat where "kInitEventListSize = 16"

lemmas index_states = kNew_def kAdded_def kDeleted_def

definition EpollPoller_new :: poller where
  "EpollPoller_new = \<lparr>ch_heap = [], poll_channels = Map.empty, ctl_calls = [], event_list_size = kInitEventListSize\<rparr>"

definition chan :: "poller \<Rightarrow> nat \<Rightarrow> channel" where
  "chan p c = ch_heap p ! c"

definition set_chan :: "nat \<Rightarrow> channel \<Rightarrow> poller \<Rightarrow> poller" where
  "set_chan c x p = p\<lparr>ch_heap := (ch_heap p)[c := x]\<rparr>"

definition EpollPoller_update :: "epoll_op \<Rightarrow> nat \<Rightarrow> poller \<Rightarrow> poller" where
  "EpollPoller_update op c p = p\<lparr>ctl_calls := ctl_calls p @ [(op, ch_fd (chan p c), ch_events (chan p c), c)]\<rparr>"

definition Channel_setIndex :: "nat \<Rightarrow> int \<Rightarrow> poller \<Rightarrow> poller" where
  "Channel_setIndex c i p = set_chan c ((chan p c)\<lparr>ch_index := i\<rparr>) p"

definition EpollPoller_updateChannel :: "nat \<Rightarrow> poller \<Rightarrow> poller" where
  "EpollPoller_updateChannel c p =
     (let index = ch_index (chan p c) in
      if index = kNew \<or> index = kDeleted
      then (let p = (if index = kNew then p\<lparr>poll_channels := (poll_channels p)(ch_fd (chan p c) \<mapsto> c)\<rparr> else p);
                p = Channel_setIndex c kAdded p
            in EpollPoller_update EPOLL_CTL_ADD c p)
      else if Channel_isNoneEvent (chan p c)
      then Channel_setIndex c kDeleted (EpollPoller_update EPOLL_CTL_DEL c p)
      else EpollPoller_update EPOLL_CTL_MOD c p)"

definition EpollPoller_removeChannel :: "nat \<Rightarrow> poller \<Rightarrow> poller" where
  "EpollPoller_removeChannel c p =
     (let fd = ch_fd (chan p c);
          p = p\<lparr>poll_channels := (poll_channels p)(fd := None)\<rparr>;
          p = (if ch_index (chan p c) = kAdded then EpollPoller_update EPOLL_CTL_DEL c p else p)
      in Channel_setIndex c kNew p)"

definition EpollPoller_hasChannel :: "nat \<Rightarrow> poller \<Rightarrow> bool" where
  "EpollPoller_hasChannel c p \<longleftrightarrow> poll_channels p (ch_fd (chan p c)) = Some c"

text \<open>What \<open>poll\<close> does with the events reported: the active channels, and a longer list after a full one.\<close>

definition EpollPoller_fillActiveChannels :: "(uint32 \<times> nat) list \<Rightarrow> (uint32 \<times> nat) list" where
  "EpollPoller_fillActiveChannels evs = map (\<lambda>(revents, c). (revents, c)) evs"

definition EpollPoller_poll :: "(uint32 \<times> nat) list \<Rightarrow> poller \<Rightarrow> (uint32 \<times> nat) list \<times> poller" where
  "EpollPoller_poll evs p =
     (if evs \<noteq> []
      then (EpollPoller_fillActiveChannels evs,
            if length evs = event_list_size p then p\<lparr>event_list_size := event_list_size p * 2\<rparr> else p)
      else ([], p))"

subsection \<open>Channels in their loop\<close>

definition Channel_update :: "nat \<Rightarrow> poller \<Rightarrow> poller" where
  "Channel_update c p = EpollPoller_updateChannel c (set_chan c ((chan p c)\<lparr>addedToLoop := True\<rparr>) p)"

definition set_events :: "nat \<Rightarrow> uint32 \<Rightarrow> poller \<Rightarrow> poller" where
  "set_events c ev p = set_chan c ((chan p c)\<lparr>ch_events := ev\<rparr>) p"

definition Channel_enableReading :: "nat \<Rightarrow> poller \<Rightarrow> poller" where
  "Channel_enableReading c p = Channel_update c (set_events c (ch_events (chan p c) OR kReadEvent) p)"

definition Channel_disableReading :: "nat \<Rightarrow> poller \<Rightarrow> poller" where
  "Channel_disableReading c p = Channel_update c (set_events c (ch_events (chan p c) AND NOT kReadEvent) p)"

definition Channel_enableWriting :: "nat \<Rightarrow> poller \<Rightarrow> poller" where
  "Channel_enableWriting c p = Channel_update c (set_events c (ch_events (chan p c) OR kWriteEvent) p)"

definition Channel_disableWriting :: "nat \<Rightarrow> poller \<Rightarrow> poller" where
  "Channel_disableWriting c p = Channel_update c (set_events c (ch_events (chan p c) AND NOT kWriteEvent) p)"

definition Channel_disableAll :: "nat \<Rightarrow> poller \<Rightarrow> poller" where
  "Channel_disableAll c p = Channel_update c (set_events c kNoneEvent p)"

definition Channel_remove :: "nat \<Rightarrow> poller \<Rightarrow> poller option" where
  "Channel_remove c p =
     (if \<not> Channel_isNoneEvent (chan p c) then None
      else Some (EpollPoller_removeChannel c (set_chan c ((chan p c)\<lparr>addedToLoop := False\<rparr>) p)))"

subsection \<open>What the kernel watches\<close>

text \<open>
  The interest list as the manual of \<^verbatim>\<open>epoll_ctl\<close> describes it: adding a descriptor
  that is there, or changing or deleting one that is not, fails.
\<close>

type_synonym interest = "int \<rightharpoonup> uint32 \<times> nat"

fun ctl_step :: "epoll_call \<Rightarrow> interest \<Rightarrow> interest option" where
  "ctl_step (EPOLL_CTL_ADD, fd, ev, c) I = (if I fd = None then Some (I(fd \<mapsto> (ev, c))) else None)"
| "ctl_step (EPOLL_CTL_MOD, fd, ev, c) I = (if I fd = None then None else Some (I(fd \<mapsto> (ev, c))))"
| "ctl_step (EPOLL_CTL_DEL, fd, ev, c) I = (if I fd = None then None else Some (I(fd := None)))"

fun ctl_run :: "epoll_call list \<Rightarrow> interest \<Rightarrow> interest option" where
  "ctl_run [] I = Some I"
| "ctl_run (x # xs) I = do { I' \<leftarrow> ctl_step x I; ctl_run xs I' }"

lemma ctl_run_append: "ctl_run (xs @ ys) I = do { I' \<leftarrow> ctl_run xs I; ctl_run ys I' }"
proof (induction xs arbitrary: I)
  case (Cons x xs)
  then show ?case by (cases "ctl_step x I") simp_all
qed simp

text \<open>Which channel the poller's own state says is watched, and for what.\<close>

definition watched :: "poller \<Rightarrow> interest" where
  "watched p fd = (case poll_channels p fd of
       Some c \<Rightarrow> if ch_index (chan p c) = kAdded then Some (ch_events (chan p c), c) else None
     | None \<Rightarrow> None)"

definition poller_inv :: "poller \<Rightarrow> bool" where
  "poller_inv p \<longleftrightarrow>
     (\<forall>fd c. poll_channels p fd = Some c \<longrightarrow> c < length (ch_heap p) \<and> ch_fd (chan p c) = fd \<and> ch_index (chan p c) \<noteq> kNew) \<and>
     (\<forall>c < length (ch_heap p). ch_index (chan p c) \<in> {kNew, kAdded, kDeleted} \<and>
        (ch_index (chan p c) \<noteq> kNew \<longrightarrow> poll_channels p (ch_fd (chan p c)) = Some c))"

lemma poller_invD:
  assumes "poller_inv p"
  shows "poll_channels p fd = Some c \<Longrightarrow> c < length (ch_heap p) \<and> ch_fd (chan p c) = fd \<and> ch_index (chan p c) \<noteq> kNew"
    and "c < length (ch_heap p) \<Longrightarrow> ch_index (chan p c) \<in> {kNew, kAdded, kDeleted}"
    and "c < length (ch_heap p) \<Longrightarrow> ch_index (chan p c) \<noteq> kNew \<Longrightarrow> poll_channels p (ch_fd (chan p c)) = Some c"
  using assms unfolding poller_inv_def by blast+

definition poller_ok :: "poller \<Rightarrow> bool" where
  "poller_ok p \<longleftrightarrow> poller_inv p \<and> ctl_run (ctl_calls p) Map.empty = Some (watched p)"

lemma chan_set [simp]:
  "c < length (ch_heap p) \<Longrightarrow> chan (set_chan c x p) d = (if d = c then x else chan p d)"
  "length (ch_heap (set_chan c x p)) = length (ch_heap p)" "poll_channels (set_chan c x p) = poll_channels p"
  "ctl_calls (set_chan c x p) = ctl_calls p"
  by (auto simp: chan_def set_chan_def nth_list_update)

lemma chan_update [simp]:
  "chan (p\<lparr>poll_channels := m\<rparr>) c = chan p c" "chan (p\<lparr>ctl_calls := ks\<rparr>) c = chan p c"
  "set_chan c x (p\<lparr>poll_channels := m\<rparr>) = (set_chan c x p)\<lparr>poll_channels := m\<rparr>"
  "set_chan c x (p\<lparr>ctl_calls := ks\<rparr>) = (set_chan c x p)\<lparr>ctl_calls := ks\<rparr>"
  by (simp_all add: chan_def set_chan_def)

text \<open>A channel may be used while its descriptor belongs to no other channel of the poller.\<close>

definition usable :: "poller \<Rightarrow> nat \<Rightarrow> bool" where
  "usable p c \<longleftrightarrow> c < length (ch_heap p) \<and> poll_channels p (ch_fd (chan p c)) \<in> {None, Some c}"

lemma set_chan_twice [simp]: "set_chan c x (set_chan c y p) = set_chan c x p"
  by (simp add: set_chan_def)

lemmas poller_defs = EpollPoller_updateChannel_def EpollPoller_removeChannel_def EpollPoller_update_def
  Channel_setIndex_def Channel_update_def set_events_def Channel_isNoneEvent_def Let_def

text \<open>One update of a channel's events: the call made and the state reached, by the channel's index.\<close>

definition with_events :: "nat \<Rightarrow> uint32 \<Rightarrow> int \<Rightarrow> poller \<Rightarrow> channel" where
  "with_events c ev i p = (chan p c)\<lparr>ch_events := ev, addedToLoop := True, ch_index := i\<rparr>"

lemma Channel_update_cases:
  assumes "c < length (ch_heap p)" "ch_index (chan p c) \<in> {kNew, kAdded, kDeleted}"
  obtains (add_new) "ch_index (chan p c) = kNew" "Channel_update c (set_events c ev p) =
      (set_chan c (with_events c ev kAdded p) p)\<lparr>poll_channels := (poll_channels p)(ch_fd (chan p c) \<mapsto> c),
         ctl_calls := ctl_calls p @ [(EPOLL_CTL_ADD, ch_fd (chan p c), ev, c)]\<rparr>"
  | (add_again) "ch_index (chan p c) = kDeleted" "Channel_update c (set_events c ev p) =
      (set_chan c (with_events c ev kAdded p) p)\<lparr>ctl_calls := ctl_calls p @ [(EPOLL_CTL_ADD, ch_fd (chan p c), ev, c)]\<rparr>"
  | (delete) "ch_index (chan p c) = kAdded" "ev = kNoneEvent" "Channel_update c (set_events c ev p) =
      (set_chan c (with_events c ev kDeleted p) p)\<lparr>ctl_calls := ctl_calls p @ [(EPOLL_CTL_DEL, ch_fd (chan p c), ev, c)]\<rparr>"
  | (modify) "ch_index (chan p c) = kAdded" "ev \<noteq> kNoneEvent" "Channel_update c (set_events c ev p) =
      (set_chan c (with_events c ev kAdded p) p)\<lparr>ctl_calls := ctl_calls p @ [(EPOLL_CTL_MOD, ch_fd (chan p c), ev, c)]\<rparr>"
proof -
  have "x\<lparr>ch_events := ev, addedToLoop := True\<rparr> = x\<lparr>ch_events := ev, addedToLoop := True, ch_index := 1\<rparr>"
    if "ch_index x = 1" for x :: channel using that by (cases x) simp
  note flag = this[symmetric]
  show thesis
    using assms add_new add_again delete modify
    by (cases "ch_index (chan p c) = kAdded"; cases "ev = kNoneEvent")
      (auto simp: poller_defs with_events_def index_states flag)
qed

lemma with_events_simps [simp]:
  "ch_fd (with_events c ev i p) = ch_fd (chan p c)" "ch_events (with_events c ev i p) = ev"
  "ch_index (with_events c ev i p) = i"
  by (simp_all add: with_events_def)

lemma poller_inv_set:
  assumes inv: "poller_inv p" and use: "usable p c"
    and x: "ch_fd x = ch_fd (chan p c)" "ch_index x \<in> {kAdded, kDeleted}"
    and q: "q = (set_chan c x p)\<lparr>poll_channels := (poll_channels p)(ch_fd x \<mapsto> c), ctl_calls := k\<rparr>"
  shows "poller_inv q"
    and "watched q = (watched p)(ch_fd x := if ch_index x = kAdded then Some (ch_events x, c) else None)"
proof -
  have c: "c < length (ch_heap p)" using use by (simp add: usable_def)
  have ch: "chan q d = (if d = c then x else chan p d)" for d using c by (simp add: q)
  have len: "length (ch_heap q) = length (ch_heap p)" by (simp add: q)
  have pc: "poll_channels q fd = (if fd = ch_fd x then Some c else poll_channels p fd)" for fd by (simp add: q)
  have other: "ch_fd (chan p d) \<noteq> ch_fd x" if "d < length (ch_heap p)" "d \<noteq> c" "ch_index (chan p d) \<noteq> kNew" for d
    using inv use that unfolding poller_inv_def usable_def x(1) by (metis insertE option.inject option.simps(3) singletonD)
  show "poller_inv q"
    unfolding poller_inv_def
  proof (intro conjI allI impI)
    fix fd d assume d: "poll_channels q fd = Some d"
    show "d < length (ch_heap q)" "ch_fd (chan q d) = fd" "ch_index (chan q d) \<noteq> kNew"
      using d inv c x by (auto simp: pc ch len poller_inv_def index_states split: if_splits)
  next
    fix d assume d: "d < length (ch_heap q)"
    show "ch_index (chan q d) \<in> {kNew, kAdded, kDeleted}" using d inv x(2) by (auto simp: ch len poller_inv_def)
    assume "ch_index (chan q d) \<noteq> kNew"
    then show "poll_channels q (ch_fd (chan q d)) = Some d" using d inv other[of d] by (auto simp: ch pc len poller_inv_def)
  qed
  have "chan q d = chan p d" if "poll_channels p fd = Some d" "fd \<noteq> ch_fd x" for fd d
    using inv that x(1) by (auto simp: ch poller_inv_def)
  then show "watched q = (watched p)(ch_fd x := if ch_index x = kAdded then Some (ch_events x, c) else None)"
    by (auto simp: watched_def fun_eq_iff pc ch split: option.splits)
qed

lemma same_channels [simp]: "(set_chan c x p)\<lparr>poll_channels := poll_channels p, ctl_calls := k\<rparr> = (set_chan c x p)\<lparr>ctl_calls := k\<rparr>"
  by (cases p) (simp add: set_chan_def)

lemma poller_ok_update:
  assumes ok: "poller_ok p" and use: "usable p c"
  shows "poller_ok (Channel_update c (set_events c ev p))"
proof -
  have c: "c < length (ch_heap p)" using use by (simp add: usable_def)
  have inv: "poller_inv p" and run: "ctl_run (ctl_calls p) Map.empty = Some (watched p)"
    using ok by (simp_all add: poller_ok_def)
  have i: "ch_index (chan p c) \<in> {kNew, kAdded, kDeleted}" using inv c by (simp add: poller_inv_def)
  let ?fd = "ch_fd (chan p c)"
  have same: "(poll_channels p)(?fd \<mapsto> c) = poll_channels p" if "ch_index (chan p c) \<noteq> kNew"
    using inv c that by (simp add: poller_inv_def fun_upd_idem)
  have fresh: "poll_channels p ?fd = None" if "ch_index (chan p c) = kNew"
    using inv use that by (auto simp: usable_def poller_inv_def)
  have step: "poller_ok ((set_chan c (with_events c ev j p) p)\<lparr>poll_channels := (poll_channels p)(?fd \<mapsto> c),
      ctl_calls := ctl_calls p @ [k]\<rparr>)"
    if j: "j \<in> {kAdded, kDeleted}"
      and k: "ctl_step k (watched p) = Some ((watched p)(?fd := if j = kAdded then Some (ev, c) else None))" for j k
    using poller_inv_set[OF inv use, of "with_events c ev j p" _ "ctl_calls p @ [k]"] j k run
    by (simp add: poller_ok_def ctl_run_append)
  from c i show ?thesis
  proof (cases rule: Channel_update_cases[where ev = ev])
    case add_new
    then show ?thesis using step[of kAdded "(EPOLL_CTL_ADD, ?fd, ev, c)"] fresh by (simp add: watched_def)
  next
    case add_again
    then show ?thesis using step[of kAdded "(EPOLL_CTL_ADD, ?fd, ev, c)"] same inv c
      by (simp add: watched_def poller_inv_def index_states)
  next
    case delete
    then show ?thesis using step[of kDeleted "(EPOLL_CTL_DEL, ?fd, ev, c)"] same inv c
      by (simp add: watched_def poller_inv_def index_states)
  next
    case modify
    then show ?thesis using step[of kAdded "(EPOLL_CTL_MOD, ?fd, ev, c)"] same inv c
      by (simp add: watched_def poller_inv_def index_states)
  qed
qed

lemma removeChannel_eq:
  assumes "c < length (ch_heap p)"
  shows "EpollPoller_removeChannel c (set_chan c ((chan p c)\<lparr>addedToLoop := False\<rparr>) p) =
    (set_chan c ((chan p c)\<lparr>addedToLoop := False, ch_index := kNew\<rparr>) p)
      \<lparr>poll_channels := (poll_channels p)(ch_fd (chan p c) := None),
       ctl_calls := ctl_calls p @ (if ch_index (chan p c) = kAdded
         then [(EPOLL_CTL_DEL, ch_fd (chan p c), ch_events (chan p c), c)] else [])\<rparr>"
  using assms
  by (cases p) (simp add: EpollPoller_removeChannel_def EpollPoller_update_def Channel_setIndex_def Let_def
      set_chan_def chan_def)

lemma poller_ok_remove:
  assumes ok: "poller_ok p" and use: "usable p c" and r: "Channel_remove c p = Some q"
  shows "poller_ok q"
proof -
  have c: "c < length (ch_heap p)" using use by (simp add: usable_def)
  have inv: "poller_inv p" and run: "ctl_run (ctl_calls p) Map.empty = Some (watched p)"
    using ok by (simp_all add: poller_ok_def)
  let ?fd = "ch_fd (chan p c)" and ?x = "(chan p c)\<lparr>addedToLoop := False, ch_index := kNew\<rparr>"
  let ?calls = "if ch_index (chan p c) = kAdded then [(EPOLL_CTL_DEL, ?fd, ch_events (chan p c), c)] else []"
  have "q = EpollPoller_removeChannel c (set_chan c ((chan p c)\<lparr>addedToLoop := False\<rparr>) p)"
    using r by (simp add: Channel_remove_def split: if_splits)
  then have q: "q = (set_chan c ?x p)\<lparr>poll_channels := (poll_channels p)(?fd := None), ctl_calls := ctl_calls p @ ?calls\<rparr>"
    unfolding removeChannel_eq[OF c] .
  have ch: "chan q d = (if d = c then ?x else chan p d)" for d using c by (simp add: q)
  have pc: "poll_channels q fd = (if fd = ?fd then None else poll_channels p fd)" for fd by (simp add: q)
  have len: "length (ch_heap q) = length (ch_heap p)" by (simp add: q)
  have other: "ch_fd (chan p d) \<noteq> ?fd" if "d < length (ch_heap p)" "d \<noteq> c" "ch_index (chan p d) \<noteq> kNew" for d
    using inv use that unfolding poller_inv_def usable_def by (metis insertE option.inject option.simps(3) singletonD)
  have "poller_inv q"
    unfolding poller_inv_def
  proof (intro conjI allI impI)
    fix fd d assume d: "poll_channels q fd = Some d"
    show "d < length (ch_heap q)" "ch_fd (chan q d) = fd" "ch_index (chan q d) \<noteq> kNew"
      using d inv c by (auto simp: pc ch len poller_inv_def split: if_splits)
  next
    fix d assume d: "d < length (ch_heap q)"
    show "ch_index (chan q d) \<in> {kNew, kAdded, kDeleted}" using d inv by (auto simp: ch len poller_inv_def)
    assume "ch_index (chan q d) \<noteq> kNew"
    then show "poll_channels q (ch_fd (chan q d)) = Some d" using d inv other[of d] by (auto simp: ch pc len poller_inv_def split: if_splits)
  qed
  moreover have "watched q = (watched p)(?fd := None)"
  proof -
    have "chan q d = chan p d" if "poll_channels p fd = Some d" "fd \<noteq> ?fd" for fd d
      using inv that by (auto simp: ch poller_inv_def)
    then show ?thesis by (auto simp: watched_def fun_eq_iff pc split: option.splits)
  qed
  moreover have "ctl_calls q = ctl_calls p @ ?calls" by (simp add: q)
  moreover have "watched p ?fd = (if ch_index (chan p c) = kAdded then Some (ch_events (chan p c), c) else None)"
  proof (cases "poll_channels p ?fd")
    case None
    then have "ch_index (chan p c) = kNew" using poller_invD(3)[OF inv c] by fastforce
    then show ?thesis using None by (simp add: watched_def index_states)
  next
    case (Some d)
    then have "d = c" using use by (simp add: usable_def)
    then show ?thesis using Some by (simp add: watched_def)
  qed
  ultimately show ?thesis using run unfolding poller_ok_def
    by (cases "ch_index (chan p c) = kAdded") (simp_all add: ctl_run_append fun_upd_idem)
qed

text \<open>
  The states a poller reaches: channels are made, switched and removed by their owners.
\<close>

inductive poller_reach :: "poller \<Rightarrow> bool" where
  po_init: "poller_reach EpollPoller_new"
| po_new: "poller_reach p \<Longrightarrow> poller_reach (p\<lparr>ch_heap := ch_heap p @ [Channel_new fd]\<rparr>)"
| po_read: "poller_reach p \<Longrightarrow> usable p c \<Longrightarrow> poller_reach (Channel_enableReading c p)"
| po_noread: "poller_reach p \<Longrightarrow> usable p c \<Longrightarrow> poller_reach (Channel_disableReading c p)"
| po_write: "poller_reach p \<Longrightarrow> usable p c \<Longrightarrow> poller_reach (Channel_enableWriting c p)"
| po_nowrite: "poller_reach p \<Longrightarrow> usable p c \<Longrightarrow> poller_reach (Channel_disableWriting c p)"
| po_none: "poller_reach p \<Longrightarrow> usable p c \<Longrightarrow> poller_reach (Channel_disableAll c p)"
| po_remove: "poller_reach p \<Longrightarrow> usable p c \<Longrightarrow> Channel_remove c p = Some q \<Longrightarrow> poller_reach q"
| po_poll: "poller_reach p \<Longrightarrow> poller_reach (snd (EpollPoller_poll evs p))"

inductive_cases poller_reachE: "poller_reach p"

lemma poller_ok_new_channel: "poller_ok p \<Longrightarrow> poller_ok (p\<lparr>ch_heap := ch_heap p @ [Channel_new fd]\<rparr>)"
proof -
  assume ok: "poller_ok p"
  let ?q = "p\<lparr>ch_heap := ch_heap p @ [Channel_new fd]\<rparr>"
  have old: "chan ?q c = chan p c" if "c < length (ch_heap p)" for c using that by (simp add: chan_def nth_append)
  have new: "chan ?q (length (ch_heap p)) = Channel_new fd" by (simp add: chan_def)
  have lt: "c < length (ch_heap p)" if "poll_channels p fd = Some c" for fd c
    using ok that by (simp add: poller_ok_def poller_inv_def)
  have "watched ?q = watched p" using lt old by (auto simp: watched_def fun_eq_iff split: option.splits)
  moreover have "poller_inv ?q"
    using ok old new lt by (auto simp: poller_ok_def poller_inv_def less_Suc_eq Channel_new_def index_states)
  ultimately show ?thesis using ok by (simp add: poller_ok_def)
qed

lemma event_list_frame [simp]: "chan (p\<lparr>event_list_size := n\<rparr>) = chan p" "watched (p\<lparr>event_list_size := n\<rparr>) = watched p"
  by (auto simp: chan_def watched_def fun_eq_iff split: option.splits)

lemma poller_ok_poll: "poller_ok p \<Longrightarrow> poller_ok (snd (EpollPoller_poll evs p))"
  by (simp add: EpollPoller_poll_def poller_ok_def poller_inv_def)

lemma poller_reach_ok: "poller_reach p \<Longrightarrow> poller_ok p"
proof (induction rule: poller_reach.induct)
  case po_init
  then show ?case by (simp add: poller_ok_def poller_inv_def EpollPoller_new_def watched_def fun_eq_iff)
qed (simp_all add: poller_ok_new_channel poller_ok_poll Channel_enableReading_def Channel_disableReading_def
    Channel_enableWriting_def Channel_disableWriting_def Channel_disableAll_def poller_ok_update poller_ok_remove)


definition one_channel :: poller where
  "one_channel = EpollPoller_new\<lparr>ch_heap := [Channel_new 7]\<rparr>"

lemma one_channel_reach: "poller_reach one_channel" "usable one_channel 0"
  using po_new[OF po_init, of 7] by (simp_all add: one_channel_def EpollPoller_new_def usable_def)


subsection \<open>\<^verbatim>\<open>EventLoop\<close>\<close>

text \<open>
  A functor is a callback with a name and what it does to the loop when it runs: the functors
  it queues in turn, and whether it calls \<open>quit\<close>. \<open>in_loop\<close> tells whether the caller is
  the loop's thread. \<open>wakeups\<close> is the counter of the \<^verbatim>\<open>eventfd\<close>: while it is not
  zero, the next \<^verbatim>\<open>epoll_wait\<close> returns at once. \<open>ran\<close> records the names of the
  callbacks that have run.
\<close>

datatype loop_functor = Functor (fn_name: nat) (fn_queues: "loop_functor list") (fn_quits: bool)

record event_loop =
  looping :: bool
  quit_flag :: bool
  callingPendingFunctors :: bool
  pendingFunctors :: "loop_functor list"
  wakeups :: nat
  iteration :: nat
  ran :: "nat list"

definition EventLoop_new :: event_loop where
  "EventLoop_new = \<lparr>looping = False, quit_flag = False, callingPendingFunctors = False, pendingFunctors = [],
     wakeups = 0, iteration = 0, ran = []\<rparr>"

definition EventLoop_wakeup :: "event_loop \<Rightarrow> event_loop" where
  "EventLoop_wakeup l = l\<lparr>wakeups := wakeups l + 1\<rparr>"

definition EventLoop_handleRead :: "event_loop \<Rightarrow> event_loop" where
  "EventLoop_handleRead l = l\<lparr>wakeups := 0\<rparr>"

definition EventLoop_queueInLoop :: "bool \<Rightarrow> loop_functor \<Rightarrow> event_loop \<Rightarrow> event_loop" where
  "EventLoop_queueInLoop in_loop f l =
     (let l = l\<lparr>pendingFunctors := pendingFunctors l @ [f]\<rparr>
      in if \<not> in_loop \<or> callingPendingFunctors l then EventLoop_wakeup l else l)"

definition EventLoop_quit :: "bool \<Rightarrow> event_loop \<Rightarrow> event_loop" where
  "EventLoop_quit in_loop l =
     (let l = l\<lparr>quit_flag := True\<rparr> in if \<not> in_loop then EventLoop_wakeup l else l)"

definition call_functor :: "loop_functor \<Rightarrow> event_loop \<Rightarrow> event_loop" where
  "call_functor f l =
     (let l = l\<lparr>ran := ran l @ [fn_name f]\<rparr>;
          l = fold (EventLoop_queueInLoop True) (fn_queues f) l
      in if fn_quits f then EventLoop_quit True l else l)"

definition EventLoop_runInLoop :: "bool \<Rightarrow> loop_functor \<Rightarrow> event_loop \<Rightarrow> event_loop" where
  "EventLoop_runInLoop in_loop f l = (if in_loop then call_functor f l else EventLoop_queueInLoop False f l)"

definition EventLoop_doPendingFunctors :: "event_loop \<Rightarrow> event_loop" where
  "EventLoop_doPendingFunctors l =
     (let l = l\<lparr>callingPendingFunctors := True\<rparr>;
          functors = pendingFunctors l;
          l = l\<lparr>pendingFunctors := []\<rparr>;
          l = fold call_functor functors l
      in l\<lparr>callingPendingFunctors := False\<rparr>)"

text \<open>
  One pass of the loop: the wake-up descriptor if it is ready, the callbacks \<open>events\<close> of the
  other active channels, the pending functors, the callbacks \<open>timers\<close> that are due.
\<close>

definition EventLoop_pass :: "loop_functor list \<Rightarrow> loop_functor list \<Rightarrow> event_loop \<Rightarrow> event_loop" where
  "EventLoop_pass events timers l =
     (let l = l\<lparr>iteration := iteration l + 1\<rparr>;
          l = (if 0 < wakeups l then EventLoop_handleRead l else l);
          l = fold call_functor events l;
          l = EventLoop_doPendingFunctors l
      in fold call_functor timers l)"

text \<open>The loop over what each wait reports, until a pass has set the flag or the reports end.\<close>

fun EventLoop_passes :: "(loop_functor list \<times> loop_functor list) list \<Rightarrow> event_loop \<Rightarrow> event_loop" where
  "EventLoop_passes [] l = l"
| "EventLoop_passes ((events, timers) # reports) l =
     (if quit_flag l then l else EventLoop_passes reports (EventLoop_pass events timers l))"

definition EventLoop_loop :: "(loop_functor list \<times> loop_functor list) list \<Rightarrow> event_loop \<Rightarrow> event_loop option" where
  "EventLoop_loop reports l =
     (if looping l then None
      else Some ((EventLoop_passes reports (l\<lparr>looping := True, quit_flag := False\<rparr>))\<lparr>looping := False\<rparr>))"

lemmas loop_defs = EventLoop_queueInLoop_def EventLoop_wakeup_def EventLoop_quit_def EventLoop_handleRead_def

lemma queue_all:
  "fold (EventLoop_queueInLoop True) fs l =
     l\<lparr>pendingFunctors := pendingFunctors l @ fs,
       wakeups := wakeups l + (if callingPendingFunctors l then length fs else 0)\<rparr>"
  by (induction fs arbitrary: l) (simp_all add: loop_defs)

lemma call_all:
  "fold call_functor fs l =
     l\<lparr>ran := ran l @ map fn_name fs, pendingFunctors := pendingFunctors l @ concat (map fn_queues fs),
       wakeups := wakeups l + (if callingPendingFunctors l then length (concat (map fn_queues fs)) else 0),
       quit_flag := quit_flag l \<or> list_ex fn_quits fs\<rparr>"
  by (induction fs arbitrary: l) (simp_all add: call_functor_def queue_all loop_defs Let_def)

lemma doPendingFunctors_eq:
  "EventLoop_doPendingFunctors l =
     l\<lparr>callingPendingFunctors := False, ran := ran l @ map fn_name (pendingFunctors l),
       pendingFunctors := concat (map fn_queues (pendingFunctors l)),
       wakeups := wakeups l + length (concat (map fn_queues (pendingFunctors l))),
       quit_flag := quit_flag l \<or> list_ex fn_quits (pendingFunctors l)\<rparr>"
  by (cases l) (simp add: EventLoop_doPendingFunctors_def call_all Let_def)

text \<open>
  What a pass runs, in order: the callbacks of the ready channels, then every functor queued
  before or by them, in the order of queueing, then the timers' callbacks. What the functors
  queue themselves is left for the next pass, and the loop is woken for it.
\<close>

definition pass_functors :: "loop_functor list \<Rightarrow> event_loop \<Rightarrow> loop_functor list" where
  "pass_functors events l = pendingFunctors l @ concat (map fn_queues events)"

lemma EventLoop_pass_eq:
  assumes "\<not> callingPendingFunctors l"
  shows "ran (EventLoop_pass events timers l) =
      ran l @ map fn_name events @ map fn_name (pass_functors events l) @ map fn_name timers"
    and "pendingFunctors (EventLoop_pass events timers l) =
      concat (map fn_queues (pass_functors events l)) @ concat (map fn_queues timers)"
    and "wakeups (EventLoop_pass events timers l) = length (concat (map fn_queues (pass_functors events l)))"
    and "\<not> callingPendingFunctors (EventLoop_pass events timers l)"
  using assms
  by (simp_all add: EventLoop_pass_def call_all doPendingFunctors_eq EventLoop_handleRead_def pass_functors_def Let_def)

text \<open>The states of a loop between its passes, other threads queueing and quitting at any time.\<close>

inductive loop_reach :: "bool \<Rightarrow> event_loop \<Rightarrow> bool" for timers_queue where
  lo_init: "loop_reach timers_queue EventLoop_new"
| lo_queue: "loop_reach timers_queue l \<Longrightarrow> loop_reach timers_queue (EventLoop_queueInLoop False f l)"
| lo_quit: "loop_reach timers_queue l \<Longrightarrow> loop_reach timers_queue (EventLoop_quit False l)"
| lo_pass: "loop_reach timers_queue l \<Longrightarrow> timers_queue \<or> concat (map fn_queues timers) = [] \<Longrightarrow>
    loop_reach timers_queue (EventLoop_pass events timers l)"

lemma loop_not_calling: "loop_reach b l \<Longrightarrow> \<not> callingPendingFunctors l"
  by (induction rule: loop_reach.induct) (simp_all add: EventLoop_new_def loop_defs EventLoop_pass_eq Let_def)

lemma loop_awake:
  assumes "loop_reach False l"
  shows "pendingFunctors l \<noteq> [] \<longrightarrow> 0 < wakeups l"
  using assms
  by (induction rule: loop_reach.induct)
    (auto simp: EventLoop_new_def loop_defs EventLoop_pass_eq loop_not_calling Let_def)



text \<open>
  A timer's callback that hands work to its own loop is not served: the functor is queued
  after the pending ones have run, in the loop's thread, so nothing wakes the loop, and it
  sleeps in the next wait, up to ten seconds, with the work pending.
\<close>

theorem EventLoop_timer_work_sleeps:
  assumes "loop_reach True l" "concat (map fn_queues (pass_functors events l)) = []"
  shows "pendingFunctors (EventLoop_pass events timers l) = concat (map fn_queues timers) \<and>
    wakeups (EventLoop_pass events timers l) = 0"
  using EventLoop_pass_eq[OF loop_not_calling[OF assms(1)], of events timers] assms(2) by simp

theorem EventLoop_timer_work_sleeps_witness:
  "pendingFunctors (EventLoop_pass [] [Functor 1 [Functor 2 [] False] False] EventLoop_new) = [Functor 2 [] False] \<and>
   wakeups (EventLoop_pass [] [Functor 1 [Functor 2 [] False] False] EventLoop_new) = 0"
  using EventLoop_timer_work_sleeps[OF lo_init, of "[]" "[Functor 1 [Functor 2 [] False] False]"]
  by (simp add: pass_functors_def EventLoop_new_def)

text \<open>A call of \<open>quit\<close> before the loop has started is forgotten.\<close>

lemma EventLoop_quit_before_loop_lost:
  "\<not> looping l \<Longrightarrow> EventLoop_loop reports (EventLoop_quit True l) = EventLoop_loop reports l"
  by (simp add: EventLoop_loop_def EventLoop_quit_def Let_def)

end
