(* ===== verification/Connection.thy ===== *)
theory Connection
  imports Buffer Reactor Address
begin

text \<open>
  \<^verbatim>\<open>src/common/network/connection.cpp\<close>: a TCP connection, its buffers and its
  channel. What the kernel answers to a \<^verbatim>\<open>write\<close> or \<^verbatim>\<open>readv\<close> is an
  argument; \<open>wrote\<close> records the bytes it has taken, \<open>shut\<close> that the write side has been
  shut down, \<open>notified\<close> the states in which the connection callback was called. What the
  connection hands to its loop is \<open>tasks\<close>. \<open>None\<close> is a failed assertion.
\<close>

datatype conn_state = ConnDisconnected | ConnConnecting | ConnConnected | ConnDisconnecting

datatype conn_task = WriteCompleteTask | HighWaterMarkTask nat | SendTask "byte list" | ShutdownTask
  | ForceCloseTask | DelayedForceCloseTask int

record tcp_conn =
  c_id :: int
  c_peer :: ipv4
  c_state :: conn_state
  c_channel :: channel
  inputBuffer :: buffer
  outputBuffer :: buffer
  highWaterMark :: nat
  has_writeComplete :: bool
  has_highWater :: bool
  wrote :: "byte list"
  shut :: bool
  notified :: "conn_state list"
  tasks :: "conn_task list"

definition Connection_new :: "int \<Rightarrow> int \<Rightarrow> ipv4 \<Rightarrow> tcp_conn" where
  "Connection_new i fd peer =
     \<lparr>c_id = i, c_peer = peer, c_state = ConnConnecting, c_channel = Channel_new fd, inputBuffer = Buffer_default,
      outputBuffer = Buffer_default, highWaterMark = 64 * 1024 * 1024, has_writeComplete = False,
      has_highWater = False, wrote = [], shut = False, notified = [], tasks = []\<rparr>"

text \<open>The destructor asserts that the connection is closed.\<close>

definition Connection_destroy :: "tcp_conn \<Rightarrow> unit option" where
  "Connection_destroy c = (if c_state c = ConnDisconnected then Some () else None)"

definition Connection_name :: "(uint32 \<Rightarrow> string) \<Rightarrow> tcp_conn \<Rightarrow> string" where
  "Connection_name ntop c = IPv4Address_ipPort ntop (c_peer c) @ ''#'' @ int_to_string (c_id c)"

text \<open>The connection's channel: only its events matter here, its registration is the poller's.\<close>

definition conn_events :: "(uint32 \<Rightarrow> uint32) \<Rightarrow> tcp_conn \<Rightarrow> tcp_conn" where
  "conn_events f c = c\<lparr>c_channel := (c_channel c)\<lparr>ch_events := f (ch_events (c_channel c)), addedToLoop := True\<rparr>\<rparr>"

definition conn_isWriting :: "tcp_conn \<Rightarrow> bool" where
  "conn_isWriting c \<longleftrightarrow> Channel_isWriting (c_channel c)"

definition add_task :: "conn_task \<Rightarrow> tcp_conn \<Rightarrow> tcp_conn" where
  "add_task t c = c\<lparr>tasks := tasks c @ [t]\<rparr>"

definition notify :: "tcp_conn \<Rightarrow> tcp_conn" where
  "notify c = c\<lparr>notified := notified c @ [c_state c]\<rparr>"

datatype write_result = Wrote nat | WouldBlock | Reset | OtherError

definition Connection_sendInLoop :: "write_result \<Rightarrow> byte list \<Rightarrow> tcp_conn \<Rightarrow> tcp_conn option" where
  "Connection_sendInLoop res data c =
     (if c_state c = ConnDisconnected then Some c
      else
        (let direct = \<not> conn_isWriting c \<and> Buffer_readableBytes (outputBuffer c) = 0;
             nwrote = (if direct then (case res of Wrote n \<Rightarrow> n | _ \<Rightarrow> 0) else 0);
             remaining = length data - nwrote;
             c = (if direct
                  then (case res of
                          Wrote n \<Rightarrow> (let c = c\<lparr>wrote := wrote c @ take n data\<rparr>
                                     in if remaining = 0 \<and> has_writeComplete c then add_task WriteCompleteTask c else c)
                        | _ \<Rightarrow> c)
                  else c);
             faultError = (direct \<and> res = Reset)
         in if \<not> faultError \<and> 0 < remaining
            then (let oldLen = Buffer_readableBytes (outputBuffer c);
                      c = (if highWaterMark c \<le> oldLen + remaining \<and> oldLen < highWaterMark c \<and> has_highWater c
                           then add_task (HighWaterMarkTask (oldLen + remaining)) c else c)
                  in do { out \<leftarrow> Buffer_append (outputBuffer c) (drop nwrote data);
                          let c = c\<lparr>outputBuffer := out\<rparr>;
                          Some (if \<not> conn_isWriting c then conn_events (\<lambda>ev. ev OR kWriteEvent) c else c) })
            else Some c))"

definition Connection_shutdownInLoop :: "tcp_conn \<Rightarrow> tcp_conn" where
  "Connection_shutdownInLoop c = (if \<not> conn_isWriting c then c\<lparr>shut := True\<rparr> else c)"

definition Connection_handleClose :: "tcp_conn \<Rightarrow> tcp_conn option" where
  "Connection_handleClose c =
     (if c_state c \<notin> {ConnConnected, ConnDisconnecting} then None
      else Some (notify (conn_events (\<lambda>_. kNoneEvent) (c\<lparr>c_state := ConnDisconnected\<rparr>))))"

definition Connection_forceCloseInLoop :: "tcp_conn \<Rightarrow> tcp_conn option" where
  "Connection_forceCloseInLoop c =
     (if c_state c \<in> {ConnConnected, ConnDisconnecting} then Connection_handleClose c else Some c)"

definition Connection_send :: "bool \<Rightarrow> write_result \<Rightarrow> byte list \<Rightarrow> tcp_conn \<Rightarrow> tcp_conn option" where
  "Connection_send in_loop res data c =
     (if c_state c = ConnConnected
      then (if in_loop then Connection_sendInLoop res data c else Some (add_task (SendTask data) c))
      else Some c)"

definition Connection_send_buffer :: "bool \<Rightarrow> write_result \<Rightarrow> buffer \<Rightarrow> tcp_conn \<Rightarrow> (buffer \<times> tcp_conn) option" where
  "Connection_send_buffer in_loop res b c =
     (if c_state c = ConnConnected
      then (if in_loop
            then do { bs \<leftarrow> Buffer_peek b (Buffer_readableBytes b);
                      c \<leftarrow> Connection_sendInLoop res bs c;
                      Some (Buffer_retrieveAll b, c) }
            else do { (bs, b) \<leftarrow> Buffer_retrieveAllAsString b; Some (b, add_task (SendTask bs) c) })
      else Some (b, c))"

definition Connection_shutdown :: "bool \<Rightarrow> tcp_conn \<Rightarrow> tcp_conn" where
  "Connection_shutdown in_loop c =
     (if c_state c = ConnConnected
      then (let c = c\<lparr>c_state := ConnDisconnecting\<rparr>
            in if in_loop then Connection_shutdownInLoop c else add_task ShutdownTask c)
      else c)"

definition Connection_forceClose :: "tcp_conn \<Rightarrow> tcp_conn" where
  "Connection_forceClose c =
     (if c_state c \<in> {ConnConnected, ConnDisconnecting}
      then add_task ForceCloseTask (c\<lparr>c_state := ConnDisconnecting\<rparr>) else c)"

definition Connection_forceCloseWithDelay :: "int \<Rightarrow> tcp_conn \<Rightarrow> tcp_conn" where
  "Connection_forceCloseWithDelay ms c =
     (if c_state c \<in> {ConnConnected, ConnDisconnecting}
      then add_task (DelayedForceCloseTask ms) (c\<lparr>c_state := ConnDisconnecting\<rparr>) else c)"

definition Connection_connectEstablished :: "tcp_conn \<Rightarrow> tcp_conn option" where
  "Connection_connectEstablished c =
     (if c_state c \<noteq> ConnConnecting then None
      else Some (notify (conn_events (\<lambda>ev. ev OR kReadEvent) (c\<lparr>c_state := ConnConnected\<rparr>))))"

text \<open>\<open>remove\<close> asserts that the channel has no events.\<close>

definition Connection_connectDestroyed :: "tcp_conn \<Rightarrow> tcp_conn option" where
  "Connection_connectDestroyed c =
     (let c = (if c_state c = ConnConnected
               then notify (conn_events (\<lambda>_. kNoneEvent) (c\<lparr>c_state := ConnDisconnected\<rparr>)) else c)
      in if \<not> Channel_isNoneEvent (c_channel c) then None
         else Some (c\<lparr>c_channel := (c_channel c)\<lparr>addedToLoop := False\<rparr>\<rparr>))"

text \<open>\<open>on_message\<close> is what the message callback does to the input buffer.\<close>

definition Connection_handleRead :: "(buffer \<Rightarrow> buffer) \<Rightarrow> int + byte list \<Rightarrow> tcp_conn \<Rightarrow> tcp_conn option" where
  "Connection_handleRead on_message answer c =
     do { (b, n, err) \<leftarrow> Buffer_readFd (inputBuffer c) answer;
          let c = c\<lparr>inputBuffer := b\<rparr>;
          if 0 < n then Some (c\<lparr>inputBuffer := on_message (inputBuffer c)\<rparr>)
          else if n = 0 then Connection_handleClose c
          else Some c }"

definition Connection_handleWrite :: "write_result \<Rightarrow> tcp_conn \<Rightarrow> tcp_conn option" where
  "Connection_handleWrite res c =
     (if conn_isWriting c
      then do { bs \<leftarrow> Buffer_peek (outputBuffer c) (Buffer_readableBytes (outputBuffer c));
                case res of
                  Wrote n \<Rightarrow>
                    (if 0 < n
                     then (let c = c\<lparr>wrote := wrote c @ take n bs, outputBuffer := Buffer_retrieve (outputBuffer c) n\<rparr>
                           in if Buffer_readableBytes (outputBuffer c) = 0
                              then (let c = conn_events (\<lambda>ev. ev AND NOT kWriteEvent) c;
                                        c = (if has_writeComplete c then add_task WriteCompleteTask c else c)
                                    in Some (if c_state c = ConnDisconnecting then Connection_shutdownInLoop c else c))
                              else Some c)
                     else Some c)
                | _ \<Rightarrow> Some c }
      else Some c)"

text \<open>The functors the connection has given to its loop, when the loop runs them.\<close>

definition Connection_run_task :: "write_result \<Rightarrow> conn_task \<Rightarrow> tcp_conn \<Rightarrow> tcp_conn option" where
  "Connection_run_task res t c =
     (case t of
        SendTask data \<Rightarrow> Connection_sendInLoop res data c
      | ShutdownTask \<Rightarrow> Some (Connection_shutdownInLoop c)
      | ForceCloseTask \<Rightarrow> Connection_forceCloseInLoop c
      | DelayedForceCloseTask _ \<Rightarrow> Connection_forceCloseInLoop c
      | _ \<Rightarrow> Some c)"

text \<open>An event of the descriptor: the channel's callbacks in its order.\<close>

fun run_callbacks ::
    "(buffer \<Rightarrow> buffer) \<Rightarrow> int + byte list \<Rightarrow> write_result \<Rightarrow> callback list \<Rightarrow> tcp_conn \<Rightarrow> tcp_conn option" where
  "run_callbacks on_message answer res [] c = Some c"
| "run_callbacks on_message answer res (cb # cbs) c =
     do { c \<leftarrow> (case cb of
               CloseCallback \<Rightarrow> Connection_handleClose c
             | ErrorCallback \<Rightarrow> Some c
             | ReadCallback \<Rightarrow> Connection_handleRead on_message answer c
             | WriteCallback \<Rightarrow> Connection_handleWrite res c);
          run_callbacks on_message answer res cbs c }"

definition Connection_handleEvent ::
    "(buffer \<Rightarrow> buffer) \<Rightarrow> int + byte list \<Rightarrow> write_result \<Rightarrow> uint32 \<Rightarrow> tcp_conn \<Rightarrow> tcp_conn option" where
  "Connection_handleEvent on_message answer res revents c =
     run_callbacks on_message answer res (Channel_handleEvent False True (\<lambda>_. True) revents) c"

subsection \<open>The stream\<close>

lemma write_bits [simp]:
  "(ev OR kWriteEvent) AND kWriteEvent \<noteq> 0" "(ev AND NOT kWriteEvent) AND kWriteEvent = 0"
  "(ev OR kReadEvent) AND kWriteEvent = ev AND kWriteEvent" "kNoneEvent AND kWriteEvent = 0"
proof -
  have "(ev OR kWriteEvent) AND kWriteEvent = kWriteEvent" by (rule bit_word_eqI) (auto simp: bit_simps)
  then show "(ev OR kWriteEvent) AND kWriteEvent \<noteq> 0" by (simp add: event_bits)
  show "(ev AND NOT kWriteEvent) AND kWriteEvent = 0" by (rule bit_word_eqI) (auto simp: bit_simps)
  have "kReadEvent AND kWriteEvent = 0" by (simp add: event_bits)
  then show "(ev OR kReadEvent) AND kWriteEvent = ev AND kWriteEvent" by (simp add: word_ao_dist)
  show "kNoneEvent AND kWriteEvent = 0" by (simp add: event_bits)
qed

lemma event_nonzero [simp]: "kWriteEvent \<noteq> 0" "kReadEvent \<noteq> 0"
  by (simp_all add: event_bits)

lemma isWriting_frame [simp]:
  "conn_isWriting (c\<lparr>c_state := s\<rparr>) = conn_isWriting c" "conn_isWriting (c\<lparr>outputBuffer := b\<rparr>) = conn_isWriting c"
  "conn_isWriting (c\<lparr>inputBuffer := b\<rparr>) = conn_isWriting c" "conn_isWriting (c\<lparr>wrote := w\<rparr>) = conn_isWriting c"
  "conn_isWriting (c\<lparr>shut := x\<rparr>) = conn_isWriting c" "conn_isWriting (add_task t c) = conn_isWriting c"
  "conn_isWriting (notify c) = conn_isWriting c"
  "conn_isWriting (c\<lparr>c_channel := (c_channel d)\<lparr>addedToLoop := x\<rparr>\<rparr>) = conn_isWriting d"
  "conn_isWriting (conn_events f c) \<longleftrightarrow> f (ch_events (c_channel c)) AND kWriteEvent \<noteq> 0"
  by (simp_all add: conn_isWriting_def Channel_isWriting_def add_task_def notify_def conn_events_def)

lemma isWriting_events: "conn_isWriting c \<longleftrightarrow> ch_events (c_channel c) AND kWriteEvent \<noteq> 0"
  by (simp add: conn_isWriting_def Channel_isWriting_def)

lemma conn_frame [simp]:
  "c_state (add_task t c) = c_state c" "c_state (notify c) = c_state c" "c_state (conn_events f c) = c_state c"
  "outputBuffer (add_task t c) = outputBuffer c" "outputBuffer (notify c) = outputBuffer c"
  "outputBuffer (conn_events f c) = outputBuffer c" "wrote (add_task t c) = wrote c" "wrote (notify c) = wrote c"
  "wrote (conn_events f c) = wrote c" "shut (add_task t c) = shut c" "shut (notify c) = shut c"
  "shut (conn_events f c) = shut c" "c_channel (add_task t c) = c_channel c"
  "highWaterMark (add_task t c) = highWaterMark c" "has_highWater (add_task t c) = has_highWater c"
  "has_writeComplete (conn_events f c) = has_writeComplete c"
  by (simp_all add: add_task_def notify_def conn_events_def)

text \<open>
  The connection invariant over the bytes \<open>acc\<close> accepted so far: what the kernel has taken and
  what is still buffered are these bytes in order; while the connection is open, write
  interest is on exactly while something is buffered; the write side is shut down only after
  everything has been taken.
\<close>

definition conn_inv :: "byte list \<Rightarrow> tcp_conn \<Rightarrow> bool" where
  "conn_inv acc c \<longleftrightarrow> Buffer_inv (outputBuffer c) \<and> wrote c @ Buffer_content (outputBuffer c) = acc \<and>
     (c_state c \<noteq> ConnDisconnected \<longrightarrow> (conn_isWriting c \<longleftrightarrow> Buffer_content (outputBuffer c) \<noteq> [])) \<and>
     (shut c \<longrightarrow> Buffer_content (outputBuffer c) = [] \<and> c_state c \<in> {ConnDisconnecting, ConnDisconnected}) \<and>
     (c_state c = ConnDisconnected \<longrightarrow> \<not> conn_isWriting c)"

fun fits :: "write_result \<Rightarrow> nat \<Rightarrow> bool" where
  "fits (Wrote n) k \<longleftrightarrow> n \<le> k"
| "fits _ k \<longleftrightarrow> True"

lemma conn_inv_new: "conn_inv [] (Connection_new i fd peer)"
  by (simp add: conn_inv_def Connection_new_def isWriting_events Channel_new_def)

lemma conn_inv_readable: "conn_inv acc c \<Longrightarrow> Buffer_readableBytes (outputBuffer c) = length (Buffer_content (outputBuffer c))"
  by (simp add: conn_inv_def readableBytes_eq)

lemma append_to_output:
  assumes "Buffer_inv b"
  obtains b' where "Buffer_append b bs = Some b'" "Buffer_inv b'" "Buffer_content b' = Buffer_content b @ bs"
  using append_spec[OF assms, of bs] by blast

lemma sendInLoop_inv:
  assumes inv: "conn_inv acc c" and st: "c_state c = ConnConnected" and res: "fits res (length data)" "res \<noteq> Reset"
  shows "\<exists>c'. Connection_sendInLoop res data c = Some c' \<and> conn_inv (acc @ data) c' \<and> c_state c' = ConnConnected"
proof -
  have b: "Buffer_inv (outputBuffer c)" using inv by (simp add: conn_inv_def)
  have ns: "\<not> shut c" using inv st by (auto simp: conn_inv_def)
  have r: "Buffer_readableBytes (outputBuffer c) = length (Buffer_content (outputBuffer c))" by (rule conn_inv_readable[OF inv])
  have w: "conn_isWriting c \<longleftrightarrow> Buffer_content (outputBuffer c) \<noteq> []" using inv st by (simp add: conn_inv_def)
  define n where "n = (if Buffer_content (outputBuffer c) = [] then (case res of Wrote n \<Rightarrow> n | _ \<Rightarrow> 0) else 0)"
  have n: "n \<le> length data" using res(1) by (cases res) (simp_all add: n_def)
  obtain out where out: "Buffer_append (outputBuffer c) (drop n data) = Some out" "Buffer_inv out"
    "Buffer_content out = Buffer_content (outputBuffer c) @ drop n data" using append_to_output[OF b] .
  show ?thesis
  proof (cases "Buffer_content (outputBuffer c) = []")
    case True
    then have "wrote c = acc" using inv by (simp add: conn_inv_def)
    then show ?thesis
      using True st ns b res out n
      by (cases res) (auto simp: Connection_sendInLoop_def r w n_def conn_inv_def Let_def)
  next
    case False
    then have "n = 0" by (simp add: n_def)
    then show ?thesis
      using False st ns b inv out
      by (auto simp: Connection_sendInLoop_def r w conn_inv_def Let_def)
  qed
qed

lemma handleWrite_inv:
  assumes inv: "conn_inv acc c" and res: "fits res (length (Buffer_content (outputBuffer c)))"
  shows "\<exists>c'. Connection_handleWrite res c = Some c' \<and> conn_inv acc c'"
proof (cases "conn_isWriting c")
  case False
  then show ?thesis using inv by (simp add: Connection_handleWrite_def)
next
  case True
  have b: "Buffer_inv (outputBuffer c)" using inv by (simp add: conn_inv_def)
  have r: "Buffer_readableBytes (outputBuffer c) = length (Buffer_content (outputBuffer c))" by (rule conn_inv_readable[OF inv])
  have st: "c_state c \<noteq> ConnDisconnected" using inv True by (auto simp: conn_inv_def)
  then have ne: "Buffer_content (outputBuffer c) \<noteq> []" using inv True by (simp add: conn_inv_def)
  then have ns: "\<not> shut c" using inv by (auto simp: conn_inv_def)
  have p: "Buffer_peek (outputBuffer c) (length (Buffer_content (outputBuffer c))) = Some (Buffer_content (outputBuffer c))"
    using peek_content[OF b, of "length (Buffer_content (outputBuffer c))"] by simp
  show ?thesis
  proof (cases res)
    case (Wrote n)
    define q where "q = Buffer_retrieve (outputBuffer c) n"
    have q: "Buffer_inv q" "Buffer_content q = drop n (Buffer_content (outputBuffer c))"
      using b by (simp_all add: q_def retrieve_inv retrieve_content)
    moreover have "Buffer_readableBytes q = length (Buffer_content q)" using q(1) by (rule readableBytes_eq)
    ultimately show ?thesis
      using True Wrote res inv st ne ns
      by (auto simp: Connection_handleWrite_def r p conn_inv_def Connection_shutdownInLoop_def Let_def simp flip: q_def)
  qed (use inv p in \<open>simp_all add: Connection_handleWrite_def r\<close>)
qed

lemma conn_inv_close:
  assumes "conn_inv acc c" "Connection_handleClose c = Some c'"
  shows "conn_inv acc c' \<and> c_state c' = ConnDisconnected"
  using assms by (auto simp: conn_inv_def Connection_handleClose_def split: if_splits)

lemma conn_inv_established:
  assumes "conn_inv acc c" "Connection_connectEstablished c = Some c'"
  shows "conn_inv acc c' \<and> c_state c' = ConnConnected"
  using assms
  by (auto simp: conn_inv_def Connection_connectEstablished_def isWriting_events[symmetric] split: if_splits)

lemma conn_inv_shutdown: "conn_inv acc c \<Longrightarrow> conn_inv acc (Connection_shutdown True c)"
  by (auto simp: conn_inv_def Connection_shutdown_def Connection_shutdownInLoop_def Let_def)

lemma conn_inv_forceClose:
  "conn_inv acc c \<Longrightarrow> conn_inv acc (Connection_forceClose c)"
  "conn_inv acc c \<Longrightarrow> conn_inv acc (Connection_forceCloseWithDelay ms c)"
  by (auto simp: conn_inv_def Connection_forceClose_def Connection_forceCloseWithDelay_def)

lemma conn_inv_forceCloseInLoop:
  "conn_inv acc c \<Longrightarrow> Connection_forceCloseInLoop c = Some c' \<Longrightarrow> conn_inv acc c'"
  by (auto simp: Connection_forceCloseInLoop_def split: if_splits dest: conn_inv_close)

lemma conn_inv_input: "conn_inv acc (c\<lparr>inputBuffer := b\<rparr>) \<longleftrightarrow> conn_inv acc c"
  by (simp add: conn_inv_def)

lemma conn_inv_read: "conn_inv acc c \<Longrightarrow> Connection_handleRead f answer c = Some c' \<Longrightarrow> conn_inv acc c'"
  by (auto simp: Connection_handleRead_def Let_def conn_inv_input split: Option.bind_splits if_splits
      dest!: conn_inv_close[rotated])

lemma conn_inv_destroyed: "conn_inv acc c \<Longrightarrow> Connection_connectDestroyed c = Some c' \<Longrightarrow> conn_inv acc c'"
  by (auto simp: Connection_connectDestroyed_def conn_inv_def Let_def split: if_splits)

text \<open>
  A connection's life in its loop's thread: \<open>acc\<close> is what the senders have handed over while
  it was connected. The kernel takes at most what it is offered and does not report a reset
  peer, whose data the code drops.
\<close>

inductive conn_reach :: "byte list \<Rightarrow> tcp_conn \<Rightarrow> bool" where
  cn_new: "conn_reach [] (Connection_new i fd peer)"
| cn_established: "conn_reach acc c \<Longrightarrow> Connection_connectEstablished c = Some c' \<Longrightarrow> conn_reach acc c'"
| cn_send: "conn_reach acc c \<Longrightarrow> c_state c = ConnConnected \<Longrightarrow> fits res (length data) \<Longrightarrow> res \<noteq> Reset \<Longrightarrow>
    Connection_send True res data c = Some c' \<Longrightarrow> conn_reach (acc @ data) c'"
| cn_refused: "conn_reach acc c \<Longrightarrow> c_state c \<noteq> ConnConnected \<Longrightarrow>
    Connection_send in_loop res data c = Some c' \<Longrightarrow> conn_reach acc c'"
| cn_shutdown: "conn_reach acc c \<Longrightarrow> conn_reach acc (Connection_shutdown True c)"
| cn_force: "conn_reach acc c \<Longrightarrow> conn_reach acc (Connection_forceClose c)"
| cn_delay: "conn_reach acc c \<Longrightarrow> conn_reach acc (Connection_forceCloseWithDelay ms c)"
| cn_forced: "conn_reach acc c \<Longrightarrow> Connection_forceCloseInLoop c = Some c' \<Longrightarrow> conn_reach acc c'"
| cn_read: "conn_reach acc c \<Longrightarrow> Connection_handleRead f answer c = Some c' \<Longrightarrow> conn_reach acc c'"
| cn_write: "conn_reach acc c \<Longrightarrow> fits res (length (Buffer_content (outputBuffer c))) \<Longrightarrow>
    Connection_handleWrite res c = Some c' \<Longrightarrow> conn_reach acc c'"
| cn_close: "conn_reach acc c \<Longrightarrow> Connection_handleClose c = Some c' \<Longrightarrow> conn_reach acc c'"
| cn_destroyed: "conn_reach acc c \<Longrightarrow> Connection_connectDestroyed c = Some c' \<Longrightarrow> conn_reach acc c'"

lemma conn_reach_inv: "conn_reach acc c \<Longrightarrow> conn_inv acc c"
proof (induction rule: conn_reach.induct)
  case (cn_send acc c res data c')
  then show ?case using sendInLoop_inv[of acc c res data] by (auto simp: Connection_send_def)
next
  case (cn_write acc c res c')
  then show ?case using handleWrite_inv[of acc c res] by auto
next
  case (cn_refused acc c in_loop res data c')
  then show ?case by (simp add: Connection_send_def)
qed (auto simp: conn_inv_new conn_inv_shutdown conn_inv_forceClose
    dest: conn_inv_established conn_inv_close conn_inv_forceCloseInLoop conn_inv_read conn_inv_destroyed)


text \<open>An established connection on which a send of three bytes has written one.\<close>

definition fresh_conn :: tcp_conn where
  "fresh_conn = notify (conn_events (\<lambda>ev. ev OR kReadEvent) ((Connection_new 1 9 IPv4Address_default)\<lparr>c_state := ConnConnected\<rparr>))"

lemma fresh_conn_reach: "conn_reach [] fresh_conn" "c_state fresh_conn = ConnConnected"
  "Buffer_content (outputBuffer fresh_conn) = []" "wrote fresh_conn = []"
  using cn_established[OF cn_new, of 1 9 IPv4Address_default]
  by (simp_all add: Connection_connectEstablished_def fresh_conn_def Connection_new_def)

lemma partial_send:
  "\<exists>c. conn_reach [1, 2, 3] c \<and> Connection_sendInLoop (Wrote 1) [1, 2, 3] fresh_conn = Some c \<and> wrote c = [1]"
proof -
  have inv: "conn_inv [] fresh_conn" by (rule conn_reach_inv[OF fresh_conn_reach(1)])
  obtain c where c: "Connection_sendInLoop (Wrote 1) [1, 2, 3] fresh_conn = Some c"
    using sendInLoop_inv[OF inv fresh_conn_reach(2), of "Wrote 1" "[1, 2, 3]"] by auto
  then have "conn_reach ([] @ [1, 2, 3]) c"
    by (intro cn_send[OF fresh_conn_reach(1,2), of "Wrote 1"]) (simp_all add: Connection_send_def fresh_conn_reach)
  moreover have "wrote c = [1]"
    using c fresh_conn_reach inv conn_inv_readable[OF inv]
    by (auto simp: Connection_sendInLoop_def conn_inv_def Let_def split: Option.bind_splits)
  ultimately show ?thesis using c by auto
qed


subsection \<open>Destroying a connection\<close>

lemma sendInLoop_events:
  assumes "Connection_sendInLoop res data c = Some c'"
  shows "ch_events (c_channel c') \<in> {ch_events (c_channel c), ch_events (c_channel c) OR kWriteEvent}"
proof -
  have ev: "ch_events (c_channel (conn_events f c)) = f (ch_events (c_channel c))" for f c by (simp add: conn_events_def)
  have hw: "c_channel (if b then add_task t c else c) = c_channel c" for b t c by simp
  show ?thesis using assms unfolding Connection_sendInLoop_def Let_def
    by (cases res; cases "c_state c = ConnDisconnected"; cases "\<not> conn_isWriting c \<and> Buffer_readableBytes (outputBuffer c) = 0")
      (simp_all add: ev hw split: Option.bind_split_asm if_split_asm, auto simp: ev hw)
qed

lemma reading_kept:
  assumes "conn_reach acc c"
  shows "c_state c \<in> {ConnConnected, ConnDisconnecting} \<longrightarrow> ch_events (c_channel c) AND kReadEvent \<noteq> 0"
proof -
  have bits: "(ev OR kReadEvent) AND kReadEvent \<noteq> 0" "(ev OR kWriteEvent) AND kReadEvent = ev AND kReadEvent"
    "(ev AND NOT kWriteEvent) AND kReadEvent = ev AND kReadEvent" for ev :: uint32
  proof -
    have "(ev OR kReadEvent) AND kReadEvent = kReadEvent" by (rule bit_word_eqI) (auto simp: bit_simps)
    then show "(ev OR kReadEvent) AND kReadEvent \<noteq> 0" by (simp add: event_bits)
    have z: "kWriteEvent AND kReadEvent = 0" by (simp add: event_bits)
    then show "(ev OR kWriteEvent) AND kReadEvent = ev AND kReadEvent" by (simp add: word_ao_dist)
    have "NOT kWriteEvent AND kReadEvent = kReadEvent" by (simp add: event_bits)
    then show "(ev AND NOT kWriteEvent) AND kReadEvent = ev AND kReadEvent" by (simp add: and.assoc)
  qed
  have ev: "ch_events (c_channel (conn_events f c)) = f (ch_events (c_channel c))" for f c by (simp add: conn_events_def)
  have fr: "c_channel (notify c) = c_channel c" for c by (simp add: notify_def)
  show ?thesis using assms
  proof (induction rule: conn_reach.induct)
    case (cn_send acc c res data c')
    then show ?case using sendInLoop_events[of res data c c'] by (auto simp: Connection_send_def bits)
  next
    case (cn_write acc c res c')
    then show ?case
      by (auto simp: Connection_handleWrite_def Connection_shutdownInLoop_def Let_def ev fr bits
          split: Option.bind_splits if_splits write_result.splits)
  next
    case (cn_read acc c f answer c')
    then show ?case
      by (auto simp: Connection_handleRead_def Connection_handleClose_def Let_def ev fr bits
          split: Option.bind_splits if_splits)
  next
    case (cn_destroyed acc c c')
    then show ?case by (auto simp: Connection_connectDestroyed_def Let_def split: if_splits)
  next
    case (cn_established acc c c')
    then show ?case by (auto simp: Connection_connectEstablished_def ev fr bits split: if_splits)
  next
    case (cn_forced acc c c')
    then show ?case by (auto simp: Connection_forceCloseInLoop_def Connection_handleClose_def split: if_splits)
  next
    case (cn_close acc c c')
    then show ?case by (auto simp: Connection_handleClose_def split: if_splits)
  next
    case (cn_shutdown acc c)
    then show ?case by (auto simp: Connection_shutdown_def Connection_shutdownInLoop_def Let_def)
  next
    case (cn_refused acc c in_loop res data c')
    then show ?case by (simp add: Connection_send_def)
  qed (auto simp: Connection_new_def Connection_forceClose_def Connection_forceCloseWithDelay_def)
qed

text \<open>
  The connection can be destroyed when it is connected, not while it is closing: after a call of
  \<open>shutdown\<close> or \<open>forceClose\<close> that has not yet led to \<open>handleClose\<close>, its
  events are still enabled, \<open>connectDestroyed\<close> leaves them so, and the channel's
  \<open>remove\<close> aborts.
\<close>

theorem Connection_destroy_while_closing_aborts:
  assumes "conn_reach acc c" "c_state c \<in> {ConnConnected, ConnDisconnecting}"
  shows "Connection_connectDestroyed c = None \<longleftrightarrow> c_state c = ConnDisconnecting"
  using reading_kept[OF assms(1)] assms(2)
  by (auto simp: Connection_connectDestroyed_def Channel_isNoneEvent_def conn_events_def notify_def kNoneEvent_def Let_def)

theorem Connection_destroy_while_closing_aborts_witness:
  "Connection_connectDestroyed (Connection_forceClose fresh_conn) = None"
  using Connection_destroy_while_closing_aborts[OF cn_force[OF fresh_conn_reach(1)]] fresh_conn_reach
  by (simp add: Connection_forceClose_def add_task_def)

end
