(* ===== verification/Server.thy ===== *)
theory Server
  imports ThreadPools ConnPools Address
begin

text \<open>
  The processes around the components: sockets (\<^verbatim>\<open>src/common/network/socket.cpp\<close>), the
  configuration file, the listening server (\<^verbatim>\<open>src/core/server\<close>), the game server
  (\<^verbatim>\<open>src/game/game_server.cpp\<close>) and \<^verbatim>\<open>main.cpp\<close>. What the kernel answers
  to a system call is an argument; the descriptors got from it and given back to it are
  recorded. The YAML library is a record of functions.
\<close>

subsection \<open>Sockets\<close>

text \<open>A \<open>Socket\<close> is its descriptor; an operation also tells which descriptors it closes.\<close>

definition Socket_close :: "int \<Rightarrow> int \<times> int list" where
  "Socket_close sockfd = (if 0 \<le> sockfd then (- 1, [sockfd]) else (sockfd, []))"

definition Socket_release :: "int \<Rightarrow> int \<times> int" where
  "Socket_release sockfd = (sockfd, - 1)"

definition Socket_destroy :: "int \<Rightarrow> int list" where
  "Socket_destroy sockfd = (if 0 \<le> sockfd then [sockfd] else [])"

text \<open>What the kernel answers to \<open>socket\<close>, \<open>bind\<close>, \<open>listen\<close> and \<open>connect\<close>.\<close>

record listen_answers =
  la_socket :: int
  la_bind :: "ipv4 \<Rightarrow> bool"
  la_listen :: bool

text \<open>
  \<open>fromIpPort\<close> leaves the address of the caller's variable, which is not initialised, when
  the text is not an address; \<open>stack\<close> is what it holds.
\<close>

definition fromIpPort :: "(string \<Rightarrow> uint32 option) \<Rightarrow> string \<Rightarrow> uint16 \<Rightarrow> uint32 \<Rightarrow> bool \<times> ipv4" where
  "fromIpPort pton ip port stack =
     (pton ip \<noteq> None, \<lparr>sin_addr = (case pton ip of Some a \<Rightarrow> a | None \<Rightarrow> stack), sin_port = htons port\<rparr>)"

definition tcpListen :: "(string \<Rightarrow> uint32 option) \<Rightarrow> listen_answers \<Rightarrow> uint32 \<Rightarrow> string \<Rightarrow> uint16 \<Rightarrow> int \<times> int list" where
  "tcpListen pton ans stack ip port =
     (let sockfd = la_socket ans in
      if sockfd < 0 then (- 1, [])
      else (let (_, addr) = fromIpPort pton ip port stack in
            if \<not> la_bind ans addr \<or> \<not> la_listen ans then (- 1, Socket_destroy sockfd)
            else (let (fd, sockfd) = Socket_release sockfd in (fd, Socket_destroy sockfd))))"

definition tcpConnect ::
    "(string \<Rightarrow> uint32 option) \<Rightarrow> int \<Rightarrow> (ipv4 \<Rightarrow> bool) \<Rightarrow> uint32 \<Rightarrow> string \<Rightarrow> uint16 \<Rightarrow> int \<times> int list" where
  "tcpConnect pton sockfd connects stack ip port =
     (if sockfd < 0 then (- 1, [])
      else (let (_, addr) = fromIpPort pton ip port stack in
            if \<not> connects addr then (- 1, [sockfd]) else (sockfd, [])))"

definition toIpPort :: "(uint32 \<Rightarrow> string) \<Rightarrow> ipv4 \<Rightarrow> string" where
  "toIpPort ntop a = ntop (sin_addr a) @ '':'' @ nat_to_string (unat (ntohs (sin_port a)))"

text \<open>A descriptor is either handed to the caller or closed, never both.\<close>

lemma tcpListen_owns:
  assumes "0 \<le> la_socket ans"
  shows "(case tcpListen pton ans stack ip port of (fd, cl) \<Rightarrow>
    (fd = la_socket ans \<and> cl = []) \<or> (fd = - 1 \<and> cl = [la_socket ans]))"
  using assms by (auto simp: tcpListen_def Socket_destroy_def Socket_release_def Let_def split: prod.splits)

subsection \<open>\<^verbatim>\<open>ServerConfig\<close>\<close>

record server_config =
  serverName :: string
  serverVersion :: string
  gatewayHost :: string
  gatewayPort :: uint16
  cfg_maxConnections :: int
  gameHost :: string
  gamePort :: uint16
  maxPlayers :: int
  ioThreads :: int
  logicThreads :: int
  dbThreads :: int
  mysqlHost :: string
  mysqlPort :: uint16
  mysqlUser :: string
  mysqlPassword :: string
  mysqlDatabase :: string
  mysqlPoolSize :: int
  redisHost :: string
  redisPort :: uint16
  redisPassword :: string
  redisDb :: int
  redisPoolSize :: int
  logLevel :: string
  logPath :: string
  heartbeatInterval :: int
  heartbeatTimeout :: int

definition ServerConfig_default :: server_config where
  "ServerConfig_default =
     \<lparr>serverName = ''LegendServer'', serverVersion = ''1.0.0'', gatewayHost = ''0.0.0.0'', gatewayPort = 8888,
      cfg_maxConnections = 10000, gameHost = ''0.0.0.0'', gamePort = 8889, maxPlayers = 5000, ioThreads = 4,
      logicThreads = 8, dbThreads = 2, mysqlHost = ''127.0.0.1'', mysqlPort = 3306, mysqlUser = ''legend'',
      mysqlPassword = ''legend123'', mysqlDatabase = ''legend_db'', mysqlPoolSize = 20,
      redisHost = ''127.0.0.1'', redisPort = 6379, redisPassword = '''', redisDb = 0, redisPoolSize = 10,
      logLevel = ''info'', logPath = ''./logs'', heartbeatInterval = 30000, heartbeatTimeout = 90000\<rparr>"

text \<open>
  The YAML library: reading a member of a node (it throws on a scalar), whether a node is
  defined, and the conversions, which throw on a text of another form. \<open>None\<close> is an exception.
\<close>

record 'y yaml =
  y_load :: "string \<Rightarrow> 'y option"
  y_at :: "'y \<Rightarrow> string \<Rightarrow> 'y option"
  y_defined :: "'y \<Rightarrow> bool"
  y_string :: "'y \<Rightarrow> string option"
  y_uint16 :: "'y \<Rightarrow> uint16 option"
  y_int :: "'y \<Rightarrow> int option"

type_synonym 'y setting = "string \<times> ('y \<Rightarrow> server_config \<Rightarrow> server_config option)"

definition as_string :: "'y yaml \<Rightarrow> ((string \<Rightarrow> string) \<Rightarrow> server_config \<Rightarrow> server_config) \<Rightarrow> 'y \<Rightarrow> server_config \<Rightarrow> server_config option" where
  "as_string y upd n c = map_option (\<lambda>v. upd (\<lambda>_. v) c) (y_string y n)"

definition as_uint16 :: "'y yaml \<Rightarrow> ((uint16 \<Rightarrow> uint16) \<Rightarrow> server_config \<Rightarrow> server_config) \<Rightarrow> 'y \<Rightarrow> server_config \<Rightarrow> server_config option" where
  "as_uint16 y upd n c = map_option (\<lambda>v. upd (\<lambda>_. v) c) (y_uint16 y n)"

definition as_int :: "'y yaml \<Rightarrow> ((int \<Rightarrow> int) \<Rightarrow> server_config \<Rightarrow> server_config) \<Rightarrow> 'y \<Rightarrow> server_config \<Rightarrow> server_config option" where
  "as_int y upd n c = map_option (\<lambda>v. upd (\<lambda>_. v) c) (y_int y n)"

text \<open>
  \<open>load\<close> is a sequence of guarded assignments inside one \<^verbatim>\<open>try\<close>: what was assigned
  before an exception stays. A section is looked up member by member, each tested.
\<close>

fun load_fields :: "'y yaml \<Rightarrow> 'y \<Rightarrow> 'y setting list \<Rightarrow> server_config \<Rightarrow> bool \<times> server_config" where
  "load_fields y n [] c = (True, c)"
| "load_fields y n ((k, f) # fs) c =
     (case y_at y n k of
        None \<Rightarrow> (False, c)
      | Some m \<Rightarrow> (if y_defined y m
                   then (case f m c of None \<Rightarrow> (False, c) | Some c' \<Rightarrow> load_fields y n fs c')
                   else load_fields y n fs c))"

fun find_section :: "'y yaml \<Rightarrow> 'y \<Rightarrow> string list \<Rightarrow> 'y option option" where
  "find_section y n [] = Some (Some n)"
| "find_section y n (k # ks) =
     (case y_at y n k of
        None \<Rightarrow> None
      | Some m \<Rightarrow> (if y_defined y m then find_section y m ks else Some None))"

fun load_sections :: "'y yaml \<Rightarrow> 'y \<Rightarrow> (string list \<times> 'y setting list) list \<Rightarrow> server_config \<Rightarrow> bool \<times> server_config" where
  "load_sections y config [] c = (True, c)"
| "load_sections y config ((path, fs) # ss) c =
     (case find_section y config path of
        None \<Rightarrow> (False, c)
      | Some None \<Rightarrow> load_sections y config ss c
      | Some (Some n) \<Rightarrow> (let (ok, c) = load_fields y n fs c
                          in if ok then load_sections y config ss c else (False, c)))"

definition config_sections :: "'y yaml \<Rightarrow> (string list \<times> 'y setting list) list" where
  "config_sections y =
     [([''server''],
        [(''name'', as_string y serverName_update), (''version'', as_string y serverVersion_update)]),
      ([''server'', ''gateway''],
        [(''host'', as_string y gatewayHost_update), (''port'', as_uint16 y gatewayPort_update),
         (''max_connections'', as_int y cfg_maxConnections_update)]),
      ([''server'', ''game''],
        [(''host'', as_string y gameHost_update), (''port'', as_uint16 y gamePort_update),
         (''max_players'', as_int y maxPlayers_update)]),
      ([''server'', ''threads''],
        [(''io_threads'', as_int y ioThreads_update), (''logic_threads'', as_int y logicThreads_update),
         (''db_threads'', as_int y dbThreads_update)]),
      ([''database'', ''mysql''],
        [(''host'', as_string y mysqlHost_update), (''port'', as_uint16 y mysqlPort_update),
         (''user'', as_string y mysqlUser_update), (''password'', as_string y mysqlPassword_update),
         (''database'', as_string y mysqlDatabase_update), (''pool_size'', as_int y mysqlPoolSize_update)]),
      ([''database'', ''redis''],
        [(''host'', as_string y redisHost_update), (''port'', as_uint16 y redisPort_update),
         (''password'', as_string y redisPassword_update), (''db'', as_int y redisDb_update),
         (''pool_size'', as_int y redisPoolSize_update)]),
      ([''server'', ''log''],
        [(''level'', as_string y logLevel_update), (''path'', as_string y logPath_update)]),
      ([''heartbeat''],
        [(''interval'', as_int y heartbeatInterval_update), (''timeout'', as_int y heartbeatTimeout_update)])]"

definition ServerConfig_load :: "'y yaml \<Rightarrow> string \<Rightarrow> server_config \<Rightarrow> bool \<times> server_config" where
  "ServerConfig_load y filename c =
     (case y_load y filename of None \<Rightarrow> (False, c) | Some config \<Rightarrow> load_sections y config (config_sections y) c)"

subsection \<open>\<^verbatim>\<open>Server\<close>\<close>

record server =
  srv_config :: server_config
  srv_pool :: "nat thread_pool option"
  gatewayFd :: int
  gameFd :: int
  srv_running :: bool
  got_fds :: "int list"
  closed_fds :: "int list"

definition Server_new :: "server_config \<Rightarrow> server" where
  "Server_new cfg =
     \<lparr>srv_config = cfg, srv_pool = None, gatewayFd = - 1, gameFd = - 1, srv_running = False,
      got_fds = [], closed_fds = []\<rparr>"

text \<open>The threads are counted in \<open>uint32\<close>.\<close>

definition Server_init :: "server \<Rightarrow> bool \<times> server" where
  "Server_init s =
     (let p = ThreadPool_new ThreadPoolConfig_default;
          n = unat (of_int (ioThreads (srv_config s) + logicThreads (srv_config s)) :: uint32)
      in (True, s\<lparr>srv_pool := Some (ThreadPool_start n p)\<rparr>))"

definition get_fd :: "int \<Rightarrow> server \<Rightarrow> server" where
  "get_fd fd s = (if 0 \<le> fd then s\<lparr>got_fds := got_fds s @ [fd]\<rparr> else s)"

definition close_fd :: "int \<Rightarrow> server \<Rightarrow> server" where
  "close_fd fd s = s\<lparr>closed_fds := closed_fds s @ [fd]\<rparr>"

definition Server_start ::
    "(string \<Rightarrow> uint32 option) \<Rightarrow> listen_answers \<Rightarrow> listen_answers \<Rightarrow> server \<Rightarrow> bool \<times> server" where
  "Server_start pton gw gm s =
     (if srv_running s then (True, s)
      else
        (let s = get_fd (la_socket gw) (s\<lparr>gatewayFd := la_socket gw\<rparr>) in
         if gatewayFd s < 0 then (False, s)
         else if \<not> la_bind gw (IPv4Address_of pton (gatewayHost (srv_config s)) (gatewayPort (srv_config s)))
         then (False, (close_fd (gatewayFd s) s)\<lparr>gatewayFd := - 1\<rparr>)
         else if \<not> la_listen gw then (False, (close_fd (gatewayFd s) s)\<lparr>gatewayFd := - 1\<rparr>)
         else
           (let s = get_fd (la_socket gm) (s\<lparr>gameFd := la_socket gm\<rparr>) in
            if gameFd s < 0 then (False, close_fd (gatewayFd s) s)
            else if \<not> la_bind gm (IPv4Address_of pton (gameHost (srv_config s)) (gamePort (srv_config s)))
            then (False, close_fd (gameFd s) (close_fd (gatewayFd s) s))
            else if \<not> la_listen gm then (False, close_fd (gameFd s) (close_fd (gatewayFd s) s))
            else (True, s\<lparr>srv_running := True\<rparr>))))"

text \<open>Up to the join of the pool's workers, which is \<open>ThreadPool_stop_joined\<close>.\<close>

definition Server_stop :: "server \<Rightarrow> server" where
  "Server_stop s =
     (if \<not> srv_running s then s
      else
        (let s = s\<lparr>srv_running := False\<rparr>;
             s = (if 0 \<le> gatewayFd s then (close_fd (gatewayFd s) s)\<lparr>gatewayFd := - 1\<rparr> else s);
             s = (if 0 \<le> gameFd s then (close_fd (gameFd s) s)\<lparr>gameFd := - 1\<rparr> else s)
         in s\<lparr>srv_pool := map_option ThreadPool_stop_request (srv_pool s)\<rparr>))"

inductive server_reach :: "server \<Rightarrow> bool" where
  sv_new: "server_reach (Server_new cfg)"
| sv_init: "server_reach s \<Longrightarrow> server_reach (snd (Server_init s))"
| sv_start: "server_reach s \<Longrightarrow> server_reach (snd (Server_start pton gw gm s))"
| sv_stop: "server_reach s \<Longrightarrow> server_reach (Server_stop s)"

definition fds_balanced :: "server \<Rightarrow> bool" where
  "fds_balanced s \<longleftrightarrow>
     mset (got_fds s) = mset (closed_fds s) + (if srv_running s then {#gatewayFd s, gameFd s#} else {#}) \<and>
     (srv_running s \<longrightarrow> 0 \<le> gatewayFd s \<and> 0 \<le> gameFd s)"

lemma fds_balanced_start: "fds_balanced s \<Longrightarrow> fds_balanced (snd (Server_start pton gw gm s))"
  by (auto simp: fds_balanced_def Server_start_def get_fd_def close_fd_def Let_def)

lemma fds_balanced_stop: "fds_balanced s \<Longrightarrow> fds_balanced (Server_stop s) \<and> \<not> srv_running (Server_stop s)"
  by (auto simp: fds_balanced_def Server_stop_def close_fd_def Let_def)

lemma server_reach_balanced: "server_reach s \<Longrightarrow> fds_balanced s"
  by (induction rule: server_reach.induct)
    (simp_all add: fds_balanced_start fds_balanced_stop, simp_all add: fds_balanced_def Server_new_def Server_init_def Let_def)

text \<open>
  C31: The descriptors the server has got from the kernel are, each exactly once, the ones it has
  closed and, while it is running, its two listening sockets; so on every failure path of
  \<open>start\<close>, and however often the server is started and stopped, nothing leaks and nothing
  is closed twice.
\<close>

theorem Server_fds_balanced:
  assumes "server_reach s"
  shows "mset (got_fds s) = mset (closed_fds s) + (if srv_running s then {#gatewayFd s, gameFd s#} else {#})"
  using server_reach_balanced[OF assms] by (simp add: fds_balanced_def)

definition ok_answers :: "int \<Rightarrow> listen_answers" where
  "ok_answers fd = \<lparr>la_socket = fd, la_bind = (\<lambda>_. True), la_listen = True\<rparr>"

theorem Server_fds_balanced_witness:
  "mset (got_fds (snd (Server_start (\<lambda>_. Some 0) (ok_answers 3) (ok_answers 4) (Server_new ServerConfig_default)))) = {#3, 4#}"
  using Server_fds_balanced[OF sv_start[OF sv_new[of ServerConfig_default], of "\<lambda>_. Some 0" "ok_answers 3" "ok_answers 4"]]
  by (simp add: Server_start_def Server_new_def get_fd_def ok_answers_def Let_def)

text \<open>
  The pool has at most eight workers, the default of its configuration, whatever number of
  threads the configuration asks for: the file's default of four and eight gives eight.
\<close>

lemma Server_init_threads:
  "\<exists>p. srv_pool (snd (Server_init s)) = Some p \<and> ThreadPool_workerCount p \<le> 8"
  by (simp add: Server_init_def ThreadPool_start_def ThreadPool_new_def ThreadPoolConfig_default_def
      ThreadPool_workerCount_def Let_def)

subsection \<open>\<^verbatim>\<open>GameServer\<close>\<close>

record game_server =
  gs_config :: server_config
  gs_mysql :: "conn_pool option"
  gs_redis :: "conn_pool option"
  gs_entities :: bool
  gs_lua :: bool
  gs_running :: bool

definition GameServer_new :: "server_config \<Rightarrow> game_server" where
  "GameServer_new cfg =
     \<lparr>gs_config = cfg, gs_mysql = None, gs_redis = None, gs_entities = False, gs_lua = False, gs_running = False\<rparr>"

text \<open>
  \<open>mysql\<close> and \<open>redis\<close> are the connections the pools manage to make, \<open>script\<close> tells whether
  the main script loads. The pools' least number of connections keeps its default of two.
\<close>

definition GameServer_init :: "nat option list \<Rightarrow> nat option list \<Rightarrow> bool \<Rightarrow> game_server \<Rightarrow> bool \<times> game_server" where
  "GameServer_init mysql redis script g =
     (let (ok, p) = MySQLConnectionPool_init mysql (ConnPool_new 2 (unat (of_int (mysqlPoolSize (gs_config g)) :: uint32)));
          g = g\<lparr>gs_mysql := Some p\<rparr>
      in if \<not> ok then (False, g)
         else (let (ok, p) = RedisPool_init redis (ConnPool_new 2 (unat (of_int (redisPoolSize (gs_config g)) :: uint32)));
                   g = g\<lparr>gs_redis := Some p\<rparr>
               in if \<not> ok then (False, g)
                  else (let g = g\<lparr>gs_entities := True, gs_lua := True\<rparr>
                        in if \<not> script then (False, g) else (True, g))))"

definition GameServer_start :: "game_server \<Rightarrow> bool \<times> game_server" where
  "GameServer_start g = (True, g\<lparr>gs_running := True\<rparr>)"

definition GameServer_stop :: "game_server \<Rightarrow> game_server" where
  "GameServer_stop g =
     g\<lparr>gs_running := False, gs_mysql := map_option MySQLConnectionPool_close (gs_mysql g),
       gs_redis := map_option RedisPool_close (gs_redis g)\<rparr>"

lemma GameServer_init_cases:
  "GameServer_init (Some a # Some b # mysql) (Some c # Some d # redis) script g =
     (script, g\<lparr>gs_mysql := Some (ConnPool_new 2 (unat (of_int (mysqlPoolSize (gs_config g)) :: uint32))
           \<lparr>pool_running := True, pool_queue := [a, b], allConnections := [a, b]\<rparr>),
         gs_redis := Some (ConnPool_new 2 (unat (of_int (redisPoolSize (gs_config g)) :: uint32))
           \<lparr>pool_running := True, pool_queue := [c, d], allConnections := [c, d]\<rparr>),
         gs_entities := True, gs_lua := True\<rparr>)"
  by (simp add: GameServer_init_def MySQLConnectionPool_init_def RedisPool_init_def ConnPool_new_def numeral_2_eq_2 Let_def)

text \<open>A pool size of one is exceeded at once.\<close>

lemma GameServer_pool_size_exceeded:
  assumes "mysqlPoolSize (gs_config g) = 1"
  shows "\<exists>p. gs_mysql (snd (GameServer_init (Some a # Some b # mysql) (Some c # Some d # redis) script g)) = Some p \<and>
    maxConnections p < MySQLConnectionPool_size p"
  using assms by (simp add: GameServer_init_cases ConnPool_new_def MySQLConnectionPool_size_def)

lemma GameServer_stopped_pools:
  "(\<forall>p. gs_mysql (GameServer_stop g) = Some p \<longrightarrow> MySQLConnectionPool_entry p = Some GotNull) \<and>
   (\<forall>p. gs_redis (GameServer_stop g) = Some p \<longrightarrow> RedisPool_entry p = Some GotNull)"
  by (auto simp: GameServer_stop_def MySQLConnectionPool_entry_def MySQLConnectionPool_close_def
      RedisPool_entry_def RedisPool_close_def)

subsection \<open>\<^verbatim>\<open>main\<close>\<close>

datatype main_choice = PrintHelp | PrintVersion | RunServer string

fun main_args :: "string list \<Rightarrow> string \<Rightarrow> main_choice" where
  "main_args [] configFile = RunServer configFile"
| "main_args (arg # rest) configFile =
     (if arg = ''-h'' \<or> arg = ''--help'' then PrintHelp
      else if arg = ''-v'' \<or> arg = ''--version'' then PrintVersion
      else if arg = ''-c'' \<and> rest \<noteq> [] then main_args (tl rest) (hd rest)
      else main_args rest configFile)"

text \<open>
  The exit code and the server as its destructor leaves it. The event loop between start and
  stop has only its own wake-up descriptor: nothing registers the listening sockets with it.
\<close>

definition main_run ::
    "'y yaml \<Rightarrow> (string \<Rightarrow> uint32 option) \<Rightarrow> listen_answers \<Rightarrow> listen_answers \<Rightarrow> string \<Rightarrow> int \<times> server option" where
  "main_run y pton gw gm configFile =
     (let (ok, cfg) = ServerConfig_load y configFile ServerConfig_default
      in if \<not> ok then (1, None)
         else (let (ok, s) = Server_init (Server_new cfg)
               in if \<not> ok then (1, Some (Server_stop s))
                  else (let (ok, s) = Server_start pton gw gm s
                        in if \<not> ok then (1, Some (Server_stop s))
                           else (0, Some (Server_stop (Server_stop s))))))"

definition main_default_config :: string where
  "main_default_config = ''config/server.yaml''"

lemma main_returns_everything:
  assumes "main_run y pton gw gm f = (code, Some s)"
  shows "mset (got_fds s) = mset (closed_fds s)"
proof -
  have b: "fds_balanced (snd (Server_start pton gw gm (snd (Server_init (Server_new cfg)))))" for cfg
    by (intro server_reach_balanced sv_start sv_init sv_new)
  have e: "mset (got_fds (Server_stop s)) = mset (closed_fds (Server_stop s)) \<and> fds_balanced (Server_stop s)"
    if "fds_balanced s" for s
    using fds_balanced_stop[OF that] by (simp add: fds_balanced_def)
  obtain ok cfg where l: "ServerConfig_load y f ServerConfig_default = (ok, cfg)" by (cases "ServerConfig_load y f ServerConfig_default")
  define u where "u = snd (Server_init (Server_new cfg))"
  have i: "Server_init (Server_new cfg) = (True, u)" by (simp add: u_def Server_init_def Let_def)
  obtain ok' t where t: "Server_start pton gw gm u = (ok', t)" by (cases "Server_start pton gw gm u")
  have "fds_balanced t" using b[of cfg] t by (simp add: u_def)
  then show ?thesis
    using assms e[of t] e[of "Server_stop t"] by (auto simp: main_run_def l i t split: if_splits)
qed

end
