(* ===== verification/Gateway.thy ===== *)
theory Gateway
  imports Connection Server
begin

text \<open>
  \<^verbatim>\<open>src/gateway\<close>: the gateway's connections. A \<open>Ptr<Connection>\<close> is an
  index into the store \<open>conn_heap\<close>; the gateway's table holds the only lasting references,
  so an operation that drops the last one runs the destructor there. \<open>ndebug\<close> tells
  whether the destructors' assertions are compiled out; the other assertions are those of
  the connection's model. The connection's callback is the gateway's
  \<open>onConnectionClosed\<close>. \<open>None\<close> is a failed assertion.
\<close>

subsection \<open>\<^verbatim>\<open>GatewayConfig\<close> and \<^verbatim>\<open>ClientConnection\<close>\<close>

record gateway_config =
  gc_host :: string
  gc_port :: uint16
  gc_maxConnections :: int
  gc_timeout :: int

definition GatewayConfig_default :: gateway_config where
  "GatewayConfig_default = \<lparr>gc_host = ''0.0.0.0'', gc_port = 8888, gc_maxConnections = 10000, gc_timeout = 90000\<rparr>"

record client_connection =
  cc_id :: int
  cc_connection :: "tcp_conn option"
  cc_playerId :: int
  cc_roleId :: int
  lastHeartbeat :: int

definition ClientConnection_new :: "int \<Rightarrow> tcp_conn option \<Rightarrow> int \<Rightarrow> client_connection" where
  "ClientConnection_new i c now =
     \<lparr>cc_id = i, cc_connection = c, cc_playerId = 0, cc_roleId = 0, lastHeartbeat = now\<rparr>"

definition ClientConnection_send :: "bool \<Rightarrow> write_result \<Rightarrow> byte list \<Rightarrow> client_connection \<Rightarrow> client_connection option" where
  "ClientConnection_send in_loop res data cc =
     (case cc_connection cc of
        None \<Rightarrow> Some cc
      | Some c \<Rightarrow> map_option (\<lambda>c. cc\<lparr>cc_connection := Some c\<rparr>) (Connection_send in_loop res data c))"

definition ClientConnection_close :: "bool \<Rightarrow> client_connection \<Rightarrow> client_connection" where
  "ClientConnection_close in_loop cc = cc\<lparr>cc_connection := map_option (Connection_shutdown in_loop) (cc_connection cc)\<rparr>"

definition ClientConnection_updateHeartbeat :: "int \<Rightarrow> client_connection \<Rightarrow> client_connection" where
  "ClientConnection_updateHeartbeat now cc = cc\<lparr>lastHeartbeat := now\<rparr>"

definition ClientConnection_isHeartbeatTimeout :: "int \<Rightarrow> int \<Rightarrow> client_connection \<Rightarrow> bool" where
  "ClientConnection_isHeartbeatTimeout now timeoutMs cc \<longleftrightarrow> timeoutMs < now - lastHeartbeat cc"

lemma heartbeat_fresh:
  "0 \<le> timeoutMs \<Longrightarrow> \<not> ClientConnection_isHeartbeatTimeout now timeoutMs (ClientConnection_updateHeartbeat now cc)"
  by (simp add: ClientConnection_isHeartbeatTimeout_def ClientConnection_updateHeartbeat_def)

subsection \<open>\<^verbatim>\<open>GatewayServer\<close>\<close>

record gateway =
  gw_config :: gateway_config
  listenFd :: int
  listenChannel :: "channel option"
  connections :: "(int \<times> nat) list"
  nextConnId :: int
  gw_running :: bool
  conn_heap :: "tcp_conn list"
  gw_closed :: "int list"

definition GatewayServer_new :: "gateway_config \<Rightarrow> gateway" where
  "GatewayServer_new cfg =
     \<lparr>gw_config = cfg, listenFd = - 1, listenChannel = None, connections = [], nextConnId = 0,
      gw_running = False, conn_heap = [], gw_closed = []\<rparr>"

definition GatewayServer_init :: "(string \<Rightarrow> uint32 option) \<Rightarrow> listen_answers \<Rightarrow> gateway \<Rightarrow> bool \<times> gateway" where
  "GatewayServer_init pton ans g =
     (let g = g\<lparr>listenFd := la_socket ans\<rparr> in
      if listenFd g < 0 then (False, g)
      else if \<not> la_bind ans (IPv4Address_of pton (gc_host (gw_config g)) (gc_port (gw_config g)))
      then (False, g\<lparr>gw_closed := gw_closed g @ [listenFd g], listenFd := - 1\<rparr>)
      else if \<not> la_listen ans
      then (False, g\<lparr>gw_closed := gw_closed g @ [listenFd g], listenFd := - 1\<rparr>)
      else (True, g))"

text \<open>The destructor of a channel.\<close>

definition Channel_destroy :: "bool \<Rightarrow> channel \<Rightarrow> unit option" where
  "Channel_destroy ndebug ch = (if ndebug \<or> \<not> addedToLoop ch then Some () else None)"

definition GatewayServer_start :: "bool \<Rightarrow> gateway \<Rightarrow> (bool \<times> gateway) option" where
  "GatewayServer_start ndebug g =
     (if gw_running g then Some (True, g)
      else do { _ \<leftarrow> (case listenChannel g of None \<Rightarrow> Some () | Some ch \<Rightarrow> Channel_destroy ndebug ch);
                let ch = Channel_new (listenFd g);
                let ch = ch\<lparr>ch_events := ch_events ch OR kReadEvent, addedToLoop := True\<rparr>;
                Some (True, g\<lparr>listenChannel := Some ch, gw_running := True\<rparr>) })"

text \<open>The end of a reference: the last one runs the destructors, which close the socket.\<close>

definition referenced :: "nat \<Rightarrow> gateway \<Rightarrow> bool" where
  "referenced p g \<longleftrightarrow> p \<in> snd ` set (connections g)"

definition release_conn :: "bool \<Rightarrow> nat \<Rightarrow> gateway \<Rightarrow> gateway option" where
  "release_conn ndebug p g =
     (if referenced p g then Some g
      else (let c = conn_heap g ! p in
            do { _ \<leftarrow> (if ndebug then Some () else Connection_destroy c);
                 _ \<leftarrow> Channel_destroy ndebug (c_channel c);
                 Some (g\<lparr>gw_closed := gw_closed g @ Socket_destroy (ch_fd (c_channel c))\<rparr>) }))"

fun erase_first :: "nat \<Rightarrow> (int \<times> nat) list \<Rightarrow> (int \<times> nat) list" where
  "erase_first p [] = []"
| "erase_first p ((k, q) # cs) = (if q = p then cs else (k, q) # erase_first p cs)"

definition GatewayServer_onConnectionClosed :: "nat \<Rightarrow> gateway \<Rightarrow> gateway" where
  "GatewayServer_onConnectionClosed p g = g\<lparr>connections := erase_first p (connections g)\<rparr>"

definition put_conn :: "nat \<Rightarrow> tcp_conn \<Rightarrow> gateway \<Rightarrow> gateway" where
  "put_conn p c g = g\<lparr>conn_heap := (conn_heap g)[p := c]\<rparr>"

text \<open>
  An operation of the connection that may call the connection callback: the gateway's
  \<open>onConnectionClosed\<close> runs when it has been called. \<open>i\<close> is the connection's number.
\<close>

definition with_callback :: "(tcp_conn \<Rightarrow> tcp_conn option) \<Rightarrow> nat \<Rightarrow> gateway \<Rightarrow> gateway option" where
  "with_callback f p g =
     do { c \<leftarrow> f (conn_heap g ! p);
          let called = (length (notified (conn_heap g ! p)) < length (notified c));
          let g = put_conn p c g;
          Some (if called then GatewayServer_onConnectionClosed p g else g) }"

definition GatewayServer_onNewConnection :: "bool \<Rightarrow> int \<Rightarrow> int \<Rightarrow> ipv4 \<Rightarrow> gateway \<Rightarrow> gateway option" where
  "GatewayServer_onNewConnection ndebug i sockfd peer g =
     (let p = length (conn_heap g);
          g = g\<lparr>conn_heap := conn_heap g @ [Connection_new i sockfd peer], nextConnId := nextConnId g + 1\<rparr>;
          g = g\<lparr>connections := connections g @ [(nextConnId g, p)]\<rparr>
      in do { g \<leftarrow> with_callback Connection_connectEstablished p g; release_conn ndebug p g })"

text \<open>The listening channel's read callback; \<open>accepted\<close> is what \<^verbatim>\<open>accept\<close> returns.\<close>

definition GatewayServer_accept :: "bool \<Rightarrow> int \<Rightarrow> int \<Rightarrow> ipv4 \<Rightarrow> gateway \<Rightarrow> gateway option" where
  "GatewayServer_accept ndebug i accepted peer g =
     (if 0 \<le> accepted then GatewayServer_onNewConnection ndebug i accepted peer g else Some g)"

text \<open>A connection of the table closes: \<open>handleClose\<close> holds a reference while it runs.\<close>

definition GatewayServer_connectionCloses :: "bool \<Rightarrow> nat \<Rightarrow> gateway \<Rightarrow> gateway option" where
  "GatewayServer_connectionCloses ndebug p g =
     do { g \<leftarrow> with_callback Connection_handleClose p g; release_conn ndebug p g }"

fun release_all :: "bool \<Rightarrow> nat list \<Rightarrow> gateway \<Rightarrow> gateway option" where
  "release_all ndebug [] g = Some g"
| "release_all ndebug (p # ps) g = do { g \<leftarrow> release_conn ndebug p g; release_all ndebug ps g }"

definition GatewayServer_stop :: "bool \<Rightarrow> gateway \<Rightarrow> gateway option" where
  "GatewayServer_stop ndebug g =
     (if \<not> gw_running g then Some g
      else
        (let g = g\<lparr>gw_running := False\<rparr>;
             ps = map snd (connections g);
             g = fold (\<lambda>p g. put_conn p (Connection_forceClose (conn_heap g ! p)) g) ps g;
             g = g\<lparr>connections := []\<rparr>
         in do { g \<leftarrow> release_all ndebug ps g;
                 let g = (if 0 \<le> listenFd g then g\<lparr>gw_closed := gw_closed g @ [listenFd g], listenFd := - 1\<rparr> else g);
                 _ \<leftarrow> (case listenChannel g of None \<Rightarrow> Some () | Some ch \<Rightarrow> Channel_destroy ndebug ch);
                 Some (g\<lparr>listenChannel := None\<rparr>) }))"

inductive gateway_reach :: "bool \<Rightarrow> gateway \<Rightarrow> bool" for ndebug where
  gw_new: "gateway_reach ndebug (GatewayServer_new cfg)"
| gw_init: "gateway_reach ndebug g \<Longrightarrow> gateway_reach ndebug (snd (GatewayServer_init pton ans g))"
| gw_start: "gateway_reach ndebug g \<Longrightarrow> GatewayServer_start ndebug g = Some (ok, g') \<Longrightarrow> gateway_reach ndebug g'"
| gw_accept: "gateway_reach ndebug g \<Longrightarrow> GatewayServer_accept ndebug i fd peer g = Some g' \<Longrightarrow> gateway_reach ndebug g'"
| gw_stop: "gateway_reach ndebug g \<Longrightarrow> GatewayServer_stop ndebug g = Some g' \<Longrightarrow> gateway_reach ndebug g'"

definition gateway_inv :: "gateway \<Rightarrow> bool" where
  "gateway_inv g \<longleftrightarrow> connections g = [] \<and>
     (case listenChannel g of None \<Rightarrow> \<not> gw_running g | Some ch \<Rightarrow> gw_running g \<and> addedToLoop ch)"

lemma onNewConnection_eq:
  assumes "connections g = []" "0 \<le> fd"
  shows "GatewayServer_onNewConnection ndebug i fd peer g =
    (if ndebug
     then Some (g\<lparr>conn_heap := conn_heap g @ [the (Connection_connectEstablished (Connection_new i fd peer))],
        nextConnId := nextConnId g + 1, gw_closed := gw_closed g @ [fd]\<rparr>)
     else None)"
  using assms
  by (simp add: GatewayServer_onNewConnection_def with_callback_def GatewayServer_onConnectionClosed_def put_conn_def
      release_conn_def referenced_def Connection_connectEstablished_def Connection_new_def notify_def conn_events_def
      Connection_destroy_def Channel_destroy_def Socket_destroy_def Channel_new_def Let_def)

lemma gateway_reach_inv: "gateway_reach ndebug g \<Longrightarrow> gateway_inv g"
proof (induction rule: gateway_reach.induct)
  case (gw_accept g i fd peer g')
  then show ?case
    by (auto simp: GatewayServer_accept_def onNewConnection_eq gateway_inv_def split: if_splits option.splits)
next
  case (gw_stop g g')
  then show ?case
    by (auto simp: GatewayServer_stop_def gateway_inv_def Channel_destroy_def Let_def
        split: if_splits option.splits Option.bind_split_asm)
next
  case (gw_start g ok g')
  then show ?case
    by (auto simp: GatewayServer_start_def gateway_inv_def Let_def split: if_splits option.splits Option.bind_split_asm)
qed (auto simp: gateway_inv_def GatewayServer_new_def GatewayServer_init_def Let_def split: option.splits)

text \<open>
  The gateway keeps no client. Establishing a connection calls the connection callback, which
  the gateway uses for closed connections only: the new connection is taken out of the table
  at once, and the end of \<open>onNewConnection\<close> destroys it while it is connected. With
  assertions the process aborts; without them the client's socket is closed.
\<close>

theorem gateway_drops_new_connection:
  assumes "gateway_reach ndebug g" "0 \<le> fd"
  shows "case GatewayServer_onNewConnection ndebug i fd peer g of
      None \<Rightarrow> \<not> ndebug
    | Some g' \<Rightarrow> ndebug \<and> connections g' = connections g \<and> gw_closed g' = gw_closed g @ [fd]"
  using gateway_reach_inv[OF assms(1)] assms(2) by (simp add: onNewConnection_eq gateway_inv_def)

theorem gateway_drops_new_connection_witness:
  "GatewayServer_onNewConnection False 1 9 IPv4Address_default (GatewayServer_new GatewayConfig_default) = None"
  using gateway_drops_new_connection[OF gw_new[of False GatewayConfig_default], of 9 1 IPv4Address_default]
  by (simp split: option.splits)

text \<open>
  A gateway that has been started cannot be stopped in a build with assertions: nobody takes
  the listening channel out of the loop before it is destroyed. Without assertions the
  listening socket is closed, once.
\<close>

theorem GatewayServer_stop_aborts:
  assumes "gateway_reach ndebug g" "gw_running g"
  shows "case GatewayServer_stop ndebug g of
      None \<Rightarrow> \<not> ndebug
    | Some g' \<Rightarrow> ndebug \<and> gw_closed g' = gw_closed g @ Socket_destroy (listenFd g)"
  using gateway_reach_inv[OF assms(1)] assms(2)
  by (auto simp: GatewayServer_stop_def gateway_inv_def Channel_destroy_def Socket_destroy_def Let_def split: option.splits)

definition started_gateway :: gateway where
  "started_gateway = snd (the (GatewayServer_start False (snd (GatewayServer_init (\<lambda>_. Some 0) (ok_answers 5)
     (GatewayServer_new GatewayConfig_default)))))"

lemma started_gateway_reach: "gateway_reach False started_gateway" "gw_running started_gateway"
proof -
  have s: "GatewayServer_start False (snd (GatewayServer_init (\<lambda>_. Some 0) (ok_answers 5)
     (GatewayServer_new GatewayConfig_default))) = Some (True, started_gateway)"
    by (simp add: started_gateway_def GatewayServer_start_def GatewayServer_init_def GatewayServer_new_def ok_answers_def Let_def)
  show "gateway_reach False started_gateway" by (rule gw_start[OF gw_init[OF gw_new] s])
  show "gw_running started_gateway"
    by (simp add: started_gateway_def GatewayServer_start_def GatewayServer_init_def GatewayServer_new_def ok_answers_def Let_def)
qed

theorem GatewayServer_stop_aborts_witness: "GatewayServer_stop False started_gateway = None"
  using GatewayServer_stop_aborts[OF started_gateway_reach] by (simp split: option.splits)

text \<open>
  Were a connection kept, closing it would abort too: its channel is never taken out of the
  loop, as \<open>connectDestroyed\<close> is called nowhere.
\<close>

lemma closing_aborts:
  assumes "connections g = [(k, p)]" "p < length (conn_heap g)" "c_state (conn_heap g ! p) = ConnConnected"
  shows "GatewayServer_connectionCloses False p g = None"
  using assms
  by (simp add: GatewayServer_connectionCloses_def with_callback_def GatewayServer_onConnectionClosed_def put_conn_def
      release_conn_def referenced_def Connection_handleClose_def notify_def conn_events_def Connection_destroy_def
      Channel_destroy_def Let_def)

end
