(* ===== verification/Threads.thy ===== *)
theory Threads
  imports ThreadPools Database
begin

text \<open>
  \<^verbatim>\<open>src/common/thread/thread.cpp\<close>: thread objects and the handles of the operating
  system they own, and the fixed-size pool of \<^verbatim>\<open>thread_pool.cpp\<close>. What
  \<^verbatim>\<open>pthread_create\<close> answers is an argument; \<open>None\<close> is a failed assertion.
\<close>

subsection \<open>\<^verbatim>\<open>Thread\<close>\<close>

record thread =
  th_started :: bool
  th_joined :: bool
  pthreadId :: nat
  th_tid :: int
  th_name :: string

text \<open>The default name counts the threads without one.\<close>

definition Thread_new :: "string \<Rightarrow> int \<Rightarrow> thread \<times> int" where
  "Thread_new name numCreated =
     (let t = \<lparr>th_started = False, th_joined = False, pthreadId = 0, th_tid = 0, th_name = name\<rparr>
      in if name = '''' then (t\<lparr>th_name := ''Thread-'' @ int_to_string (numCreated + 1)\<rparr>, numCreated + 1)
         else (t, numCreated))"

text \<open>The handles a destructor or an assignment detaches.\<close>

definition Thread_destroy :: "thread \<Rightarrow> nat list" where
  "Thread_destroy t = (if th_started t \<and> \<not> th_joined t then [pthreadId t] else [])"

definition moved_from :: "thread \<Rightarrow> thread" where
  "moved_from t = t\<lparr>th_started := False, th_joined := False, pthreadId := 0, th_tid := 0, th_name := ''''\<rparr>"

definition Thread_move :: "thread \<Rightarrow> thread \<times> thread" where
  "Thread_move other = (other, moved_from other)"

definition Thread_assign :: "thread \<Rightarrow> thread \<Rightarrow> thread \<times> thread \<times> nat list" where
  "Thread_assign this other = (other, moved_from other, Thread_destroy this)"

text \<open>\<open>made\<close> is the new thread's handle and id, or the failure of its creation.\<close>

definition Thread_start :: "(nat \<times> int) option \<Rightarrow> thread \<Rightarrow> thread option" where
  "Thread_start made t =
     (if th_started t then None
      else case made of
             None \<Rightarrow> Some (t\<lparr>th_started := False\<rparr>)
           | Some (h, tid) \<Rightarrow> Some (t\<lparr>th_started := True, pthreadId := h, th_tid := tid\<rparr>))"

definition Thread_join :: "thread \<Rightarrow> (thread \<times> nat) option" where
  "Thread_join t = (if th_started t \<and> \<not> th_joined t then Some (t\<lparr>th_joined := True\<rparr>, pthreadId t) else None)"

text \<open>
  Programs over thread objects: \<open>made_handles\<close> are those created, \<open>released\<close> those joined
  or detached. A thread whose construction was moved from, or joined, may be started again
  only if it is not marked started.
\<close>

record threads =
  th_objects :: "thread list"
  numCreated :: int
  made_handles :: "nat list"
  released :: "nat list"

definition owned :: "thread \<Rightarrow> nat list" where
  "owned t = (if th_started t \<and> \<not> th_joined t then [pthreadId t] else [])"

inductive threads_step :: "threads \<Rightarrow> threads \<Rightarrow> bool" where
  ts_new: "Thread_new name (numCreated w) = (t, n) \<Longrightarrow>
    threads_step w (w\<lparr>th_objects := th_objects w @ [t], numCreated := n\<rparr>)"
| ts_start: "i < length (th_objects w) \<Longrightarrow> \<not> th_joined (th_objects w ! i) \<Longrightarrow>
    Thread_start made (th_objects w ! i) = Some t \<Longrightarrow>
    threads_step w (w\<lparr>th_objects := (th_objects w)[i := t],
      made_handles := made_handles w @ (case made of None \<Rightarrow> [] | Some (h, _) \<Rightarrow> [h])\<rparr>)"
| ts_join: "i < length (th_objects w) \<Longrightarrow> Thread_join (th_objects w ! i) = Some (t, h) \<Longrightarrow>
    threads_step w (w\<lparr>th_objects := (th_objects w)[i := t], released := released w @ [h]\<rparr>)"
| ts_move: "i < length (th_objects w) \<Longrightarrow> Thread_move (th_objects w ! i) = (t, t') \<Longrightarrow>
    threads_step w (w\<lparr>th_objects := (th_objects w)[i := t'] @ [t]\<rparr>)"
| ts_assign: "i < length (th_objects w) \<Longrightarrow> j < length (th_objects w) \<Longrightarrow> i \<noteq> j \<Longrightarrow>
    Thread_assign (th_objects w ! i) (th_objects w ! j) = (t, t', hs) \<Longrightarrow>
    threads_step w (w\<lparr>th_objects := (th_objects w)[i := t, j := t'], released := released w @ hs\<rparr>)"
| ts_destroy: "th_objects w = xs @ t # ys \<Longrightarrow>
    threads_step w (w\<lparr>th_objects := xs @ ys, released := released w @ Thread_destroy t\<rparr>)"

definition no_threads :: threads where
  "no_threads = \<lparr>th_objects = [], numCreated = 0, made_handles = [], released = []\<rparr>"

definition all_owned :: "thread list \<Rightarrow> nat multiset" where
  "all_owned ts = mset (concat (map owned ts))"

lemma all_owned_simps [simp]:
  "all_owned [] = {#}" "all_owned (t # ts) = mset (owned t) + all_owned ts"
  "all_owned (xs @ ys) = all_owned xs + all_owned ys"
  by (simp_all add: all_owned_def)

lemma all_owned_update:
  "i < length ts \<Longrightarrow> all_owned (ts[i := t]) + mset (owned (ts ! i)) = all_owned ts + mset (owned t)"
  by (subst (2) update_split(2)[of i ts]) (simp_all add: update_split(1))

lemma moved_from_owns [simp]: "owned (moved_from t) = []" "owned (t\<lparr>th_joined := True\<rparr>) = []"
  by (simp_all add: owned_def moved_from_def)

lemma Thread_destroy_owned: "Thread_destroy t = owned t"
  by (simp add: Thread_destroy_def owned_def)

definition handles_ok :: "threads \<Rightarrow> bool" where
  "handles_ok w \<longleftrightarrow> mset (made_handles w) = mset (released w) + all_owned (th_objects w)"

lemma handles_ok_step: "threads_step w w' \<Longrightarrow> handles_ok w \<Longrightarrow> handles_ok w'"
proof (induction rule: threads_step.induct)
  case (ts_new name w t n)
  then have "owned t = []" by (auto simp: Thread_new_def owned_def Let_def split: if_splits)
  then show ?case using ts_new by (simp add: handles_ok_def)
next
  case (ts_start i w made t)
  then have o: "owned (th_objects w ! i) = []" "owned t = (case made of None \<Rightarrow> [] | Some (h, _) \<Rightarrow> [h])"
    by (auto simp: Thread_start_def owned_def split: if_splits option.splits)
  then show ?case using ts_start.prems all_owned_update[OF ts_start.hyps(1), of t]
    by (simp add: handles_ok_def)
next
  case (ts_join i w t h)
  then have o: "owned (th_objects w ! i) = [h]" "owned t = []"
    by (auto simp: Thread_join_def owned_def split: if_splits)
  then show ?case using ts_join.prems all_owned_update[OF ts_join.hyps(1), of t]
    by (simp add: handles_ok_def)
next
  case (ts_move i w t t')
  then have "t = th_objects w ! i" "t' = moved_from (th_objects w ! i)" by (auto simp: Thread_move_def)
  then show ?case using ts_move.prems all_owned_update[OF ts_move.hyps(1), of t']
    by (simp add: handles_ok_def)
next
  case (ts_assign i w j t t' hs)
  then have e: "t = th_objects w ! j" "t' = moved_from (th_objects w ! j)" "hs = owned (th_objects w ! i)"
    by (auto simp: Thread_assign_def Thread_destroy_owned)
  have "all_owned ((th_objects w)[i := t, j := t']) + mset (owned t) + mset (owned (th_objects w ! i)) =
      all_owned (th_objects w) + mset (owned t)"
    using all_owned_update[of j "(th_objects w)[i := t]" t'] all_owned_update[OF ts_assign.hyps(1), of t]
      ts_assign.hyps(2,3) by (simp add: e)
  then have "all_owned ((th_objects w)[i := t, j := t']) + mset hs = all_owned (th_objects w)" by (simp add: e)
  then show ?case using ts_assign.prems by (simp add: handles_ok_def ac_simps)
next
  case (ts_destroy w xs t ys)
  then show ?case by (simp add: handles_ok_def Thread_destroy_owned ac_simps)
qed

text \<open>
  C33: Whatever a program does with its thread objects, starting, joining, moving, assigning and
  destroying them, each handle the operating system gave is joined or detached exactly once or
  still owned by exactly one object.
\<close>

theorem Thread_handles_released_once:
  assumes "threads_step\<^sup>*\<^sup>* no_threads w"
  shows "mset (made_handles w) = mset (released w) + mset (concat (map owned (th_objects w)))"
proof -
  have "handles_ok w" using assms
  proof (induction rule: rtranclp_induct)
    case base
    then show ?case by (simp add: handles_ok_def no_threads_def)
  qed (rule handles_ok_step)
  then show ?thesis by (simp add: handles_ok_def all_owned_def)
qed

definition one_thread :: threads where
  "one_thread = \<lparr>th_objects = [\<lparr>th_started = True, th_joined = False, pthreadId = 7, th_tid = 70, th_name = ''io''\<rparr>],
     numCreated = 0, made_handles = [7], released = []\<rparr>"

lemma one_thread_run: "threads_step\<^sup>*\<^sup>* no_threads one_thread"
proof -
  let ?t = "\<lparr>th_started = False, th_joined = False, pthreadId = 0, th_tid = 0, th_name = ''io''\<rparr>"
  have "threads_step no_threads (no_threads\<lparr>th_objects := [?t]\<rparr>)"
    using ts_new[of "''io''" no_threads ?t 0] by (simp add: Thread_new_def no_threads_def)
  moreover have "threads_step (no_threads\<lparr>th_objects := [?t]\<rparr>) one_thread"
    using ts_start[of 0 "no_threads\<lparr>th_objects := [?t]\<rparr>" "Some (7, 70)"]
    by (simp add: Thread_start_def one_thread_def no_threads_def)
  ultimately show ?thesis by (rule converse_rtranclp_into_rtranclp[OF _ r_into_rtranclp])
qed

theorem Thread_handles_released_once_witness:
  "mset (made_handles one_thread) = mset (released one_thread) + {#7#}"
  using Thread_handles_released_once[OF one_thread_run] by (simp add: one_thread_def owned_def)

subsection \<open>Tasks of a pool\<close>

text \<open>
  What the pools share: a step that accepts some tasks and otherwise moves tasks between the
  queue, the workers and the record of those that have run. Then nothing is lost, duplicated
  or invented in any run.
\<close>

locale task_steps =
  fixes step :: "'s \<Rightarrow> 'a list \<Rightarrow> 's \<Rightarrow> bool" and tasks :: "'s \<Rightarrow> 'a multiset"
  assumes conserves: "step p us p' \<Longrightarrow> tasks p' = tasks p + mset us"
begin

inductive run :: "'s \<Rightarrow> 'a list \<Rightarrow> 's \<Rightarrow> bool" for p0 where
  here: "run p0 [] p0"
| more: "run p0 ts p \<Longrightarrow> step p us p' \<Longrightarrow> run p0 (ts @ us) p'"

lemma run_conserves: "run p0 ts p \<Longrightarrow> tasks p = tasks p0 + mset ts"
  by (induction rule: run.induct) (simp_all add: conserves)

lemma run_trans: "run p0 ts p \<Longrightarrow> run p us q \<Longrightarrow> run p0 (ts @ us) q"
  by (rotate_tac 1, induction rule: run.induct) (auto intro: run.intros simp flip: append_assoc)

end

interpretation pool: task_steps tp_step all_tasks
  by unfold_locales (rule step_tasks)

subsection \<open>\<^verbatim>\<open>FixedThreadPool\<close>\<close>

record 'a fixed_pool =
  fx_numThreads :: nat
  fx_started :: bool
  fx_workers :: "'a worker list"
  fx_queue :: "'a monitor_queue"
  fx_ran :: "'a list"

definition FixedThreadPool_new :: "nat \<Rightarrow> 'a fixed_pool" where
  "FixedThreadPool_new n =
     \<lparr>fx_numThreads = n, fx_started = False, fx_workers = [], fx_queue = queue_new, fx_ran = []\<rparr>"

definition FixedThreadPool_start :: "'a fixed_pool \<Rightarrow> 'a fixed_pool" where
  "FixedThreadPool_start p =
     (if fx_started p then p
      else p\<lparr>fx_started := True, fx_workers := fx_workers p @ replicate (fx_numThreads p) AtLoop\<rparr>)"

text \<open>Stopping up to the joins, and once they have returned.\<close>

definition FixedThreadPool_stop_request :: "'a fixed_pool \<Rightarrow> 'a fixed_pool" where
  "FixedThreadPool_stop_request p =
     (if \<not> fx_started p then p else p\<lparr>fx_started := False, fx_queue := TaskQueue_stop (fx_queue p)\<rparr>)"

definition FixedThreadPool_stop_joined :: "'a fixed_pool \<Rightarrow> 'a fixed_pool option" where
  "FixedThreadPool_stop_joined p =
     (if \<forall>w \<in> set (fx_workers p). w = Exited then Some (p\<lparr>fx_workers := []\<rparr>) else None)"

definition FixedThreadPool_execute :: "'a \<Rightarrow> 'a fixed_pool \<Rightarrow> 'a fixed_pool" where
  "FixedThreadPool_execute t p = (if fx_started p then p\<lparr>fx_queue := TaskQueue_push t (fx_queue p)\<rparr> else p)"

definition FixedThreadPool_submit :: "'a \<Rightarrow> 'a fixed_pool \<Rightarrow> 'a fixed_pool" where
  "FixedThreadPool_submit t p = p\<lparr>fx_queue := TaskQueue_push t (fx_queue p)\<rparr>"

definition FixedThreadPool_workerThread :: "nat \<Rightarrow> 'a fixed_pool \<Rightarrow> 'a fixed_pool option" where
  "FixedThreadPool_workerThread i p =
     (let at = (\<lambda>w q. q\<lparr>fx_workers := (fx_workers q)[i := w]\<rparr>) in
      if length (fx_workers p) \<le> i then None
      else case fx_workers p ! i of
        AtLoop \<Rightarrow>
          if fx_started p
          then (let (res, q) = TaskQueue_pop (fx_queue p) in Some (at (after_pop res) (p\<lparr>fx_queue := q\<rparr>)))
          else Some (at Exited p)
      | Asleep \<Rightarrow>
          if 0 < woken (notEmpty (fx_queue p))
          then (let (res, q) = TaskQueue_pop ((fx_queue p)\<lparr>notEmpty := Condition_resume (notEmpty (fx_queue p))\<rparr>)
                in Some (at (after_pop res) (p\<lparr>fx_queue := q\<rparr>)))
          else None
      | Popped t \<Rightarrow> Some (at AtLoop (p\<lparr>fx_ran := fx_ran p @ [t]\<rparr>))
      | _ \<Rightarrow> None)"

inductive fx_step :: "'a fixed_pool \<Rightarrow> 'a list \<Rightarrow> 'a fixed_pool \<Rightarrow> bool" where
  fx_start: "fx_step p [] (FixedThreadPool_start p)"
| fx_execute: "fx_step p (if fx_started p then [t] else []) (FixedThreadPool_execute t p)"
| fx_submit: "fx_step p [t] (FixedThreadPool_submit t p)"
| fx_worker: "FixedThreadPool_workerThread i p = Some p' \<Longrightarrow> fx_step p [] p'"
| fx_spurious: "fx_step p [] (p\<lparr>fx_queue := (fx_queue p)\<lparr>notEmpty := Condition_notify (notEmpty (fx_queue p))\<rparr>\<rparr>)"
| fx_stop: "fx_step p [] (FixedThreadPool_stop_request p)"
| fx_joined: "FixedThreadPool_stop_joined p = Some p' \<Longrightarrow> fx_step p [] p'"

definition fx_tasks :: "'a fixed_pool \<Rightarrow> 'a multiset" where
  "fx_tasks p = mset (q_items (fx_queue p)) + mset (concat (map held (fx_workers p))) + mset (fx_ran p)"

lemma fx_worker_cases:
  assumes "FixedThreadPool_workerThread i p = Some p'"
  obtains (pop) q q0 res where "i < length (fx_workers p)" "held (fx_workers p ! i) = []" "q_items q0 = q_items (fx_queue p)"
      "TaskQueue_pop q0 = (res, q)" "p' = p\<lparr>fx_queue := q, fx_workers := (fx_workers p)[i := after_pop res]\<rparr>"
  | (leave) "i < length (fx_workers p)" "held (fx_workers p ! i) = []" "p' = p\<lparr>fx_workers := (fx_workers p)[i := Exited]\<rparr>"
  | (run) t where "i < length (fx_workers p)" "fx_workers p ! i = Popped t"
      "p' = p\<lparr>fx_ran := fx_ran p @ [t], fx_workers := (fx_workers p)[i := AtLoop]\<rparr>"
proof -
  have i: "i < length (fx_workers p)"
    using assms by (auto simp: FixedThreadPool_workerThread_def Let_def split: if_splits)
  show thesis
  proof (cases "fx_workers p ! i")
    case Asleep
    let ?q = "(fx_queue p)\<lparr>notEmpty := Condition_resume (notEmpty (fx_queue p))\<rparr>"
    obtain res q where q: "TaskQueue_pop ?q = (res, q)" by (cases "TaskQueue_pop ?q")
    show thesis
      by (rule pop[OF i _ _ q]) (use assms i Asleep q in
        \<open>auto simp: FixedThreadPool_workerThread_def Let_def split: if_splits\<close>)
  qed (use assms i pop[OF i] leave[OF i] run[OF i] in
      \<open>auto simp: FixedThreadPool_workerThread_def Let_def split: if_splits prod.splits\<close>)
qed

lemma fx_worker_tasks:
  assumes "FixedThreadPool_workerThread i p = Some p'"
  shows "fx_tasks p' = fx_tasks p"
  using assms
proof (cases rule: fx_worker_cases)
  case (pop q q0 res)
  have "mset (outcome_items res) + mset (q_items q) = mset (q_items (fx_queue p))"
    unfolding pop(3)[symmetric] TaskQueue_pop_items[OF pop(4), symmetric] by simp
  then show ?thesis using held_update[OF pop(1), of "after_pop res"] pop(2) by (simp add: pop(5) fx_tasks_def ac_simps)
next
  case leave
  then show ?thesis using held_update[OF leave(1), of Exited] by (simp add: fx_tasks_def)
next
  case (run t)
  then show ?thesis using held_update[OF run(1), of AtLoop] by (simp add: fx_tasks_def)
qed

lemma fx_step_tasks: "fx_step p us p' \<Longrightarrow> fx_tasks p' = fx_tasks p + mset us"
proof (induction rule: fx_step.induct)
  case (fx_worker i p p')
  then show ?case by (simp add: fx_worker_tasks)
qed (auto simp: fx_tasks_def FixedThreadPool_start_def FixedThreadPool_execute_def FixedThreadPool_submit_def
    FixedThreadPool_stop_request_def FixedThreadPool_stop_joined_def TaskQueue_push_def TaskQueue_stop_def
    exited_idle split: if_splits)

interpretation fixed: task_steps fx_step fx_tasks
  by unfold_locales (rule fx_step_tasks)

text \<open>
  In every interleaving of its callers and workers the fixed pool has each task it accepted
  exactly once: queued, held by a worker that has taken it, or run.
\<close>

lemma FixedThreadPool_conserves_tasks:
  assumes "fixed.run (FixedThreadPool_new n) ts p"
  shows "mset ts = mset (q_items (fx_queue p)) + mset (concat (map held (fx_workers p))) + mset (fx_ran p)"
  using fixed.run_conserves[OF assms]
  by (simp add: fx_tasks_def FixedThreadPool_new_def queue_new_def)

lemma FixedThreadPool_conserves_tasks_run:
  "fixed.run (FixedThreadPool_new 1) [5] (FixedThreadPool_submit 5 (FixedThreadPool_new 1))"
  using fixed.more[OF fixed.here fx_submit[of "FixedThreadPool_new 1" 5]] by simp

text \<open>As with the other pool, a restarted pool runs nothing: its queue stays stopped.\<close>

lemma FixedThreadPool_restart_runs_nothing:
  assumes "fx_started p" "i < fx_numThreads p" "fx_workers p = []"
    and "FixedThreadPool_workerThread i
      (FixedThreadPool_execute t (FixedThreadPool_start (FixedThreadPool_stop_request p))) = Some p'"
  shows "fx_ran p' = fx_ran p \<and> fx_workers p' ! i = AtLoop \<and> q_items (fx_queue p') = q_items (fx_queue p) @ [t]"
  using assms
  by (auto simp: FixedThreadPool_workerThread_def FixedThreadPool_execute_def FixedThreadPool_start_def
      FixedThreadPool_stop_request_def TaskQueue_push_def TaskQueue_stop_def TaskQueue_pop_def after_pop_def Let_def)

end
