(* ===== verification/Lua.thy ===== *)
theory Lua
  imports Prelude "HOL-Library.Monad_Syntax"
begin

text \<open>
  \<^verbatim>\<open>src/lua\<close>: the script engine, the table wrapper and the module loader. The Lua
  library is a record of functions on its own state; what its manual says of the height of the
  stack is the predicate \<open>lua_ok\<close>. A \<^verbatim>\<open>double\<close> is its bit pattern. \<open>None\<close> is a
  string made from a null pointer: the library returns one for an error object that is neither
  a string nor a number. An error raised outside a protected call aborts and is not modelled.
\<close>

subsection \<open>The library's interface\<close>

datatype lua_push = PushNil | PushInteger int | PushNumber uint64 | PushString string | PushBoolean bool
  | PushCFunction nat | PushTable

record 'l lua_api =
  lua_gettop :: "'l \<Rightarrow> nat"
  lua_settop :: "nat \<Rightarrow> 'l \<Rightarrow> 'l"
  lua_push_value :: "lua_push \<Rightarrow> 'l \<Rightarrow> 'l"
  lua_pop :: "nat \<Rightarrow> 'l \<Rightarrow> 'l"
  lua_getglobal :: "string \<Rightarrow> 'l \<Rightarrow> 'l"
  lua_setglobal :: "string \<Rightarrow> 'l \<Rightarrow> 'l"
  lua_getfield :: "int \<Rightarrow> string \<Rightarrow> 'l \<Rightarrow> 'l"
  lua_setfield :: "int \<Rightarrow> string \<Rightarrow> 'l \<Rightarrow> 'l"
  lua_gettable :: "int \<Rightarrow> 'l \<Rightarrow> 'l"
  lua_settable :: "int \<Rightarrow> 'l \<Rightarrow> 'l"
  lua_rawgeti :: "int \<Rightarrow> int \<Rightarrow> 'l \<Rightarrow> 'l"
  lua_rawlen :: "int \<Rightarrow> 'l \<Rightarrow> int"
  lua_pcall :: "nat \<Rightarrow> int \<Rightarrow> 'l \<Rightarrow> bool \<times> 'l"
  luaL_loadfile :: "string \<Rightarrow> 'l \<Rightarrow> bool \<times> 'l"
  luaL_loadstring :: "string \<Rightarrow> 'l \<Rightarrow> bool \<times> 'l"
  lua_tostring :: "int \<Rightarrow> 'l \<Rightarrow> string option \<times> 'l"
  lua_tointeger :: "int \<Rightarrow> 'l \<Rightarrow> int"
  lua_tonumber :: "int \<Rightarrow> 'l \<Rightarrow> uint64"
  lua_toboolean :: "int \<Rightarrow> 'l \<Rightarrow> bool"
  lua_type :: "int \<Rightarrow> 'l \<Rightarrow> int"
  lua_isfunction :: "int \<Rightarrow> 'l \<Rightarrow> bool"

definition LUA_MULTRET :: int where "LUA_MULTRET = - 1"

text \<open>The stack effects of the manual: what each function takes off the stack and puts on it.\<close>

definition lua_ok :: "'l lua_api \<Rightarrow> bool" where
  "lua_ok api \<longleftrightarrow>
     (\<forall>l. let h = lua_gettop api in
        (\<forall>v. h (lua_push_value api v l) = h l + 1) \<and> (\<forall>n. h (lua_pop api n l) = h l - n) \<and>
        (\<forall>n. h (lua_settop api n l) = n) \<and>
        (\<forall>k. h (lua_getglobal api k l) = h l + 1) \<and> (\<forall>k. h (lua_setglobal api k l) = h l - 1) \<and>
        (\<forall>i k. h (lua_getfield api i k l) = h l + 1) \<and> (\<forall>i k. h (lua_setfield api i k l) = h l - 1) \<and>
        (\<forall>i. h (lua_gettable api i l) = h l) \<and> (\<forall>i. h (lua_settable api i l) = h l - 2) \<and>
        (\<forall>i n. h (lua_rawgeti api i n l) = h l + 1) \<and>
        (\<forall>f. h (snd (luaL_loadfile api f l)) = h l + 1) \<and> (\<forall>s. h (snd (luaL_loadstring api s l)) = h l + 1) \<and>
        (\<forall>i. h (snd (lua_tostring api i l)) = h l) \<and>
        (\<forall>n r. n + 1 \<le> h l \<longrightarrow>
           (if fst (lua_pcall api n r l)
            then (if r = LUA_MULTRET then h l - (n + 1) \<le> h (snd (lua_pcall api n r l))
                  else h (snd (lua_pcall api n r l)) = h l - (n + 1) + nat r)
            else h (snd (lua_pcall api n r l)) = h l - n)))"

subsection \<open>\<^verbatim>\<open>LuaValue\<close>\<close>

datatype lua_type_enum = NIL | BOOLEAN | NUMBER | STRING | TABLE | FUNCTION | USERDATA | THREAD

record lua_value =
  lv_type :: lua_type_enum
  boolValue :: bool
  numberValue :: uint64
  stringValue :: string

definition LuaValue_new :: lua_value where
  "LuaValue_new = \<lparr>lv_type = NIL, boolValue = False, numberValue = 0, stringValue = ''''\<rparr>"

definition LuaValue_at :: "'l lua_api \<Rightarrow> int \<Rightarrow> 'l \<Rightarrow> (lua_value \<times> 'l) option" where
  "LuaValue_at api i l =
     (let ty = lua_type api i l; v = LuaValue_new in
      if ty = 0 then Some (v, l)
      else if ty = 1 then Some (v\<lparr>lv_type := BOOLEAN, boolValue := lua_toboolean api i l\<rparr>, l)
      else if ty = 3 then Some (v\<lparr>lv_type := NUMBER, numberValue := lua_tonumber api i l\<rparr>, l)
      else if ty = 4 then (case lua_tostring api i l of
                             (None, _) \<Rightarrow> None
                           | (Some s, l) \<Rightarrow> Some (v\<lparr>lv_type := STRING, stringValue := s\<rparr>, l))
      else if ty = 5 then Some (v\<lparr>lv_type := TABLE\<rparr>, l)
      else if ty = 6 then Some (v\<lparr>lv_type := FUNCTION\<rparr>, l)
      else if ty = 7 then Some (v\<lparr>lv_type := USERDATA\<rparr>, l)
      else if ty = 8 then Some (v\<lparr>lv_type := THREAD\<rparr>, l)
      else Some (v, l))"

subsection \<open>\<^verbatim>\<open>LuaEngine\<close>\<close>

record 'l lua_engine =
  lua_L :: 'l
  lastError :: string

text \<open>The error of a failed call: its message is taken off the stack.\<close>

definition lua_fail :: "'l lua_api \<Rightarrow> 'l lua_engine \<Rightarrow> (bool \<times> 'l lua_engine) option" where
  "lua_fail api e =
     (case lua_tostring api (- 1) (lua_L e) of
        (None, _) \<Rightarrow> None
      | (Some msg, l) \<Rightarrow> Some (False, e\<lparr>lastError := msg, lua_L := lua_pop api 1 l\<rparr>))"

definition run_chunk :: "'l lua_api \<Rightarrow> int \<Rightarrow> bool \<times> 'l \<Rightarrow> 'l lua_engine \<Rightarrow> (bool \<times> 'l lua_engine) option" where
  "run_chunk api results loaded e =
     (let (ok, l) = loaded in
      if \<not> ok then lua_fail api (e\<lparr>lua_L := l\<rparr>)
      else (let (ok, l) = lua_pcall api 0 results l
            in if \<not> ok then lua_fail api (e\<lparr>lua_L := l\<rparr>) else Some (True, e\<lparr>lua_L := l\<rparr>)))"

definition LuaEngine_loadScript :: "'l lua_api \<Rightarrow> string \<Rightarrow> 'l lua_engine \<Rightarrow> (bool \<times> 'l lua_engine) option" where
  "LuaEngine_loadScript api filename e = run_chunk api 0 (luaL_loadfile api filename (lua_L e)) e"

definition LuaEngine_loadString :: "'l lua_api \<Rightarrow> string \<Rightarrow> 'l lua_engine \<Rightarrow> (bool \<times> 'l lua_engine) option" where
  "LuaEngine_loadString api code e = run_chunk api 0 (luaL_loadstring api code (lua_L e)) e"

definition LuaEngine_reloadScript :: "'l lua_api \<Rightarrow> string \<Rightarrow> 'l lua_engine \<Rightarrow> (bool \<times> 'l lua_engine) option" where
  "LuaEngine_reloadScript api filename e =
     (let l = lua_getglobal api ''package'' (lua_L e);
          l = lua_getfield api (- 1) ''loaded'' l;
          l = lua_push_value api PushNil l;
          l = lua_setfield api (- 2) filename l;
          l = lua_pop api 2 l
      in LuaEngine_loadScript api filename (e\<lparr>lua_L := l\<rparr>))"

text \<open>The library's macros \<^verbatim>\<open>luaL_dofile\<close> and \<^verbatim>\<open>luaL_dostring\<close> ask for every result.\<close>

definition LuaEngine_doFile :: "'l lua_api \<Rightarrow> string \<Rightarrow> 'l lua_engine \<Rightarrow> (bool \<times> 'l lua_engine) option" where
  "LuaEngine_doFile api filename e = run_chunk api LUA_MULTRET (luaL_loadfile api filename (lua_L e)) e"

definition LuaEngine_doString :: "'l lua_api \<Rightarrow> string \<Rightarrow> 'l lua_engine \<Rightarrow> (bool \<times> 'l lua_engine) option" where
  "LuaEngine_doString api code e = run_chunk api LUA_MULTRET (luaL_loadstring api code (lua_L e)) e"

definition push_arg :: "'l lua_api \<Rightarrow> lua_value \<Rightarrow> 'l \<Rightarrow> 'l" where
  "push_arg api v l =
     (case lv_type v of
        NUMBER \<Rightarrow> lua_push_value api (PushNumber (numberValue v)) l
      | STRING \<Rightarrow> lua_push_value api (PushString (stringValue v)) l
      | BOOLEAN \<Rightarrow> lua_push_value api (PushBoolean (boolValue v)) l
      | _ \<Rightarrow> lua_push_value api PushNil l)"

definition LuaEngine_callFunction :: "'l lua_api \<Rightarrow> string \<Rightarrow> 'l lua_engine \<Rightarrow> (bool \<times> 'l lua_engine) option" where
  "LuaEngine_callFunction api f e =
     (let l = lua_getglobal api f (lua_L e) in
      if \<not> lua_isfunction api (- 1) l
      then Some (False, e\<lparr>lastError := f @ '' is not a function'', lua_L := lua_pop api 1 l\<rparr>)
      else (let (ok, l) = lua_pcall api 0 0 l
            in if \<not> ok then lua_fail api (e\<lparr>lua_L := l\<rparr>) else Some (True, e\<lparr>lua_L := l\<rparr>)))"

definition LuaEngine_callFunction_args ::
    "'l lua_api \<Rightarrow> string \<Rightarrow> lua_value list \<Rightarrow> 'l lua_engine \<Rightarrow> (bool \<times> 'l lua_engine) option" where
  "LuaEngine_callFunction_args api f args e =
     (let l = lua_getglobal api f (lua_L e) in
      if \<not> lua_isfunction api (- 1) l
      then Some (False, e\<lparr>lastError := f @ '' is not a function'', lua_L := lua_pop api 1 l\<rparr>)
      else (let (ok, l) = lua_pcall api (length args) 0 (fold (push_arg api) args l)
            in if \<not> ok then lua_fail api (e\<lparr>lua_L := l\<rparr>) else Some (True, e\<lparr>lua_L := l\<rparr>)))"

definition LuaEngine_pop :: "'l lua_api \<Rightarrow> 'l lua_engine \<Rightarrow> (lua_value \<times> 'l lua_engine) option" where
  "LuaEngine_pop api e =
     do { (v, l) \<leftarrow> LuaValue_at api (- 1) (lua_L e); Some (v, e\<lparr>lua_L := lua_pop api 1 l\<rparr>) }"

definition LuaEngine_callFunction_result ::
    "'l lua_api \<Rightarrow> string \<Rightarrow> lua_value list \<Rightarrow> 'l lua_engine \<Rightarrow> (lua_value \<times> bool \<times> 'l lua_engine) option" where
  "LuaEngine_callFunction_result api f args e =
     (let l = lua_getglobal api f (lua_L e) in
      if \<not> lua_isfunction api (- 1) l
      then Some (LuaValue_new, False, e\<lparr>lastError := f @ '' is not a function'', lua_L := lua_pop api 1 l\<rparr>)
      else (let (ok, l) = lua_pcall api (length args) 1 (fold (push_arg api) args l)
            in if \<not> ok then map_option (\<lambda>(_, e). (LuaValue_new, False, e)) (lua_fail api (e\<lparr>lua_L := l\<rparr>))
               else map_option (\<lambda>(v, e). (v, True, e)) (LuaEngine_pop api (e\<lparr>lua_L := l\<rparr>))))"

definition LuaEngine_registerFunction :: "'l lua_api \<Rightarrow> string \<Rightarrow> nat \<Rightarrow> 'l lua_engine \<Rightarrow> 'l lua_engine" where
  "LuaEngine_registerFunction api k f e =
     e\<lparr>lua_L := lua_setglobal api k (lua_push_value api (PushCFunction f) (lua_L e))\<rparr>"

text \<open>The four overloads differ in what they push.\<close>

definition LuaEngine_setGlobal :: "'l lua_api \<Rightarrow> string \<Rightarrow> lua_push \<Rightarrow> 'l lua_engine \<Rightarrow> 'l lua_engine" where
  "LuaEngine_setGlobal api k v e = e\<lparr>lua_L := lua_setglobal api k (lua_push_value api v (lua_L e))\<rparr>"

definition cast_int :: "int \<Rightarrow> int" where
  "cast_int n = sint (of_int n :: 32 word)"

definition LuaEngine_getGlobalInt :: "'l lua_api \<Rightarrow> string \<Rightarrow> 'l lua_engine \<Rightarrow> int \<times> 'l lua_engine" where
  "LuaEngine_getGlobalInt api k e =
     (let l = lua_getglobal api k (lua_L e) in (cast_int (lua_tointeger api (- 1) l), e\<lparr>lua_L := lua_pop api 1 l\<rparr>))"

definition LuaEngine_getGlobalDouble :: "'l lua_api \<Rightarrow> string \<Rightarrow> 'l lua_engine \<Rightarrow> uint64 \<times> 'l lua_engine" where
  "LuaEngine_getGlobalDouble api k e =
     (let l = lua_getglobal api k (lua_L e) in (lua_tonumber api (- 1) l, e\<lparr>lua_L := lua_pop api 1 l\<rparr>))"

definition string_or_empty :: "string option \<Rightarrow> string" where
  "string_or_empty s = (case s of Some s \<Rightarrow> s | None \<Rightarrow> '''')"

definition LuaEngine_getGlobalString :: "'l lua_api \<Rightarrow> string \<Rightarrow> 'l lua_engine \<Rightarrow> string \<times> 'l lua_engine" where
  "LuaEngine_getGlobalString api k e =
     (let l = lua_getglobal api k (lua_L e); (s, l) = lua_tostring api (- 1) l
      in (string_or_empty s, e\<lparr>lua_L := lua_pop api 1 l\<rparr>))"

definition LuaEngine_push :: "'l lua_api \<Rightarrow> lua_push \<Rightarrow> 'l lua_engine \<Rightarrow> 'l lua_engine" where
  "LuaEngine_push api v e = e\<lparr>lua_L := lua_push_value api v (lua_L e)\<rparr>"

definition LuaEngine_newTable :: "'l lua_api \<Rightarrow> 'l lua_engine \<Rightarrow> 'l lua_engine" where
  "LuaEngine_newTable api e = LuaEngine_push api PushTable e"

definition LuaEngine_setTableField :: "'l lua_api \<Rightarrow> string \<Rightarrow> lua_push \<Rightarrow> 'l lua_engine \<Rightarrow> 'l lua_engine" where
  "LuaEngine_setTableField api k v e =
     e\<lparr>lua_L := lua_settable api (- 3) (lua_push_value api v (lua_push_value api (PushString k) (lua_L e)))\<rparr>"

definition LuaEngine_getTableFieldInt :: "'l lua_api \<Rightarrow> string \<Rightarrow> 'l lua_engine \<Rightarrow> int \<times> 'l lua_engine" where
  "LuaEngine_getTableFieldInt api k e =
     (let l = lua_gettable api (- 2) (lua_push_value api (PushString k) (lua_L e))
      in (cast_int (lua_tointeger api (- 1) l), e\<lparr>lua_L := lua_pop api 1 l\<rparr>))"

definition LuaEngine_getTableFieldDouble :: "'l lua_api \<Rightarrow> string \<Rightarrow> 'l lua_engine \<Rightarrow> uint64 \<times> 'l lua_engine" where
  "LuaEngine_getTableFieldDouble api k e =
     (let l = lua_gettable api (- 2) (lua_push_value api (PushString k) (lua_L e))
      in (lua_tonumber api (- 1) l, e\<lparr>lua_L := lua_pop api 1 l\<rparr>))"

definition LuaEngine_getTableFieldString :: "'l lua_api \<Rightarrow> string \<Rightarrow> 'l lua_engine \<Rightarrow> string \<times> 'l lua_engine" where
  "LuaEngine_getTableFieldString api k e =
     (let l = lua_gettable api (- 2) (lua_push_value api (PushString k) (lua_L e)); (s, l) = lua_tostring api (- 1) l
      in (string_or_empty s, e\<lparr>lua_L := lua_pop api 1 l\<rparr>))"

subsection \<open>The height of the stack\<close>

abbreviation height :: "'l lua_api \<Rightarrow> 'l lua_engine \<Rightarrow> nat" where
  "height api e \<equiv> lua_gettop api (lua_L e)"

lemma lua_ok_height:
  assumes "lua_ok api"
  shows "lua_gettop api (lua_push_value api v l) = lua_gettop api l + 1"
    "lua_gettop api (lua_pop api n l) = lua_gettop api l - n"
    "lua_gettop api (lua_settop api n l) = n"
    "lua_gettop api (lua_getglobal api k l) = lua_gettop api l + 1"
    "lua_gettop api (lua_setglobal api k l) = lua_gettop api l - 1"
    "lua_gettop api (lua_getfield api i k l) = lua_gettop api l + 1"
    "lua_gettop api (lua_setfield api i k l) = lua_gettop api l - 1"
    "lua_gettop api (lua_gettable api i l) = lua_gettop api l"
    "lua_gettop api (lua_settable api i l) = lua_gettop api l - 2"
    "lua_gettop api (lua_rawgeti api i j l) = lua_gettop api l + 1"
  using assms by (simp_all add: lua_ok_def Let_def)

lemma lua_ok_results:
  assumes "lua_ok api"
  shows "luaL_loadfile api f l = (b, l') \<Longrightarrow> lua_gettop api l' = lua_gettop api l + 1"
    "luaL_loadstring api f l = (b, l') \<Longrightarrow> lua_gettop api l' = lua_gettop api l + 1"
    "lua_tostring api i l = (s, l') \<Longrightarrow> lua_gettop api l' = lua_gettop api l"
    "lua_pcall api n (int r) l = (b, l') \<Longrightarrow> n + 1 \<le> lua_gettop api l \<Longrightarrow>
       lua_gettop api l' = (if b then lua_gettop api l - (n + 1) + r else lua_gettop api l - n)"
proof -
  show "luaL_loadfile api f l = (b, l') \<Longrightarrow> lua_gettop api l' = lua_gettop api l + 1"
    "luaL_loadstring api f l = (b, l') \<Longrightarrow> lua_gettop api l' = lua_gettop api l + 1"
    "lua_tostring api i l = (s, l') \<Longrightarrow> lua_gettop api l' = lua_gettop api l"
    using assms unfolding lua_ok_def Let_def by (metis snd_conv)+
  assume p: "lua_pcall api n (int r) l = (b, l')" "n + 1 \<le> lua_gettop api l"
  have "int r \<noteq> LUA_MULTRET" by (simp add: LUA_MULTRET_def)
  moreover have "if fst (lua_pcall api n (int r) l)
      then (if int r = LUA_MULTRET then lua_gettop api l - (n + 1) \<le> lua_gettop api (snd (lua_pcall api n (int r) l))
            else lua_gettop api (snd (lua_pcall api n (int r) l)) = lua_gettop api l - (n + 1) + nat (int r))
      else lua_gettop api (snd (lua_pcall api n (int r) l)) = lua_gettop api l - n"
    using assms p(2) unfolding lua_ok_def Let_def by blast
  ultimately show "lua_gettop api l' = (if b then lua_gettop api l - (n + 1) + r else lua_gettop api l - n)"
    using p(1) by (cases b) simp_all
qed

lemma lua_fail_height:
  assumes "lua_ok api" "lua_fail api e = Some (b, e')"
  shows "height api e' = height api e - 1"
  using assms(2) lua_ok_results(3)[OF assms(1)]
  by (auto simp: lua_fail_def lua_ok_height[OF assms(1)] split: prod.splits option.splits)

lemma call_height:
  assumes "lua_ok api" "lua_pcall api n 0 l = (b, l')" "lua_gettop api l = h + n + 1"
  shows "if b then lua_gettop api l' = h else lua_gettop api l' = h + 1"
  using lua_ok_results(4)[OF assms(1), of n 0 l b l'] assms(2,3) by simp

lemma run_chunk_height:
  assumes "lua_ok api" "run_chunk api 0 (b, l) e = Some (b', e')" "lua_gettop api l = h + 1"
  shows "height api e' = h"
proof (cases b)
  case False
  then show ?thesis using assms lua_fail_height[OF assms(1)] by (auto simp: run_chunk_def)
next
  case True
  obtain b2 l2 where p: "lua_pcall api 0 0 l = (b2, l2)" by (cases "lua_pcall api 0 0 l")
  have "if b2 then lua_gettop api l2 = h else lua_gettop api l2 = h + 1"
    using call_height[OF assms(1) p] assms(3) by simp
  then show ?thesis
    using True assms(2) p lua_fail_height[OF assms(1), of "e\<lparr>lua_L := l2\<rparr>" b' e']
    by (auto simp: run_chunk_def split: if_splits)
qed

lemma loadScript_height: "lua_ok api \<Longrightarrow> LuaEngine_loadScript api f e = Some (b, e') \<Longrightarrow> height api e' = height api e"
  unfolding LuaEngine_loadScript_def
  by (cases "luaL_loadfile api f (lua_L e)") (auto dest: run_chunk_height lua_ok_results(1))

lemma loadString_height: "lua_ok api \<Longrightarrow> LuaEngine_loadString api f e = Some (b, e') \<Longrightarrow> height api e' = height api e"
  unfolding LuaEngine_loadString_def
  by (cases "luaL_loadstring api f (lua_L e)") (auto dest: run_chunk_height lua_ok_results(2))

lemma reloadScript_height:
  "lua_ok api \<Longrightarrow> LuaEngine_reloadScript api f e = Some (b, e') \<Longrightarrow> height api e' = height api e"
  using loadScript_height[of api f _ b e'] by (fastforce simp: LuaEngine_reloadScript_def Let_def lua_ok_height)

lemma push_args_height: "lua_ok api \<Longrightarrow> lua_gettop api (fold (push_arg api) args l) = lua_gettop api l + length args"
  by (induction args arbitrary: l) (simp_all add: push_arg_def lua_ok_height split: lua_type_enum.split)

lemma callFunction_height:
  assumes "lua_ok api" "LuaEngine_callFunction_args api f args e = Some (b, e')"
  shows "height api e' = height api e"
proof -
  let ?l = "lua_getglobal api f (lua_L e)"
  obtain b2 l2 where p: "lua_pcall api (length args) 0 (fold (push_arg api) args ?l) = (b2, l2)"
    by (cases "lua_pcall api (length args) 0 (fold (push_arg api) args ?l)")
  have "if b2 then lua_gettop api l2 = height api e else lua_gettop api l2 = height api e + 1"
    by (rule call_height[OF assms(1) p]) (simp add: push_args_height[OF assms(1)] lua_ok_height[OF assms(1)])
  then show ?thesis
    using assms(2) p lua_fail_height[OF assms(1), of "e\<lparr>lua_L := l2\<rparr>" b e']
    by (auto simp: LuaEngine_callFunction_args_def Let_def lua_ok_height[OF assms(1)] split: if_splits)
qed

lemma callFunction_no_args: "LuaEngine_callFunction api f e = LuaEngine_callFunction_args api f [] e"
  by (simp add: LuaEngine_callFunction_def LuaEngine_callFunction_args_def Let_def)

lemma LuaValue_at_height: "lua_ok api \<Longrightarrow> LuaValue_at api i l = Some (v, l') \<Longrightarrow> lua_gettop api l' = lua_gettop api l"
  by (auto simp: LuaValue_at_def Let_def split: if_splits prod.splits option.splits dest: lua_ok_results(3))

lemma pop_height: "lua_ok api \<Longrightarrow> LuaEngine_pop api e = Some (v, e') \<Longrightarrow> height api e' = height api e - 1"
  using LuaValue_at_height[of api "- 1" "lua_L e" v] by (auto simp: LuaEngine_pop_def lua_ok_height bind_eq_Some_conv)

lemma callFunction_result_height:
  assumes "lua_ok api" "LuaEngine_callFunction_result api f args e = Some (v, b, e')"
  shows "height api e' = height api e"
proof -
  let ?l = "lua_getglobal api f (lua_L e)"
  obtain b2 l2 where p: "lua_pcall api (length args) (int 1) (fold (push_arg api) args ?l) = (b2, l2)"
    by (cases "lua_pcall api (length args) (int 1) (fold (push_arg api) args ?l)")
  have h: "lua_gettop api l2 = height api e + 1"
    using lua_ok_results(4)[OF assms(1) p]
    by (simp add: push_args_height[OF assms(1)] lua_ok_height[OF assms(1)] split: if_splits)
  then show ?thesis
    using assms(2) p pop_height[OF assms(1), of "e\<lparr>lua_L := l2\<rparr>"] lua_fail_height[OF assms(1), of "e\<lparr>lua_L := l2\<rparr>"]
    by (auto simp: LuaEngine_callFunction_result_def Let_def lua_ok_height[OF assms(1)] split: if_splits)
qed

text \<open>The engine's operations that a caller may mix freely; the others are for building values on the stack.\<close>

datatype lua_op = LoadScript string | LoadString string | ReloadScript string | CallFunction string
  | CallWith string "lua_value list" | CallResult string "lua_value list" | RegisterFunction string nat
  | SetGlobal string lua_push | GetGlobalInt string | GetGlobalDouble string | GetGlobalString string
  | SetTableField string lua_push | GetTableFieldInt string | GetTableFieldDouble string
  | GetTableFieldString string

fun lua_op_run :: "'l lua_api \<Rightarrow> lua_op \<Rightarrow> 'l lua_engine \<Rightarrow> 'l lua_engine option" where
  "lua_op_run api (LoadScript f) e = map_option snd (LuaEngine_loadScript api f e)"
| "lua_op_run api (LoadString s) e = map_option snd (LuaEngine_loadString api s e)"
| "lua_op_run api (ReloadScript f) e = map_option snd (LuaEngine_reloadScript api f e)"
| "lua_op_run api (CallFunction f) e = map_option snd (LuaEngine_callFunction api f e)"
| "lua_op_run api (CallWith f args) e = map_option snd (LuaEngine_callFunction_args api f args e)"
| "lua_op_run api (CallResult f args) e = map_option (snd \<circ> snd) (LuaEngine_callFunction_result api f args e)"
| "lua_op_run api (RegisterFunction k f) e = Some (LuaEngine_registerFunction api k f e)"
| "lua_op_run api (SetGlobal k v) e = Some (LuaEngine_setGlobal api k v e)"
| "lua_op_run api (GetGlobalInt k) e = Some (snd (LuaEngine_getGlobalInt api k e))"
| "lua_op_run api (GetGlobalDouble k) e = Some (snd (LuaEngine_getGlobalDouble api k e))"
| "lua_op_run api (GetGlobalString k) e = Some (snd (LuaEngine_getGlobalString api k e))"
| "lua_op_run api (SetTableField k v) e = Some (LuaEngine_setTableField api k v e)"
| "lua_op_run api (GetTableFieldInt k) e = Some (snd (LuaEngine_getTableFieldInt api k e))"
| "lua_op_run api (GetTableFieldDouble k) e = Some (snd (LuaEngine_getTableFieldDouble api k e))"
| "lua_op_run api (GetTableFieldString k) e = Some (snd (LuaEngine_getTableFieldString api k e))"

fun lua_ops_run :: "'l lua_api \<Rightarrow> lua_op list \<Rightarrow> 'l lua_engine \<Rightarrow> 'l lua_engine option" where
  "lua_ops_run api [] e = Some e"
| "lua_ops_run api (op # ops) e = do { e \<leftarrow> lua_op_run api op e; lua_ops_run api ops e }"

lemmas lua_get_defs = LuaEngine_getGlobalInt_def LuaEngine_getGlobalDouble_def LuaEngine_getGlobalString_def
  LuaEngine_getTableFieldInt_def LuaEngine_getTableFieldDouble_def LuaEngine_getTableFieldString_def

lemma lua_op_height:
  assumes "lua_ok api" "lua_op_run api op e = Some e'"
  shows "height api e' = height api e"
proof -
  have str: "lua_gettop api l' = lua_gettop api l" if "lua_tostring api i l = (s, l')" for i l s l'
    using lua_ok_results(3)[OF assms(1) that] .
  show ?thesis using assms
    by (cases op)
      (auto simp: lua_get_defs LuaEngine_registerFunction_def LuaEngine_setGlobal_def LuaEngine_setTableField_def
        lua_ok_height callFunction_no_args Let_def split: prod.splits dest!: str
        dest: loadScript_height loadString_height reloadScript_height callFunction_height callFunction_result_height)
qed


text \<open>A machine that only counts: every chunk succeeds.\<close>

definition height_api :: "nat lua_api" where
  "height_api =
     \<lparr>lua_gettop = (\<lambda>h. h), lua_settop = (\<lambda>n _. n), lua_push_value = (\<lambda>_ h. h + 1), lua_pop = (\<lambda>n h. h - n),
      lua_getglobal = (\<lambda>_ h. h + 1), lua_setglobal = (\<lambda>_ h. h - 1), lua_getfield = (\<lambda>_ _ h. h + 1),
      lua_setfield = (\<lambda>_ _ h. h - 1), lua_gettable = (\<lambda>_ h. h), lua_settable = (\<lambda>_ h. h - 2),
      lua_rawgeti = (\<lambda>_ _ h. h + 1), lua_rawlen = (\<lambda>_ _. 0),
      lua_pcall = (\<lambda>n r h. (True, h - (n + 1) + nat r)), luaL_loadfile = (\<lambda>_ h. (True, h + 1)),
      luaL_loadstring = (\<lambda>_ h. (True, h + 1)), lua_tostring = (\<lambda>_ h. (None, h)), lua_tointeger = (\<lambda>_ _. 0),
      lua_tonumber = (\<lambda>_ _. 0), lua_toboolean = (\<lambda>_ _. False), lua_type = (\<lambda>_ _. 0), lua_isfunction = (\<lambda>_ _. True)\<rparr>"

lemma height_api_ok: "lua_ok height_api"
  by (simp add: lua_ok_def height_api_def LUA_MULTRET_def Let_def)


subsection \<open>\<^verbatim>\<open>LuaStackGuard\<close> and \<^verbatim>\<open>LuaTable\<close>\<close>

definition LuaStackGuard_new :: "'l lua_api \<Rightarrow> 'l \<Rightarrow> nat" where
  "LuaStackGuard_new api l = lua_gettop api l"

definition LuaStackGuard_destroy :: "'l lua_api \<Rightarrow> nat \<Rightarrow> 'l \<Rightarrow> 'l" where
  "LuaStackGuard_destroy api saved l = lua_settop api saved l"

lemma LuaStackGuard_restores:
  "lua_ok api \<Longrightarrow> lua_gettop api (LuaStackGuard_destroy api (LuaStackGuard_new api l) l') = lua_gettop api l"
  by (simp add: LuaStackGuard_destroy_def LuaStackGuard_new_def lua_ok_height)

text \<open>A table is its index on the stack; the wrapper computes every access from it.\<close>

definition LuaTable_getInt :: "'l lua_api \<Rightarrow> int \<Rightarrow> string \<Rightarrow> 'l \<Rightarrow> int \<times> 'l" where
  "LuaTable_getInt api i k l =
     (let l = lua_gettable api (i - 1) (lua_push_value api (PushString k) l)
      in (cast_int (lua_tointeger api (- 1) l), lua_pop api 1 l))"

definition LuaTable_getDouble :: "'l lua_api \<Rightarrow> int \<Rightarrow> string \<Rightarrow> 'l \<Rightarrow> uint64 \<times> 'l" where
  "LuaTable_getDouble api i k l =
     (let l = lua_gettable api (i - 1) (lua_push_value api (PushString k) l)
      in (lua_tonumber api (- 1) l, lua_pop api 1 l))"

definition LuaTable_getString :: "'l lua_api \<Rightarrow> int \<Rightarrow> string \<Rightarrow> 'l \<Rightarrow> string \<times> 'l" where
  "LuaTable_getString api i k l =
     (let l = lua_gettable api (i - 1) (lua_push_value api (PushString k) l); (s, l) = lua_tostring api (- 1) l
      in (string_or_empty s, lua_pop api 1 l))"

definition LuaTable_getBoolean :: "'l lua_api \<Rightarrow> int \<Rightarrow> string \<Rightarrow> 'l \<Rightarrow> bool \<times> 'l" where
  "LuaTable_getBoolean api i k l =
     (let l = lua_gettable api (i - 1) (lua_push_value api (PushString k) l)
      in (lua_toboolean api (- 1) l, lua_pop api 1 l))"

definition LuaTable_set :: "'l lua_api \<Rightarrow> int \<Rightarrow> string \<Rightarrow> lua_push \<Rightarrow> 'l \<Rightarrow> 'l" where
  "LuaTable_set api i k v l = lua_settable api (i - 2) (lua_push_value api v (lua_push_value api (PushString k) l))"

definition LuaTable_getInt_at :: "'l lua_api \<Rightarrow> int \<Rightarrow> int \<Rightarrow> 'l \<Rightarrow> int \<times> 'l" where
  "LuaTable_getInt_at api i n l =
     (let l = lua_rawgeti api i n l in (cast_int (lua_tointeger api (- 1) l), lua_pop api 1 l))"

definition LuaTable_getString_at :: "'l lua_api \<Rightarrow> int \<Rightarrow> int \<Rightarrow> 'l \<Rightarrow> string \<times> 'l" where
  "LuaTable_getString_at api i n l =
     (let l = lua_rawgeti api i n l; (s, l) = lua_tostring api (- 1) l in (string_or_empty s, lua_pop api 1 l))"

definition LuaTable_size :: "'l lua_api \<Rightarrow> int \<Rightarrow> 'l \<Rightarrow> int" where
  "LuaTable_size api i l = cast_int (lua_rawlen api i l)"

text \<open>
  On the table at the top of the stack, the default index, the wrapper's accesses are the
  engine's own.
\<close>

lemma LuaTable_default_index:
  "LuaTable_getInt api (- 1) k (lua_L e) = (fst (LuaEngine_getTableFieldInt api k e), lua_L (snd (LuaEngine_getTableFieldInt api k e)))"
  "LuaTable_getString api (- 1) k (lua_L e) = (fst (LuaEngine_getTableFieldString api k e), lua_L (snd (LuaEngine_getTableFieldString api k e)))"
  "LuaTable_set api (- 1) k v (lua_L e) = lua_L (LuaEngine_setTableField api k v e)"
  by (simp_all add: LuaTable_getInt_def LuaTable_getString_def LuaTable_set_def lua_get_defs
      LuaEngine_setTableField_def Let_def split: prod.splits)

subsection \<open>\<^verbatim>\<open>LuaLoader\<close>\<close>

text \<open>
  The file system is two functions: whether a file can be opened, and its time of modification
  in milliseconds. The table of times is in the order of its iteration.
\<close>

record lua_loader =
  searchPaths :: "string list"
  moduleModifiedTimes :: "(string \<times> int) list"

definition LuaLoader_addSearchPath :: "'l lua_api \<Rightarrow> string \<Rightarrow> lua_loader \<times> 'l lua_engine \<Rightarrow> lua_loader \<times> 'l lua_engine" where
  "LuaLoader_addSearchPath api path le =
     (let (m, e) = le;
          m = m\<lparr>searchPaths := searchPaths m @ [path]\<rparr>;
          (packagePath, e) = LuaEngine_getGlobalString api ''package.path'' e
      in (m, LuaEngine_setGlobal api ''package.path'' (PushString (packagePath @ '';'' @ path @ ''/?.lua'')) e))"

definition LuaLoader_findModuleFile :: "(string \<Rightarrow> bool) \<Rightarrow> string \<Rightarrow> lua_loader \<Rightarrow> string" where
  "LuaLoader_findModuleFile good name m =
     (let relativePath = map (\<lambda>c. if c = CHR ''.'' then CHR ''/'' else c) name @ ''.lua''
      in case find good (map (\<lambda>path. path @ ''/'' @ relativePath) (searchPaths m)) of
           Some f \<Rightarrow> f | None \<Rightarrow> '''')"

definition set_time :: "string \<Rightarrow> int \<Rightarrow> (string \<times> int) list \<Rightarrow> (string \<times> int) list" where
  "set_time k t ts = (if k \<in> fst ` set ts then map (\<lambda>(k', t'). if k' = k then (k, t) else (k', t')) ts else ts @ [(k, t)])"

definition LuaLoader_loadModule ::
    "'l lua_api \<Rightarrow> (string \<Rightarrow> bool) \<Rightarrow> (string \<Rightarrow> int) \<Rightarrow> string \<Rightarrow> lua_loader \<times> 'l lua_engine \<Rightarrow>
     (bool \<times> lua_loader \<times> 'l lua_engine) option" where
  "LuaLoader_loadModule api good mtime name le =
     (let (m, e) = le; filename = LuaLoader_findModuleFile good name m in
      if filename = '''' then Some (False, m, e)
      else do { (loaded, e) \<leftarrow> LuaEngine_loadScript api filename e;
                if \<not> loaded then Some (False, m, e)
                else Some (True, m\<lparr>moduleModifiedTimes := set_time name (mtime filename) (moduleModifiedTimes m)\<rparr>, e) })"

definition LuaLoader_reloadModule ::
    "'l lua_api \<Rightarrow> (string \<Rightarrow> bool) \<Rightarrow> (string \<Rightarrow> int) \<Rightarrow> string \<Rightarrow> lua_loader \<times> 'l lua_engine \<Rightarrow>
     (bool \<times> lua_loader \<times> 'l lua_engine) option" where
  "LuaLoader_reloadModule api good mtime name le =
     (let (m, e) = le in
      do { (_, e) \<leftarrow> LuaEngine_doString api (''package.loaded['' @ [CHR 39] @ name @ [CHR 39] @ ''] = nil'') e;
           LuaLoader_loadModule api good mtime name (m, e) })"

text \<open>\<open>files\<close> is what the directory's iterator yields: the scripts, or an exception at its end.\<close>

fun load_all :: "'l lua_api \<Rightarrow> string list \<Rightarrow> bool \<Rightarrow> 'l lua_engine \<Rightarrow> (bool \<times> 'l lua_engine) option" where
  "load_all api [] throws e = Some (\<not> throws, e)"
| "load_all api (f # fs) throws e =
     do { (loaded, e) \<leftarrow> LuaEngine_loadScript api f e; if loaded then load_all api fs throws e else Some (False, e) }"

definition LuaLoader_loadAllModules :: "'l lua_api \<Rightarrow> string list \<Rightarrow> bool \<Rightarrow> 'l lua_engine \<Rightarrow> (bool \<times> 'l lua_engine) option" where
  "LuaLoader_loadAllModules api files throws e = load_all api files throws e"

text \<open>One entry of the table, and the loop over its names: reloading a module adds no entry.\<close>

definition reload_one ::
    "'l lua_api \<Rightarrow> (string \<Rightarrow> bool) \<Rightarrow> (string \<Rightarrow> int) \<Rightarrow> string \<Rightarrow> lua_loader \<times> 'l lua_engine \<Rightarrow>
     (lua_loader \<times> 'l lua_engine) option" where
  "reload_one api good mtime name le =
     (let (m, e) = le; filename = LuaLoader_findModuleFile good name m in
      if filename = '''' then Some (m, e)
      else (case map_of (moduleModifiedTimes m) name of
              None \<Rightarrow> Some (m, e)
            | Some t \<Rightarrow>
                if t < mtime filename
                then do { (_, m, e) \<leftarrow> LuaLoader_reloadModule api good mtime name (m, e);
                          Some (m\<lparr>moduleModifiedTimes := set_time name (mtime filename) (moduleModifiedTimes m)\<rparr>, e) }
                else Some (m, e)))"

fun reload_names ::
    "'l lua_api \<Rightarrow> (string \<Rightarrow> bool) \<Rightarrow> (string \<Rightarrow> int) \<Rightarrow> string list \<Rightarrow> lua_loader \<times> 'l lua_engine \<Rightarrow>
     (lua_loader \<times> 'l lua_engine) option" where
  "reload_names api good mtime [] le = Some le"
| "reload_names api good mtime (name # names) le =
     do { le \<leftarrow> reload_one api good mtime name le; reload_names api good mtime names le }"

definition LuaLoader_reloadModifiedModules ::
    "'l lua_api \<Rightarrow> (string \<Rightarrow> bool) \<Rightarrow> (string \<Rightarrow> int) \<Rightarrow> lua_loader \<times> 'l lua_engine \<Rightarrow>
     (lua_loader \<times> 'l lua_engine) option" where
  "LuaLoader_reloadModifiedModules api good mtime le =
     reload_names api good mtime (map fst (moduleModifiedTimes (fst le))) le"

lemma set_time_keys: "k \<in> fst ` set ts \<Longrightarrow> map fst (set_time k t ts) = map fst ts"
  by (auto simp: set_time_def)

lemma set_time_map: "map_of (set_time k t ts) = (map_of ts)(k \<mapsto> t)"
proof -
  have rep: "map_of (map (\<lambda>(k', t'). if k' = k then (k, t) else (k', t')) ts) j =
      (if j = k then (if k \<in> fst ` set ts then Some t else None) else map_of ts j)" for j
    by (induction ts) (auto, metis fst_conv image_eqI)
  have "map_of (ts @ [(k, t)]) j = (if j = k then Some t else map_of ts j)" if "k \<notin> fst ` set ts" for j
  proof -
    have "map_of ts k = None" using that by (simp add: map_of_eq_None_iff)
    then show ?thesis by (cases "map_of ts j") (auto simp: map_add_def)
  qed
  then show ?thesis using rep by (auto simp: set_time_def fun_eq_iff)
qed

definition settled :: "(string \<Rightarrow> bool) \<Rightarrow> (string \<Rightarrow> int) \<Rightarrow> lua_loader \<Rightarrow> string \<Rightarrow> bool" where
  "settled good mtime m name \<longleftrightarrow> LuaLoader_findModuleFile good name m = '''' \<or>
     (\<forall>t. map_of (moduleModifiedTimes m) name = Some t \<longrightarrow> mtime (LuaLoader_findModuleFile good name m) \<le> t)"

lemma findModuleFile_frame [simp]:
  "LuaLoader_findModuleFile good name (m\<lparr>moduleModifiedTimes := ts\<rparr>) = LuaLoader_findModuleFile good name m"
  by (simp add: LuaLoader_findModuleFile_def)

lemma loadModule_result:
  assumes "LuaLoader_loadModule api good mtime name (m, e) = Some (b, m', e')"
  shows "m' = m \<or> m' = m\<lparr>moduleModifiedTimes := set_time name (mtime (LuaLoader_findModuleFile good name m)) (moduleModifiedTimes m)\<rparr>"
  using assms by (auto simp: LuaLoader_loadModule_def Let_def bind_eq_Some_conv split: if_splits)

lemma reload_one_result:
  assumes "reload_one api good mtime name (m, e) = Some (m', e')"
  shows "\<exists>ts. m' = m\<lparr>moduleModifiedTimes := ts\<rparr> \<and> settled good mtime m' name \<and>
    (name \<in> fst ` set (moduleModifiedTimes m) \<longrightarrow> map fst ts = map fst (moduleModifiedTimes m)) \<and>
    (\<forall>n. n \<noteq> name \<longrightarrow> map_of ts n = map_of (moduleModifiedTimes m) n)"
proof -
  let ?f = "LuaLoader_findModuleFile good name m"
  let ?put = "set_time name (mtime ?f)"
  have key: "name \<in> fst ` set (moduleModifiedTimes m)" if "map_of (moduleModifiedTimes m) name = Some t" for t
    using map_of_SomeD[OF that] by force
  show ?thesis
  proof (cases "?f = '''' \<or> settled good mtime m name")
    case True
    then have "m' = m" using assms
      by (auto simp: reload_one_def settled_def Let_def split: option.splits if_splits)
    then show ?thesis using True by (intro exI[of _ "moduleModifiedTimes m"]) (auto simp: settled_def)
  next
    case False
    then obtain t where t: "map_of (moduleModifiedTimes m) name = Some t" "t < mtime ?f" "?f \<noteq> ''''"
      by (auto simp: settled_def not_le)
    then obtain b m1 where m1: "m1 = m \<or> m1 = m\<lparr>moduleModifiedTimes := ?put (moduleModifiedTimes m)\<rparr>"
      "m' = m1\<lparr>moduleModifiedTimes := ?put (moduleModifiedTimes m1)\<rparr>"
      using assms
      by (auto simp: reload_one_def LuaLoader_reloadModule_def Let_def bind_eq_Some_conv dest!: loadModule_result)
    then have "m' = m\<lparr>moduleModifiedTimes := moduleModifiedTimes m'\<rparr>" by auto
    moreover have "map fst (moduleModifiedTimes m') = map fst (moduleModifiedTimes m)"
    proof -
      have "map fst (?put ts) = map fst ts" if "map fst ts = map fst (moduleModifiedTimes m)" for ts
        using key[OF t(1)] arg_cong[OF that, of set] by (intro set_time_keys) simp
      then show ?thesis using m1 by auto
    qed
    moreover have "map_of (moduleModifiedTimes m') = (map_of (moduleModifiedTimes m))(name \<mapsto> mtime ?f)"
      using m1 by (auto simp: set_time_map)
    moreover have "LuaLoader_findModuleFile good name m' = ?f" using m1 by auto
    ultimately show ?thesis by (intro exI[of _ "moduleModifiedTimes m'"]) (auto simp: settled_def)
  qed
qed

lemma settled_frame:
  assumes "m' = m\<lparr>moduleModifiedTimes := ts\<rparr>" "map_of ts n = map_of (moduleModifiedTimes m) n"
  shows "settled good mtime m' n = settled good mtime m n"
  using assms by (simp add: settled_def)

lemma reload_names_result:
  assumes "reload_names api good mtime names (m, e) = Some (m', e')" "set names \<subseteq> fst ` set (moduleModifiedTimes m)"
  shows "map fst (moduleModifiedTimes m') = map fst (moduleModifiedTimes m) \<and>
    (\<forall>n. n \<in> set names \<or> settled good mtime m n \<longrightarrow> settled good mtime m' n)"
  using assms
proof (induction names arbitrary: m e)
  case (Cons name names)
  obtain m1 e1 where one: "reload_one api good mtime name (m, e) = Some (m1, e1)"
    and rest: "reload_names api good mtime names (m1, e1) = Some (m', e')"
    using Cons.prems(1) by (auto simp: bind_eq_Some_conv)
  obtain ts where ts: "m1 = m\<lparr>moduleModifiedTimes := ts\<rparr>" "settled good mtime m1 name"
    "map fst ts = map fst (moduleModifiedTimes m)" "\<forall>n. n \<noteq> name \<longrightarrow> map_of ts n = map_of (moduleModifiedTimes m) n"
    using reload_one_result[OF one] Cons.prems(2) by auto
  have "set (map fst ts) = set (map fst (moduleModifiedTimes m))" using ts(3) by simp
  then have "set names \<subseteq> fst ` set (moduleModifiedTimes m1)" using Cons.prems(2) ts(1) by auto
  from Cons.IH[OF rest this] have ih: "map fst (moduleModifiedTimes m') = map fst (moduleModifiedTimes m1)"
    "\<And>n. n \<in> set names \<or> settled good mtime m1 n \<Longrightarrow> settled good mtime m' n" by auto
  moreover have "settled good mtime m1 n" if "settled good mtime m n" for n
    using ts(2,4) settled_frame[OF ts(1), of n] that by (cases "n = name") auto
  ultimately show ?case using ts by auto
qed simp

lemma reload_names_settled:
  "\<forall>n\<in>set names. settled good mtime m n \<Longrightarrow> reload_names api good mtime names (m, e) = Some (m, e)"
  by (induction names) (auto simp: reload_one_def settled_def Let_def split: option.splits)

text \<open>
  Reloading settles: a second call of \<open>reloadModifiedModules\<close> with no file touched in
  between loads nothing and changes nothing, even where a script failed to load.
\<close>

theorem LuaLoader_reload_settles:
  assumes "LuaLoader_reloadModifiedModules api good mtime le = Some le'"
  shows "LuaLoader_reloadModifiedModules api good mtime le' = Some le'"
proof (cases le; cases le')
  fix m e m' e' assume le: "le = (m, e)" "le' = (m', e')"
  from assms have r: "reload_names api good mtime (map fst (moduleModifiedTimes m)) (m, e) = Some (m', e')"
    by (simp add: LuaLoader_reloadModifiedModules_def le)
  have res: "map fst (moduleModifiedTimes m') = map fst (moduleModifiedTimes m)"
    "\<forall>n\<in>set (map fst (moduleModifiedTimes m)). settled good mtime m' n"
    using reload_names_result[OF r] by auto
  then show ?thesis
    unfolding LuaLoader_reloadModifiedModules_def le using reload_names_settled[of _ good mtime m' api e'] by simp
qed

theorem LuaLoader_reload_settles_witness:
  "\<exists>m. LuaLoader_reloadModifiedModules height_api (\<lambda>_. True) (\<lambda>_. 9)
      (\<lparr>searchPaths = [''scripts''], moduleModifiedTimes = [(''a.b'', 5)]\<rparr>, \<lparr>lua_L = 0, lastError = ''''\<rparr>) = Some m \<and>
    LuaLoader_reloadModifiedModules height_api (\<lambda>_. True) (\<lambda>_. 9) m = Some m"
proof -
  have "\<exists>m. LuaLoader_reloadModifiedModules height_api (\<lambda>_. True) (\<lambda>_. 9)
      (\<lparr>searchPaths = [''scripts''], moduleModifiedTimes = [(''a.b'', 5)]\<rparr>, \<lparr>lua_L = 0, lastError = ''''\<rparr>) = Some m"
    by (simp add: LuaLoader_reloadModifiedModules_def reload_one_def LuaLoader_findModuleFile_def
        LuaLoader_reloadModule_def LuaEngine_doString_def LuaLoader_loadModule_def LuaEngine_loadScript_def
        run_chunk_def height_api_def LUA_MULTRET_def Let_def)
  then show ?thesis using LuaLoader_reload_settles by blast
qed

end
