(* ===== verification/Locks.thy ===== *)
theory Locks
  imports Prelude "HOL-Library.Multiset"
begin

text \<open>
  The locks of \<^verbatim>\<open>src/common/thread/mutex.h\<close> with their guards, and the singletons of
  \<^verbatim>\<open>src/common/base/singleton.h\<close>. Threads are numbers. A lock operation answers \<open>None\<close>
  when it does not return: the thread would wait, for ever if it waits for itself. An unlock
  answers \<open>None\<close> when the thread does not hold the lock, which POSIX leaves undefined.
\<close>

subsection \<open>\<^verbatim>\<open>Mutex\<close>\<close>

record mutex_lock =
  mx_owner :: "nat option"

definition MutexLock_new :: mutex_lock where "MutexLock_new = \<lparr>mx_owner = None\<rparr>"

definition MutexLock_lock :: "nat \<Rightarrow> mutex_lock \<Rightarrow> mutex_lock option" where
  "MutexLock_lock t m = (case mx_owner m of None \<Rightarrow> Some (m\<lparr>mx_owner := Some t\<rparr>) | Some _ \<Rightarrow> None)"

definition MutexLock_unlock :: "nat \<Rightarrow> mutex_lock \<Rightarrow> mutex_lock option" where
  "MutexLock_unlock t m = (if mx_owner m = Some t then Some (m\<lparr>mx_owner := None\<rparr>) else None)"

definition MutexLock_tryLock :: "nat \<Rightarrow> mutex_lock \<Rightarrow> bool \<times> mutex_lock" where
  "MutexLock_tryLock t m =
     (case mx_owner m of None \<Rightarrow> (True, m\<lparr>mx_owner := Some t\<rparr>) | Some _ \<Rightarrow> (False, m))"

definition MutexGuard_new :: "nat \<Rightarrow> mutex_lock \<Rightarrow> mutex_lock option" where
  "MutexGuard_new t m = MutexLock_lock t m"

definition MutexGuard_destroy :: "nat \<Rightarrow> mutex_lock \<Rightarrow> mutex_lock option" where
  "MutexGuard_destroy t m = MutexLock_unlock t m"

subsection \<open>\<^verbatim>\<open>RWLock\<close>\<close>

record rwlock =
  rw_readers :: "nat multiset"
  rw_writer :: "nat option"

definition RWLock_new :: rwlock where "RWLock_new = \<lparr>rw_readers = {#}, rw_writer = None\<rparr>"

definition RWLock_readLock :: "nat \<Rightarrow> rwlock \<Rightarrow> rwlock option" where
  "RWLock_readLock t l =
     (if rw_writer l = None then Some (l\<lparr>rw_readers := rw_readers l + {#t#}\<rparr>) else None)"

definition RWLock_writeLock :: "nat \<Rightarrow> rwlock \<Rightarrow> rwlock option" where
  "RWLock_writeLock t l =
     (if rw_writer l = None \<and> rw_readers l = {#} then Some (l\<lparr>rw_writer := Some t\<rparr>) else None)"

definition RWLock_unlock :: "nat \<Rightarrow> rwlock \<Rightarrow> rwlock option" where
  "RWLock_unlock t l =
     (if rw_writer l = Some t then Some (l\<lparr>rw_writer := None\<rparr>)
      else if t \<in># rw_readers l then Some (l\<lparr>rw_readers := rw_readers l - {#t#}\<rparr>)
      else None)"

definition RWLock_tryReadLock :: "nat \<Rightarrow> rwlock \<Rightarrow> bool \<times> rwlock" where
  "RWLock_tryReadLock t l =
     (if rw_writer l = None then (True, l\<lparr>rw_readers := rw_readers l + {#t#}\<rparr>) else (False, l))"

definition RWLock_tryWriteLock :: "nat \<Rightarrow> rwlock \<Rightarrow> bool \<times> rwlock" where
  "RWLock_tryWriteLock t l =
     (if rw_writer l = None \<and> rw_readers l = {#} then (True, l\<lparr>rw_writer := Some t\<rparr>) else (False, l))"

datatype rw_guard = ReadLockGuard | WriteLockGuard

text \<open>The constructors of the two guards lock, the destructor of either unlocks.\<close>

fun LockGuard_new :: "rw_guard \<Rightarrow> nat \<Rightarrow> rwlock \<Rightarrow> rwlock option" where
  "LockGuard_new ReadLockGuard t l = RWLock_readLock t l"
| "LockGuard_new WriteLockGuard t l = RWLock_writeLock t l"

fun LockGuard_destroy :: "rw_guard \<Rightarrow> nat \<Rightarrow> rwlock \<Rightarrow> rwlock option" where
  "LockGuard_destroy ReadLockGuard t l = RWLock_unlock t l"
| "LockGuard_destroy WriteLockGuard t l = RWLock_unlock t l"

fun_cases LockGuard_newE: "LockGuard_new g t l = Some l'"

subsection \<open>Scopes\<close>

text \<open>
  What the guards of a lock promise. \<open>holds l t\<close> is what the lock \<open>l\<close> says the
  thread \<open>t\<close> holds, the innermost guard first. \<open>step\<close> are the interleavings
  of threads that open and close scopes: the second component is the guards each thread has on
  its stack, which the lock does not see.
\<close>

locale scoped_lock =
  fixes inv :: "'l \<Rightarrow> bool" and holds :: "'l \<Rightarrow> nat \<Rightarrow> 'g list" and free :: 'l
    and open_scope :: "'g \<Rightarrow> nat \<Rightarrow> 'l \<Rightarrow> 'l option"
    and close_scope :: "'g \<Rightarrow> nat \<Rightarrow> 'l \<Rightarrow> 'l option"
  assumes free_inv: "inv free" and free_holds: "holds free t = []"
    and finite_holders: "inv l \<Longrightarrow> finite {t. holds l t \<noteq> []}"
    and nothing_held: "inv l \<Longrightarrow> (\<And>t. holds l t = []) \<Longrightarrow> l = free"
    and opened: "inv l \<Longrightarrow> open_scope g t l = Some l' \<Longrightarrow> inv l' \<and> holds l' = (holds l)(t := g # holds l t)"
    and closed: "inv l \<Longrightarrow> holds l t = g # gs \<Longrightarrow>
      \<exists>l'. close_scope g t l = Some l' \<and> inv l' \<and> holds l' = (holds l)(t := gs)"
begin

inductive step :: "'l \<times> (nat \<Rightarrow> 'g list) \<Rightarrow> 'l \<times> (nat \<Rightarrow> 'g list) \<Rightarrow> bool" where
  enter: "open_scope g t l = Some l' \<Longrightarrow> step (l, sc) (l', sc(t := g # sc t))"
| leave: "sc t = g # gs \<Longrightarrow> close_scope g t l = Some l' \<Longrightarrow> step (l, sc) (l', sc(t := gs))"

inductive_simps step_simps: "step (l, sc) (l', sc')"

definition sound :: "'l \<times> (nat \<Rightarrow> 'g list) \<Rightarrow> bool" where
  "sound s \<longleftrightarrow> inv (fst s) \<and> holds (fst s) = snd s"

lemma step_sound: "step s s' \<Longrightarrow> sound s \<Longrightarrow> sound s'"
proof (induction rule: step.induct)
  case (enter g t l l' sc)
  then show ?case using opened[of l g t l'] by (auto simp: sound_def)
next
  case (leave sc t g gs l l')
  then show ?case using closed[of l t g gs] by (auto simp: sound_def)
qed

lemma run_sound: "step\<^sup>*\<^sup>* (free, \<lambda>_. []) s \<Longrightarrow> sound s"
proof (induction rule: rtranclp_induct)
  case base
  then show ?case by (auto simp: sound_def free_inv free_holds)
qed (rule step_sound)

lemma scope_closes:
  assumes "sound (l, sc)" "sc t = g # gs"
  obtains l' where "close_scope g t l = Some l'" "step (l, sc) (l', sc(t := gs))" "sound (l', sc(t := gs))"
  using closed[of l t g gs] assms leave[of sc t g gs l] by (auto simp: sound_def)

lemma thread_drains:
  "sound (l, sc) \<Longrightarrow> \<exists>l'. step\<^sup>*\<^sup>* (l, sc) (l', sc(t := [])) \<and> sound (l', sc(t := []))"
proof (induction "sc t" arbitrary: l sc)
  case Nil
  then have "sc(t := []) = sc" by auto
  then show ?case using Nil.prems by auto
next
  case (Cons g gs)
  obtain l' where l': "step (l, sc) (l', sc(t := gs))" "sound (l', sc(t := gs))"
    using scope_closes[OF Cons.prems Cons.hyps(2)[symmetric]] by blast
  from Cons.hyps(1)[of "sc(t := gs)" l', OF _ l'(2)] obtain l2
    where "step\<^sup>*\<^sup>* (l', sc(t := gs)) (l2, sc(t := []))" "sound (l2, sc(t := []))" by auto
  then show ?case using l'(1) by (meson converse_rtranclp_into_rtranclp)
qed

lemma everything_drains:
  assumes "sound (l, sc)"
  shows "step\<^sup>*\<^sup>* (l, sc) (free, \<lambda>_. [])"
proof -
  have "finite T \<Longrightarrow> sound (l, sc) \<Longrightarrow> {t. sc t \<noteq> []} \<subseteq> T \<Longrightarrow> step\<^sup>*\<^sup>* (l, sc) (free, \<lambda>_. [])" for T
  proof (induction T arbitrary: l sc rule: finite_induct)
    case empty
    then have "sc = (\<lambda>_. [])" by auto
    then show ?case using empty.prems nothing_held[of l] by (auto simp: sound_def)
  next
    case (insert t T)
    obtain l' where l': "step\<^sup>*\<^sup>* (l, sc) (l', sc(t := []))" "sound (l', sc(t := []))"
      using thread_drains[OF insert.prems(1), of t] by blast
    have "{u. (sc(t := [])) u \<noteq> []} \<subseteq> T" using insert.prems(2) by auto
    then show ?case using insert.IH[OF l'(2)] l'(1) by (meson rtranclp_trans)
  qed
  moreover have "finite {t. sc t \<noteq> []}" using assms finite_holders[of l] by (auto simp: sound_def)
  ultimately show ?thesis using assms by blast
qed

end

text \<open>The two locks keep the contract; a mutex has one kind of guard.\<close>

definition mutex_holds :: "mutex_lock \<Rightarrow> nat \<Rightarrow> unit list" where
  "mutex_holds m t = (if mx_owner m = Some t then [()] else [])"

definition rw_holds :: "rwlock \<Rightarrow> nat \<Rightarrow> rw_guard list" where
  "rw_holds l t =
     (if rw_writer l = Some t then [WriteLockGuard] else []) @ replicate (count (rw_readers l) t) ReadLockGuard"

definition rw_inv :: "rwlock \<Rightarrow> bool" where
  "rw_inv l \<longleftrightarrow> rw_writer l = None \<or> rw_readers l = {#}"

lemma rw_holds_finite: "finite {t. rw_holds l t \<noteq> []}"
proof (rule finite_subset)
  show "{t. rw_holds l t \<noteq> []} \<subseteq> set_mset (rw_readers l) \<union> set_option (rw_writer l)"
    by (auto simp: rw_holds_def split: if_splits)
qed simp

lemma rw_opened:
  "LockGuard_new g t l = Some l' \<Longrightarrow> rw_inv l \<Longrightarrow> rw_inv l' \<and> rw_holds l' = (rw_holds l)(t := g # rw_holds l t)"
  by (cases g) (auto simp: RWLock_readLock_def RWLock_writeLock_def rw_inv_def rw_holds_def fun_eq_iff
    split: if_splits)

lemma rw_closed:
  assumes "rw_inv l" "rw_holds l t = g # gs"
  shows "\<exists>l'. RWLock_unlock t l = Some l' \<and> rw_inv l' \<and> rw_holds l' = (rw_holds l)(t := gs)"
proof (cases "rw_writer l = Some t")
  case True
  then show ?thesis using assms by (auto simp: RWLock_unlock_def rw_inv_def rw_holds_def fun_eq_iff)
next
  case False
  then have r: "replicate (count (rw_readers l) t) ReadLockGuard = g # gs"
    using assms(2) by (simp add: rw_holds_def)
  then obtain n where n: "count (rw_readers l) t = Suc n" "gs = replicate n ReadLockGuard"
    by (cases "count (rw_readers l) t") auto
  then have t: "t \<in># rw_readers l" by (metis count_greater_zero_iff zero_less_Suc)
  then have "rw_writer l = None" using assms(1) by (auto simp: rw_inv_def)
  then show ?thesis using n t by (auto simp: RWLock_unlock_def rw_inv_def rw_holds_def fun_eq_iff)
qed

interpretation mutex_scopes: scoped_lock "\<lambda>_. True" mutex_holds MutexLock_new
    "\<lambda>_. MutexGuard_new" "\<lambda>_. MutexGuard_destroy"
proof (unfold_locales, goal_cases)
  case (3 l)
  have "{t. mutex_holds l t \<noteq> []} \<subseteq> set_option (mx_owner l)"
    by (auto simp: mutex_holds_def split: if_splits)
  then show ?case by (rule finite_subset) simp
next
  case (4 l)
  have "mx_owner l \<noteq> Some t" for t using 4(2)[of t] by (simp add: mutex_holds_def split: if_splits)
  then have "mx_owner l = None" by (cases "mx_owner l") auto
  then show ?case by (simp add: MutexLock_new_def)
qed (auto simp: mutex_holds_def MutexLock_new_def MutexGuard_new_def MutexGuard_destroy_def
    MutexLock_lock_def MutexLock_unlock_def fun_eq_iff split: option.splits if_splits)

interpretation rw_scopes: scoped_lock rw_inv rw_holds RWLock_new LockGuard_new LockGuard_destroy
proof (unfold_locales, goal_cases)
  case (4 l)
  have "rw_writer l \<noteq> Some t" for t using 4(2)[of t] by (simp add: rw_holds_def split: if_splits)
  then have "rw_writer l = None" by (cases "rw_writer l") auto
  moreover have "rw_readers l = {#}"
    using 4(2) by (auto simp: rw_holds_def multiset_eq_iff)
  ultimately show ?case by (simp add: RWLock_new_def)
next
  case (3 l)
  show ?case by (rule rw_holds_finite)
next
  case (5 l g t l')
  then show ?case using rw_opened[of g t l l'] by simp
next
  case (6 l t g gs)
  then show ?case using rw_closed[of l t g gs] by (cases g) simp_all
qed (auto simp: rw_inv_def rw_holds_def RWLock_new_def)

subsection \<open>What the guards guarantee\<close>

lemma rw_holds_writer:
  "rw_inv l \<Longrightarrow> WriteLockGuard \<in> set (rw_holds l t) \<Longrightarrow>
     rw_holds l t = [WriteLockGuard] \<and> (\<forall>u. u \<noteq> t \<longrightarrow> rw_holds l u = [])"
  by (auto simp: rw_holds_def rw_inv_def split: if_splits)


lemma two_readers_run:
  "rw_scopes.step\<^sup>*\<^sup>* (RWLock_new, \<lambda>_. [])
     (\<lparr>rw_readers = {#1, 2#}, rw_writer = None\<rparr>, (\<lambda>_. [])(1 := [ReadLockGuard], 2 := [ReadLockGuard]))"
proof -
  let ?l = "\<lparr>rw_readers = {#1#}, rw_writer = None\<rparr>"
  have "rw_scopes.step (RWLock_new, \<lambda>_. []) (?l, (\<lambda>_. [])(1 := [ReadLockGuard]))"
    using rw_scopes.enter[of ReadLockGuard 1 RWLock_new ?l "\<lambda>_. []"]
    by (simp add: RWLock_readLock_def RWLock_new_def)
  moreover have "rw_scopes.step (?l, (\<lambda>_. [])(1 := [ReadLockGuard]))
      (\<lparr>rw_readers = {#1, 2#}, rw_writer = None\<rparr>, (\<lambda>_. [])(1 := [ReadLockGuard], 2 := [ReadLockGuard]))"
    using rw_scopes.enter[of ReadLockGuard 2 ?l "\<lparr>rw_readers = {#1, 2#}, rw_writer = None\<rparr>"
        "(\<lambda>_. [])(1 := [ReadLockGuard])"]
    by (simp add: RWLock_readLock_def)
  ultimately show ?thesis by (rule converse_rtranclp_into_rtranclp[OF _ r_into_rtranclp])
qed


theorem MutexGuard_exclusive:
  assumes "mutex_scopes.step\<^sup>*\<^sup>* (MutexLock_new, \<lambda>_. []) (m, sc)" "sc t \<noteq> []"
  shows "sc t = [()] \<and> (\<forall>u. u \<noteq> t \<longrightarrow> sc u = []) \<and> (\<forall>u. MutexGuard_new u m = None) \<and>
    (\<exists>m'. MutexGuard_destroy t m = Some m')"
proof -
  have s: "sc = mutex_holds m"
    using mutex_scopes.run_sound[OF assms(1)] by (simp add: mutex_scopes.sound_def)
  then have "mx_owner m = Some t" using assms(2) by (auto simp: mutex_holds_def split: if_splits)
  then show ?thesis
    by (simp add: s mutex_holds_def MutexGuard_new_def MutexGuard_destroy_def MutexLock_lock_def MutexLock_unlock_def)
qed

text \<open>A try succeeds exactly when the blocking call would return, with the same effect.\<close>

lemma tryLock_iff:
  "MutexLock_tryLock t m = (case MutexLock_lock t m of Some m' \<Rightarrow> (True, m') | None \<Rightarrow> (False, m))"
  "RWLock_tryReadLock t l = (case RWLock_readLock t l of Some l' \<Rightarrow> (True, l') | None \<Rightarrow> (False, l))"
  "RWLock_tryWriteLock t l = (case RWLock_writeLock t l of Some l' \<Rightarrow> (True, l') | None \<Rightarrow> (False, l))"
  by (auto simp: MutexLock_tryLock_def MutexLock_lock_def RWLock_tryReadLock_def RWLock_readLock_def
    RWLock_tryWriteLock_def RWLock_writeLock_def split: option.splits)

subsection \<open>Singletons\<close>

text \<open>
  The object of a singleton is what its constructor makes, \<open>None\<close> when it throws; then
  the flag of \<^verbatim>\<open>call_once\<close> stays clear. The answer is the object, or \<open>None\<close> for the
  exception.
\<close>

record 'a singleton =
  once_done :: bool
  the_instance :: "'a option"

definition Singleton_new :: "'a singleton" where "Singleton_new = \<lparr>once_done = False, the_instance = None\<rparr>"

definition Singleton_instance :: "'a option \<Rightarrow> 'a singleton \<Rightarrow> 'a option \<times> 'a singleton" where
  "Singleton_instance made s =
     (if once_done s then (the_instance s, s)
      else case made of
             None \<Rightarrow> (None, s)
           | Some x \<Rightarrow> (Some x, \<lparr>once_done = True, the_instance = Some x\<rparr>))"

definition ManagedSingleton_create :: "'a option \<Rightarrow> 'a option \<Rightarrow> 'a option \<times> 'a option" where
  "ManagedSingleton_create made i =
     (case i of
        None \<Rightarrow> (case made of None \<Rightarrow> (None, None) | Some x \<Rightarrow> (Some x, Some x))
      | Some x \<Rightarrow> (Some x, i))"

definition ManagedSingleton_destroy :: "'a option \<Rightarrow> 'a option" where
  "ManagedSingleton_destroy i = None"

definition ManagedSingleton_get :: "'a option \<Rightarrow> 'a option" where
  "ManagedSingleton_get i = i"

definition ManagedSingleton_exists :: "'a option \<Rightarrow> bool" where
  "ManagedSingleton_exists i \<longleftrightarrow> i \<noteq> None"

fun Singleton_calls :: "'a option list \<Rightarrow> 'a singleton \<Rightarrow> 'a option list" where
  "Singleton_calls [] s = []"
| "Singleton_calls (made # rest) s =
     (let (r, s') = Singleton_instance made s in r # Singleton_calls rest s')"

lemma Singleton_calls_done:
  "Singleton_calls ms \<lparr>once_done = True, the_instance = Some x\<rparr> = replicate (length ms) (Some x)"
  by (induction ms) (simp_all add: Singleton_instance_def)

theorem Singleton_instance_fixed:
  "Singleton_calls (replicate n None @ Some x # ms) Singleton_new =
     replicate n None @ replicate (Suc (length ms)) (Some x)"
  by (induction n) (simp_all add: Singleton_instance_def Singleton_new_def Singleton_calls_done)

lemma ManagedSingleton_lifecycle:
  "ManagedSingleton_create made (Some x) = (Some x, Some x)"
  "ManagedSingleton_create (Some y) (ManagedSingleton_destroy i) = (Some y, Some y)"
  "ManagedSingleton_exists i \<longleftrightarrow> ManagedSingleton_get i \<noteq> None"
  by (simp_all add: ManagedSingleton_create_def ManagedSingleton_destroy_def ManagedSingleton_exists_def
    ManagedSingleton_get_def)

end
