(* ===== verification/PoolGuards.thy ===== *)
theory PoolGuards
  imports ConnPools MySQL
begin

text \<open>
  The rest of the connection pools: a whole \<^verbatim>\<open>getConnection\<close> with its waits, the guards
  \<^verbatim>\<open>MySQLConnectionGuard\<close> and \<^verbatim>\<open>RedisGuard\<close>, and the health check of the
  MySQL pool over the connection objects (\<open>conn_heap\<close>).
\<close>

subsection \<open>A whole \<^verbatim>\<open>getConnection\<close>\<close>

text \<open>
  What one round of the loop meets: the answers of the server, and how the wait on the condition
  variable ends if there is one. \<open>None\<close>: the time is up; otherwise what the other threads
  did to the pool until this one had the mutex again.
\<close>

record round_answers =
  ra_made :: "nat option"
  ra_ping :: bool
  ra_reconnect :: bool
  ra_woken :: "(conn_pool \<Rightarrow> conn_pool) option"

text \<open>\<open>None\<close>: the thread is still waiting when the answers are used up.\<close>

fun get_loop ::
    "(nat option \<Rightarrow> bool \<Rightarrow> bool \<Rightarrow> conn_pool \<Rightarrow> get_outcome \<times> conn_pool) \<Rightarrow>
     round_answers list \<Rightarrow> conn_pool \<Rightarrow> (nat option \<times> conn_pool) option" where
  "get_loop round [] p = None"
| "get_loop round (a # rest) p =
     (case round (ra_made a) (ra_ping a) (ra_reconnect a) p of
        (Got c, p) \<Rightarrow> Some (Some c, p)
      | (GotNull, p) \<Rightarrow> Some (None, p)
      | (MustWait, p) \<Rightarrow>
          (case ra_woken a of
             None \<Rightarrow> Some (None, pool_timeout p)
           | Some others \<Rightarrow> get_loop round rest (pool_resume (others p))))"

definition MySQLConnectionPool_getConnection ::
    "round_answers list \<Rightarrow> conn_pool \<Rightarrow> (nat option \<times> conn_pool) option" where
  "MySQLConnectionPool_getConnection answers p =
     (if \<not> pool_running p then Some (None, p) else get_loop MySQLConnectionPool_round answers p)"

definition RedisPool_getConnection ::
    "round_answers list \<Rightarrow> conn_pool \<Rightarrow> (nat option \<times> conn_pool) option" where
  "RedisPool_getConnection answers p =
     (if \<not> pool_running p then Some (None, p) else get_loop RedisPool_round answers p)"

text \<open>A guard is the connection it got; its destructor gives it back.\<close>

definition MySQLConnectionGuard_new ::
    "round_answers list \<Rightarrow> conn_pool \<Rightarrow> (nat option \<times> conn_pool) option" where
  "MySQLConnectionGuard_new answers p = MySQLConnectionPool_getConnection answers p"

definition MySQLConnectionGuard_destroy :: "nat option \<Rightarrow> conn_pool \<Rightarrow> conn_pool" where
  "MySQLConnectionGuard_destroy g p =
     (if g \<noteq> None then MySQLConnectionPool_returnConnection g p else p)"

definition MySQLConnectionGuard_valid :: "(nat \<Rightarrow> mysql_connection) \<Rightarrow> nat option \<Rightarrow> bool" where
  "MySQLConnectionGuard_valid h g = (case g of None \<Rightarrow> False | Some c \<Rightarrow> my_connected (h c))"

definition RedisGuard_new ::
    "round_answers list \<Rightarrow> conn_pool \<Rightarrow> (nat option \<times> conn_pool) option" where
  "RedisGuard_new answers p = RedisPool_getConnection answers p"

definition RedisGuard_destroy :: "nat option \<Rightarrow> conn_pool \<Rightarrow> conn_pool" where
  "RedisGuard_destroy g p = (if g \<noteq> None then RedisPool_returnConnection g p else p)"

subsection \<open>Guards and the pool's account\<close>

text \<open>
  Any number of guards, each opened by rounds and closed by its destructor, on a pool. The
  connections the guards hold are those the pool's own account says are with callers.
\<close>

locale guarded_pool = bounded_pool +
  fixes close_guard :: "nat option \<Rightarrow> conn_pool \<Rightarrow> conn_pool"
  assumes closes_by_giving: "close_guard (Some c) p = give (Some c) p"
    and closes_null: "close_guard None p = p"
begin

inductive guard_run :: "conn_pool \<Rightarrow> nat option list \<Rightarrow> nat multiset \<Rightarrow> conn_pool \<Rightarrow> bool" for p0 where
  g_none: "guard_run p0 [] {#} p0"
| g_got: "guard_run p0 gs lost p \<Longrightarrow> may_run released p \<Longrightarrow> round made ping rec (at_mutex released p) = (Got c, p') \<Longrightarrow>
    guard_run p0 (gs @ [Some c]) lost p'"
| g_null: "guard_run p0 gs lost p \<Longrightarrow> may_run released p \<Longrightarrow> round made ping rec (at_mutex released p) = (GotNull, p') \<Longrightarrow>
    pool_queue p = c # cs \<Longrightarrow> guard_run p0 (gs @ [None]) (lost + {#c#}) p'"
| g_waits: "guard_run p0 gs lost p \<Longrightarrow> may_run released p \<Longrightarrow> round made ping rec (at_mutex released p) = (MustWait, p') \<Longrightarrow>
    guard_run p0 gs lost p'"
| g_timeout: "guard_run p0 gs lost p \<Longrightarrow> guard_run p0 (gs @ [None]) lost (pool_timeout p)"
| g_closed: "guard_run p0 (gs @ g # gs') lost p \<Longrightarrow> guard_run p0 (gs @ gs') lost (close_guard g p)"

definition guarded :: "nat option list \<Rightarrow> nat multiset" where
  "guarded gs = mset (map the (filter (\<lambda>g. g \<noteq> None) gs))"

lemma guarded_simps [simp]:
  "guarded [] = {#}" "guarded (None # gs) = guarded gs" "guarded (Some c # gs) = guarded gs + {#c#}"
  "guarded (gs @ gs') = guarded gs + guarded gs'"
  by (simp_all add: guarded_def)

lemma guard_run_pool_run: "guard_run p0 gs lost p \<Longrightarrow> pool_run round give p0 (guarded gs) lost p"
proof (induction rule: guard_run.induct)
  case g_none
  then show ?case by (simp add: pool_run.opened)
next
  case (g_got gs lost p released made ping rec c p')
  then show ?case using pool_run.got by fastforce
next
  case (g_null gs lost p released made ping rec p' c cs)
  then show ?case using pool_run.null by fastforce
next
  case (g_waits gs lost p released made ping rec p')
  then show ?case using pool_run.waits by fastforce
next
  case (g_timeout gs lost p)
  then show ?case using pool_run.timed_out by fastforce
next
  case (g_closed gs g gs' lost p)
  show ?case
  proof (cases g)
    case None
    then show ?thesis using g_closed.IH by (simp add: closes_null)
  next
    case (Some c)
    then show ?thesis using pool_run.given[OF g_closed.IH, of c] by (simp add: closes_by_giving)
  qed
qed

lemma guards_account:
  assumes "guard_run p0 gs lost p" "pool_conserved {#} {#} p0" "pool_wakeup p0"
  shows "length (allConnections p) = length (pool_queue p) + size (guarded gs) + size lost"
    and "length (allConnections p) \<le> maxConnections p0"
proof -
  have c: "pool_conserved (guarded gs) lost p \<and> maxConnections p = maxConnections p0"
    using run_conserved[OF guard_run_pool_run[OF assms(1)] assms(2,3)] by blast
  then have e: "mset (allConnections p) = mset (pool_queue p) + guarded gs + lost"
    by (simp add: pool_conserved_def)
  show "length (allConnections p) = length (pool_queue p) + size (guarded gs) + size lost"
    using arg_cong[OF e, of size] by simp
  show "length (allConnections p) \<le> maxConnections p0" using c by (simp add: pool_conserved_def)
qed

end

interpretation mysql_guards: guarded_pool MySQLConnectionPool_round MySQLConnectionPool_returnConnection
    MySQLConnectionGuard_destroy
  by unfold_locales (simp_all add: MySQLConnectionGuard_destroy_def)

interpretation redis_guards: guarded_pool RedisPool_round RedisPool_returnConnection RedisGuard_destroy
  by unfold_locales (simp_all add: RedisGuard_destroy_def)

text \<open>
  Guards never strand a connection: at every moment the connections a pool counts are those
  in its queue, those of the guards that are open, and those lost by a failed reconnect; so once
  the guards are closed, everything but the lost ones is available again.
\<close>
theorem MySQLConnectionGuard_returns_everything:
  assumes "MySQLConnectionPool_init made (ConnPool_new mn mx) = (True, p0)" "mn \<le> mx"
    and "mysql_guards.guard_run p0 gs lost p"
  shows "MySQLConnectionPool_size p = MySQLConnectionPool_availableSize p +
      length (filter (\<lambda>g. g \<noteq> None) gs) + size lost \<and> MySQLConnectionPool_size p \<le> mx"
proof -
  have i: "pool_conserved {#} {#} p0 \<and> pool_wakeup p0 \<and> maxConnections p0 = mx"
    by (rule MySQLConnectionPool_init_conserved[OF assms(1,2)])
  have "size (mysql_guards.guarded gs) = length (filter (\<lambda>g. g \<noteq> None) gs)"
    by (simp add: mysql_guards.guarded_def flip: mset_filter)
  then show ?thesis
    using mysql_guards.guards_account[OF assms(3)] i
    by (simp add: MySQLConnectionPool_size_def MySQLConnectionPool_availableSize_def)
qed

lemma guard_run_example:
  "mysql_guards.guard_run
     \<lparr>pool_running = True, pool_queue = [10], allConnections = [10], minConnections = 1, maxConnections = 2,
     pool_notEmpty = Condition_new\<rparr>
     [Some 11] {#}
     \<lparr>pool_running = True, pool_queue = [10], allConnections = [10, 11], minConnections = 1, maxConnections = 2,
     pool_notEmpty = Condition_new\<rparr>"
proof -
  let ?p = "\<lambda>q all. \<lparr>pool_running = True, pool_queue = q, allConnections = all, minConnections = 1, maxConnections = 2,
     pool_notEmpty = Condition_new\<rparr>"
  note r = MySQLConnectionPool_round_def
  have "mysql_guards.guard_run (?p [10] [10]) ([] @ [Some 10]) {#} (?p [] [10])"
    by (rule mysql_guards.g_got[where made = None and ping = True and rec = False and released = False])
      (rule mysql_guards.g_none, simp_all add: r may_run_def at_mutex_def)
  then have "mysql_guards.guard_run (?p [10] [10]) (([] @ [Some 10]) @ [Some 11]) {#} (?p [] [10, 11])"
    by (rule mysql_guards.g_got[where made = "Some 11" and ping = True and rec = False and released = False])
      (simp_all add: r may_run_def at_mutex_def)
  then have "mysql_guards.guard_run (?p [10] [10]) ([] @ [Some 11]) {#}
      (MySQLConnectionGuard_destroy (Some 10) (?p [] [10, 11]))"
    by (intro mysql_guards.g_closed) simp
  then show ?thesis
    by (simp add: MySQLConnectionGuard_destroy_def MySQLConnectionPool_returnConnection_def Condition_notify_def Condition_new_def)
qed

theorem MySQLConnectionGuard_returns_everything_witness:
  "MySQLConnectionPool_size \<lparr>pool_running = True, pool_queue = [10], allConnections = [10, 11],
     minConnections = 1, maxConnections = 2,
     pool_notEmpty = Condition_new\<rparr> = 1 + 1"
  using MySQLConnectionGuard_returns_everything[OF _ _ guard_run_example, of "[Some 10]" 1 2]
  by (simp add: MySQLConnectionPool_init_def ConnPool_new_def MySQLConnectionPool_availableSize_def)

subsection \<open>Closing a pool\<close>

text \<open>
  The loop of \<open>getConnection\<close> tests the flag only before it starts. A thread that was
  waiting when the pool was closed is woken by \<open>close\<close>, finds fewer connections than the
  maximum, opens a new one and leaves with it; the closed pool counts it from then on, and its
  return is ignored.
\<close>

lemma get_loop_waits:
  "round (ra_made a) (ra_ping a) (ra_reconnect a) p = (MustWait, p') \<Longrightarrow> ra_woken a = Some others \<Longrightarrow>
     get_loop round (a # rest) p = get_loop round rest (pool_resume (others p'))"
  by simp

theorem MySQLConnectionPool_waiter_survives_close:
  assumes "pool_running p" "pool_queue p = []" "length (allConnections p) = maxConnections p"
    and "0 < maxConnections p" and "ra_woken a = Some MySQLConnectionPool_close" and "ra_made b = Some c"
  shows "\<exists>p'. MySQLConnectionGuard_new [a, b] p = Some (Some c, p') \<and> \<not> pool_running p' \<and>
    MySQLConnectionPool_size p' = 1 \<and> MySQLConnectionGuard_destroy (Some c) p' = p'"
  using assms
  by (auto simp: MySQLConnectionGuard_new_def MySQLConnectionPool_getConnection_def
    MySQLConnectionPool_round_def MySQLConnectionPool_close_def MySQLConnectionPool_size_def
    MySQLConnectionGuard_destroy_def MySQLConnectionPool_returnConnection_def pool_cv_defs)

theorem MySQLConnectionPool_waiter_survives_close_witness:
  "\<exists>p'. MySQLConnectionGuard_new
     [\<lparr>ra_made = None, ra_ping = True, ra_reconnect = True, ra_woken = Some MySQLConnectionPool_close\<rparr>,
      \<lparr>ra_made = Some 7, ra_ping = True, ra_reconnect = True, ra_woken = None\<rparr>]
     \<lparr>pool_running = True, pool_queue = [], allConnections = [5], minConnections = 1, maxConnections = 1, pool_notEmpty = Condition_new\<rparr> =
     Some (Some 7, p') \<and> \<not> pool_running p'"
  using MySQLConnectionPool_waiter_survives_close[of
      "\<lparr>pool_running = True, pool_queue = [], allConnections = [5], minConnections = 1, maxConnections = 1, pool_notEmpty = Condition_new\<rparr>"
      "\<lparr>ra_made = None, ra_ping = True, ra_reconnect = True, ra_woken = Some MySQLConnectionPool_close\<rparr>"
      "\<lparr>ra_made = Some 7, ra_ping = True, ra_reconnect = True, ra_woken = None\<rparr>" 7]
  by auto

subsection \<open>The health check\<close>

text \<open>The object a new connection is, at the address \<open>fresh\<close>; \<open>ok\<close>: the server let it in.\<close>

definition MySQLConnectionPool_createConnection ::
    "nat \<Rightarrow> bool \<Rightarrow> (nat \<Rightarrow> mysql_connection) \<Rightarrow> nat option \<times> (nat \<Rightarrow> mysql_connection)" where
  "MySQLConnectionPool_createConnection fresh ok h =
     (let (connected, c) = MySQLConnection_connect ok MySQLConnection_new in
      if connected then (Some fresh, h(fresh := c)) else (None, h))"

text \<open>What \<^verbatim>\<open>mysql_ping\<close> answers for each connection, and then whether it can be reconnected.\<close>

definition check_one :: "(nat \<Rightarrow> bool) \<Rightarrow> (nat \<Rightarrow> bool) \<Rightarrow> nat \<Rightarrow> (nat \<Rightarrow> mysql_connection) \<Rightarrow> nat \<Rightarrow> mysql_connection" where
  "check_one ping back c h =
     (if \<not> ping c
      then h(c := snd (MySQLConnection_connect (back c) (MySQLConnection_disconnect (h c))))
      else h)"

definition MySQLConnectionPool_checkConnections ::
    "(nat \<Rightarrow> bool) \<Rightarrow> (nat \<Rightarrow> bool) \<Rightarrow> conn_pool \<Rightarrow> (nat \<Rightarrow> mysql_connection) \<Rightarrow> nat \<Rightarrow> mysql_connection" where
  "MySQLConnectionPool_checkConnections ping back p h = fold (check_one ping back) (allConnections p) h"

lemma check_fold:
  "distinct cs \<Longrightarrow> fold (check_one ping back) cs h c =
     (if c \<in> set cs \<and> \<not> ping c then snd (MySQLConnection_connect (back c) (MySQLConnection_disconnect (h c)))
      else h c)"
  by (induction cs arbitrary: h) (auto simp: check_one_def)

text \<open>
  The check reaches every connection the pool counts, with a caller or not, and repairs exactly
  those whose ping fails and whose server is back. It repairs a lost connection as well, but
  does not put it back into the queue; and it leaves the transaction flag of a connection it
  replaced, under its caller's hands, as it was.
\<close>

theorem MySQLConnectionPool_checkConnections_repairs:
  assumes "distinct (allConnections p)"
  shows "my_connected (MySQLConnectionPool_checkConnections ping back p h c) =
      (if c \<in> set (allConnections p) \<and> \<not> ping c then back c else my_connected (h c)) \<and>
    inTransaction (MySQLConnectionPool_checkConnections ping back p h c) = inTransaction (h c)"
  by (auto simp: MySQLConnectionPool_checkConnections_def check_fold[OF assms] transaction_defs Let_def)

theorem MySQLConnectionPool_checkConnections_repairs_witness:
  "my_connected (MySQLConnectionPool_checkConnections (\<lambda>_. False) (\<lambda>_. True)
     \<lparr>pool_running = True, pool_queue = [], allConnections = [10], minConnections = 1, maxConnections = 1, pool_notEmpty = Condition_new\<rparr>
     (\<lambda>_. MySQLConnection_new) 10)"
  using MySQLConnectionPool_checkConnections_repairs[of
    "\<lparr>pool_running = True, pool_queue = [], allConnections = [10], minConnections = 1, maxConnections = 1, pool_notEmpty = Condition_new\<rparr>"
    "\<lambda>_. False" "\<lambda>_. True" "\<lambda>_. MySQLConnection_new" 10] by simp

end
