(* ===== verification/Handles.thy ===== *)
theory Handles
  imports Threads Redis
begin

text \<open>
  Objects that own one handle of a library and may only be moved: \<^verbatim>\<open>Thread\<close>
  (a thread of the operating system) and \<^verbatim>\<open>RedisReply\<close> (a reply of hiredis,
  \<^verbatim>\<open>src/database/redis/redis_client.cpp\<close>). Their contract is one locale.
\<close>

subsection \<open>\<^verbatim>\<open>RedisReply\<close> as an owner\<close>

text \<open>A reply object is a pointer, or null; an operation lists the replies it frees.\<close>

definition RedisReply_null :: "nat option" where "RedisReply_null = None"

definition RedisReply_owning :: "nat option \<Rightarrow> nat option" where "RedisReply_owning ptr = ptr"

definition RedisReply_destroy :: "nat option \<Rightarrow> nat list" where
  "RedisReply_destroy r = (case r of Some ptr \<Rightarrow> [ptr] | None \<Rightarrow> [])"

text \<open>The new object and the one it was moved from.\<close>

definition RedisReply_move :: "nat option \<Rightarrow> nat option \<times> nat option" where
  "RedisReply_move other = (other, None)"

definition RedisReply_assign :: "nat option \<Rightarrow> nat option \<Rightarrow> nat option \<times> nat option \<times> nat list" where
  "RedisReply_assign this other = (other, None, (case this of Some ptr \<Rightarrow> [ptr] | None \<Rightarrow> []))"

text \<open>The test \<^verbatim>\<open>this != &other\<close>: an assignment to itself changes and frees nothing.\<close>

definition RedisReply_assign_at ::
    "nat \<Rightarrow> nat \<Rightarrow> nat option list \<Rightarrow> nat option list \<times> nat list" where
  "RedisReply_assign_at i j rs =
     (if i \<noteq> j then (let (x, y, freed) = RedisReply_assign (rs ! i) (rs ! j) in (rs[i := x, j := y], freed))
      else (rs, []))"

subsection \<open>The contract of an owner\<close>

text \<open>
  \<open>holds o\<close> lists the handles the object would release if it were destroyed. Programs create
  owners of new handles, move, assign and destroy them in any order.
\<close>

locale owner =
  fixes holds :: "'o \<Rightarrow> 'h list" and destroy :: "'o \<Rightarrow> 'h list"
    and move :: "'o \<Rightarrow> 'o \<times> 'o" and assign :: "'o \<Rightarrow> 'o \<Rightarrow> 'o \<times> 'o \<times> 'h list"
  assumes destroyed: "destroy x = holds x"
    and moved: "move x = (y, x') \<Longrightarrow> holds y = holds x \<and> holds x' = []"
    and assigned: "assign x z = (x', z', freed) \<Longrightarrow> holds x' = holds z \<and> holds z' = [] \<and> freed = holds x"
begin

inductive objects :: "'h list \<Rightarrow> 'h list \<Rightarrow> 'o list \<Rightarrow> bool" where
  none: "objects [] [] []"
| make: "objects made freed xs \<Longrightarrow> objects (made @ holds x) freed (xs @ [x])"
| move_one: "objects made freed xs \<Longrightarrow> i < length xs \<Longrightarrow> move (xs ! i) = (y, x') \<Longrightarrow>
    objects made freed (xs[i := x'] @ [y])"
| assign_one: "objects made freed xs \<Longrightarrow> i < length xs \<Longrightarrow> j < length xs \<Longrightarrow> i \<noteq> j \<Longrightarrow>
    assign (xs ! i) (xs ! j) = (x', z', fr) \<Longrightarrow> objects made (freed @ fr) (xs[i := x', j := z'])"
| destroy_one: "objects made freed (xs @ x # ys) \<Longrightarrow> objects made (freed @ destroy x) (xs @ ys)"

definition all_held :: "'o list \<Rightarrow> 'h multiset" where
  "all_held xs = mset (concat (map holds xs))"

lemma all_held_simps [simp]:
  "all_held [] = {#}" "all_held (x # xs) = mset (holds x) + all_held xs"
  "all_held (xs @ ys) = all_held xs + all_held ys"
  by (simp_all add: all_held_def)

lemma all_held_update:
  "i < length xs \<Longrightarrow> all_held (xs[i := x]) + mset (holds (xs ! i)) = all_held xs + mset (holds x)"
  by (subst (2) update_split(2)[of i xs]) (simp_all add: update_split(1))

lemma released_once: "objects made freed xs \<Longrightarrow> mset made = mset freed + all_held xs"
proof (induction rule: objects.induct)
  case (move_one made freed xs i y x')
  then show ?case using all_held_update[of i xs x'] moved[of "xs ! i" y x'] by simp
next
  case (assign_one made freed xs i j x' z' fr)
  note a = assigned[OF assign_one.hyps(5)]
  have "all_held (xs[i := x', j := z']) + mset (holds (xs ! j)) + mset (holds (xs ! i)) =
      all_held xs + mset (holds (xs ! j))"
    using all_held_update[of j "xs[i := x']" z'] all_held_update[OF assign_one.hyps(2), of x'] assign_one.hyps(3,4)
    by (simp add: a)
  then have "all_held (xs[i := x', j := z']) + mset fr = all_held xs" by (simp add: a)
  then show ?case using assign_one.IH by (simp add: ac_simps)
next
  case (destroy_one made freed xs x ys)
  then show ?case by (simp add: destroyed ac_simps)
qed (simp_all add: ac_simps)

lemma no_double_release:
  assumes "objects made freed xs" "distinct made"
  shows "distinct freed"
proof -
  have "count (mset freed) a \<le> count (mset made) a" for a using released_once[OF assms(1)] by simp
  moreover have "count (mset made) a \<le> 1" for a using assms(2) by (simp add: distinct_count_atmost_1)
  ultimately have "count (mset freed) a \<le> 1" for a by (meson le_trans)
  then have "count (mset freed) a = (if a \<in> set freed then 1 else 0)" for a
    by (metis One_nat_def count_eq_zero_iff le_SucE le_zero_eq set_mset_mset)
  then show ?thesis by (simp add: distinct_count_atmost_1)
qed

end

interpretation reply_owner: owner "\<lambda>r. case r of Some ptr \<Rightarrow> [ptr] | None \<Rightarrow> []"
    RedisReply_destroy RedisReply_move RedisReply_assign
  by unfold_locales (auto simp: RedisReply_destroy_def RedisReply_move_def RedisReply_assign_def)

interpretation thread_owner: owner owned Thread_destroy Thread_move Thread_assign
  by unfold_locales (auto simp: Thread_destroy_owned Thread_move_def Thread_assign_def)

text \<open>
  A program that creates, moves and assigns reply objects, and destroys them in the end,
  frees each reply hiredis gave it exactly once: what was freed on the way and what the
  destructors of the objects that are left free are the replies made, none twice.
\<close>

theorem RedisReply_frees_once:
  assumes "reply_owner.objects made freed rs" "distinct made"
  shows "mset (freed @ concat (map RedisReply_destroy rs)) = mset made \<and>
    distinct (freed @ concat (map RedisReply_destroy rs))"
proof -
  have "reply_owner.all_held rs = mset (concat (map RedisReply_destroy rs))"
    by (simp add: reply_owner.all_held_def RedisReply_destroy_def[abs_def])
  then have m: "mset (freed @ concat (map RedisReply_destroy rs)) = mset made"
    using reply_owner.released_once[OF assms(1)] by simp
  then have "distinct (freed @ concat (map RedisReply_destroy rs))"
    using assms(2) mset_eq_imp_distinct_iff by blast
  with m show ?thesis by simp
qed

lemma reply_objects_example: "reply_owner.objects [3, 4] [3] [Some 4, None]"
proof -
  note mk = reply_owner.make[where x = "Some _", simplified]
  have "reply_owner.objects [3, 4] [] [Some 3, Some 4]"
    using mk[OF mk[OF reply_owner.none], of 3 4] by simp
  from reply_owner.assign_one[OF this, of 0 1 "Some 4" None "[3]"]
  show ?thesis by (simp add: RedisReply_assign_def)
qed

theorem RedisReply_frees_once_witness:
  "mset ([3] @ concat (map RedisReply_destroy [Some 4, None])) = mset [3, 4]"
  using RedisReply_frees_once[OF reply_objects_example] by simp

lemma RedisReply_self_assignment: "RedisReply_assign_at i i rs = (rs, [])"
  by (simp add: RedisReply_assign_at_def)

text \<open>
  \<open>operator[]\<close> is no such program: its object owns an element that its array owns as
  well. After it the array and the element together free the element twice.
\<close>

lemma RedisReply_index_shares:
  "i < length xs \<Longrightarrow> \<not> frees_ok (snd (RedisReply_index (Some (RArray xs)) i) @ [[]])"
  by (simp add: RedisReply_index_def belongs_to_def)

end
