(* ===== verification/ThreadStart.thy ===== *)
theory ThreadStart
  imports Threads Queues
begin

text \<open>
  The start of a thread, \<^verbatim>\<open>Thread::start\<close> and \<^verbatim>\<open>ThreadData::run\<close> of
  \<^verbatim>\<open>src/common/thread/thread.cpp\<close>: the parent creates a latch with a count of one,
  starts the child and waits; the child stores its id into the thread object, counts the latch
  down and calls the function. The latch dies when \<open>start\<close> returns. A critical section of
  the latch is one step, and POSIX allows destroying a mutex right after its last unlock.
\<close>

subsection \<open>Parent and child\<close>

datatype child_pc = NotStoredTid | StoredTid | InFunction | Done

datatype parent_pc = AtWait | Asleep | Returned

record thread_start =
  child :: child_pc
  parent :: parent_pc
  start_latch :: "latch option"
  tid_stored :: "int option"
  th_label :: string

definition Thread_start_new :: thread_start where
  "Thread_start_new = \<lparr>child = NotStoredTid, parent = AtWait, start_latch = Some (CountDownLatch_new 1),
     tid_stored = None, th_label = ''unknown''\<rparr>"

text \<open>
  The steps of the child; \<open>None\<close> is an access to the latch after its destruction. What
  the function throws is caught, so its step always completes.
\<close>

fun ThreadData_run :: "int \<Rightarrow> string \<Rightarrow> thread_start \<Rightarrow> thread_start option" where
  "ThreadData_run tid name s =
     (case child s of
        NotStoredTid \<Rightarrow> Some (s\<lparr>child := StoredTid, tid_stored := Some tid,
            th_label := (if name = [] then ''thread'' else name)\<rparr>)
      | StoredTid \<Rightarrow> (case start_latch s of
            None \<Rightarrow> None
          | Some l \<Rightarrow> Some (s\<lparr>child := InFunction, start_latch := Some (CountDownLatch_countDown l)\<rparr>))
      | InFunction \<Rightarrow> Some (s\<lparr>child := Done, th_label := ''finished''\<rparr>)
      | Done \<Rightarrow> Some s)"

text \<open>The parent at \<^verbatim>\<open>latch->wait()\<close>: it returns and the latch is destroyed, or it sleeps.\<close>

definition wait_returns :: "latch \<Rightarrow> thread_start \<Rightarrow> thread_start" where
  "wait_returns l s =
     (let (go, l) = CountDownLatch_wait l in
      if go then s\<lparr>parent := Returned, start_latch := None\<rparr>
      else s\<lparr>parent := Asleep, start_latch := Some l\<rparr>)"

inductive start_step :: "int \<Rightarrow> string \<Rightarrow> thread_start \<Rightarrow> thread_start option \<Rightarrow> bool" for tid name where
  child_steps: "child s \<noteq> Done \<Longrightarrow> start_step tid name s (ThreadData_run tid name s)"
| parent_waits: "parent s = AtWait \<Longrightarrow> start_latch s = Some l \<Longrightarrow> start_step tid name s (Some (wait_returns l s))"
| parent_wakes: "parent s = Asleep \<Longrightarrow> start_latch s = Some l \<Longrightarrow> 0 < woken (latch_cond l) \<Longrightarrow>
    start_step tid name s (Some (wait_returns (l\<lparr>latch_cond := Condition_resume (latch_cond l)\<rparr>) s))"
| spurious: "parent s = Asleep \<Longrightarrow> start_latch s = Some l \<Longrightarrow>
    start_step tid name s (Some (s\<lparr>start_latch := Some (l\<lparr>latch_cond := Condition_notify (latch_cond l)\<rparr>)\<rparr>))"

inductive_simps start_step_simps: "start_step tid name s r"

inductive start_reach :: "int \<Rightarrow> string \<Rightarrow> thread_start option \<Rightarrow> bool" for tid name where
  reach_new: "start_reach tid name (Some Thread_start_new)"
| reach_step: "start_reach tid name (Some s) \<Longrightarrow> start_step tid name s r \<Longrightarrow> start_reach tid name r"

subsection \<open>The handshake\<close>

text \<open>
  While the child has not counted down the latch lives, its count is one and a parent that
  sleeps is on its condition variable; afterwards the count is zero and a parent that still
  sleeps has been released.
\<close>

definition handshake :: "int \<Rightarrow> thread_start option \<Rightarrow> bool" where
  "handshake tid r \<longleftrightarrow>
     (case r of
        None \<Rightarrow> False
      | Some s \<Rightarrow>
          (tid_stored s = (if child s = NotStoredTid then None else Some tid)) \<and>
          (parent s = Returned \<longleftrightarrow> start_latch s = None) \<and>
          (case start_latch s of
             None \<Rightarrow> child s \<in> {InFunction, Done}
           | Some l \<Rightarrow>
               latch_count l = (if child s \<in> {NotStoredTid, StoredTid} then 1 else 0) \<and>
               (parent s = Asleep \<longrightarrow> 0 < sleepers (latch_cond l) + woken (latch_cond l)) \<and>
               (child s \<in> {InFunction, Done} \<longrightarrow> sleepers (latch_cond l) = 0)))"

lemmas start_defs = handshake_def CountDownLatch_new_def CountDownLatch_wait_def CountDownLatch_countDown_def
  wait_returns_def cond_defs Let_def

lemma handshake_step: "start_step tid name s r \<Longrightarrow> handshake tid (Some s) \<Longrightarrow> handshake tid r"
proof (induction rule: start_step.induct)
  case (child_steps s)
  then show ?case by (cases "child s") (auto simp: start_defs split: option.splits if_splits)
next
  case (parent_waits s l)
  then show ?case by (cases "child s") (auto simp: start_defs split: option.splits if_splits)
next
  case (parent_wakes s l)
  then show ?case by (cases "child s") (auto simp: start_defs split: option.splits if_splits)
next
  case (spurious s l)
  then show ?case by (cases "child s") (auto simp: start_defs split: option.splits if_splits)
qed

lemma handshake_reach: "start_reach tid name r \<Longrightarrow> handshake tid r"
proof (induction rule: start_reach.induct)
  case reach_new
  show ?case by (simp add: start_defs Thread_start_new_def)
qed (rule handshake_step)

declare ThreadData_run.simps [simp del]

text \<open>
  C37: In every interleaving of \<open>start\<close> with the new thread, spurious wake-ups included,
  the latch is never used after \<open>start\<close> has destroyed it, the thread's id is stored before
  \<open>start\<close> returns, and the two are never stuck: while one of them has not finished, a step
  other than a spurious wake-up is possible.
\<close>
theorem Thread_start_handshake:
  assumes "start_reach tid name r"
  shows "\<exists>s. r = Some s \<and> (parent s = Returned \<longrightarrow> tid_stored s = Some tid) \<and>
    (child s = Done \<and> parent s = Returned \<or>
     child s \<noteq> Done \<and> start_step tid name s (ThreadData_run tid name s) \<or>
     (\<exists>l. start_step tid name s (Some (wait_returns l s)) \<and> parent (wait_returns l s) = Returned))"
proof -
  obtain s where r: "r = Some s" and h: "handshake tid (Some s)"
    using handshake_reach[OF assms] by (cases r) (auto simp: handshake_def)
  have t: "parent s = Returned \<longrightarrow> tid_stored s = Some tid"
    using h by (auto simp: handshake_def split: option.splits)
  show ?thesis
  proof (cases "child s = Done \<and> parent s \<noteq> Returned")
    case False
    then show ?thesis using r t start_step.child_steps[of s tid name] by blast
  next
    case True
    then obtain l where l: "start_latch s = Some l" "latch_count l = 0"
      "parent s = Asleep \<longrightarrow> 0 < woken (latch_cond l)"
      using h by (auto simp: handshake_def split: option.splits)
    let ?l = "if parent s = AtWait then l else l\<lparr>latch_cond := Condition_resume (latch_cond l)\<rparr>"
    have "start_step tid name s (Some (wait_returns ?l s))"
      using True l start_step.parent_waits[of s l] start_step.parent_wakes[of s l] by (cases "parent s") auto
    moreover have "parent (wait_returns ?l s) = Returned"
      using l(2) by (simp add: wait_returns_def CountDownLatch_wait_def)
    ultimately show ?thesis using r t by blast
  qed
qed

lemma start_example:
  "start_reach 70 ''io'' (Some \<lparr>child = InFunction, parent = Returned, start_latch = None,
     tid_stored = Some 70, th_label = ''io''\<rparr>)"
proof -
  note step = start_reach.reach_step[of 70 "''io''"]
  let ?s = "\<lambda>c p l t n. \<lparr>child = c, parent = p, start_latch = l, tid_stored = t, th_label = n\<rparr>"
  let ?l = "\<lparr>latch_count = 0, latch_cond = Condition_new\<rparr>"
  have "start_reach 70 ''io'' (Some (?s StoredTid AtWait (Some (CountDownLatch_new 1)) (Some 70) ''io''))"
    using step[OF start_reach.reach_new start_step.child_steps] by (simp add: Thread_start_new_def ThreadData_run.simps del: One_nat_def)
  from step[OF this start_step.child_steps]
  have "start_reach 70 ''io'' (Some (?s InFunction AtWait (Some ?l) (Some 70) ''io''))"
    by (simp add: start_defs ThreadData_run.simps)
  from step[OF this start_step.parent_waits[of _ ?l]] show ?thesis by (simp add: start_defs)
qed

theorem Thread_start_handshake_witness:
  "\<exists>s. Some \<lparr>child = InFunction, parent = Returned, start_latch = None,
     tid_stored = Some 70, th_label = ''io''\<rparr> = Some s \<and> tid_stored s = Some 70"
  using Thread_start_handshake[OF start_example] by auto

subsection \<open>The current thread\<close>

text \<open>The cached id of the calling thread; 0 is no id.\<close>

definition Thread_currentTid :: "int \<Rightarrow> int \<Rightarrow> int \<times> int" where
  "Thread_currentTid gettid t_tid = (if t_tid = 0 then (gettid, gettid) else (t_tid, t_tid))"

definition Thread_isMainThread :: "int \<Rightarrow> int \<Rightarrow> int \<Rightarrow> bool" where
  "Thread_isMainThread pid gettid t_tid \<longleftrightarrow> fst (Thread_currentTid gettid t_tid) = pid"

definition Thread_setDefaultName :: "string \<Rightarrow> int \<Rightarrow> string \<times> int" where
  "Thread_setDefaultName name n =
     (if name = '''' then (''Thread-'' @ int_to_string (n + 1), n + 1) else (name, n))"

lemma Thread_new_name:
  "th_name (fst (Thread_new name n)) = fst (Thread_setDefaultName name n)"
  "snd (Thread_new name n) = snd (Thread_setDefaultName name n)"
  by (simp_all add: Thread_new_def Thread_setDefaultName_def Let_def)

lemma Thread_currentTid_cached:
  "gettid \<noteq> 0 \<Longrightarrow> t_tid \<in> {0, gettid} \<Longrightarrow> Thread_currentTid gettid t_tid = (gettid, gettid)"
  by (auto simp: Thread_currentTid_def)

end
