(* ===== verification/Floats.thy ===== *)
theory Floats
  imports Complex_Main Redis Battle
begin

text \<open>
  The operations on floating-point numbers: the damage and healing of
  \<^verbatim>\<open>src/game/modules/battle/skill_system.cpp\<close>, the scores of
  \<^verbatim>\<open>src/database/redis/redis_client.cpp\<close> and the floating-point columns of
  \<^verbatim>\<open>src/database/mysql/mysql_connection.cpp\<close>. Arithmetic in single precision is exact
  arithmetic on real numbers with every result rounded by \<open>fl\<close>, which is an argument:
  \<open>rounds fl\<close> states the laws of IEEE rounding the proofs use. The conversions between text
  and double are an argument as well (\<open>double_text\<close>).
\<close>

unbundle bit_operations_syntax

subsection \<open>Single precision\<close>

text \<open>The number a 32-bit pattern stands for (infinities and NaNs aside).\<close>

definition float_value :: "uint32 \<Rightarrow> real" where
  "float_value w =
     (let s = (if bit w 31 then - 1 else 1);
          e = uint (drop_bit 23 w AND 0xFF);
          m = real_of_int (uint (w AND 0x7FFFFF)) / 8388608
      in s * (if e = 0 then m * 2 powi (- 126) else (1 + m) * 2 powi (e - 127)))"

definition rounds :: "(real \<Rightarrow> real) \<Rightarrow> bool" where
  "rounds fl \<longleftrightarrow> mono fl \<and> (\<forall>x. fl (fl x) = fl x) \<and> fl 0 = 0 \<and> fl 1 = 1"

lemma roundsD:
  assumes "rounds fl"
  shows "x \<le> y \<Longrightarrow> fl x \<le> fl y" "fl (fl x) = fl x" "fl 0 = 0" "fl 1 = 1"
    "0 \<le> x \<Longrightarrow> 0 \<le> fl x" "x \<le> 1 \<Longrightarrow> fl x \<le> 1"
  using assms monoD[of fl 0 x] monoD[of fl x 1] by (auto simp: rounds_def dest: monoD)

text \<open>The cast to \<^verbatim>\<open>int32\<close> truncates; out of range it is undefined.\<close>

definition to_int32 :: "real \<Rightarrow> int option" where
  "to_int32 x =
     (let t = (if 0 \<le> x then \<lfloor>x\<rfloor> else \<lceil>x\<rceil>)
      in if - (2 ^ 31) \<le> t \<and> t < 2 ^ 31 then Some t else None)"

lemma to_int32_nonneg: "0 \<le> x \<Longrightarrow> x < 2 ^ 31 \<Longrightarrow> to_int32 x = Some \<lfloor>x\<rfloor>"
  by (simp add: to_int32_def floor_less_iff le_floor_iff)

text \<open>
  With a defense of -100 the division is by zero; the result is infinite or no number, and its
  cast undefined.
\<close>

definition SkillSystem_calculateDamage :: "(real \<Rightarrow> real) \<Rightarrow> skill_config \<Rightarrow> int \<Rightarrow> int \<Rightarrow> int option" where
  "SkillSystem_calculateDamage fl sk attack defense =
     (let baseDamage = fl (fl (of_int attack) * float_value (damageRatio sk));
          d = fl (of_int defense);
          q = fl (d + 100)
      in if q = 0 then None
         else (let reduction = fl (d / q)
               in to_int32 (fl (baseDamage * fl (1 - reduction)))))"

definition SkillSystem_calculateHeal :: "(real \<Rightarrow> real) \<Rightarrow> skill_config \<Rightarrow> int \<Rightarrow> int option" where
  "SkillSystem_calculateHeal fl sk magic = to_int32 (fl (fl (of_int magic) * (1 / 2)))"

lemma reduction_bounds:
  assumes r: "rounds fl" and d: "0 \<le> (defense :: int)"
  shows "0 < fl (fl (of_int defense) + 100)"
    and "0 \<le> fl (fl (of_int defense) / fl (fl (of_int defense) + 100))"
    and "fl (fl (of_int defense) / fl (fl (of_int defense) + 100)) \<le> 1"
proof -
  let ?d = "fl (of_int defense)" and ?q = "fl (fl (of_int defense) + 100)"
  have d0: "0 \<le> ?d" using roundsD(5)[OF r, of "of_int defense"] d by simp
  have "1 \<le> ?q" using roundsD(1)[OF r, of 1 "?d + 100"] roundsD(4)[OF r] d0 by simp
  then show q: "0 < ?q" by simp
  have "?d \<le> ?q" using roundsD(1)[OF r, of ?d "?d + 100"] roundsD(2)[OF r] by simp
  then have "?d / ?q \<le> 1" using q by simp
  then show "fl (?d / ?q) \<le> 1" by (rule roundsD(6)[OF r])
  show "0 \<le> fl (?d / ?q)" using roundsD(5)[OF r, of "?d / ?q"] d0 q by simp
qed


lemma rounds_id: "rounds (\<lambda>x. x)"
  by (simp add: rounds_def mono_def)

lemma float_value_1_5: "float_value 0x3FC00000 = 3 / 2"
  by (simp add: float_value_def Let_def)


text \<open>
  Without the hypothesis on the defense the bound fails: a defense of -50 doubles the damage,
  and one of -100 makes the cast undefined.
\<close>

lemma SkillSystem_negative_defense:
  "SkillSystem_calculateDamage (\<lambda>x. x) (skill 1001 1 0 0 0x3F800000 1 False) 100 (- 50) = Some 200"
  "SkillSystem_calculateDamage (\<lambda>x. x) sk attack (- 100) = None"
  by (simp_all add: SkillSystem_calculateDamage_def skill_def float_value_def to_int32_def Let_def)

theorem SkillSystem_heal_bounded:
  assumes r: "rounds fl" and "0 \<le> magic" and "fl (of_int magic) < 2 ^ 31"
  shows "\<exists>h. SkillSystem_calculateHeal fl sk magic = Some h \<and> 0 \<le> h \<and> real_of_int h \<le> fl (of_int magic)"
proof -
  let ?m = "fl (of_int magic)"
  have m: "0 \<le> ?m" using roundsD(5)[OF r] assms(2) by simp
  then have "?m * (1 / 2) \<le> ?m" by simp
  then have le: "fl (?m * (1 / 2)) \<le> ?m" using roundsD(1)[OF r] roundsD(2)[OF r] by metis
  have ge: "0 \<le> fl (?m * (1 / 2))" using roundsD(5)[OF r] m by simp
  have "SkillSystem_calculateHeal fl sk magic = Some \<lfloor>fl (?m * (1 / 2))\<rfloor>"
    using to_int32_nonneg[OF ge] le assms(3) by (simp add: SkillSystem_calculateHeal_def)
  moreover have "real_of_int \<lfloor>fl (?m * (1 / 2))\<rfloor> \<le> ?m" using le of_int_floor_le order_trans by blast
  ultimately show ?thesis using ge by simp
qed

subsection \<open>Doubles as text\<close>

text \<open>\<open>std::to_string\<close>; \<open>std::stod\<close>, which throws (\<open>None\<close>) on text that is no number.\<close>

record 'd double_text =
  d_to_string :: "'d \<Rightarrow> string"
  d_stod :: "string \<Rightarrow> 'd option"
  d_zero :: 'd

definition MySQLResult_getDouble :: "'d double_text \<Rightarrow> mysql_result \<Rightarrow> nat \<Rightarrow> 'd option" where
  "MySQLResult_getDouble dt r i = (case field_at r i of Some s \<Rightarrow> d_stod dt s | None \<Rightarrow> Some (d_zero dt))"

definition MySQLResult_getDouble_by :: "'d double_text \<Rightarrow> mysql_result \<Rightarrow> string \<Rightarrow> 'd option" where
  "MySQLResult_getDouble_by dt r name =
     (let index = MySQLResult_fieldIndex r name
      in if 0 \<le> index then MySQLResult_getDouble dt r (nat index) else Some (d_zero dt))"

text \<open>The same with \<open>std::stof\<close>.\<close>

definition MySQLResult_getFloat :: "'f double_text \<Rightarrow> mysql_result \<Rightarrow> nat \<Rightarrow> 'f option" where
  "MySQLResult_getFloat ft r i = (case field_at r i of Some s \<Rightarrow> d_stod ft s | None \<Rightarrow> Some (d_zero ft))"

definition MySQLResult_getFloat_by :: "'f double_text \<Rightarrow> mysql_result \<Rightarrow> string \<Rightarrow> 'f option" where
  "MySQLResult_getFloat_by ft r name =
     (let index = MySQLResult_fieldIndex r name
      in if 0 \<le> index then MySQLResult_getFloat ft r (nat index) else Some (d_zero ft))"

definition RedisClient_zadd ::
    "'d double_text \<Rightarrow> 'r redis_server \<Rightarrow> redis_client \<Rightarrow> string \<Rightarrow> 'd \<Rightarrow> string \<Rightarrow> 'r \<Rightarrow> int \<times> 'r" where
  "RedisClient_zadd dt srv c key score member r =
     map_prod (reply_integer 0) id (RedisClient_execute srv c [''ZADD'', key, d_to_string dt score, member] r)"

definition RedisClient_zscore ::
    "'d double_text \<Rightarrow> 'r redis_server \<Rightarrow> redis_client \<Rightarrow> string \<Rightarrow> string \<Rightarrow> 'r \<Rightarrow> ('d \<times> 'r) option" where
  "RedisClient_zscore dt srv c key member r =
     (let (x, r) = RedisClient_execute srv c [''ZSCORE'', key, member] r in
      if RedisReply_valid x \<and> \<not> RedisReply_isNil x
      then map_option (\<lambda>d. (d, r)) (d_stod dt (RedisReply_asString x))
      else Some (d_zero dt, r))"

text \<open>The loop reads a member and its score at a time and stops at a score that is no number.\<close>

fun read_scores :: "'d double_text \<Rightarrow> reply option \<Rightarrow> nat list \<Rightarrow> (string \<times> 'd) list option \<times> nat list list" where
  "read_scores dt r (i # j # js) =
     (let (x, fr) = RedisReply_index r i; (y, fr') = RedisReply_index r j in
      case d_stod dt (RedisReply_asString y) of
        None \<Rightarrow> (None, fr @ fr')
      | Some d \<Rightarrow> (let (rest, frs) = read_scores dt r js
                   in (map_option (\<lambda>ms. (RedisReply_asString x, d) # ms) rest, fr @ fr' @ frs)))"
| "read_scores dt r _ = (Some [], [])"

definition RedisClient_zrangeWithScores ::
    "'d double_text \<Rightarrow> 'r redis_server \<Rightarrow> redis_client \<Rightarrow> string \<Rightarrow> int \<Rightarrow> int \<Rightarrow> 'r \<Rightarrow>
     ((string \<times> 'd) list option \<times> 'r) option" where
  "RedisClient_zrangeWithScores dt srv c key start stop r =
     (let (x, r) = RedisClient_execute srv c
            [''ZRANGE'', key, int_to_string start, int_to_string stop, ''WITHSCORES''] r in
      if \<not> RedisReply_valid x \<or> RedisReply_type x \<noteq> ARRAY then Some (None, r)
      else (let (ms, frees) = read_scores dt x [0..<RedisReply_arraySize x]
            in if frees_ok (frees @ [[]]) then map_option (\<lambda>ms. (Some ms, r)) ms else None))"

text \<open>What hiredis says of the context, if there is one and it has an error.\<close>

definition RedisClient_errorMessage :: "string option \<Rightarrow> redis_client \<Rightarrow> string" where
  "RedisClient_errorMessage errstr c =
     (if ctx c then (case errstr of Some e \<Rightarrow> e | None \<Rightarrow> lastError c) else lastError c)"

text \<open>
  A sorted set that keeps the text it is given: a score comes back if the conversions are
  inverse on it.
\<close>

theorem RedisClient_score_roundtrip:
  assumes "ctx c" and "d_stod dt (d_to_string dt score) = Some score"
    and "\<And>k s m r. fst (srv [''ZSCORE'', k, m] (snd (srv [''ZADD'', k, s, m] r))) = Some (RString s)"
  shows "\<exists>r'. RedisClient_zscore dt srv c key m (snd (RedisClient_zadd dt srv c key score m r)) = Some (score, r')"
  using assms by (simp add: RedisClient_zscore_def RedisClient_zadd_def redis_defs case_prod_unfold Let_def)

theorem RedisClient_score_roundtrip_witness:
  "\<exists>r'. RedisClient_zscore \<lparr>d_to_string = (\<lambda>b. if b then ''1'' else ''0''), d_stod = (\<lambda>s. Some (s = ''1'')), d_zero = False\<rparr>
     (\<lambda>w s. if hd w = ''ZADD'' then (Some (RInteger 1), w ! 2) else (Some (RString s), s)) redis_connected
     ''top'' ''ann'' (snd (RedisClient_zadd \<lparr>d_to_string = (\<lambda>b. if b then ''1'' else ''0''), d_stod = (\<lambda>s. Some (s = ''1'')), d_zero = False\<rparr>
       (\<lambda>w s. if hd w = ''ZADD'' then (Some (RInteger 1), w ! 2) else (Some (RString s), s)) redis_connected
       ''top'' True ''ann'' [])) = Some (True, r')"
  by (rule RedisClient_score_roundtrip) (simp_all add: redis_connected_def)

lemma zrangeWithScores_double_free:
  assumes "ctx c" "fst (srv [''ZRANGE'', key, int_to_string i, int_to_string j, ''WITHSCORES''] r) = Some (RArray (x # y # xs))"
  shows "RedisClient_zrangeWithScores dt srv c key i j r = None"
proof -
  let ?a = "Some (RArray (x # y # xs))"
  have "[0..<Suc (Suc (length xs))] = 0 # 1 # [2..<Suc (Suc (length xs))]"
    by (simp add: upt_conv_Cons numeral_2_eq_2 del: upt_Suc)
  then have "snd (read_scores dt ?a [0..<Suc (Suc (length xs))]) \<noteq> []"
    by (auto simp: RedisReply_index_def Let_def case_prod_unfold simp del: upt_Suc split: option.splits)
  then have "\<not> frees_ok (snd (read_scores dt ?a [0..<Suc (Suc (length xs))]) @ [[]])"
    by (rule frees_with_parent)
  then show ?thesis
    using assms by (simp add: RedisClient_zrangeWithScores_def RedisClient_execute_def RedisReply_valid_def
      RedisReply_type_def RedisReply_arraySize_def case_prod_unfold Let_def del: upt_Suc)
qed

end
