(* ===== verification/Randoms.thy ===== *)
theory Randoms
  imports Complex_Main Crypto
begin

text \<open>
  \<^verbatim>\<open>Random\<close> (\<^verbatim>\<open>src/common/crypto/random.cpp\<close>) and the keys
  \<^verbatim>\<open>AES\<close> makes from it. The generator is an argument: \<open>draw e\<close> is the engine's next
  32-bit number, \<open>uniform a b e\<close> the integer \<^verbatim>\<open>uniform_int_distribution\<close> draws
  between \<open>a\<close> and \<open>b\<close>, \<open>draw_real a b e\<close> the number \<^verbatim>\<open>uniform_real_distribution\<close> draws from
  \<open>a\<close> on and below \<open>b\<close>; all change the engine's state \<open>'e\<close>, which \<open>seeded\<close> makes from a seed.
  The standard requires \<open>a \<le> b\<close>; a call that breaks this, or a bound that overflows, is \<open>None\<close>.
\<close>

subsection \<open>Numbers\<close>

record 'e rng =
  draw :: "'e \<Rightarrow> nat \<times> 'e"
  uniform :: "int \<Rightarrow> int \<Rightarrow> 'e \<Rightarrow> int \<times> 'e"
  draw_real :: "real \<Rightarrow> real \<Rightarrow> 'e \<Rightarrow> real \<times> 'e"
  seeded :: "nat \<Rightarrow> 'e"

definition rng_ok :: "'e rng \<Rightarrow> bool" where
  "rng_ok g \<longleftrightarrow> (\<forall>e. fst (draw g e) < 2 ^ 32) \<and>
     (\<forall>a b e. a \<le> b \<longrightarrow> a \<le> fst (uniform g a b e) \<and> fst (uniform g a b e) \<le> b) \<and>
     (\<forall>a b e. a < b \<longrightarrow> a \<le> fst (draw_real g a b e) \<and> fst (draw_real g a b e) < b)"

definition INT32_MIN :: int where "INT32_MIN = - (2 ^ 31)"
definition INT32_MAX :: int where "INT32_MAX = 2 ^ 31 - 1"

lemmas int32_limits = INT32_MIN_def INT32_MAX_def

definition uniform_int32 :: "'e rng \<Rightarrow> int \<Rightarrow> int \<Rightarrow> 'e \<Rightarrow> (int \<times> 'e) option" where
  "uniform_int32 g a b e =
     (if INT32_MIN \<le> b \<and> a \<le> b then Some (uniform g a b e) else None)"

definition Random_nextInt :: "'e rng \<Rightarrow> 'e \<Rightarrow> int \<times> 'e" where
  "Random_nextInt g e = uniform g INT32_MIN INT32_MAX e"

definition Random_nextInt_below :: "'e rng \<Rightarrow> int \<Rightarrow> 'e \<Rightarrow> (int \<times> 'e) option" where
  "Random_nextInt_below g mx e = uniform_int32 g 0 (mx - 1) e"

definition Random_nextInt_between :: "'e rng \<Rightarrow> int \<Rightarrow> int \<Rightarrow> 'e \<Rightarrow> (int \<times> 'e) option" where
  "Random_nextInt_between g mn mx e = uniform_int32 g mn (mx - 1) e"

definition Random_nextDouble :: "'e rng \<Rightarrow> 'e \<Rightarrow> real \<times> 'e" where
  "Random_nextDouble g e = draw_real g 0 1 e"

definition Random_nextDouble_below :: "'e rng \<Rightarrow> real \<Rightarrow> 'e \<Rightarrow> (real \<times> 'e) option" where
  "Random_nextDouble_below g mx e = (if 0 \<le> mx then Some (draw_real g 0 mx e) else None)"

definition Random_nextDouble_between :: "'e rng \<Rightarrow> real \<Rightarrow> real \<Rightarrow> 'e \<Rightarrow> (real \<times> 'e) option" where
  "Random_nextDouble_between g mn mx e = (if mn \<le> mx then Some (draw_real g mn mx e) else None)"

definition Random_new_seed :: "'e rng \<Rightarrow> nat \<Rightarrow> 'e" where
  "Random_new_seed g seed = seeded g seed"

definition Random_setSeed :: "'e rng \<Rightarrow> nat \<Rightarrow> 'e \<Rightarrow> 'e" where
  "Random_setSeed g seed e = seeded g seed"

subsection \<open>Strings and bytes\<close>

definition random_chars :: string where
  "random_chars = ''abcdefghijklmnopqrstuvwxyzABCDEFGHIJKLMNOPQRSTUVWXYZ0123456789''"

fun Random_nextString :: "'e rng \<Rightarrow> nat \<Rightarrow> 'e \<Rightarrow> string \<times> 'e" where
  "Random_nextString g 0 e = ([], e)"
| "Random_nextString g (Suc len) e =
     (let (i, e) = uniform g 0 (int (length random_chars) - 1) e;
          (s, e) = Random_nextString g len e
      in (random_chars ! nat i # s, e))"

fun Random_nextHexString :: "'e rng \<Rightarrow> nat \<Rightarrow> 'e \<Rightarrow> string \<times> 'e" where
  "Random_nextHexString g 0 e = ([], e)"
| "Random_nextHexString g (Suc len) e =
     (let (x, e) = draw g e; (s, e) = Random_nextHexString g len e
      in (hex_digit (x mod 16) # s, e))"

fun Random_nextBytes :: "'e rng \<Rightarrow> nat \<Rightarrow> 'e \<Rightarrow> byte list \<times> 'e" where
  "Random_nextBytes g 0 e = ([], e)"
| "Random_nextBytes g (Suc len) e =
     (let (x, e) = uniform g 0 255 e; (bs, e) = Random_nextBytes g len e
      in (word_of_int x # bs, e))"

definition Random_nextBytes_string :: "'e rng \<Rightarrow> nat \<Rightarrow> 'e \<Rightarrow> byte list \<times> 'e" where
  "Random_nextBytes_string g len e = Random_nextBytes g len e"

text \<open>The four numbers of a uuid, drawn from the whole range of \<^verbatim>\<open>uint32\<close>.\<close>

definition Random_uuid_drawn :: "'e rng \<Rightarrow> 'e \<Rightarrow> string \<times> 'e" where
  "Random_uuid_drawn g e =
     (let (d0, e) = uniform g 0 4294967295 e; (d1, e) = uniform g 0 4294967295 e;
          (d2, e) = uniform g 0 4294967295 e; (d3, e) = uniform g 0 4294967295 e
      in (Random_uuid (word_of_int d0) (word_of_int d1) (word_of_int d2) (word_of_int d3), e))"

text \<open>The keys of \<^verbatim>\<open>AES\<close>.\<close>

definition AES_generateKey :: "'e rng \<Rightarrow> 'e \<Rightarrow> byte list \<times> 'e" where
  "AES_generateKey g e = Random_nextBytes g 16 e"

definition AES_generateIv :: "'e rng \<Rightarrow> 'e \<Rightarrow> byte list \<times> 'e" where
  "AES_generateIv g e = Random_nextBytes g 16 e"

subsection \<open>What the numbers are\<close>

lemma rng_okD:
  assumes "rng_ok g"
  shows "fst (draw g e) < 2 ^ 32" "a \<le> b \<Longrightarrow> a \<le> fst (uniform g a b e)" "a \<le> b \<Longrightarrow> fst (uniform g a b e) \<le> b"
  using assms by (simp_all add: rng_ok_def)

lemma Random_nextInt_range:
  assumes "rng_ok g"
  shows "INT32_MIN \<le> fst (Random_nextInt g e) \<and> fst (Random_nextInt g e) \<le> INT32_MAX"
  using rng_okD(2,3)[OF assms, of INT32_MIN INT32_MAX e] by (simp add: Random_nextInt_def int32_limits)

text \<open>
  The half-open ranges: a call with a proper range returns a number in it; one with an empty
  range, \<open>nextInt(0)\<close> among them, is undefined.
\<close>

theorem Random_nextInt_in_range:
  assumes "rng_ok g" "INT32_MIN \<le> mn" "mx \<le> INT32_MAX"
  shows "(mn < mx \<longrightarrow> (\<exists>n e'. Random_nextInt_between g mn mx e = Some (n, e') \<and> mn \<le> n \<and> n < mx)) \<and>
    (mx \<le> mn \<longrightarrow> Random_nextInt_between g mn mx e = None) \<and>
    Random_nextInt_below g mx e = Random_nextInt_between g 0 mx e"
proof -
  have "mn < mx \<Longrightarrow> mn \<le> fst (uniform g mn (mx - 1) e) \<and> fst (uniform g mn (mx - 1) e) < mx"
    using rng_okD(2,3)[OF assms(1), of mn "mx - 1" e] by simp
  then show ?thesis
    using assms(2)
    by (cases "uniform g mn (mx - 1) e")
      (auto simp: Random_nextInt_between_def Random_nextInt_below_def uniform_int32_def)
qed

definition constant_rng :: "unit rng" where
  "constant_rng = \<lparr>draw = (\<lambda>e. (7, e)), uniform = (\<lambda>a b e. (a, e)), draw_real = (\<lambda>a b e. (a, e)),
     seeded = (\<lambda>_. ())\<rparr>"

lemma constant_rng_ok: "rng_ok constant_rng"
  by (simp add: rng_ok_def constant_rng_def)

theorem Random_nextInt_in_range_witness:
  "\<exists>n e'. Random_nextInt_between constant_rng 3 9 () = Some (n, e') \<and> 3 \<le> n \<and> n < 9"
  using Random_nextInt_in_range[OF constant_rng_ok, of 3 9 "()"] by (simp add: int32_limits)

lemma Random_nextDouble_in_range:
  assumes "rng_ok g"
  shows "0 \<le> fst (Random_nextDouble g e) \<and> fst (Random_nextDouble g e) < 1"
    and "mn < mx \<Longrightarrow> \<exists>x e'. Random_nextDouble_between g mn mx e = Some (x, e') \<and> mn \<le> x \<and> x < mx"
    and "Random_nextDouble_below g mx e = Random_nextDouble_between g 0 mx e"
proof -
  have d: "a < b \<Longrightarrow> a \<le> fst (draw_real g a b e) \<and> fst (draw_real g a b e) < b" for a b
    using assms by (simp add: rng_ok_def)
  show "0 \<le> fst (Random_nextDouble g e) \<and> fst (Random_nextDouble g e) < 1"
    using d[of 0 1] by (simp add: Random_nextDouble_def)
  show "mn < mx \<Longrightarrow> \<exists>x e'. Random_nextDouble_between g mn mx e = Some (x, e') \<and> mn \<le> x \<and> x < mx"
    using d[of mn mx] by (cases "draw_real g mn mx e") (simp add: Random_nextDouble_between_def)
  show "Random_nextDouble_below g mx e = Random_nextDouble_between g 0 mx e"
    by (simp add: Random_nextDouble_below_def Random_nextDouble_between_def)
qed

lemma length_random_chars: "length random_chars = 62"
  by (simp add: random_chars_def)

lemma Random_nextString_ok:
  assumes "rng_ok g"
  shows "length (fst (Random_nextString g len e)) = len \<and>
    set (fst (Random_nextString g len e)) \<subseteq> set random_chars"
proof (induction len arbitrary: e)
  case (Suc len)
  obtain i e1 where u: "uniform g 0 (int (length random_chars) - 1) e = (i, e1)" by fastforce
  have "0 \<le> i" "i \<le> int (length random_chars) - 1"
    using rng_okD(2,3)[OF assms, of 0 "int (length random_chars) - 1" e] unfolding u
    by (simp_all add: length_random_chars)
  then have "random_chars ! nat i \<in> set random_chars" by (intro nth_mem) linarith
  then show ?case using Suc[of e1] by (simp add: u case_prod_unfold Let_def)
qed simp

lemma Random_nextHexString_ok:
  "length (fst (Random_nextHexString g len e)) = len \<and>
   set (fst (Random_nextHexString g len e)) \<subseteq> set ''0123456789abcdef''"
proof (induction len arbitrary: e)
  case (Suc len)
  obtain x e1 where d: "draw g e = (x, e1)" by fastforce
  have "x mod 16 < 16" by simp
  then have "hex_digit (x mod 16) \<in> set ''0123456789abcdef''"
    unfolding hex_digit_def by (intro nth_mem) simp
  moreover have "fst (Random_nextHexString g (Suc len) e) =
      hex_digit (x mod 16) # fst (Random_nextHexString g len e1)"
    by (simp add: d case_prod_unfold Let_def)
  ultimately show ?case using Suc[of e1] by (simp only: list.set length_Cons insert_subset)
qed simp

lemma length_Random_nextBytes [simp]: "length (fst (Random_nextBytes g len e)) = len"
  by (induction len arbitrary: e) (simp_all add: case_prod_unfold Let_def)

text \<open>A generated key is accepted and a generated vector used, whatever the engine draws.\<close>

theorem AES_generated_key_accepted:
  "fst (AES_setKey (fst (AES_generateKey g e)) c) \<and>
   keySet (snd (AES_setKey (fst (AES_generateKey g e)) c)) \<and>
   iv (AES_setIv (fst (AES_generateIv g e)) c) = fst (AES_generateIv g e)"
  by (simp add: AES_setKey_def AES_setIv_def AES_generateKey_def AES_generateIv_def)

subsection \<open>One engine per thread\<close>

text \<open>
  \<^verbatim>\<open>ThreadSafeRandom\<close> keeps a \<^verbatim>\<open>thread_local\<close> engine, made when its thread first asks for it;
  each of its functions is the one of \<^verbatim>\<open>Random\<close> on the calling thread's engine.
\<close>

definition ThreadSafeRandom_instance :: "'e \<Rightarrow> nat \<Rightarrow> (nat \<rightharpoonup> 'e) \<Rightarrow> 'e" where
  "ThreadSafeRandom_instance fresh t es = (case es t of None \<Rightarrow> fresh | Some e \<Rightarrow> e)"

definition ThreadSafeRandom_call :: "('e \<Rightarrow> 'a \<times> 'e) \<Rightarrow> 'e \<Rightarrow> nat \<Rightarrow> (nat \<rightharpoonup> 'e) \<Rightarrow> 'a \<times> (nat \<rightharpoonup> 'e)" where
  "ThreadSafeRandom_call f fresh t es =
     (let (x, e) = f (ThreadSafeRandom_instance fresh t es) in (x, es(t \<mapsto> e)))"

definition ThreadSafeRandom_nextInt :: "'e rng \<Rightarrow> 'e \<Rightarrow> nat \<Rightarrow> (nat \<rightharpoonup> 'e) \<Rightarrow> int \<times> (nat \<rightharpoonup> 'e)" where
  "ThreadSafeRandom_nextInt g = ThreadSafeRandom_call (Random_nextInt g)"

definition ThreadSafeRandom_nextString :: "'e rng \<Rightarrow> nat \<Rightarrow> 'e \<Rightarrow> nat \<Rightarrow> (nat \<rightharpoonup> 'e) \<Rightarrow> string \<times> (nat \<rightharpoonup> 'e)" where
  "ThreadSafeRandom_nextString g len = ThreadSafeRandom_call (Random_nextString g len)"

definition ThreadSafeRandom_nextHexString :: "'e rng \<Rightarrow> nat \<Rightarrow> 'e \<Rightarrow> nat \<Rightarrow> (nat \<rightharpoonup> 'e) \<Rightarrow> string \<times> (nat \<rightharpoonup> 'e)" where
  "ThreadSafeRandom_nextHexString g len = ThreadSafeRandom_call (Random_nextHexString g len)"

definition ThreadSafeRandom_uuid :: "'e rng \<Rightarrow> 'e \<Rightarrow> nat \<Rightarrow> (nat \<rightharpoonup> 'e) \<Rightarrow> string \<times> (nat \<rightharpoonup> 'e)" where
  "ThreadSafeRandom_uuid g = ThreadSafeRandom_call (Random_uuid_drawn g)"

text \<open>The calls of a thread see only the calls of that thread: other threads do not disturb it.\<close>

fun thread_calls :: "(nat \<times> ('e \<Rightarrow> 'a \<times> 'e)) list \<Rightarrow> (nat \<Rightarrow> 'e) \<Rightarrow> (nat \<rightharpoonup> 'e) \<Rightarrow> (nat \<times> 'a) list" where
  "thread_calls [] fresh es = []"
| "thread_calls ((t, f) # cs) fresh es =
     (let (x, es) = ThreadSafeRandom_call f (fresh t) t es in (t, x) # thread_calls cs fresh es)"

lemma ThreadSafeRandom_threads_independent:
  "filter (\<lambda>(u, x). u = t) (thread_calls cs fresh es) =
   thread_calls (filter (\<lambda>(u, f). u = t) cs) fresh (es |` {t})"
proof (induction cs arbitrary: es)
  case (Cons c cs)
  obtain u f where c: "c = (u, f)" by fastforce
  obtain x e where f: "f (ThreadSafeRandom_instance (fresh u) u es) = (x, e)" by fastforce
  show ?case
  proof (cases "u = t")
    case True
    have "es(t \<mapsto> e) |` {t} = (es |` {t})(t \<mapsto> e)" by (auto simp: restrict_map_def fun_eq_iff)
    then show ?thesis using Cons.IH[of "es(u \<mapsto> e)"] f True
      by (simp add: c ThreadSafeRandom_call_def ThreadSafeRandom_instance_def del: fun_upd_apply)
  next
    case False
    then have "es(u \<mapsto> e) |` {t} = es |` {t}" by (auto simp: restrict_map_def fun_eq_iff)
    then show ?thesis using Cons.IH[of "es(u \<mapsto> e)"] f False
      by (simp add: c ThreadSafeRandom_call_def del: fun_upd_apply)
  qed
qed simp

end
