(* ===== verification/LoopTimers.thy ===== *)
theory LoopTimers
  imports Complex_Main Reactor Timers
begin

text \<open>
  The event loop together with its timers and its own channel:
  \<^verbatim>\<open>src/core/reactor/event_loop.cpp\<close> composed from the models of the loop, the poller and
  the timer manager. A timer's callback only uses the timers; its effects are recorded in
  \<open>ran\<close> with everything else the loop runs.
\<close>

subsection \<open>Timers of a loop\<close>

definition EventLoop_runAt ::
    "(timer_heap \<Rightarrow> nat) \<Rightarrow> int \<Rightarrow> timer_action list \<Rightarrow> timer_manager \<Rightarrow> ((nat \<times> int) \<times> timer_manager) option" where
  "EventLoop_runAt alloc time cb m = TimerManager_addTimer alloc time cb 0 m"

text \<open>
  Delays are doubles, in seconds: the product is rounded by \<open>fl\<close> and the cast truncates it.
\<close>

definition delay_ms :: "(real \<Rightarrow> real) \<Rightarrow> real \<Rightarrow> int" where
  "delay_ms fl delay = (let x = fl (delay * 1000) in if 0 \<le> x then \<lfloor>x\<rfloor> else \<lceil>x\<rceil>)"

definition EventLoop_runAfter ::
    "(real \<Rightarrow> real) \<Rightarrow> (timer_heap \<Rightarrow> nat) \<Rightarrow> int \<Rightarrow> real \<Rightarrow> timer_action list \<Rightarrow> timer_manager \<Rightarrow>
     ((nat \<times> int) \<times> timer_manager) option" where
  "EventLoop_runAfter fl alloc now delay cb m = EventLoop_runAt alloc (now + delay_ms fl delay) cb m"

definition EventLoop_runEvery ::
    "(real \<Rightarrow> real) \<Rightarrow> (timer_heap \<Rightarrow> nat) \<Rightarrow> int \<Rightarrow> real \<Rightarrow> timer_action list \<Rightarrow> timer_manager \<Rightarrow>
     ((nat \<times> int) \<times> timer_manager) option" where
  "EventLoop_runEvery fl alloc now every cb m =
     TimerManager_addTimer alloc (now + delay_ms fl every) cb (delay_ms fl every) m"

definition EventLoop_cancel :: "nat \<times> int \<Rightarrow> timer_manager \<Rightarrow> timer_manager option" where
  "EventLoop_cancel tid m = TimerManager_cancel tid m"

text \<open>
  A pass of the loop with its timer manager; the clock says \<open>now1\<close> before the timers'
  callbacks and \<open>now2\<close> after them.
\<close>

definition EventLoop_timed_pass ::
    "(timer_heap \<Rightarrow> nat) \<Rightarrow> loop_functor list \<Rightarrow> int \<Rightarrow> int \<Rightarrow> event_loop \<times> timer_manager \<Rightarrow>
     (event_loop \<times> timer_manager) option" where
  "EventLoop_timed_pass alloc events now1 now2 w =
     (let (l, m) = w in
      do { (es, m') \<leftarrow> TimerManager_processExpiredTimers alloc now1 now2 m;
           Some (EventLoop_pass events (map (\<lambda>n. Functor n [] False) es) l, m') })"

lemma addTimer_some:
  "\<exists>tid m'. TimerManager_addTimer alloc w cb i m = Some (tid, m')"
  by (simp add: TimerManager_addTimer_def TimerManager_addTimerInLoop_def Let_def)

lemma addTimer_heap:
  assumes "TimerManager_addTimer alloc w cb i m = Some ((a, sq), m')"
  shows "heap m' a = Some (Timer_new cb w i sq)" "numCreated m' = wrap64 (numCreated m + 1)"
  using assms by (auto simp: TimerManager_addTimer_def TimerManager_addTimerInLoop_def Let_def)

lemma batch_mem_effects:
  "a \<in> set as \<Longrightarrow> \<exists>pre post. concat (map f as) = pre @ f a @ post"
  by (metis concat_append concat.simps(2) list.simps(9) map_append split_list)

lemma timed_pass_ran:
  assumes "tm_reach alloc m" "allocates alloc" "loop_reach False l"
    and "numCreated m + 1 + int (batch_adds m (due now1 m)) < 2 ^ 63"
  obtains l' m' where "EventLoop_timed_pass alloc events now1 now2 (l, m) = Some (l', m')"
    "ran l' = ran l @ map fn_name (events @ pass_functors events l) @
        concat (map (\<lambda>a. effects_of (callback_at m a)) (due now1 m))"
    "loop_reach False l'" "tm_reach alloc m'"
    "\<forall>b t. heap m b = Some t \<longrightarrow> b \<notin> set (due now1 m) \<longrightarrow> (b, t_sequence t) \<notin> batch_cancels m (due now1 m) \<longrightarrow>
       heap m' b = Some t"
proof -
  let ?es = "concat (map (\<lambda>a. effects_of (callback_at m a)) (due now1 m))"
  let ?l' = "EventLoop_pass events (map (\<lambda>n. Functor n [] False) ?es) l"
  obtain m' where p: "TimerManager_processExpiredTimers alloc now1 now2 m = Some (?es, m')"
    and k: "\<forall>b t. heap m b = Some t \<longrightarrow> b \<notin> set (due now1 m) \<longrightarrow>
      (b, t_sequence t) \<notin> batch_cancels m (due now1 m) \<longrightarrow> heap m' b = Some t"
    by (rule process_inv[OF tm_reach_inv[OF assms(1,2)] assms(2,4), of now2])
  have "EventLoop_timed_pass alloc events now1 now2 (l, m) = Some (?l', m')"
    by (simp add: EventLoop_timed_pass_def p)
  moreover have "ran ?l' = ran l @ map fn_name (events @ pass_functors events l) @ ?es"
    using EventLoop_pass_eq(1)[OF loop_not_calling[OF assms(3)]] by (simp add: comp_def)
  moreover have "loop_reach False ?l'"
    by (rule lo_pass[OF assms(3)]) (simp add: comp_def)
  moreover have "tm_reach alloc m'" by (rule tm_processed[OF assms(1,4) p])
  ultimately show ?thesis using that k by blast
qed

lemma runAt_reach:
  assumes "tm_reach alloc m" "allocates alloc" "EventLoop_runAt alloc time cb m = Some ((a, sq), m1)"
    and "numCreated m + 1 < 2 ^ 63"
  shows "tm_reach alloc m1" "heap m1 a = Some (Timer_new cb time 0 sq)" "numCreated m1 = numCreated m + 1"
proof -
  have add: "TimerManager_addTimer alloc time cb 0 m = Some ((a, sq), m1)"
    using assms(3) by (simp add: EventLoop_runAt_def)
  show "tm_reach alloc m1" by (rule tm_added[OF assms(1,4) add])
  show "heap m1 a = Some (Timer_new cb time 0 sq)" by (rule addTimer_heap(1)[OF add])
  have "- (2 ^ 63) \<le> numCreated m" using tm_reach_inv[OF assms(1,2)] by (simp add: tm_inv_def)
  then show "numCreated m1 = numCreated m + 1" using addTimer_heap(2)[OF add] assms(4) by simp
qed


lemma first_timer: "EventLoop_runAt bump_alloc 20 [Effect 1] (TimerManager_new False 0) =
    Some ((0, 1), \<lparr>heap = [0 \<mapsto> Timer_new [Effect 1] 20 0 1], timers = [0], activeTimers = {(0, 1)},
      callingExpiredTimers = False, cancelingTimers = {}, numCreated = 1\<rparr>)"
  by (simp add: EventLoop_runAt_def TimerManager_addTimer_def TimerManager_addTimerInLoop_def TimerManager_new_def
    bump_alloc_def wrap64_def Timer_new_def Let_def)


text \<open>\<open>runAfter\<close> and \<open>runEvery\<close> never fire before the delay has passed, on the truncated milliseconds.\<close>

lemma EventLoop_runAfter_time:
  "EventLoop_runAfter fl alloc now delay cb m = Some ((a, sq), m') \<Longrightarrow>
     heap m' a = Some (Timer_new cb (now + delay_ms fl delay) 0 sq)"
  "EventLoop_runEvery fl alloc now delay cb m = Some ((a, sq), m') \<Longrightarrow>
     heap m' a = Some (Timer_new cb (now + delay_ms fl delay) (delay_ms fl delay) sq)"
  by (auto simp: EventLoop_runAfter_def EventLoop_runAt_def EventLoop_runEvery_def dest: addTimer_heap(1))

text \<open>An interval under a millisecond truncates to 0, and the timer does not repeat.\<close>

lemma EventLoop_runEvery_short_runs_once:
  "EventLoop_runEvery (\<lambda>x. x) alloc now (1 / 2000) cb m = Some ((a, sq), m') \<Longrightarrow>
     heap m' a = Some (Timer_new cb now 0 sq) \<and> \<not> repeat (Timer_new cb now 0 sq)"
  by (auto simp: EventLoop_runEvery_def delay_ms_def Timer_new_def dest: addTimer_heap(1))

subsection \<open>The loop's own channel and its thread\<close>

text \<open>
  The constructor watches the wake-up descriptor; the loop of a thread is the first one made in
  it, until any loop of the thread is destroyed.
\<close>

definition EventLoop_construct :: "int \<Rightarrow> poller \<Rightarrow> nat \<times> poller" where
  "EventLoop_construct wakeup_fd p =
     (let c = length (ch_heap p); p = p\<lparr>ch_heap := ch_heap p @ [Channel_new wakeup_fd]\<rparr>
      in (c, Channel_enableReading c p))"

definition EventLoop_destroy :: "nat \<Rightarrow> poller \<Rightarrow> poller option" where
  "EventLoop_destroy c p = Channel_remove c (Channel_disableAll c p)"

definition EventLoop_enter_thread :: "nat \<Rightarrow> nat option \<Rightarrow> nat option" where
  "EventLoop_enter_thread this current = (if current \<noteq> None then current else Some this)"

definition EventLoop_leave_thread :: "nat option \<Rightarrow> nat option" where
  "EventLoop_leave_thread current = None"

definition EventLoop_getEventLoopOfCurrentThread :: "nat option \<Rightarrow> nat option" where
  "EventLoop_getEventLoopOfCurrentThread current = current"

text \<open>
  Removing a channel while events are handled asserts that it is the one being handled or is
  not among the active ones.
\<close>

definition EventLoop_updateChannel :: "nat \<Rightarrow> poller \<Rightarrow> poller" where
  "EventLoop_updateChannel c p = EpollPoller_updateChannel c p"

definition EventLoop_removeChannel :: "bool \<Rightarrow> nat option \<Rightarrow> nat list \<Rightarrow> nat \<Rightarrow> poller \<Rightarrow> poller option" where
  "EventLoop_removeChannel eventHandling current active c p =
     (if eventHandling \<and> \<not> (current = Some c \<or> c \<notin> set active) then None
      else Some (EpollPoller_removeChannel c p))"

definition EventLoop_hasChannel :: "nat \<Rightarrow> poller \<Rightarrow> bool" where
  "EventLoop_hasChannel c p \<longleftrightarrow> EpollPoller_hasChannel c p"

lemma usable_new: "poller_ok p \<Longrightarrow> poll_channels p fd = None \<Longrightarrow>
    usable (p\<lparr>ch_heap := ch_heap p @ [Channel_new fd]\<rparr>) (length (ch_heap p))"
  by (simp add: usable_def chan_def Channel_new_def)

lemma disableAll_usable:
  assumes "poller_ok p" "usable p c"
  shows "usable (Channel_disableAll c p) c" "ch_events (chan (Channel_disableAll c p) c) = kNoneEvent"
proof -
  have c: "c < length (ch_heap p)" using assms(2) by (simp add: usable_def)
  have i: "ch_index (chan p c) \<in> {kNew, kAdded, kDeleted}"
    using assms(1) c by (simp add: poller_ok_def poller_inv_def)
  have "usable (Channel_disableAll c p) c \<and> ch_events (chan (Channel_disableAll c p) c) = kNoneEvent"
    unfolding Channel_disableAll_def using c i
  proof (cases rule: Channel_update_cases[where ev = kNoneEvent])
  qed (use assms(2) c in \<open>auto simp: usable_def\<close>)
  then show "usable (Channel_disableAll c p) c" "ch_events (chan (Channel_disableAll c p) c) = kNoneEvent"
    by blast+
qed

text \<open>
  A loop can always be destroyed: its own channel passes every assertion, and what the kernel
  watches afterwards is what it watched before without the wake-up descriptor.
\<close>

theorem EventLoop_destroy_clean:
  assumes "poller_reach p" "usable p c"
  shows "\<exists>q. EventLoop_destroy c p = Some q \<and> poller_reach q \<and> poll_channels q (ch_fd (chan p c)) = None"
proof -
  have ok: "poller_ok p" by (rule poller_reach_ok[OF assms(1)])
  note u = disableAll_usable[OF ok assms(2)]
  have c: "c < length (ch_heap (Channel_disableAll c p))" using u(1) by (simp add: usable_def)
  let ?p = "Channel_disableAll c p"
  have fd: "ch_fd (chan ?p c) = ch_fd (chan p c)"
    using assms(2) by (simp add: Channel_disableAll_def poller_defs usable_def)
  obtain q where q: "EventLoop_destroy c p = Some q"
    "q = EpollPoller_removeChannel c (set_chan c ((chan ?p c)\<lparr>addedToLoop := False\<rparr>) ?p)"
    using u(2) by (simp add: EventLoop_destroy_def Channel_remove_def Channel_isNoneEvent_def)
  have "poller_reach q"
    by (rule po_remove[OF po_none[OF assms] u(1)]) (use q in \<open>simp add: EventLoop_destroy_def\<close>)
  moreover have "poll_channels q (ch_fd (chan p c)) = None"
    unfolding q(2) removeChannel_eq[OF c] by (simp add: fd)
  ultimately show ?thesis using q(1) by blast
qed

theorem EventLoop_destroy_clean_witness:
  "\<exists>q. EventLoop_destroy 0 (Channel_enableReading 0 one_channel) = Some q \<and> poll_channels q 7 = None"
proof -
  have u: "usable (Channel_enableReading 0 one_channel) 0" "ch_fd (chan (Channel_enableReading 0 one_channel) 0) = 7"
    by (simp_all add: Channel_enableReading_def poller_defs one_channel_def EpollPoller_new_def set_chan_def chan_def
      Channel_new_def index_states usable_def)
  show ?thesis using EventLoop_destroy_clean[OF po_read[OF one_channel_reach] u(1)] u(2) by auto
qed

text \<open>
  The thread's pointer does not survive a second loop: made while the first lives it is not
  recorded, and its destructor clears the pointer to the first.
\<close>

lemma EventLoop_second_loop_clears_first:
  "EventLoop_getEventLoopOfCurrentThread (EventLoop_enter_thread 2 (EventLoop_enter_thread 1 None)) = Some 1"
  "EventLoop_getEventLoopOfCurrentThread (EventLoop_leave_thread (EventLoop_enter_thread 2 (EventLoop_enter_thread 1 None))) = None"
  by (simp_all add: EventLoop_getEventLoopOfCurrentThread_def EventLoop_enter_thread_def EventLoop_leave_thread_def)

end
