(* ===== verification/Sockets.thy ===== *)
theory Sockets
  imports Server
begin

text \<open>
  The system calls of \<^verbatim>\<open>src/common/network/socket.cpp\<close>. The kernel is a record of
  functions on its state \<open>'k\<close>; an answer below zero is an error. Descriptor flags are the
  32-bit pattern of a C integer.
\<close>

unbundle bit_operations_syntax

subsection \<open>The calls\<close>

datatype sock_opt = TCP_NODELAY | SO_REUSEADDR | SO_REUSEPORT | SO_KEEPALIVE

datatype sock_kind = SockStream | SockDgram

record 'k sock_api =
  sys_bind :: "int \<Rightarrow> ipv4 \<Rightarrow> 'k \<Rightarrow> int \<times> 'k"
  sys_listen :: "int \<Rightarrow> int \<Rightarrow> 'k \<Rightarrow> int \<times> 'k"
  sys_accept :: "int \<Rightarrow> 'k \<Rightarrow> int \<times> 'k"
  sys_connect :: "int \<Rightarrow> ipv4 \<Rightarrow> 'k \<Rightarrow> int \<times> 'k"
  sys_shutdown_write :: "int \<Rightarrow> 'k \<Rightarrow> 'k"
  sys_setsockopt :: "int \<Rightarrow> sock_opt \<Rightarrow> int \<Rightarrow> 'k \<Rightarrow> int \<times> 'k"
  sys_get_error :: "int \<Rightarrow> 'k \<Rightarrow> (int + int) \<times> 'k"
  sys_getfl :: "int \<Rightarrow> 'k \<Rightarrow> uint32"
  sys_setfl :: "int \<Rightarrow> uint32 \<Rightarrow> 'k \<Rightarrow> int \<times> 'k"
  sys_socket :: "sock_kind \<Rightarrow> bool \<Rightarrow> 'k \<Rightarrow> int \<times> 'k"

definition O_NONBLOCK :: uint32 where "O_NONBLOCK = 0x800"

definition Socket_bind :: "'k sock_api \<Rightarrow> int \<Rightarrow> ipv4 \<Rightarrow> 'k \<Rightarrow> bool \<times> 'k" where
  "Socket_bind api sockfd addr k = (let (r, k) = sys_bind api sockfd addr k in (r = 0, k))"

definition Socket_listen :: "'k sock_api \<Rightarrow> int \<Rightarrow> int \<Rightarrow> 'k \<Rightarrow> bool \<times> 'k" where
  "Socket_listen api sockfd backlog k = (let (r, k) = sys_listen api sockfd backlog k in (r = 0, k))"

definition Socket_accept :: "'k sock_api \<Rightarrow> int \<Rightarrow> 'k \<Rightarrow> int \<times> 'k" where
  "Socket_accept api sockfd k = sys_accept api sockfd k"

definition Socket_connect :: "'k sock_api \<Rightarrow> int \<Rightarrow> ipv4 \<Rightarrow> 'k \<Rightarrow> bool \<times> 'k" where
  "Socket_connect api sockfd addr k = (let (r, k) = sys_connect api sockfd addr k in (r = 0, k))"

definition Socket_shutdownWrite :: "'k sock_api \<Rightarrow> int \<Rightarrow> 'k \<Rightarrow> 'k" where
  "Socket_shutdownWrite api sockfd k = sys_shutdown_write api sockfd k"

definition Socket_setTcpNoDelay :: "'k sock_api \<Rightarrow> bool \<Rightarrow> int \<Rightarrow> 'k \<Rightarrow> bool \<times> 'k" where
  "Socket_setTcpNoDelay api on sockfd k =
     (let (r, k) = sys_setsockopt api sockfd TCP_NODELAY (if on then 1 else 0) k in (r = 0, k))"

definition Socket_setReuseAddr :: "'k sock_api \<Rightarrow> bool \<Rightarrow> int \<Rightarrow> 'k \<Rightarrow> bool \<times> 'k" where
  "Socket_setReuseAddr api on sockfd k =
     (let (r, k) = sys_setsockopt api sockfd SO_REUSEADDR (if on then 1 else 0) k in (r = 0, k))"

definition Socket_setReusePort :: "'k sock_api \<Rightarrow> bool \<Rightarrow> int \<Rightarrow> 'k \<Rightarrow> bool \<times> 'k" where
  "Socket_setReusePort api on sockfd k =
     (let (r, k) = sys_setsockopt api sockfd SO_REUSEPORT (if on then 1 else 0) k in (r = 0, k))"

definition Socket_setKeepAlive :: "'k sock_api \<Rightarrow> bool \<Rightarrow> int \<Rightarrow> 'k \<Rightarrow> bool \<times> 'k" where
  "Socket_setKeepAlive api on sockfd k =
     (let (r, k) = sys_setsockopt api sockfd SO_KEEPALIVE (if on then 1 else 0) k in (r = 0, k))"

definition Socket_setNonBlocking :: "'k sock_api \<Rightarrow> bool \<Rightarrow> int \<Rightarrow> 'k \<Rightarrow> bool \<times> 'k" where
  "Socket_setNonBlocking api on sockfd k =
     (let flags = sys_getfl api sockfd k in
      if sint flags < 0 then (False, k)
      else (let flags = (if on then flags OR O_NONBLOCK else flags AND NOT O_NONBLOCK);
                (r, k) = sys_setfl api sockfd flags k
            in (0 \<le> r, k)))"

text \<open>The pending error, or \<open>errno\<close> when it cannot be read.\<close>

definition Socket_getSocketError :: "'k sock_api \<Rightarrow> int \<Rightarrow> 'k \<Rightarrow> int \<times> 'k" where
  "Socket_getSocketError api sockfd k =
     (let (r, k) = sys_get_error api sockfd k
      in (case r of Inl errno \<Rightarrow> errno | Inr optval \<Rightarrow> optval, k))"

definition Socket_isNonBlocking :: "'k sock_api \<Rightarrow> int \<Rightarrow> 'k \<Rightarrow> bool" where
  "Socket_isNonBlocking api sockfd k =
     (let flags = sys_getfl api sockfd k in 0 \<le> sint flags \<and> flags AND O_NONBLOCK \<noteq> 0)"

definition Socket_createTcpSocket :: "'k sock_api \<Rightarrow> 'k \<Rightarrow> int \<times> 'k" where
  "Socket_createTcpSocket api k = sys_socket api SockStream False k"

definition Socket_createNonBlockingTcpSocket :: "'k sock_api \<Rightarrow> 'k \<Rightarrow> int \<times> 'k" where
  "Socket_createNonBlockingTcpSocket api k = sys_socket api SockStream True k"

definition Socket_createUdpSocket :: "'k sock_api \<Rightarrow> 'k \<Rightarrow> int \<times> 'k" where
  "Socket_createUdpSocket api k = sys_socket api SockDgram False k"

definition Socket_createNonBlockingUdpSocket :: "'k sock_api \<Rightarrow> 'k \<Rightarrow> int \<times> 'k" where
  "Socket_createNonBlockingUdpSocket api k = sys_socket api SockDgram True k"

subsection \<open>The blocking mode\<close>

text \<open>As \<^verbatim>\<open>fcntl\<close> is documented: the flags that were set are those that are read.\<close>

definition sets_flags :: "'k sock_api \<Rightarrow> bool" where
  "sets_flags api \<longleftrightarrow>
     (\<forall>fd fl k r k'. sys_setfl api fd fl k = (r, k') \<longrightarrow> 0 \<le> r \<longrightarrow> sys_getfl api fd k' = fl)"

lemma bit_O_NONBLOCK: "bit O_NONBLOCK n \<longleftrightarrow> n = 11"
proof -
  have e: "O_NONBLOCK = push_bit 11 1" by (simp add: O_NONBLOCK_def)
  show ?thesis unfolding e bit_push_bit_iff bit_1_iff by auto
qed

lemma AND_O_NONBLOCK: "w AND O_NONBLOCK \<noteq> 0 \<longleftrightarrow> bit w 11"
proof
  assume "bit w 11"
  then have "bit (w AND O_NONBLOCK) 11" by (simp add: bit_and_iff bit_O_NONBLOCK)
  then show "w AND O_NONBLOCK \<noteq> 0" by auto
next
  assume "w AND O_NONBLOCK \<noteq> 0"
  then obtain n where "bit (w AND O_NONBLOCK) n" by (auto simp: bit_eq_iff)
  then show "bit w 11" by (auto simp: bit_and_iff bit_O_NONBLOCK)
qed

lemma sint_neg_bit: "sint (w :: uint32) < 0 \<longleftrightarrow> bit w 31"
  using bit_last_iff[of w] by simp

text \<open>
  Switching the blocking mode changes that flag and no other, and the mode read afterwards is
  the one that was set.
\<close>

theorem Socket_setNonBlocking_exact:
  assumes "sets_flags api" "Socket_setNonBlocking api on fd k = (True, k')"
  shows "Socket_isNonBlocking api fd k' = on \<and>
    (\<forall>n. n \<noteq> 11 \<longrightarrow> bit (sys_getfl api fd k') n = bit (sys_getfl api fd k) n)"
proof -
  let ?f = "sys_getfl api fd k"
  let ?g = "if on then ?f OR O_NONBLOCK else ?f AND NOT O_NONBLOCK"
  have nn: "\<not> bit ?f 31" and set: "sys_setfl api fd ?g k = (fst (sys_setfl api fd ?g k), k')" "0 \<le> fst (sys_setfl api fd ?g k)"
    using assms(2) by (auto simp: Socket_setNonBlocking_def Let_def sint_neg_bit split: if_splits prod.splits)
  have g: "sys_getfl api fd k' = ?g" using assms(1) set unfolding sets_flags_def by blast
  have b: "bit ?g n = (if n = 11 then on else bit ?f n)" if "n < 32" for n
    using that by (simp add: bit_or_iff bit_and_iff bit_not_iff bit_O_NONBLOCK)
  have "bit ?g n = bit ?f n" if "n \<noteq> 11" for n
    using b[of n] that by (cases "n < 32") (auto simp: bit_word.rep_eq dest: bit_imp_le_length)
  moreover have "0 \<le> sint ?g" using b[of 31] nn sint_neg_bit[of ?g] by simp
  ultimately show ?thesis using b[of 11] by (simp add: Socket_isNonBlocking_def g AND_O_NONBLOCK Let_def)
qed

definition flag_api :: "(int \<Rightarrow> uint32) sock_api" where
  "flag_api = \<lparr>sys_bind = (\<lambda>_ _ k. (0, k)), sys_listen = (\<lambda>_ _ k. (0, k)), sys_accept = (\<lambda>_ k. (- 1, k)),
     sys_connect = (\<lambda>_ _ k. (0, k)), sys_shutdown_write = (\<lambda>_ k. k), sys_setsockopt = (\<lambda>_ _ _ k. (0, k)),
     sys_get_error = (\<lambda>_ k. (Inr 0, k)), sys_getfl = (\<lambda>fd k. k fd), sys_setfl = (\<lambda>fd fl k. (0, k(fd := fl))),
     sys_socket = (\<lambda>_ _ k. (3, k))\<rparr>"

theorem Socket_setNonBlocking_exact_witness:
  "Socket_isNonBlocking flag_api 5 ((\<lambda>_. 2)(5 := 0x802))"
proof -
  have "sets_flags flag_api" by (auto simp: sets_flags_def flag_api_def)
  moreover have "Socket_setNonBlocking flag_api True 5 (\<lambda>_. 2) = (True, (\<lambda>_. 2)(5 := 0x802))"
    by (simp add: Socket_setNonBlocking_def flag_api_def O_NONBLOCK_def Let_def)
  ultimately show ?thesis using Socket_setNonBlocking_exact[of flag_api True 5 "\<lambda>_. 2" "(\<lambda>_. 2)(5 := 0x802)"] by simp
qed

end
