(* ===== verification/LuaBind.thy ===== *)
theory LuaBind
  imports Lua
begin

text \<open>
  The remaining parts of \<^verbatim>\<open>src/lua\<close>: iteration over a table and the class registrar of
  \<^verbatim>\<open>lua_wrapper.cpp\<close>, and the function binders of \<^verbatim>\<open>lua_function.h\<close>. The
  interface of the library grows by the functions they use; \<open>lua_iter_ok\<close> states what the
  manual says of them.
\<close>

subsection \<open>Iteration\<close>

record 'l lua_iter_api = "'l lua_api" +
  lua_next :: "int \<Rightarrow> 'l \<Rightarrow> bool \<times> 'l"
  lua_isstring :: "int \<Rightarrow> 'l \<Rightarrow> bool"
  lua_isinteger :: "int \<Rightarrow> 'l \<Rightarrow> bool"
  luaL_newmetatable :: "string \<Rightarrow> 'l \<Rightarrow> 'l"
  lua_pushvalue :: "int \<Rightarrow> 'l \<Rightarrow> 'l"

text \<open>\<open>lua_next\<close> takes the key and puts the next key and its value, or nothing at the end.\<close>

definition lua_iter_ok :: "'l lua_iter_api \<Rightarrow> bool" where
  "lua_iter_ok api \<longleftrightarrow> lua_ok (lua_api.truncate api) \<and>
     (\<forall>i l found l'. lua_next api i l = (found, l') \<longrightarrow>
        lua_gettop api l' = (if found then lua_gettop api l + 1 else lua_gettop api l - 1)) \<and>
     (\<forall>k l. lua_gettop api (luaL_newmetatable api k l) = lua_gettop api l + 1) \<and>
     (\<forall>i l. lua_gettop api (lua_pushvalue api i l) = lua_gettop api l + 1)"

text \<open>
  The key as the callback sees it: a string key or, the test being true of numbers as well, a
  number converted to one.
\<close>

definition foreach_key :: "'l lua_iter_api \<Rightarrow> (int \<Rightarrow> string) \<Rightarrow> 'l \<Rightarrow> (string \<times> 'l) option" where
  "foreach_key api to_text l =
     (if lua_isstring api (- 2) l
      then (case lua_tostring api (- 2) l of (Some s, l) \<Rightarrow> Some (s, l) | (None, _) \<Rightarrow> None)
      else if lua_isinteger api (- 2) l then Some (to_text (lua_tointeger api (- 2) l), l)
      else Some ('''', l))"

text \<open>
  The loop may run for ever on a table that changes under it, so it is a partial function; the
  callback \<open>func\<close> may use the Lua state.
\<close>

partial_function (option) foreach_loop ::
    "'l lua_iter_api \<Rightarrow> (int \<Rightarrow> string) \<Rightarrow> (string \<Rightarrow> lua_value \<Rightarrow> 'l \<Rightarrow> 'l) \<Rightarrow> int \<Rightarrow> 'l \<Rightarrow> 'l option" where
  "foreach_loop api to_text func i l =
     (let (found, l) = lua_next api (i - 1) l in
      if \<not> found then Some l
      else Option.bind (foreach_key api to_text l) (\<lambda>(key, l).
        Option.bind (LuaValue_at (lua_api.truncate api) (- 1) l) (\<lambda>(value, l).
          foreach_loop api to_text func i (lua_pop api 1 (func key value l)))))"

definition LuaTable_foreach ::
    "'l lua_iter_api \<Rightarrow> (int \<Rightarrow> string) \<Rightarrow> (string \<Rightarrow> lua_value \<Rightarrow> 'l \<Rightarrow> 'l) \<Rightarrow> int \<Rightarrow> 'l \<Rightarrow> 'l option" where
  "LuaTable_foreach api to_text func i l =
     foreach_loop api to_text func i (lua_push_value api PushNil l)"

lemma truncate_simps [simp]:
  "lua_gettop (lua_api.truncate api) = lua_gettop api" "lua_pop (lua_api.truncate api) = lua_pop api"
  "lua_push_value (lua_api.truncate api) = lua_push_value api"
  "lua_tostring (lua_api.truncate api) = lua_tostring api"
  "lua_setfield (lua_api.truncate api) = lua_setfield api"
  by (simp_all add: lua_api.defs)

lemma lua_iter_okD:
  assumes "lua_iter_ok api"
  shows "lua_ok (lua_api.truncate api)"
    "lua_next api i l = (found, l') \<Longrightarrow> lua_gettop api l' = (if found then lua_gettop api l + 1 else lua_gettop api l - 1)"
    "lua_gettop api (luaL_newmetatable api k l) = lua_gettop api l + 1"
    "lua_gettop api (lua_pushvalue api i l) = lua_gettop api l + 1"
  using assms unfolding lua_iter_ok_def by blast+

lemma iter_heights:
  assumes "lua_iter_ok api"
  shows "lua_gettop api (lua_pop api n l) = lua_gettop api l - n"
    "lua_gettop api (lua_push_value api v l) = lua_gettop api l + 1"
    "lua_gettop api (lua_setfield api i k l) = lua_gettop api l - 1"
  using lua_ok_height[OF lua_iter_okD(1)[OF assms]] by simp_all

lemma foreach_key_height:
  assumes "lua_iter_ok api" "foreach_key api to_text l = Some (key, l')"
  shows "lua_gettop api l' = lua_gettop api l"
  using assms(2) lua_ok_results(3)[OF lua_iter_okD(1)[OF assms(1)]]
  by (auto simp: foreach_key_def split: if_splits prod.splits option.splits)

lemma foreach_body_height:
  assumes "lua_iter_ok api" "\<And>k v l. lua_gettop api (func k v l) = lua_gettop api l"
    and "foreach_key api to_text l = Some (key, l1)" "LuaValue_at (lua_api.truncate api) (- 1) l1 = Some (value, l2)"
  shows "lua_gettop api (lua_pop api 1 (func key value l2)) = lua_gettop api l - 1"
  using foreach_key_height[OF assms(1,3)] LuaValue_at_height[OF lua_iter_okD(1)[OF assms(1)] assms(4)]
  by (simp add: iter_heights[OF assms(1)] assms(2))

lemma foreach_loop_height_all:
  assumes "foreach_loop api to_text func i l = Some l'"
  shows "lua_iter_ok api \<longrightarrow> (\<forall>k v l. lua_gettop api (func k v l) = lua_gettop api l) \<longrightarrow>
     lua_gettop api l' = lua_gettop api l - 1"
proof (rule foreach_loop.raw_induct[OF _ assms], goal_cases)
  case (1 loop api to_text func i l l')
  show ?case
  proof (intro impI)
    assume ok: "lua_iter_ok api" and f: "\<forall>k v l. lua_gettop api (func k v l) = lua_gettop api l"
    obtain found l0 where n: "lua_next api (i - 1) l = (found, l0)" by fastforce
    show "lua_gettop api l' = lua_gettop api l - 1"
    proof (cases found)
      case False
      then show ?thesis using 1(2) n lua_iter_okD(2)[OF ok n] by simp
    next
      case True
      then obtain key l1 v l2 where k: "foreach_key api to_text l0 = Some (key, l1)"
        and v: "LuaValue_at (lua_api.truncate api) (- 1) l1 = Some (v, l2)"
        and r: "loop api to_text func i (lua_pop api 1 (func key v l2)) = Some l'"
        using 1(2) n by (auto simp: Option.bind_eq_Some_conv)
      have "lua_gettop api (lua_pop api 1 (func key v l2)) = lua_gettop api l0 - 1"
        by (rule foreach_body_height[OF ok _ k v]) (use f in blast)
      then show ?thesis using 1(1)[OF r] ok f lua_iter_okD(2)[OF ok n] True by simp
    qed
  qed
qed

lemma foreach_loop_height:
  "lua_iter_ok api \<Longrightarrow> (\<And>k v l. lua_gettop api (func k v l) = lua_gettop api l) \<Longrightarrow>
     foreach_loop api to_text func i l = Some l' \<Longrightarrow> lua_gettop api l' = lua_gettop api l - 1"
  by (drule foreach_loop_height_all) simp

text \<open>
  A table that iteration goes through: \<open>left\<close> counts the entries to come, every key and value
  can be read as text where text is asked for, and neither reading them nor the callback adds
  entries or disturbs the iteration.
\<close>

definition iterates :: "'l lua_iter_api \<Rightarrow> (string \<Rightarrow> lua_value \<Rightarrow> 'l \<Rightarrow> 'l) \<Rightarrow> ('l \<Rightarrow> nat) \<Rightarrow> bool" where
  "iterates api func left \<longleftrightarrow>
     (\<forall>i l l'. lua_next api i l = (True, l') \<longrightarrow> left l' < left l) \<and>
     (\<forall>n l. left (lua_pop api n l) = left l) \<and>
     (\<forall>i l s l'. lua_tostring api i l = (s, l') \<longrightarrow> s \<noteq> None \<and> left l' = left l) \<and>
     (\<forall>k v l. left (func k v l) = left l)"

lemma iterates_reads:
  assumes "iterates api func left"
  obtains key l1 v l2 where "foreach_key api to_text l = Some (key, l1)"
    "LuaValue_at (lua_api.truncate api) (- 1) l1 = Some (v, l2)" "left l2 = left l"
proof -
  have t: "\<exists>s l'. lua_tostring api i l = (Some s, l') \<and> left l' = left l" for i l
    using assms unfolding iterates_def by (metis not_None_eq old.prod.exhaust)
  obtain key l1 where k: "foreach_key api to_text l = Some (key, l1)" "left l1 = left l"
    using t[of "- 2" l] by (cases "lua_isstring api (- 2) l"; cases "lua_isinteger api (- 2) l")
      (auto simp: foreach_key_def)
  obtain s l' where s: "lua_tostring api (- 1) l1 = (Some s, l')" "left l' = left l1" using t[of "- 1" l1] by blast
  have "\<exists>v l2. LuaValue_at (lua_api.truncate api) (- 1) l1 = Some (v, l2) \<and> left l2 = left l1"
    using s by (simp add: LuaValue_at_def Let_def)
  then show ?thesis using that k by metis
qed

lemma foreach_loop_returns:
  assumes it: "iterates api func left"
  shows "\<exists>l'. foreach_loop api to_text func i l = Some l'"
proof (induction "left l" arbitrary: l rule: less_induct)
  case less
  obtain found l0 where n: "lua_next api (i - 1) l = (found, l0)" by fastforce
  show ?case
  proof (cases found)
    case False
    then show ?thesis using n by (subst foreach_loop.simps) simp
  next
    case True
    obtain key l1 v l2 where k: "foreach_key api to_text l0 = Some (key, l1)"
      "LuaValue_at (lua_api.truncate api) (- 1) l1 = Some (v, l2)" "left l2 = left l0"
      by (rule iterates_reads[OF it])
    have "left l0 < left l" using it n True unfolding iterates_def by simp
    moreover have "left (lua_pop api 1 (func key v l2)) = left l2" using it unfolding iterates_def by simp
    ultimately have "left (lua_pop api 1 (func key v l2)) < left l" using k(3) by simp
    then obtain l' where "foreach_loop api to_text func i (lua_pop api 1 (func key v l2)) = Some l'"
      using less.hyps by blast
    then show ?thesis using n True k by (subst foreach_loop.simps) simp
  qed
qed


text \<open>A machine with a height and a number of entries to come.\<close>

definition entries_api :: "(nat \<times> nat) lua_iter_api" where
  "entries_api =
     \<lparr>lua_gettop = fst, lua_settop = (\<lambda>n (h, r). (n, r)), lua_push_value = (\<lambda>_ (h, r). (h + 1, r)),
      lua_pop = (\<lambda>n (h, r). (h - n, r)), lua_getglobal = (\<lambda>_ (h, r). (h + 1, r)),
      lua_setglobal = (\<lambda>_ (h, r). (h - 1, r)), lua_getfield = (\<lambda>_ _ (h, r). (h + 1, r)),
      lua_setfield = (\<lambda>_ _ (h, r). (h - 1, r)), lua_gettable = (\<lambda>_ l. l), lua_settable = (\<lambda>_ (h, r). (h - 2, r)),
      lua_rawgeti = (\<lambda>_ _ (h, r). (h + 1, r)), lua_rawlen = (\<lambda>_ _. 0),
      lua_pcall = (\<lambda>n k (h, r). (True, (h - (n + 1) + nat k, r))), luaL_loadfile = (\<lambda>_ (h, r). (True, (h + 1, r))),
      luaL_loadstring = (\<lambda>_ (h, r). (True, (h + 1, r))), lua_tostring = (\<lambda>_ l. (Some ''k'', l)),
      lua_tointeger = (\<lambda>_ _. 0), lua_tonumber = (\<lambda>_ _. 0), lua_toboolean = (\<lambda>_ _. False), lua_type = (\<lambda>_ _. 4),
      lua_isfunction = (\<lambda>_ _. False),
      lua_next = (\<lambda>_ (h, r). if r = 0 then (False, (h - 1, 0)) else (True, (h + 1, r - 1))),
      lua_isstring = (\<lambda>_ _. True), lua_isinteger = (\<lambda>_ _. False),
      luaL_newmetatable = (\<lambda>_ (h, r). (h + 1, r)), lua_pushvalue = (\<lambda>_ (h, r). (h + 1, r))\<rparr>"

lemma entries_api_ok: "lua_iter_ok entries_api" "iterates entries_api (\<lambda>_ _ l. l) snd"
  by (auto simp: lua_iter_ok_def lua_ok_def iterates_def entries_api_def lua_api.defs LUA_MULTRET_def Let_def
    split: if_splits)


subsection \<open>\<^verbatim>\<open>LuaClassRegistrar\<close>\<close>

definition LuaClassRegistrar_new :: "'l lua_iter_api \<Rightarrow> string \<Rightarrow> 'l \<Rightarrow> 'l" where
  "LuaClassRegistrar_new api className l =
     lua_setfield api (- 2) ''__index'' (lua_pushvalue api (- 1) (luaL_newmetatable api className l))"

definition LuaClassRegistrar_destroy :: "'l lua_iter_api \<Rightarrow> 'l \<Rightarrow> 'l" where
  "LuaClassRegistrar_destroy api l = lua_pop api 1 l"

lemma LuaClassRegistrar_balanced:
  assumes "lua_iter_ok api"
  shows "lua_gettop api (LuaClassRegistrar_destroy api (LuaClassRegistrar_new api className l)) = lua_gettop api l"
  by (simp add: LuaClassRegistrar_destroy_def LuaClassRegistrar_new_def iter_heights[OF assms] lua_iter_okD[OF assms])

subsection \<open>Function binders\<close>

text \<open>How an argument of a C++ function is read from the stack; reading a string may convert the slot.\<close>

definition getValue_int :: "'l lua_api \<Rightarrow> 'l \<Rightarrow> int \<Rightarrow> int \<times> 'l" where
  "getValue_int api l i = (cast_int (lua_tointeger api i l), l)"

definition getValue_double :: "'l lua_api \<Rightarrow> 'l \<Rightarrow> int \<Rightarrow> uint64 \<times> 'l" where
  "getValue_double api l i = (lua_tonumber api i l, l)"

definition getValue_String :: "'l lua_api \<Rightarrow> 'l \<Rightarrow> int \<Rightarrow> string \<times> 'l" where
  "getValue_String api l i = (let (s, l) = lua_tostring api i l in (string_or_empty s, l))"

definition getValue_bool :: "'l lua_api \<Rightarrow> 'l \<Rightarrow> int \<Rightarrow> bool \<times> 'l" where
  "getValue_bool api l i = (lua_toboolean api i l, l)"

text \<open>A binder calls the function on the arguments and pushes its result, with its type's \<open>push\<close>.\<close>

definition LuaFunctionBinder_call0 :: "'l lua_api \<Rightarrow> ('r \<Rightarrow> lua_push) \<Rightarrow> (unit \<Rightarrow> 'r) \<Rightarrow> 'l \<Rightarrow> int \<times> 'l" where
  "LuaFunctionBinder_call0 api push func l = (1, lua_push_value api (push (func ())) l)"

definition LuaFunctionBinder_call1 ::
    "'l lua_api \<Rightarrow> ('l \<Rightarrow> int \<Rightarrow> 'a \<times> 'l) \<Rightarrow> ('r \<Rightarrow> lua_push) \<Rightarrow> ('a \<Rightarrow> 'r) \<Rightarrow> 'l \<Rightarrow> int \<times> 'l" where
  "LuaFunctionBinder_call1 api get1 push func l =
     (let (a1, l) = get1 l 1 in (1, lua_push_value api (push (func a1)) l))"

definition LuaFunctionBinder_call2 ::
    "'l lua_api \<Rightarrow> ('l \<Rightarrow> int \<Rightarrow> 'a \<times> 'l) \<Rightarrow> ('l \<Rightarrow> int \<Rightarrow> 'b \<times> 'l) \<Rightarrow> ('r \<Rightarrow> lua_push) \<Rightarrow>
     ('a \<Rightarrow> 'b \<Rightarrow> 'r) \<Rightarrow> 'l \<Rightarrow> int \<times> 'l" where
  "LuaFunctionBinder_call2 api get1 get2 push func l =
     (let (a1, l) = get1 l 1; (a2, l) = get2 l 2 in (1, lua_push_value api (push (func a1 a2)) l))"

definition LuaFunctionBinder_call3 ::
    "'l lua_api \<Rightarrow> ('l \<Rightarrow> int \<Rightarrow> 'a \<times> 'l) \<Rightarrow> ('l \<Rightarrow> int \<Rightarrow> 'b \<times> 'l) \<Rightarrow> ('l \<Rightarrow> int \<Rightarrow> 'c \<times> 'l) \<Rightarrow>
     ('r \<Rightarrow> lua_push) \<Rightarrow> ('a \<Rightarrow> 'b \<Rightarrow> 'c \<Rightarrow> 'r) \<Rightarrow> 'l \<Rightarrow> int \<times> 'l" where
  "LuaFunctionBinder_call3 api get1 get2 get3 push func l =
     (let (a1, l) = get1 l 1; (a2, l) = get2 l 2; (a3, l) = get3 l 3
      in (1, lua_push_value api (push (func a1 a2 a3)) l))"

text \<open>
  The contract with the library: the number a binder answers is the number of values it has put
  on the stack.
\<close>

definition reads_only :: "'l lua_api \<Rightarrow> ('l \<Rightarrow> int \<Rightarrow> 'a \<times> 'l) \<Rightarrow> bool" where
  "reads_only api get \<longleftrightarrow> (\<forall>l i. lua_gettop api (snd (get l i)) = lua_gettop api l)"

lemma getValue_reads_only:
  assumes "lua_ok api"
  shows "reads_only api (getValue_int api)" "reads_only api (getValue_double api)"
    "reads_only api (getValue_String api)" "reads_only api (getValue_bool api)"
  using lua_ok_results(3)[OF assms]
  by (auto simp: reads_only_def getValue_int_def getValue_double_def getValue_String_def getValue_bool_def
    split: prod.splits)

lemma LuaFunctionBinder_pushes_what_it_answers:
  assumes "lua_ok api" "reads_only api get1" "reads_only api get2" "reads_only api get3"
  shows "fst (LuaFunctionBinder_call3 api get1 get2 get3 push f l) =
      int (lua_gettop api (snd (LuaFunctionBinder_call3 api get1 get2 get3 push f l))) - int (lua_gettop api l)"
    and "fst (LuaFunctionBinder_call2 api get1 get2 push g l) =
      int (lua_gettop api (snd (LuaFunctionBinder_call2 api get1 get2 push g l))) - int (lua_gettop api l)"
    and "fst (LuaFunctionBinder_call1 api get1 push h l) =
      int (lua_gettop api (snd (LuaFunctionBinder_call1 api get1 push h l))) - int (lua_gettop api l)"
    and "fst (LuaFunctionBinder_call0 api push k l) =
      int (lua_gettop api (snd (LuaFunctionBinder_call0 api push k l))) - int (lua_gettop api l)"
  using assms(2-4)
  by (simp_all add: LuaFunctionBinder_call3_def LuaFunctionBinder_call2_def LuaFunctionBinder_call1_def
    LuaFunctionBinder_call0_def reads_only_def lua_ok_height[OF assms(1)] case_prod_unfold Let_def)

end
