(* ===== verification/Lifecycle.thy ===== *)
theory Lifecycle
  imports Gateway Threads Reactor Redis MySQL
begin

text \<open>
  The life of the process: \<^verbatim>\<open>main.cpp\<close> with what it prints and the signal that ends it,
  and the destructors of the objects that own others. What \<^verbatim>\<open>main\<close> runs between start and
  stop is the event loop, given what each of its waits reports.
\<close>

subsection \<open>What is printed\<close>

definition printHelp :: "string \<Rightarrow> string list" where
  "printHelp progName =
     [''Usage: '' @ progName @ '' [options]'', ''Options:'', ''  -c <config>   Configuration file path'',
      ''  -h            Show this help message'', ''  -v            Show version'', '''']"

definition printVersion :: "string list" where
  "printVersion = [''LegendServer v1.0.0'', ''A high-performance MMORPG game server'']"

definition main_banner :: "string list" where
  "main_banner =
     [''================================'', ''    LegendServer v1.0.0         '',
      ''    High-performance MMORPG     '', ''================================'', '''']"

subsection \<open>The signal\<close>

text \<open>The handler of both signals, on the thread of the loop; \<open>None\<close> is no loop yet.\<close>

definition signalHandler :: "int \<Rightarrow> event_loop option \<Rightarrow> string list \<times> event_loop option" where
  "signalHandler sig g_eventLoop =
     ([''Received signal '' @ int_to_string sig @ '', shutting down...''],
      case g_eventLoop of None \<Rightarrow> None | Some l \<Rightarrow> Some (EventLoop_quit True l))"

subsection \<open>\<^verbatim>\<open>main\<close>\<close>

record main_result =
  exit_code :: int
  std_out :: "string list"
  std_err :: "string list"
  main_server :: "server option"
  main_loop :: "event_loop option"

text \<open>
  \<open>reports\<close> is what the loop's waits report until the process is told to stop. The server is
  as its destructor leaves it.
\<close>

definition main_serve ::
    "(string \<Rightarrow> uint32 option) \<Rightarrow> listen_answers \<Rightarrow> listen_answers \<Rightarrow>
     (loop_functor list \<times> loop_functor list) list \<Rightarrow> server_config \<Rightarrow> string list \<Rightarrow> main_result" where
  "main_serve pton gw gm reports cfg out =
     (let (ok, s) = Server_init (Server_new cfg)
      in if \<not> ok
         then \<lparr>exit_code = 1, std_out = out, std_err = [''Failed to initialize server''],
                main_server = Some (Server_stop s), main_loop = None\<rparr>
         else (let (ok, s) = Server_start pton gw gm s
               in if \<not> ok
                  then \<lparr>exit_code = 1, std_out = out, std_err = [''Failed to start server''],
                         main_server = Some (Server_stop s), main_loop = None\<rparr>
                  else (let out = out @ [''Server started successfully!'',
                              ''Gateway listening on port: '' @ nat_to_string (unat (gatewayPort cfg)),
                              ''Game server listening on port: '' @ nat_to_string (unat (gamePort cfg))];
                            l = EventLoop_loop reports EventLoop_new
                        in \<lparr>exit_code = 0, std_out = out @ [''Server stopped.''], std_err = [],
                             main_server = Some (Server_stop (Server_stop s)), main_loop = l\<rparr>)))"

definition main_program ::
    "'y yaml \<Rightarrow> (string \<Rightarrow> uint32 option) \<Rightarrow> listen_answers \<Rightarrow> listen_answers \<Rightarrow>
     (loop_functor list \<times> loop_functor list) list \<Rightarrow> string \<Rightarrow> string list \<Rightarrow> main_result" where
  "main_program y pton gw gm reports progName args =
     (case main_args args main_default_config of
        PrintHelp \<Rightarrow> \<lparr>exit_code = 0, std_out = printHelp progName, std_err = [], main_server = None, main_loop = None\<rparr>
      | PrintVersion \<Rightarrow> \<lparr>exit_code = 0, std_out = printVersion, std_err = [], main_server = None, main_loop = None\<rparr>
      | RunServer configFile \<Rightarrow>
          (let (ok, cfg) = ServerConfig_load y configFile ServerConfig_default
           in if \<not> ok
              then \<lparr>exit_code = 1, std_out = main_banner,
                     std_err = [''Failed to load config file: '' @ configFile], main_server = None, main_loop = None\<rparr>
              else main_serve pton gw gm reports cfg (main_banner @ [''Config loaded from: '' @ configFile])))"

text \<open>The program as a whole does what its parts do: exit code and server are those of \<open>main_run\<close>.\<close>

lemma main_serve_run:
  assumes "ServerConfig_load y f ServerConfig_default = (True, cfg)"
  shows "(exit_code (main_serve pton gw gm reports cfg out), main_server (main_serve pton gw gm reports cfg out)) =
    main_run y pton gw gm f"
  using assms by (auto simp: main_serve_def main_run_def Server_init_def Let_def split: prod.splits)

lemma main_serve_ok:
  "(exit_code (main_serve pton gw gm reports cfg out) = 0) =
     fst (Server_start pton gw gm (snd (Server_init (Server_new cfg))))"
  "(std_err (main_serve pton gw gm reports cfg out) = []) =
     (exit_code (main_serve pton gw gm reports cfg out) = 0)"
  "exit_code (main_serve pton gw gm reports cfg out) \<in> {0, 1}"
  "\<exists>s. main_server (main_serve pton gw gm reports cfg out) = Some s"
  by (auto simp: main_serve_def Server_init_def Let_def split: prod.splits)

text \<open>
  The program ends with code 0 exactly when it only had to print, or the configuration could
  be loaded and both sockets listen; with any other code it has said why on the error stream; and
  on every path each descriptor it got has been closed, once.
\<close>
theorem main_exit_code:
  shows "(exit_code (main_program y pton gw gm reports prog args) = 0 \<longleftrightarrow>
      (\<forall>f. main_args args main_default_config = RunServer f \<longrightarrow>
        (\<exists>cfg. ServerConfig_load y f ServerConfig_default = (True, cfg) \<and>
          fst (Server_start pton gw gm (snd (Server_init (Server_new cfg))))))) \<and>
    (exit_code (main_program y pton gw gm reports prog args) = 0 \<longleftrightarrow>
      std_err (main_program y pton gw gm reports prog args) = []) \<and>
    (\<forall>s. main_server (main_program y pton gw gm reports prog args) = Some s \<longrightarrow>
      mset (got_fds s) = mset (closed_fds s))"
proof (cases "main_args args main_default_config")
  case (RunServer f)
  obtain ok cfg where l: "ServerConfig_load y f ServerConfig_default = (ok, cfg)" by fastforce
  show ?thesis
  proof (cases ok)
    case True
    let ?out = "main_banner @ [''Config loaded from: '' @ f]"
    have p: "main_program y pton gw gm reports prog args = main_serve pton gw gm reports cfg ?out"
      using RunServer l True by (simp add: main_program_def)
    have "mset (got_fds s) = mset (closed_fds s)"
      if "main_server (main_serve pton gw gm reports cfg ?out) = Some s" for s
    proof -
      have "ServerConfig_load y f ServerConfig_default = (True, cfg)" using l True by simp
      from main_serve_run[OF this, of pton gw gm reports ?out]
      have "main_run y pton gw gm f = (exit_code (main_serve pton gw gm reports cfg ?out), Some s)"
        using that by simp
      then show ?thesis by (rule main_returns_everything)
    qed
    then show ?thesis
      unfolding p main_serve_ok(1,2)[of pton gw gm reports cfg ?out] by (simp add: RunServer l True)
  qed (simp add: main_program_def RunServer l)
qed (simp_all add: main_program_def)

theorem main_exit_code_witness:
  "\<forall>y pton gw gm. exit_code (main_program y pton gw gm [] ''server'' [''-v'']) = 0"
proof (intro allI)
  fix y :: "'y yaml" and pton gw gm
  show "exit_code (main_program y pton gw gm [] ''server'' [''-v'']) = 0"
    using main_exit_code[of y pton gw gm "[]" "''server''" "[''-v'']"] by simp
qed

lemma signal_ends_loop:
  "snd (signalHandler sig (Some l)) = Some l' \<Longrightarrow> EventLoop_passes reports l' = l'"
  by (cases reports) (auto simp: signalHandler_def EventLoop_quit_def)

subsection \<open>Destructors\<close>

definition Server_destroy :: "server \<Rightarrow> server" where
  "Server_destroy s = Server_stop s"

definition GameServer_destroy :: "game_server \<Rightarrow> game_server" where
  "GameServer_destroy g = GameServer_stop g"

definition GatewayServer_destroy :: "bool \<Rightarrow> gateway \<Rightarrow> gateway option" where
  "GatewayServer_destroy ndebug g = GatewayServer_stop ndebug g"

definition MySQLConnectionPool_destroy :: "conn_pool \<Rightarrow> conn_pool" where
  "MySQLConnectionPool_destroy p = MySQLConnectionPool_close p"

definition RedisPool_destroy :: "conn_pool \<Rightarrow> conn_pool" where
  "RedisPool_destroy p = RedisPool_close p"

definition RedisClient_destroy :: "redis_client \<Rightarrow> redis_client" where
  "RedisClient_destroy c = RedisClient_disconnect c"

definition MySQLConnection_destroy :: "mysql_connection \<Rightarrow> mysql_connection" where
  "MySQLConnection_destroy c = MySQLConnection_disconnect c"

text \<open>Up to the joins of the workers.\<close>

definition ThreadPool_destroy :: "'a thread_pool \<Rightarrow> 'a thread_pool" where
  "ThreadPool_destroy p = (if tp_started p then ThreadPool_stop_request p else p)"

definition FixedThreadPool_destroy :: "'a fixed_pool \<Rightarrow> 'a fixed_pool" where
  "FixedThreadPool_destroy p = (if fx_started p then FixedThreadPool_stop_request p else p)"

lemma release_conn_running: "release_conn ndebug p g = Some g' \<Longrightarrow> gw_running g' = gw_running g"
  by (auto simp: release_conn_def put_conn_def Let_def split: if_splits Option.bind_split_asm)

lemma release_all_running: "release_all ndebug ps g = Some g' \<Longrightarrow> gw_running g' = gw_running g"
  by (induction ps arbitrary: g) (auto split: Option.bind_split_asm dest: release_conn_running)

lemma force_close_running:
  "gw_running (fold (\<lambda>p g. put_conn p (Connection_forceClose (conn_heap g ! p)) g) ps g) = gw_running g"
  by (induction ps arbitrary: g) (simp_all add: put_conn_def)

lemma GatewayServer_stop_running: "GatewayServer_stop ndebug g = Some g' \<Longrightarrow> \<not> gw_running g'"
  by (auto simp: GatewayServer_stop_def force_close_running Let_def split: if_splits Option.bind_split_asm
    dest!: release_all_running)

lemma Server_stop_running: "\<not> srv_running (Server_stop s)"
  by (simp add: Server_stop_def close_fd_def Let_def)

lemma pool_close_again:
  "MySQLConnectionPool_close (MySQLConnectionPool_close p) = MySQLConnectionPool_close p"
  "RedisPool_close (RedisPool_close p) = RedisPool_close p"
  by (simp_all add: MySQLConnectionPool_close_def RedisPool_close_def Condition_notifyAll_def)

lemma stop_again:
  "Server_stop (Server_stop s) = Server_stop s"
  "GameServer_stop (GameServer_stop g) = GameServer_stop g"
  "GatewayServer_stop ndebug w = Some w' \<Longrightarrow> GatewayServer_stop ndebug w' = Some w'"
proof -
  show "Server_stop (Server_stop s) = Server_stop s"
    using Server_stop_running[of s] by (subst Server_stop_def) simp
  show "GameServer_stop (GameServer_stop g) = GameServer_stop g"
    by (simp add: GameServer_stop_def option.map_comp comp_def pool_close_again)
  show "GatewayServer_stop ndebug w = Some w' \<Longrightarrow> GatewayServer_stop ndebug w' = Some w'"
    by (drule GatewayServer_stop_running) (simp add: GatewayServer_stop_def)
qed

text \<open>
  Every one of them may run after the owner has stopped the object itself, as it does in
  \<^verbatim>\<open>main\<close>: what has been released is not released again.
\<close>

lemma destroy_after_stop_does_nothing:
  "Server_destroy (Server_stop s) = Server_stop s \<and>
   GameServer_destroy (GameServer_stop g) = GameServer_stop g \<and>
   (GatewayServer_stop ndebug w = Some w' \<longrightarrow> GatewayServer_destroy ndebug w' = Some w') \<and>
   MySQLConnectionPool_destroy (MySQLConnectionPool_close p) = MySQLConnectionPool_close p \<and>
   RedisPool_destroy (RedisPool_close q) = RedisPool_close q \<and>
   RedisClient_destroy (RedisClient_disconnect c) = RedisClient_disconnect c \<and>
   MySQLConnection_destroy (MySQLConnection_disconnect d) = MySQLConnection_disconnect d \<and>
   ThreadPool_destroy (ThreadPool_stop_request t) = ThreadPool_stop_request t \<and>
   FixedThreadPool_destroy (FixedThreadPool_stop_request f) = FixedThreadPool_stop_request f"
  by (simp add: Server_destroy_def GameServer_destroy_def GatewayServer_destroy_def MySQLConnectionPool_destroy_def
    RedisPool_destroy_def RedisClient_destroy_def MySQLConnection_destroy_def ThreadPool_destroy_def
    FixedThreadPool_destroy_def stop_again pool_close_again)
    (simp add: RedisClient_disconnect_def MySQLConnection_disconnect_def ThreadPool_stop_request_def
    FixedThreadPool_stop_request_def)

end
