(* ===== verification/Progress.thy ===== *)
theory Progress
  imports ThreadPools Threads
begin

text \<open>
  That the workers of both thread pools get their work done: what a scheduler does to the worker
  threads is a sequence of their steps, and the lemmas hold for every such sequence. While the
  pool runs, the steps end, and when no worker can move every task it accepted has run. After the
  request to stop they end with all workers gone, so \<open>stop\<close> returns from its joins.
\<close>

subsection \<open>Steps that end\<close>

inductive worker_run :: "(nat \<Rightarrow> 's \<Rightarrow> 's option) \<Rightarrow> 's \<Rightarrow> nat \<Rightarrow> 's \<Rightarrow> bool" for move s where
  run_zero: "worker_run move s 0 s"
| run_suc: "worker_run move s n t \<Longrightarrow> move i t = Some u \<Longrightarrow> worker_run move s (Suc n) u"

locale draining =
  fixes move :: "nat \<Rightarrow> 's \<Rightarrow> 's option" and ok :: "'s \<Rightarrow> bool" and work :: "'s \<Rightarrow> nat" and finished :: "'s \<Rightarrow> bool"
  assumes move_ok: "ok s \<Longrightarrow> move i s = Some t \<Longrightarrow> ok t \<and> work t < work s"
    and stuck_finished: "ok s \<Longrightarrow> \<forall>i. move i s = None \<Longrightarrow> finished s"
begin

lemma run_ok: "worker_run move s n t \<Longrightarrow> ok s \<Longrightarrow> ok t \<and> work t + n \<le> work s"
proof (induction rule: worker_run.induct)
  case (run_suc n t i u)
  then show ?case using move_ok[of t i u] by auto
qed simp

lemma run_bounded: "worker_run move s n t \<Longrightarrow> ok s \<Longrightarrow> n \<le> work s"
  using run_ok by fastforce

lemma run_ends: "worker_run move s n t \<Longrightarrow> ok s \<Longrightarrow> \<forall>i. move i t = None \<Longrightarrow> ok t \<and> finished t"
  using run_ok stuck_finished by blast

lemma run_extend: "worker_run move s n t \<Longrightarrow> ok s \<Longrightarrow> \<exists>m u. worker_run move s m u \<and> (\<forall>i. move i u = None)"
proof (induction "work t" arbitrary: n t rule: less_induct)
  case less
  show ?case
  proof (cases "\<forall>i. move i t = None")
    case False
    then obtain i u where u: "move i t = Some u" by auto
    have "work u < work t" using move_ok[OF conjunct1[OF run_ok[OF less.prems]] u] by simp
    from less.hyps[OF this run_suc[OF less.prems(1) u] less.prems(2)] show ?thesis .
  qed (use less.prems in blast)
qed

lemma run_exists: "ok s \<Longrightarrow> \<exists>m u. worker_run move s m u \<and> (\<forall>i. move i u = None)"
  by (rule run_extend[OF run_zero])

end

subsection \<open>What a step of a worker does\<close>

text \<open>
  Both pools as the places of their workers, the queue and the flag; in between a worker
  only comes nearer to its loop head.
\<close>

fun rank :: "bool \<Rightarrow> 'a worker \<Rightarrow> nat" where
  "rank s (Popped t) = 9" | "rank s (Counted t) = 8" | "rank s (Busy t) = 7" | "rank s Done = 6"
| "rank s Uncounted = 5" | "rank s AtLoop = 3" | "rank s Asleep = (if s then 4 else 0)" | "rank s Exited = 0"

inductive core_step :: "'a worker list \<Rightarrow> 'a monitor_queue \<Rightarrow> bool \<Rightarrow> 'a worker list \<Rightarrow> 'a monitor_queue \<Rightarrow> bool"
  for ws q st where
  core_pop: "i < length ws \<Longrightarrow> ws ! i = AtLoop \<Longrightarrow> st \<Longrightarrow> TaskQueue_pop q = (res, q') \<Longrightarrow>
    core_step ws q st (ws[i := after_pop res]) q'"
| core_resume: "i < length ws \<Longrightarrow> ws ! i = Asleep \<Longrightarrow> 0 < woken (notEmpty q) \<Longrightarrow>
    TaskQueue_pop (q\<lparr>notEmpty := Condition_resume (notEmpty q)\<rparr>) = (res, q') \<Longrightarrow>
    core_step ws q st (ws[i := after_pop res]) q'"
| core_leave: "i < length ws \<Longrightarrow> ws ! i = AtLoop \<Longrightarrow> \<not> st \<Longrightarrow> core_step ws q st (ws[i := Exited]) q"
| core_busy: "i < length ws \<Longrightarrow> ws ! i \<noteq> Asleep \<Longrightarrow> w \<noteq> Asleep \<Longrightarrow> w \<noteq> Exited \<Longrightarrow>
    \<forall>s. rank s w < rank s (ws ! i) \<Longrightarrow> core_step ws q st (ws[i := w]) q"

definition asleep_ok :: "'a worker list \<Rightarrow> 'a monitor_queue \<Rightarrow> bool" where
  "asleep_ok ws q \<longleftrightarrow> count_if (\<lambda>w. w = Asleep) ws = sleepers (notEmpty q) + woken (notEmpty q) \<and>
     (0 < sleepers (notEmpty q) \<longrightarrow> \<not> q_stopped q \<and> length (q_items q) \<le> woken (notEmpty q))"

definition running :: "'a worker list \<Rightarrow> 'a monitor_queue \<Rightarrow> bool \<Rightarrow> bool" where
  "running ws q st \<longleftrightarrow> asleep_ok ws q \<and> \<not> q_stopped q \<and> st \<and> Exited \<notin> set ws \<and> ws \<noteq> []"

definition stopping :: "'a worker list \<Rightarrow> 'a monitor_queue \<Rightarrow> bool \<Rightarrow> bool" where
  "stopping ws q st \<longleftrightarrow> asleep_ok ws q \<and> q_stopped q \<and> \<not> st"

definition work_left :: "'a worker list \<Rightarrow> 'a monitor_queue \<Rightarrow> nat" where
  "work_left ws q = 10 * length (q_items q) + sum_list (map (rank (q_stopped q)) ws) + woken (notEmpty q)"

lemma sum_rank_update:
  assumes "i < length ws"
  shows "sum_list (map f (ws[i := w])) + f (ws ! i) = sum_list (map f ws) + (f w :: nat)"
proof -
  have "sum_list (map f ws) = sum_list (map f (take i ws)) + f (ws ! i) + sum_list (map f (drop (Suc i) ws))"
    by (subst (1) update_split(2)[OF assms]) simp
  then show ?thesis by (simp add: update_split(1)[OF assms])
qed

lemma count_asleep_update:
  assumes "i < length ws"
  shows "count_if (\<lambda>w. w = Asleep) (ws[i := w]) + of_bool (ws ! i = Asleep) =
    count_if (\<lambda>w. w = Asleep) ws + of_bool (w = Asleep)"
  by (rule count_if_update[OF assms])

lemma core_step_stopped: "core_step ws q st ws' q' \<Longrightarrow> q_stopped q' = q_stopped q"
  by (induction rule: core_step.induct) (auto simp: TaskQueue_pop_def split: if_splits)

lemma core_step_items: "core_step ws q st ws' q' \<Longrightarrow> q_stopped q \<Longrightarrow> q_items q' = q_items q"
  by (induction rule: core_step.induct) (auto simp: TaskQueue_pop_def split: if_splits)

lemma core_step_asleep: "core_step ws q st ws' q' \<Longrightarrow> asleep_ok ws q \<Longrightarrow> asleep_ok ws' q'"
proof (induction rule: core_step.induct)
  case (core_pop i res q')
  then show ?case using count_asleep_update[OF core_pop.hyps(1), of "after_pop res"]
    by (auto simp: asleep_ok_def TaskQueue_pop_def after_pop_def Condition_wait_def split: if_splits)
next
  case (core_resume i res q')
  then show ?case using count_asleep_update[OF core_resume.hyps(1), of "after_pop res"]
    by (auto simp: asleep_ok_def TaskQueue_pop_def after_pop_def Condition_wait_def Condition_resume_def split: if_splits)
next
  case (core_leave i)
  then show ?case using count_asleep_update[OF core_leave.hyps(1), of Exited] by (simp add: asleep_ok_def)
next
  case (core_busy i w)
  then show ?case using count_asleep_update[OF core_busy.hyps(1), of w] by (simp add: asleep_ok_def)
qed

lemma core_step_work:
  assumes "core_step ws q st ws' q'" "q_stopped q \<longrightarrow> \<not> st"
  shows "work_left ws' q' < work_left ws q"
  using assms
proof (induction rule: core_step.induct)
  case (core_pop i res q')
  then show ?case using sum_rank_update[OF core_pop.hyps(1), of "rank False" "after_pop res"]
    by (cases "q_items q") (auto simp: work_left_def TaskQueue_pop_def after_pop_def Condition_wait_def split: if_splits)
next
  case (core_resume i res q')
  then show ?case using sum_rank_update[OF core_resume.hyps(1), of "rank (q_stopped q)" "after_pop res"]
    by (cases "q_items q")
      (auto simp: work_left_def TaskQueue_pop_def after_pop_def Condition_wait_def Condition_resume_def split: if_splits)
next
  case (core_leave i)
  then show ?case using sum_rank_update[OF core_leave.hyps(1), of "rank (q_stopped q)" Exited]
    by (simp add: work_left_def)
next
  case (core_busy i w)
  then show ?case using sum_rank_update[OF core_busy.hyps(1), of "rank (q_stopped q)" w]
    by (simp add: work_left_def) (metis add_less_cancel_left add.commute)
qed

lemma core_step_exited: "core_step ws q st ws' q' \<Longrightarrow> st \<Longrightarrow> Exited \<notin> set ws \<Longrightarrow> Exited \<notin> set ws'"
  by (induction rule: core_step.induct)
    (auto simp: after_pop_def dest!: set_update split: pop_outcome.splits option.splits)

lemma core_step_length: "core_step ws q st ws' q' \<Longrightarrow> length ws' = length ws"
  by (induction rule: core_step.induct) simp_all

lemma core_step_running:
  "core_step ws q st ws' q' \<Longrightarrow> running ws q st \<Longrightarrow> running ws' q' st \<and> work_left ws' q' < work_left ws q"
  using core_step_asleep[of ws q st ws' q'] core_step_stopped[of ws q st ws' q'] core_step_work[of ws q st ws' q']
    core_step_exited[of ws q st ws' q'] core_step_length[of ws q st ws' q']
  by (auto simp: running_def)

lemma core_step_stopping:
  "core_step ws q st ws' q' \<Longrightarrow> stopping ws q st \<Longrightarrow> stopping ws' q' st \<and> work_left ws' q' < work_left ws q"
  using core_step_asleep[of ws q st ws' q'] core_step_stopped[of ws q st ws' q'] core_step_work[of ws q st ws' q']
  by (simp add: stopping_def)

text \<open>Nobody can move: everybody is gone, or asleep with nobody released.\<close>

lemma stuck_running:
  assumes "running ws q st" "\<forall>w\<in>set ws. w = Exited \<or> w = Asleep \<and> woken (notEmpty q) = 0"
  shows "q_items q = [] \<and> (\<forall>w\<in>set ws. w = Asleep)"
proof -
  have a: "\<forall>w\<in>set ws. w = Asleep" and n: "ws \<noteq> []" using assms by (auto simp: running_def)
  then have "woken (notEmpty q) = 0" using assms(2) by (cases ws) auto
  moreover have "count_if (\<lambda>w. w = Asleep) ws = length ws" using a by (simp add: count_if_def)
  moreover have "0 < length ws" using n by simp
  ultimately show ?thesis using assms(1) a by (auto simp: running_def asleep_ok_def)
qed

lemma stuck_stopping:
  assumes "stopping ws q st" "\<forall>w\<in>set ws. w = Exited \<or> w = Asleep \<and> woken (notEmpty q) = 0"
  shows "\<forall>w\<in>set ws. w = Exited"
proof (rule ccontr)
  assume "\<not> (\<forall>w\<in>set ws. w = Exited)"
  then obtain w where w: "w \<in> set ws" "w = Asleep" "woken (notEmpty q) = 0" using assms(2) by auto
  then have "0 < count_if (\<lambda>w. w = Asleep) ws" by (auto simp: count_if_def filter_empty_conv)
  then show False using assms(1) w(3) by (auto simp: stopping_def asleep_ok_def)
qed


text \<open>What every reachable state of a pool has; a queue that is not stopped has no worker gone.\<close>

definition pool_live :: "'a worker list \<Rightarrow> 'a monitor_queue \<Rightarrow> bool \<Rightarrow> bool" where
  "pool_live ws q st \<longleftrightarrow> asleep_ok ws q \<and> (q_stopped q \<or> Exited \<notin> set ws \<and> (ws \<noteq> [] \<longrightarrow> st))"

lemma pool_live_core: "core_step ws q st ws' q' \<Longrightarrow> pool_live ws q st \<Longrightarrow> pool_live ws' q' st"
  using core_step_asleep[of ws q st ws' q'] core_step_stopped[of ws q st ws' q'] core_step_exited[of ws q st ws' q']
    core_step_length[of ws q st ws' q']
  by (auto simp: pool_live_def elim: core_step.cases)

lemma pool_live_queue:
  assumes "pool_live ws q st"
  shows "pool_live ws (TaskQueue_push t q) st" "pool_live ws (q\<lparr>notEmpty := Condition_notify (notEmpty q)\<rparr>) st"
    "pool_live ws (TaskQueue_stop q) st'" "pool_live (ws @ replicate n AtLoop) q True"
  using assms
  by (auto simp: pool_live_def asleep_ok_def TaskQueue_push_def TaskQueue_stop_def Condition_notify_def
      Condition_notifyAll_def)

lemma pool_live_new: "pool_live [] queue_new st"
  by (simp add: pool_live_def asleep_ok_def queue_new_def Condition_new_def)

lemma pool_live_joined:
  "pool_live ws q st \<Longrightarrow> \<forall>w\<in>set ws. w = Exited \<Longrightarrow> pool_live [] q st'"
  using count_if_none[of ws "\<lambda>w. w = Asleep"] by (auto simp: pool_live_def asleep_ok_def)

lemma pool_live_running: "pool_live ws q st \<Longrightarrow> \<not> q_stopped q \<Longrightarrow> ws \<noteq> [] \<Longrightarrow> running ws q st"
  by (simp add: pool_live_def running_def)

lemma pool_live_stopping: "pool_live ws q st \<Longrightarrow> stopping ws (TaskQueue_stop q) False"
  using pool_live_queue(3)[of ws q st False] by (simp add: pool_live_def stopping_def TaskQueue_stop_def)

subsection \<open>\<^verbatim>\<open>ThreadPool\<close>\<close>

lemma ThreadPool_worker_core:
  assumes "ThreadPool_workerThread i p = Some p'"
  shows "core_step (tp_workers p) (taskQueue p) (tp_started p) (tp_workers p') (taskQueue p')"
    and "tp_started p' = tp_started p"
proof -
  have i: "i < length (tp_workers p)"
    using assms by (auto simp: ThreadPool_workerThread_def Let_def split: if_splits)
  show "core_step (tp_workers p) (taskQueue p) (tp_started p) (tp_workers p') (taskQueue p')"
  proof (cases "tp_workers p ! i")
    case AtLoop
    then show ?thesis using assms i
      by (auto simp: ThreadPool_workerThread_def Let_def split: if_splits prod.splits
          intro: core_pop core_leave)
  next
    case Asleep
    then show ?thesis using assms i
      by (auto simp: ThreadPool_workerThread_def Let_def split: if_splits prod.splits intro: core_resume)
  qed (use assms i in \<open>auto simp: ThreadPool_workerThread_def Let_def intro!: core_busy\<close>)
  show "tp_started p' = tp_started p" using assms i
    by (cases "tp_workers p ! i") (auto simp: ThreadPool_workerThread_def Let_def split: if_splits prod.splits)
qed

lemma ThreadPool_stuck:
  assumes "\<forall>i. ThreadPool_workerThread i p = None" "w \<in> set (tp_workers p)"
  shows "w = Exited \<or> w = Asleep \<and> woken (notEmpty (taskQueue p)) = 0"
proof -
  obtain i where i: "i < length (tp_workers p)" "w = tp_workers p ! i" using assms(2) by (auto simp: in_set_conv_nth)
  have "ThreadPool_workerThread i p = None" using assms(1) by blast
  then show ?thesis using i
    by (cases "tp_workers p ! i") (simp_all add: ThreadPool_workerThread_def Let_def split: if_splits prod.splits)
qed

lemma tp_step_live:
  "tp_step p ts p' \<Longrightarrow> pool_live (tp_workers p) (taskQueue p) (tp_started p) \<Longrightarrow>
     pool_live (tp_workers p') (taskQueue p') (tp_started p')"
proof (induction rule: tp_step.induct)
  case (tp_worker i p p')
  then show ?case
    using pool_live_core[OF ThreadPool_worker_core(1)[OF tp_worker.hyps]] ThreadPool_worker_core(2)[OF tp_worker.hyps]
    by simp
next
  case (tp_joined p p')
  then show ?case by (auto simp: ThreadPool_stop_joined_def pool_live_joined split: if_splits)
qed (auto simp: ThreadPool_start_def ThreadPool_execute_def ThreadPool_submit_def ThreadPool_stop_request_def
    Let_def pool_live_queue)

lemma tp_run_live:
  "tp_run (ThreadPool_new c) ts p \<Longrightarrow> pool_live (tp_workers p) (taskQueue p) (tp_started p)"
  by (induction rule: tp_run.induct) (simp_all add: ThreadPool_new_def pool_live_new tp_step_live)

abbreviation tp_running :: "'a thread_pool \<Rightarrow> bool" where
  "tp_running p \<equiv> running (tp_workers p) (taskQueue p) (tp_started p)"

abbreviation tp_stopping :: "'a thread_pool \<Rightarrow> bool" where
  "tp_stopping p \<equiv> stopping (tp_workers p) (taskQueue p) (tp_started p)"

definition ThreadPool_work :: "'a thread_pool \<Rightarrow> nat" where
  "ThreadPool_work p = work_left (tp_workers p) (taskQueue p)"

interpretation tp_drains: draining ThreadPool_workerThread tp_running ThreadPool_work
    "\<lambda>p. q_items (taskQueue p) = [] \<and> (\<forall>w\<in>set (tp_workers p). w = Asleep)"
proof (unfold_locales, goal_cases)
  case (1 p i p')
  then show ?case
    using core_step_running[OF ThreadPool_worker_core(1)[OF 1(2)]] ThreadPool_worker_core(2)[OF 1(2)]
    by (simp add: ThreadPool_work_def)
next
  case (2 p)
  then show ?case using stuck_running[OF 2(1)] ThreadPool_stuck[OF 2(2)] by blast
qed

interpretation tp_stops: draining ThreadPool_workerThread tp_stopping ThreadPool_work
    "\<lambda>p. \<forall>w\<in>set (tp_workers p). w = Exited"
proof (unfold_locales, goal_cases)
  case (1 p i p')
  then show ?case
    using core_step_stopping[OF ThreadPool_worker_core(1)[OF 1(2)]] ThreadPool_worker_core(2)[OF 1(2)]
    by (simp add: ThreadPool_work_def)
next
  case (2 p)
  then show ?case using stuck_stopping[OF 2(1)] ThreadPool_stuck[OF 2(2)] by blast
qed

lemma tp_worker_run:
  "worker_run ThreadPool_workerThread p n p' \<Longrightarrow> all_tasks p' = all_tasks p \<and> (counters_ok p \<longrightarrow> counters_ok p') \<and>
     (q_stopped (taskQueue p) \<longrightarrow> q_stopped (taskQueue p') \<and> q_items (taskQueue p') = q_items (taskQueue p))"
proof (induction rule: worker_run.induct)
  case (run_suc n t i u)
  then show ?case
    using worker_tasks[OF run_suc.hyps(2)] worker_counters[OF _ run_suc.hyps(2)]
      core_step_items[OF ThreadPool_worker_core(1)[OF run_suc.hyps(2)]]
      core_step_stopped[OF ThreadPool_worker_core(1)[OF run_suc.hyps(2)]] by auto
qed simp

lemma no_held_tasks: "\<forall>w\<in>set ws. w = Asleep \<or> w = Exited \<Longrightarrow> concat (map held ws) = []"
  by fastforce

lemma all_asleep_done:
  assumes "counters_ok p" "\<forall>w\<in>set (tp_workers p). w = Asleep" "q_items (taskQueue p) = []"
  shows "ThreadPool_wait_returns p \<and> all_tasks p = mset (ran p)"
proof -
  have "count_if is_active (tp_workers p) = 0" by (rule count_if_none) (use assms(2) in auto)
  then show ?thesis using assms(1,3) no_held_tasks[of "tp_workers p"] assms(2)
    by (simp add: counters_ok_def ThreadPool_wait_returns_def TaskQueue_size_def all_tasks_def in_flight_def)
qed

text \<open>
  C15: Workers finish: from any reachable state of a pool with workers whose queue was never
  stopped, however the workers are scheduled, they make at most \<open>ThreadPool_work p\<close> steps, and
  when none can move every task the pool accepted has run exactly once and \<open>wait\<close> returns; there
  is such an end.
\<close>

theorem ThreadPool_runs_everything:
  assumes "tp_run (ThreadPool_new c) ts p" "\<not> q_stopped (taskQueue p)" "tp_workers p \<noteq> []"
  shows "(\<forall>n p'. worker_run ThreadPool_workerThread p n p' \<longrightarrow> n \<le> ThreadPool_work p \<and>
      ((\<forall>i. ThreadPool_workerThread i p' = None) \<longrightarrow> mset (ran p') = mset ts \<and> ThreadPool_wait_returns p')) \<and>
    (\<exists>n p'. worker_run ThreadPool_workerThread p n p' \<and> (\<forall>i. ThreadPool_workerThread i p' = None))"
proof -
  have r: "tp_running p" by (rule pool_live_running[OF tp_run_live[OF assms(1)] assms(2,3)])
  have "mset (ran p') = mset ts \<and> ThreadPool_wait_returns p'"
    if w: "worker_run ThreadPool_workerThread p n p'" and s: "\<forall>i. ThreadPool_workerThread i p' = None" for n p'
    using all_asleep_done[of p'] tp_worker_run[OF w] tp_drains.run_ends[OF w r s]
      run_counters[OF assms(1) new_pool(1)] run_tasks[OF assms(1)] by (simp add: new_pool(2))
  then show ?thesis using tp_drains.run_bounded[OF _ r] tp_drains.run_exists[OF r] by blast
qed

theorem ThreadPool_runs_everything_witness:
  "\<exists>n p'. worker_run ThreadPool_workerThread one_popped n p' \<and> ran p' = [7]"
  using ThreadPool_runs_everything[OF one_popped_run] by (auto simp: one_popped_eval queue_new_def)

text \<open>
  C16: \<open>stop\<close> returns: after its request the workers make at most \<open>ThreadPool_work\<close> steps,
  however they are scheduled, and when none can move all have left, so the joins return. By then
  the tasks that workers had taken have run, and those still queued have not.
\<close>

theorem ThreadPool_stop_returns:
  assumes "tp_run (ThreadPool_new c) ts p" "tp_started p"
  shows "(\<forall>n p'. worker_run ThreadPool_workerThread (ThreadPool_stop_request p) n p' \<longrightarrow>
      n \<le> ThreadPool_work (ThreadPool_stop_request p) \<and>
      ((\<forall>i. ThreadPool_workerThread i p' = None) \<longrightarrow> ThreadPool_stop_joined p' = Some (p'\<lparr>tp_workers := []\<rparr>) \<and>
         q_items (taskQueue p') = q_items (taskQueue p) \<and> mset (ran p') = mset (ran p) + in_flight p)) \<and>
    (\<exists>n p'. worker_run ThreadPool_workerThread (ThreadPool_stop_request p) n p' \<and>
       (\<forall>i. ThreadPool_workerThread i p' = None))"
proof -
  let ?p = "ThreadPool_stop_request p"
  have eq: "tp_workers ?p = tp_workers p" "ran ?p = ran p" "taskQueue ?p = TaskQueue_stop (taskQueue p)" "\<not> tp_started ?p"
    using assms(2) by (simp_all add: ThreadPool_stop_request_def)
  have st: "tp_stopping ?p" using pool_live_stopping[OF tp_run_live[OF assms(1)]] eq by simp
  have "ThreadPool_stop_joined p' = Some (p'\<lparr>tp_workers := []\<rparr>) \<and> q_items (taskQueue p') = q_items (taskQueue p) \<and>
      mset (ran p') = mset (ran p) + in_flight p"
    if w: "worker_run ThreadPool_workerThread ?p n p'" and s: "\<forall>i. ThreadPool_workerThread i p' = None" for n p'
  proof -
    have ex: "\<forall>w\<in>set (tp_workers p'). w = Exited" using tp_stops.run_ends[OF w st s] by simp
    have "all_tasks p' = all_tasks ?p" "q_items (taskQueue p') = q_items (taskQueue p)"
      using tp_worker_run[OF w] eq(3) by (simp_all add: TaskQueue_stop_def)
    then show ?thesis using ex no_held_tasks[of "tp_workers p'"] eq
      by (simp add: ThreadPool_stop_joined_def all_tasks_def in_flight_def TaskQueue_stop_def ac_simps)
  qed
  then show ?thesis using tp_stops.run_bounded[OF _ st] tp_stops.run_exists[OF st] by blast
qed

theorem ThreadPool_stop_returns_witness:
  "\<exists>n p'. worker_run ThreadPool_workerThread (ThreadPool_stop_request one_popped) n p' \<and> ran p' = [7] \<and>
     ThreadPool_stop_joined p' \<noteq> None"
proof -
  have "tp_started one_popped" by (simp add: one_popped_eval)
  from ThreadPool_stop_returns[OF one_popped_run this] obtain n p' where
    w: "worker_run ThreadPool_workerThread (ThreadPool_stop_request one_popped) n p'"
    and s: "ThreadPool_stop_joined p' \<noteq> None" "mset (ran p') = mset (ran one_popped) + in_flight one_popped" by blast
  have "ran p' = [7]" using s(2) by (simp add: one_popped_eval in_flight_def)
  then show ?thesis using w s(1) by blast
qed

subsection \<open>\<^verbatim>\<open>FixedThreadPool\<close>\<close>

lemma FixedThreadPool_worker_core:
  assumes "FixedThreadPool_workerThread i p = Some p'"
  shows "core_step (fx_workers p) (fx_queue p) (fx_started p) (fx_workers p') (fx_queue p')"
    and "fx_started p' = fx_started p"
proof -
  have i: "i < length (fx_workers p)"
    using assms by (auto simp: FixedThreadPool_workerThread_def Let_def split: if_splits)
  show "core_step (fx_workers p) (fx_queue p) (fx_started p) (fx_workers p') (fx_queue p')"
  proof (cases "fx_workers p ! i")
    case AtLoop
    then show ?thesis using assms i
      by (auto simp: FixedThreadPool_workerThread_def Let_def split: if_splits prod.splits
          intro: core_pop core_leave)
  next
    case Asleep
    then show ?thesis using assms i
      by (auto simp: FixedThreadPool_workerThread_def Let_def split: if_splits prod.splits intro: core_resume)
  qed (use assms i in \<open>auto simp: FixedThreadPool_workerThread_def Let_def intro!: core_busy\<close>)
  show "fx_started p' = fx_started p" using assms i
    by (cases "fx_workers p ! i") (auto simp: FixedThreadPool_workerThread_def Let_def split: if_splits prod.splits)
qed

text \<open>A worker of the fixed pool is at its loop head, asleep, holds a task or is gone.\<close>

definition fixed_place :: "'a worker \<Rightarrow> bool" where
  "fixed_place w \<longleftrightarrow> (case w of AtLoop \<Rightarrow> True | Asleep \<Rightarrow> True | Popped t \<Rightarrow> True | Exited \<Rightarrow> True | _ \<Rightarrow> False)"

lemma fixed_place_simps [simp]:
  "fixed_place AtLoop" "fixed_place Asleep" "fixed_place (Popped t)" "fixed_place Exited"
  "\<not> fixed_place (Counted t)" "\<not> fixed_place (Busy t)" "\<not> fixed_place Done" "\<not> fixed_place Uncounted"
  by (simp_all add: fixed_place_def)

lemma fixed_place_after_pop: "fixed_place (after_pop res)"
  by (simp add: after_pop_def split: pop_outcome.splits option.splits)

lemma fixed_places:
  assumes "FixedThreadPool_workerThread i p = Some p'" "\<forall>w\<in>set (fx_workers p). fixed_place w"
  shows "\<forall>w\<in>set (fx_workers p'). fixed_place w"
  using assms(1)
  by (cases rule: fx_worker_cases) (use assms(2) in
    \<open>auto simp: fixed_place_after_pop dest!: set_update\<close>)

lemma FixedThreadPool_stuck:
  assumes "\<forall>i. FixedThreadPool_workerThread i p = None" "w \<in> set (fx_workers p)" "fixed_place w"
  shows "w = Exited \<or> w = Asleep \<and> woken (notEmpty (fx_queue p)) = 0"
proof -
  obtain i where i: "i < length (fx_workers p)" "w = fx_workers p ! i" using assms(2) by (auto simp: in_set_conv_nth)
  have "FixedThreadPool_workerThread i p = None" using assms(1) by blast
  then show ?thesis using i assms(3)
    by (cases "fx_workers p ! i")
      (simp_all add: FixedThreadPool_workerThread_def Let_def split: if_splits prod.splits)
qed

definition fx_live :: "'a fixed_pool \<Rightarrow> bool" where
  "fx_live p \<longleftrightarrow> pool_live (fx_workers p) (fx_queue p) (fx_started p) \<and> (\<forall>w\<in>set (fx_workers p). fixed_place w)"

lemma fx_step_live: "fx_step p ts p' \<Longrightarrow> fx_live p \<Longrightarrow> fx_live p'"
proof (induction rule: fx_step.induct)
  case (fx_worker i p p')
  then show ?case
    using pool_live_core[OF FixedThreadPool_worker_core(1)[OF fx_worker.hyps]]
      FixedThreadPool_worker_core(2)[OF fx_worker.hyps] fixed_places[OF fx_worker.hyps] by (simp add: fx_live_def)
next
  case (fx_joined p p')
  then show ?case by (auto simp: fx_live_def FixedThreadPool_stop_joined_def pool_live_joined split: if_splits)
qed (auto simp: fx_live_def FixedThreadPool_start_def FixedThreadPool_execute_def FixedThreadPool_submit_def
    FixedThreadPool_stop_request_def Let_def pool_live_queue)

lemma fx_run_live: "fixed.run (FixedThreadPool_new n) ts p \<Longrightarrow> fx_live p"
proof (induction rule: fixed.run.induct)
  case here
  show ?case by (simp add: fx_live_def FixedThreadPool_new_def pool_live_new)
qed (rule fx_step_live)

definition FixedThreadPool_work :: "'a fixed_pool \<Rightarrow> nat" where
  "FixedThreadPool_work p = work_left (fx_workers p) (fx_queue p)"

abbreviation fx_running :: "'a fixed_pool \<Rightarrow> bool" where
  "fx_running p \<equiv> running (fx_workers p) (fx_queue p) (fx_started p) \<and> (\<forall>w\<in>set (fx_workers p). fixed_place w)"

abbreviation fx_stopping :: "'a fixed_pool \<Rightarrow> bool" where
  "fx_stopping p \<equiv> stopping (fx_workers p) (fx_queue p) (fx_started p) \<and> (\<forall>w\<in>set (fx_workers p). fixed_place w)"

interpretation fx_drains: draining FixedThreadPool_workerThread fx_running FixedThreadPool_work
    "\<lambda>p. q_items (fx_queue p) = [] \<and> (\<forall>w\<in>set (fx_workers p). w = Asleep)"
proof (unfold_locales, goal_cases)
  case (1 p i p')
  then show ?case
    using core_step_running[OF FixedThreadPool_worker_core(1)[OF 1(2)]] FixedThreadPool_worker_core(2)[OF 1(2)]
      fixed_places[OF 1(2)] by (simp add: FixedThreadPool_work_def)
next
  case (2 p)
  then show ?case
    using stuck_running[OF conjunct1[OF 2(1)]] FixedThreadPool_stuck[OF 2(2)] by blast
qed

interpretation fx_stops: draining FixedThreadPool_workerThread fx_stopping FixedThreadPool_work
    "\<lambda>p. \<forall>w\<in>set (fx_workers p). w = Exited"
proof (unfold_locales, goal_cases)
  case (1 p i p')
  then show ?case
    using core_step_stopping[OF FixedThreadPool_worker_core(1)[OF 1(2)]] FixedThreadPool_worker_core(2)[OF 1(2)]
      fixed_places[OF 1(2)] by (simp add: FixedThreadPool_work_def)
next
  case (2 p)
  then show ?case
    using stuck_stopping[OF conjunct1[OF 2(1)]] FixedThreadPool_stuck[OF 2(2)] by blast
qed

text \<open>Both hold for the fixed pool.\<close>

lemma fx_worker_run: "worker_run FixedThreadPool_workerThread p n p' \<Longrightarrow> fx_tasks p' = fx_tasks p"
  by (induction rule: worker_run.induct) (simp_all add: fx_worker_tasks)

theorem FixedThreadPool_runs_everything:
  assumes "fixed.run (FixedThreadPool_new k) ts p" "\<not> q_stopped (fx_queue p)" "fx_workers p \<noteq> []"
    and w: "worker_run FixedThreadPool_workerThread p n p'"
  shows "n \<le> FixedThreadPool_work p" and "\<forall>i. FixedThreadPool_workerThread i p' = None \<Longrightarrow> mset (fx_ran p') = mset ts"
proof -
  have r: "fx_running p" using pool_live_running[OF _ assms(2,3)] fx_run_live[OF assms(1)] by (simp add: fx_live_def)
  show "n \<le> FixedThreadPool_work p" by (rule fx_drains.run_bounded[OF w r])
  assume s: "\<forall>i. FixedThreadPool_workerThread i p' = None"
  have "fx_tasks p' = mset ts"
    using fx_worker_run[OF w] FixedThreadPool_conserves_tasks[OF assms(1)] by (simp add: fx_tasks_def)
  then show "mset (fx_ran p') = mset ts"
    using fx_drains.run_ends[OF w r s] no_held_tasks[of "fx_workers p'"] by (simp add: fx_tasks_def)
qed

theorem FixedThreadPool_stop_returns:
  assumes "fixed.run (FixedThreadPool_new k) ts p" "fx_started p"
    and w: "worker_run FixedThreadPool_workerThread (FixedThreadPool_stop_request p) n p'"
  shows "n \<le> FixedThreadPool_work (FixedThreadPool_stop_request p)"
    and "\<forall>i. FixedThreadPool_workerThread i p' = None \<Longrightarrow> FixedThreadPool_stop_joined p' = Some (p'\<lparr>fx_workers := []\<rparr>)"
proof -
  have st: "fx_stopping (FixedThreadPool_stop_request p)"
    using pool_live_stopping[of "fx_workers p" "fx_queue p" True] assms(2) fx_run_live[OF assms(1)]
    by (simp add: fx_live_def FixedThreadPool_stop_request_def)
  show "n \<le> FixedThreadPool_work (FixedThreadPool_stop_request p)" by (rule fx_stops.run_bounded[OF w st])
  show "\<forall>i. FixedThreadPool_workerThread i p' = None \<Longrightarrow> FixedThreadPool_stop_joined p' = Some (p'\<lparr>fx_workers := []\<rparr>)"
    using fx_stops.run_ends[OF w st] by (simp add: FixedThreadPool_stop_joined_def)
qed

end
