(* ===== verification/Types.thy ===== *)
theory Types
  imports Prelude
begin

text \<open>
  The error codes, the message identifiers and the clock of \<^verbatim>\<open>src/common/base/types.h\<close>.
  An enumeration with a fixed underlying type is a datatype with the number of each enumerator;
  the comparison of two enumerators is the comparison of their numbers.
\<close>

subsection \<open>Error codes\<close>

datatype ErrorCode =
  SUCCESS
| UNKNOWN_ERROR | INVALID_PARAM | INTERNAL_ERROR | TIMEOUT | NOT_FOUND
| ACCOUNT_NOT_FOUND | PASSWORD_ERROR | ACCOUNT_BANNED | ALREADY_LOGIN | TOKEN_EXPIRED | SERVER_FULL
| ROLE_NOT_FOUND | ROLE_NAME_EXISTS | ROLE_LIMIT_REACHED | ROLE_LEVEL_LIMIT
| BATTLE_NOT_FOUND | SKILL_NOT_LEARNED | SKILL_COOLDOWN | MP_NOT_ENOUGH | TARGET_NOT_IN_RANGE
| CHAT_COOLDOWN | CHAT_CONTENT_TOO_LONG
| FRIEND_NOT_FOUND | FRIEND_LIMIT_REACHED | ALREADY_FRIEND
| TEAM_NOT_FOUND | TEAM_FULL | NOT_IN_TEAM | ALREADY_IN_TEAM

fun ErrorCode_value :: "ErrorCode \<Rightarrow> int" where
  "ErrorCode_value SUCCESS = 0"
| "ErrorCode_value UNKNOWN_ERROR = 1"
| "ErrorCode_value INVALID_PARAM = 2"
| "ErrorCode_value INTERNAL_ERROR = 3"
| "ErrorCode_value TIMEOUT = 4"
| "ErrorCode_value NOT_FOUND = 5"
| "ErrorCode_value ACCOUNT_NOT_FOUND = 100"
| "ErrorCode_value PASSWORD_ERROR = 101"
| "ErrorCode_value ACCOUNT_BANNED = 102"
| "ErrorCode_value ALREADY_LOGIN = 103"
| "ErrorCode_value TOKEN_EXPIRED = 104"
| "ErrorCode_value SERVER_FULL = 105"
| "ErrorCode_value ROLE_NOT_FOUND = 200"
| "ErrorCode_value ROLE_NAME_EXISTS = 201"
| "ErrorCode_value ROLE_LIMIT_REACHED = 202"
| "ErrorCode_value ROLE_LEVEL_LIMIT = 203"
| "ErrorCode_value BATTLE_NOT_FOUND = 300"
| "ErrorCode_value SKILL_NOT_LEARNED = 301"
| "ErrorCode_value SKILL_COOLDOWN = 302"
| "ErrorCode_value MP_NOT_ENOUGH = 303"
| "ErrorCode_value TARGET_NOT_IN_RANGE = 304"
| "ErrorCode_value CHAT_COOLDOWN = 400"
| "ErrorCode_value CHAT_CONTENT_TOO_LONG = 401"
| "ErrorCode_value FRIEND_NOT_FOUND = 500"
| "ErrorCode_value FRIEND_LIMIT_REACHED = 501"
| "ErrorCode_value ALREADY_FRIEND = 502"
| "ErrorCode_value TEAM_NOT_FOUND = 600"
| "ErrorCode_value TEAM_FULL = 601"
| "ErrorCode_value NOT_IN_TEAM = 602"
| "ErrorCode_value ALREADY_IN_TEAM = 603"

subsection \<open>Message identifiers\<close>

datatype MessageId =
  MSG_LOGIN_REQUEST | MSG_LOGIN_RESPONSE | MSG_LOGOUT_REQUEST | MSG_HEARTBEAT
| MSG_CREATE_ROLE_REQUEST | MSG_CREATE_ROLE_RESPONSE | MSG_ROLE_INFO_NOTIFY | MSG_ROLE_ATTRIBUTE_UPDATE
| MSG_BATTLE_START_REQUEST | MSG_BATTLE_START_RESPONSE | MSG_SKILL_CAST_REQUEST | MSG_SKILL_CAST_NOTIFY
| MSG_BATTLE_END_NOTIFY
| MSG_CHAT_REQUEST | MSG_CHAT_NOTIFY
| MSG_ADD_FRIEND_REQUEST | MSG_ADD_FRIEND_RESPONSE | MSG_FRIEND_LIST_REQUEST | MSG_FRIEND_LIST_RESPONSE
| MSG_CREATE_TEAM_REQUEST | MSG_JOIN_TEAM_REQUEST | MSG_LEAVE_TEAM_REQUEST

fun MessageId_value :: "MessageId \<Rightarrow> uint32" where
  "MessageId_value MSG_LOGIN_REQUEST = 1000"
| "MessageId_value MSG_LOGIN_RESPONSE = 1001"
| "MessageId_value MSG_LOGOUT_REQUEST = 1002"
| "MessageId_value MSG_HEARTBEAT = 1003"
| "MessageId_value MSG_CREATE_ROLE_REQUEST = 2000"
| "MessageId_value MSG_CREATE_ROLE_RESPONSE = 2001"
| "MessageId_value MSG_ROLE_INFO_NOTIFY = 2002"
| "MessageId_value MSG_ROLE_ATTRIBUTE_UPDATE = 2003"
| "MessageId_value MSG_BATTLE_START_REQUEST = 3000"
| "MessageId_value MSG_BATTLE_START_RESPONSE = 3001"
| "MessageId_value MSG_SKILL_CAST_REQUEST = 3002"
| "MessageId_value MSG_SKILL_CAST_NOTIFY = 3003"
| "MessageId_value MSG_BATTLE_END_NOTIFY = 3004"
| "MessageId_value MSG_CHAT_REQUEST = 4000"
| "MessageId_value MSG_CHAT_NOTIFY = 4001"
| "MessageId_value MSG_ADD_FRIEND_REQUEST = 5000"
| "MessageId_value MSG_ADD_FRIEND_RESPONSE = 5001"
| "MessageId_value MSG_FRIEND_LIST_REQUEST = 5002"
| "MessageId_value MSG_FRIEND_LIST_RESPONSE = 5003"
| "MessageId_value MSG_CREATE_TEAM_REQUEST = 6000"
| "MessageId_value MSG_JOIN_TEAM_REQUEST = 6001"
| "MessageId_value MSG_LEAVE_TEAM_REQUEST = 6002"

text \<open>The messages in the order of their numbers, the modules one after the other.\<close>

definition message_ids :: "MessageId list" where
  "message_ids =
     [MSG_LOGIN_REQUEST, MSG_LOGIN_RESPONSE, MSG_LOGOUT_REQUEST, MSG_HEARTBEAT,
      MSG_CREATE_ROLE_REQUEST, MSG_CREATE_ROLE_RESPONSE, MSG_ROLE_INFO_NOTIFY, MSG_ROLE_ATTRIBUTE_UPDATE,
      MSG_BATTLE_START_REQUEST, MSG_BATTLE_START_RESPONSE, MSG_SKILL_CAST_REQUEST, MSG_SKILL_CAST_NOTIFY,
      MSG_BATTLE_END_NOTIFY, MSG_CHAT_REQUEST, MSG_CHAT_NOTIFY,
      MSG_ADD_FRIEND_REQUEST, MSG_ADD_FRIEND_RESPONSE, MSG_FRIEND_LIST_REQUEST, MSG_FRIEND_LIST_RESPONSE,
      MSG_CREATE_TEAM_REQUEST, MSG_JOIN_TEAM_REQUEST, MSG_LEAVE_TEAM_REQUEST]"

lemma set_message_ids: "m \<in> set message_ids"
  by (cases m) (simp_all only: message_ids_def list.set insert_iff simp_thms)

lemma message_values_increase: "sorted_wrt (<) (map (unat \<circ> MessageId_value) message_ids)"
  by (simp add: message_ids_def)

lemma distinct_message_values: "distinct (map (unat \<circ> MessageId_value) message_ids)"
  using message_values_increase strict_sorted_iff by blast

lemma inj_MessageId_value: "inj MessageId_value"
proof (rule injI)
  fix m n assume "MessageId_value m = MessageId_value n"
  then have "(unat \<circ> MessageId_value) m = (unat \<circ> MessageId_value) n" by simp
  then show "m = n"
    using distinct_message_values set_message_ids[of m] set_message_ids[of n]
    by (simp add: distinct_map inj_on_def)
qed

definition error_codes :: "ErrorCode list" where
  "error_codes =
     [SUCCESS, UNKNOWN_ERROR, INVALID_PARAM, INTERNAL_ERROR, TIMEOUT, NOT_FOUND,
      ACCOUNT_NOT_FOUND, PASSWORD_ERROR, ACCOUNT_BANNED, ALREADY_LOGIN, TOKEN_EXPIRED, SERVER_FULL,
      ROLE_NOT_FOUND, ROLE_NAME_EXISTS, ROLE_LIMIT_REACHED, ROLE_LEVEL_LIMIT,
      BATTLE_NOT_FOUND, SKILL_NOT_LEARNED, SKILL_COOLDOWN, MP_NOT_ENOUGH, TARGET_NOT_IN_RANGE,
      CHAT_COOLDOWN, CHAT_CONTENT_TOO_LONG, FRIEND_NOT_FOUND, FRIEND_LIMIT_REACHED, ALREADY_FRIEND,
      TEAM_NOT_FOUND, TEAM_FULL, NOT_IN_TEAM, ALREADY_IN_TEAM]"

lemma set_error_codes: "e \<in> set error_codes"
  by (cases e) (simp_all only: error_codes_def list.set insert_iff simp_thms)

lemma distinct_error_values: "distinct (map ErrorCode_value error_codes)"
  by (simp add: error_codes_def)

lemma inj_ErrorCode_value: "inj ErrorCode_value"
  using distinct_error_values set_error_codes by (metis distinct_map inj_def inj_on_def)

text \<open>Enumerators compare by their numbers, which makes them the keys of ordered containers.\<close>

instantiation MessageId :: linorder
begin

definition less_eq_MessageId :: "MessageId \<Rightarrow> MessageId \<Rightarrow> bool" where
  "less_eq_MessageId m n \<longleftrightarrow> MessageId_value m \<le> MessageId_value n"

definition less_MessageId :: "MessageId \<Rightarrow> MessageId \<Rightarrow> bool" where
  "less_MessageId m n \<longleftrightarrow> MessageId_value m < MessageId_value n"

instance
proof
  fix m n k :: MessageId
  show "m < n \<longleftrightarrow> m \<le> n \<and> \<not> n \<le> m" by (auto simp: less_eq_MessageId_def less_MessageId_def)
  show "m \<le> m" by (simp add: less_eq_MessageId_def)
  show "m \<le> n \<Longrightarrow> n \<le> k \<Longrightarrow> m \<le> k" by (simp add: less_eq_MessageId_def)
  show "m \<le> n \<Longrightarrow> n \<le> m \<Longrightarrow> m = n"
    unfolding less_eq_MessageId_def by (rule injD[OF inj_MessageId_value order.antisym])
  show "m \<le> n \<or> n \<le> m" by (auto simp: less_eq_MessageId_def)
qed

end

text \<open>The list is the ordered list of all messages.\<close>

lemma message_ids_sorted: "sorted message_ids \<and> distinct message_ids"
proof -
  have "sorted_wrt (\<lambda>m n. unat (MessageId_value m) < unat (MessageId_value n)) message_ids"
    using message_values_increase by (simp add: sorted_wrt_map comp_def)
  then have "sorted_wrt (<) message_ids"
    by (rule sorted_wrt_mono_rel[rotated]) (simp add: less_MessageId_def word_less_nat_alt)
  then show ?thesis using strict_sorted_iff by blast
qed

subsection \<open>The clock\<close>

text \<open>
  \<^verbatim>\<open>system_clock\<close> counts nanoseconds since the epoch; \<^verbatim>\<open>duration_cast\<close> truncates towards zero.
\<close>

definition nowMs :: "int \<Rightarrow> int" where
  "nowMs clock = cdiv clock 1000000"

definition nowUs :: "int \<Rightarrow> int" where
  "nowUs clock = cdiv clock 1000"

lemma nowMs_nowUs: "0 \<le> clock \<Longrightarrow> nowMs clock = nowUs clock div 1000"
  by (simp add: nowMs_def nowUs_def cdiv_nonneg zdiv_zmult2_eq[symmetric])

lemma nowMs_mono: "0 \<le> s \<Longrightarrow> s \<le> t \<Longrightarrow> nowMs s \<le> nowMs t"
  by (simp add: nowMs_def cdiv_nonneg zdiv_mono1)

end
