(* ===== verification/LibraryCalls.thy ===== *)
theory LibraryCalls
  imports MySQL Connection Sockets
begin

text \<open>
  What is left of the calls into the client library of MySQL
  (\<^verbatim>\<open>src/database/mysql/mysql_connection.cpp\<close>, \<^verbatim>\<open>mysql_statement.cpp\<close>) and into the kernel
  (\<^verbatim>\<open>src/common/network/connection.cpp\<close>, \<^verbatim>\<open>socket.cpp\<close>): error reports, escaping, the life of
  the library's objects, socket options and addresses.
\<close>

subsection \<open>Reports of the client library\<close>

text \<open>
  \<open>escape\<close> is the text \<^verbatim>\<open>mysql_real_escape_string\<close> writes; the errors are those of the last call.
  A statement without a handle is a null pointer for the library: \<open>None\<close>.
\<close>

record 'd mysql_reports = "'d mysql_client" +
  conn_errno :: "'d \<Rightarrow> int"
  conn_error :: "'d \<Rightarrow> string"
  stmt_errno :: "'d \<Rightarrow> int"
  stmt_error :: "'d \<Rightarrow> string"
  escape :: "string \<Rightarrow> string"
  conn_ping :: "'d \<Rightarrow> int"

definition MySQLConnection_errorCode :: "'d mysql_reports \<Rightarrow> 'd \<Rightarrow> int" where
  "MySQLConnection_errorCode c d = conn_errno c d"

definition MySQLConnection_errorMessage :: "'d mysql_reports \<Rightarrow> 'd \<Rightarrow> string" where
  "MySQLConnection_errorMessage c d = conn_error c d"

definition MySQLConnection_ping :: "'d mysql_reports \<Rightarrow> 'd \<Rightarrow> bool" where
  "MySQLConnection_ping c d \<longleftrightarrow> conn_ping c d = 0"

definition MySQLStatement_affectedRows :: "'d mysql_reports \<Rightarrow> mysql_statement \<Rightarrow> 'd \<Rightarrow> int option" where
  "MySQLStatement_affectedRows c st d = (if st_valid st then Some (stmt_affected_rows c d) else None)"

definition MySQLStatement_insertId :: "'d mysql_reports \<Rightarrow> mysql_statement \<Rightarrow> 'd \<Rightarrow> int option" where
  "MySQLStatement_insertId c st d = (if st_valid st then Some (stmt_insert_id c d) else None)"

definition MySQLStatement_errorCode :: "'d mysql_reports \<Rightarrow> mysql_statement \<Rightarrow> 'd \<Rightarrow> int option" where
  "MySQLStatement_errorCode c st d = (if st_valid st then Some (stmt_errno c d) else None)"

definition MySQLStatement_errorMessage :: "'d mysql_reports \<Rightarrow> mysql_statement \<Rightarrow> 'd \<Rightarrow> string option" where
  "MySQLStatement_errorMessage c st d = (if st_valid st then Some (stmt_error c d) else None)"

text \<open>
  The library writes the escaped text and a NUL into a buffer of twice the length and one more;
  a longer text is written past its end (\<open>None\<close>).
\<close>

definition MySQLConnection_escapeString :: "'d mysql_reports \<Rightarrow> string \<Rightarrow> string option" where
  "MySQLConnection_escapeString c str =
     (let result = replicate (length str * 2 + 1) CHR 0x00;
          text = escape c str @ [CHR 0x00]
      in if length result < length text then None
         else (let result = text @ drop (length text) result in Some (take (length (escape c str)) result)))"

text \<open>As documented, a character becomes at most two.\<close>

definition escapes_in_place :: "'d mysql_reports \<Rightarrow> bool" where
  "escapes_in_place c \<longleftrightarrow> (\<forall>str. length (escape c str) \<le> 2 * length str)"

theorem MySQLConnection_escapeString_fits:
  assumes "escapes_in_place c"
  shows "MySQLConnection_escapeString c str = Some (escape c str)"
proof -
  have "length (escape c str) \<le> 2 * length str" using assms by (simp add: escapes_in_place_def)
  then show ?thesis by (simp add: MySQLConnection_escapeString_def Let_def)
qed

fun backslashes :: "string \<Rightarrow> string" where
  "backslashes [] = []"
| "backslashes (c # s) = (if c = CHR 0x27 then [CHR 0x5C, c] else [c]) @ backslashes s"

lemma length_backslashes: "length (backslashes s) \<le> 2 * length s"
  by (induction s) auto

theorem MySQLConnection_escapeString_fits_witness:
  "MySQLConnection_escapeString
     (mysql_client.extend (recording_client 0)
       \<lparr>conn_errno = \<lambda>_. 0, conn_error = \<lambda>_. [], stmt_errno = \<lambda>_. 0, stmt_error = \<lambda>_. [],
        escape = backslashes, conn_ping = \<lambda>_. 0\<rparr>) [CHR 0x27] = Some [CHR 0x5C, CHR 0x27]"
  by (subst MySQLConnection_escapeString_fits)
    (simp_all add: escapes_in_place_def mysql_client.defs mysql_reports.defs length_backslashes)

subsection \<open>The library's objects\<close>

text \<open>
  A \<^verbatim>\<open>MYSQL\<close> object is initialised by \<^verbatim>\<open>mysql_init\<close>, opened by \<^verbatim>\<open>mysql_real_connect\<close> and gone
  after \<^verbatim>\<open>mysql_close\<close>: the documentation forbids its use until it is initialised again, which no
  function here does. \<open>None\<close> is such a use.
\<close>

datatype my_object = MyInit | MyOpen | MyClosed

definition MySQLConnection_object :: my_object where
  "MySQLConnection_object = MyInit"

definition MySQLConnection_disconnect_object :: "my_object \<Rightarrow> my_object" where
  "MySQLConnection_disconnect_object m = (if m = MyOpen then MyClosed else m)"

definition MySQLConnection_connect_object :: "bool \<Rightarrow> my_object \<Rightarrow> (bool \<times> my_object) option" where
  "MySQLConnection_connect_object real_connect m =
     (let m = (if m = MyOpen then MySQLConnection_disconnect_object m else m) in
      if m = MyClosed then None
      else if \<not> real_connect then Some (False, m) else Some (True, MyOpen))"

text \<open>An object is connected to a server at most once; a second connect uses a closed object.\<close>

theorem MySQLConnection_never_reconnects:
  assumes "MySQLConnection_connect_object True m = Some (True, m')"
  shows "MySQLConnection_connect_object ok m' = None"
    and "MySQLConnection_connect_object ok (MySQLConnection_disconnect_object m') = None"
  using assms
  by (auto simp: MySQLConnection_connect_object_def MySQLConnection_disconnect_object_def split: if_splits)

lemma MySQLConnection_retries_first_connect:
  "MySQLConnection_connect_object False MySQLConnection_object = Some (False, MySQLConnection_object)"
  by (simp add: MySQLConnection_connect_object_def MySQLConnection_object_def)

text \<open>
  The handles of a statement: what its constructor and its destructor ask of the library.
  \<open>prepared\<close> says whether \<^verbatim>\<open>mysql_stmt_prepare\<close> succeeds.
\<close>

datatype stmt_call = StmtInit | StmtClose

definition MySQLStatement_construct_calls :: "bool \<Rightarrow> bool \<Rightarrow> bool \<times> stmt_call list" where
  "MySQLStatement_construct_calls made prepared =
     (if \<not> made then (False, [])
      else if \<not> prepared then (False, [StmtInit, StmtClose])
      else (True, [StmtInit]))"

definition MySQLStatement_destroy_calls :: "bool \<Rightarrow> stmt_call list" where
  "MySQLStatement_destroy_calls stmt = (if stmt then [StmtClose] else [])"

lemma MySQLStatement_closes_once:
  assumes "MySQLStatement_construct_calls made prepared = (stmt, calls)"
  shows "calls @ MySQLStatement_destroy_calls stmt = (if made then [StmtInit, StmtClose] else [])"
  using assms by (auto simp: MySQLStatement_construct_calls_def MySQLStatement_destroy_calls_def split: if_splits)

subsection \<open>Sockets and connections\<close>

definition Socket_new :: "int \<Rightarrow> int" where "Socket_new sockfd = sockfd"

definition Connection_setTcpNoDelay :: "'k sock_api \<Rightarrow> bool \<Rightarrow> tcp_conn \<Rightarrow> 'k \<Rightarrow> 'k" where
  "Connection_setTcpNoDelay api on c k = snd (Socket_setTcpNoDelay api on (ch_fd (c_channel c)) k)"

text \<open>The error is read, which clears it at the socket, and dropped.\<close>

definition Connection_handleError :: "'k sock_api \<Rightarrow> tcp_conn \<Rightarrow> 'k \<Rightarrow> 'k" where
  "Connection_handleError api c k = (let (err, k) = Socket_getSocketError api (ch_fd (c_channel c)) k in k)"

text \<open>A string is sent as its bytes.\<close>

definition Connection_send_string :: "bool \<Rightarrow> write_result \<Rightarrow> string \<Rightarrow> tcp_conn \<Rightarrow> tcp_conn option" where
  "Connection_send_string in_loop res str c =
     Connection_send in_loop res (map (\<lambda>ch. of_nat (of_char ch)) str) c"

definition Connection_sendInLoop_string :: "write_result \<Rightarrow> string \<Rightarrow> tcp_conn \<Rightarrow> tcp_conn option" where
  "Connection_sendInLoop_string res str c = Connection_sendInLoop res (map (\<lambda>ch. of_nat (of_char ch)) str) c"

text \<open>
  The addresses of the two ends; \<open>junk\<close> is what the variable on the stack holds when the call
  fails, since its result is not looked at.
\<close>

definition getLocalAddr :: "('k \<Rightarrow> int \<Rightarrow> ipv4 option) \<Rightarrow> ipv4 \<Rightarrow> int \<Rightarrow> 'k \<Rightarrow> ipv4" where
  "getLocalAddr getsockname junk sockfd k = (case getsockname k sockfd of Some a \<Rightarrow> a | None \<Rightarrow> junk)"

definition getPeerAddr :: "('k \<Rightarrow> int \<Rightarrow> ipv4 option) \<Rightarrow> ipv4 \<Rightarrow> int \<Rightarrow> 'k \<Rightarrow> ipv4" where
  "getPeerAddr getpeername junk sockfd k = (case getpeername k sockfd of Some a \<Rightarrow> a | None \<Rightarrow> junk)"

lemma Connection_send_string_not_connected:
  "c_state c \<noteq> ConnConnected \<Longrightarrow> Connection_send_string in_loop res str c = Some c"
  by (simp add: Connection_send_string_def Connection_send_def)

end
