(* ===== verification/Rules.thy ===== *)
theory Rules
  imports Types Queues Session Social Battle
begin

text \<open>
  The rules of the game as \<^verbatim>\<open>src/game/game_config.h\<close> names them, against the numbers the modules
  use; the role attributes of \<^verbatim>\<open>src/game/modules/role/role_data.h\<close>; and what the three handlers
  of \<^verbatim>\<open>src/core/server/server.cpp\<close> make of the sessions.
\<close>

subsection \<open>\<^verbatim>\<open>GameConfig\<close>\<close>

definition MAX_NAME_LENGTH :: int where "MAX_NAME_LENGTH = 16"
definition MAX_ROLE_PER_ACCOUNT :: int where "MAX_ROLE_PER_ACCOUNT = 3"
definition DEFAULT_HP :: int where "DEFAULT_HP = 100"
definition DEFAULT_MP :: int where "DEFAULT_MP = 100"
definition MAX_BATTLE_ROUNDS :: int where "MAX_BATTLE_ROUNDS = 30"
definition SKILL_CD_BASE :: int where "SKILL_CD_BASE = 1000"
definition CHAT_MAX_LENGTH :: int where "CHAT_MAX_LENGTH = 256"
definition WORLD_CHAT_CD :: int where "WORLD_CHAT_CD = 5000"
definition PRIVATE_CHAT_CD :: int where "PRIVATE_CHAT_CD = 1000"
definition MAX_FRIEND_COUNT :: int where "MAX_FRIEND_COUNT = 100"
definition MAX_TEAM_MEMBERS :: int where "MAX_TEAM_MEMBERS = 5"

lemmas game_config_defs = MAX_BATTLE_ROUNDS_def WORLD_CHAT_CD_def PRIVATE_CHAT_CD_def MAX_TEAM_MEMBERS_def

text \<open>
  The modules do not read these constants but write their numbers out; where they do, the
  numbers agree: the two cooldowns, the rounds of a battle, the size of a team.
\<close>

theorem ChatModule_cooldowns_as_configured:
  "fst (ChatModule_checkCooldown m r ch now) \<longleftrightarrow>
     (case cooldowns m r of None \<Rightarrow> True
      | Some t \<Rightarrow> (if ch = WORLD then WORLD_CHAT_CD else if ch = PRIVATE then PRIVATE_CHAT_CD else 0) \<le> now - t)"
  by (cases ch) (auto simp: ChatModule_checkCooldown_def chat_cooldown_def game_config_defs split: option.splits)

theorem BattleModule_rounds_as_configured:
  assumes "BattleModule_createBattle atts defs w = (i, w')"
  shows "\<exists>b. BattleModule_getBattle w' i = Some b \<and> maxRounds (scenes_heap w' ! b) = MAX_BATTLE_ROUNDS"
proof -
  have "maxRounds (fold (\<lambda>r. BattleScene_addDefender (module_unit r)) ds b) = maxRounds b"
    and "maxRounds (fold (\<lambda>r. BattleScene_addAttacker (module_unit r)) ds b) = maxRounds b" for ds b
    by (induction ds arbitrary: b) (simp_all add: BattleScene_addDefender_def BattleScene_addAttacker_def)
  then show ?thesis
    using assms
    by (auto simp: BattleModule_createBattle_def BattleModule_getBattle_def new_battle_def Let_def
        BattleScene_new_def game_config_defs)
qed

theorem TeamModule_size_as_configured:
  assumes "TeamModule_getTeamByRole m (roleId s) = None"
    and "executeQuery api join_query [PInt i] d = (res, d1)" "MySQLResult_next res = (True, row)"
    and "MySQLResult_getInt32_by row ''member_count'' = Some n"
  shows "fst (the (TeamModule_joinTeam api True s i (m, d))) \<longleftrightarrow> n < MAX_TEAM_MEMBERS"
  using assms by (auto simp: TeamModule_joinTeam_def game_config_defs case_prod_unfold Let_def)

text \<open>A message item starts as a login request.\<close>

lemma MessageItem_default_id: "item_msgId MessageItem_new = MessageId_value MSG_LOGIN_REQUEST"
  by (simp add: MessageItem_new_def)

subsection \<open>Role attributes\<close>

text \<open>The two floats are bit patterns: 0.05 and 1.5 as the compiler rounds them.\<close>

record role_attribute_data =
  ra_attack :: int
  ra_defense :: int
  ra_speed :: int
  ra_criticalRate :: uint32
  ra_criticalDamage :: uint32
  ra_hpMax :: int
  ra_mpMax :: int

definition RoleAttributeData_default :: role_attribute_data where
  "RoleAttributeData_default =
     \<lparr>ra_attack = 10, ra_defense = 10, ra_speed = 10, ra_criticalRate = 0x3D4CCCCD,
      ra_criticalDamage = 0x3FC00000, ra_hpMax = 100, ra_mpMax = 100\<rparr>"

record role_data =
  rd_roleId :: int
  rd_accountId :: int
  rd_name :: string
  rd_level :: int
  rd_exp :: int
  rd_profession :: int
  rd_gender :: int
  rd_hp :: int
  rd_mp :: int
  rd_gold :: int
  rd_diamond :: int
  rd_attributes :: role_attribute_data

definition RoleData_default :: role_data where
  "RoleData_default =
     \<lparr>rd_roleId = 0, rd_accountId = 0, rd_name = [], rd_level = 1, rd_exp = 0, rd_profession = 0,
      rd_gender = 0, rd_hp = 100, rd_mp = 100, rd_gold = 0, rd_diamond = 0,
      rd_attributes = RoleAttributeData_default\<rparr>"

text \<open>A new role starts with the points the configuration names, which are also its maxima.\<close>

lemma RoleData_starts_full:
  "rd_hp RoleData_default = DEFAULT_HP" "rd_mp RoleData_default = DEFAULT_MP"
  "ra_hpMax (rd_attributes RoleData_default) = DEFAULT_HP" "ra_mpMax (rd_attributes RoleData_default) = DEFAULT_MP"
  by (simp_all add: RoleData_default_def RoleAttributeData_default_def DEFAULT_HP_def DEFAULT_MP_def)

subsection \<open>Sessions of a server\<close>

text \<open>
  The server's three handlers: a new connection gets a session, and neither its messages nor its
  end change anything.
\<close>

definition Server_onConnectionClosed :: "session_manager \<Rightarrow> session_manager" where
  "Server_onConnectionClosed sm = sm"

definition Server_onMessage :: "session_manager \<Rightarrow> session_manager" where
  "Server_onMessage sm = sm"

datatype server_event = NewConnection string int | MessageArrived | ConnectionClosed

fun Server_handles :: "server_event list \<Rightarrow> session_manager \<Rightarrow> session_manager" where
  "Server_handles [] sm = sm"
| "Server_handles (NewConnection ip now # es) sm = Server_handles es (Server_onNewConnection sm ip now)"
| "Server_handles (MessageArrived # es) sm = Server_handles es (Server_onMessage sm)"
| "Server_handles (ConnectionClosed # es) sm = Server_handles es (Server_onConnectionClosed sm)"

fun connections_made :: "server_event list \<Rightarrow> nat" where
  "connections_made [] = 0"
| "connections_made (NewConnection ip now # es) = Suc (connections_made es)"
| "connections_made (e # es) = connections_made es"

lemma onNewConnection_adds:
  assumes "sm_reach sm" "nextSessionId sm < 2 ^ 63 - 1"
  shows "sm_reach (Server_onNewConnection sm ip now)"
    and "nextSessionId (Server_onNewConnection sm ip now) = nextSessionId sm + 1"
    and "dom (sessions (Server_onNewConnection sm ip now)) = insert (nextSessionId sm + 1) (dom (sessions sm))"
proof -
  have w: "wrap64 (nextSessionId sm + 1) = nextSessionId sm + 1"
    using sm_reach_inv[OF assms(1)] assms(2) by (auto simp: sm_inv_defs)
  have c: "sm_reach (snd (SessionManager_createSession sm now))" by (rule sm_create[OF assms])
  show "sm_reach (Server_onNewConnection sm ip now)"
    using sm_write[OF c, of "length (objects sm)"]
    by (simp add: Server_onNewConnection_def SessionManager_createSession_def Let_def)
  show "nextSessionId (Server_onNewConnection sm ip now) = nextSessionId sm + 1"
    and "dom (sessions (Server_onNewConnection sm ip now)) = insert (nextSessionId sm + 1) (dom (sessions sm))"
    using w by (simp_all add: Server_onNewConnection_def SessionManager_createSession_def Let_def)
qed

lemma Server_handles_sessions:
  assumes "sm_reach sm" "nextSessionId sm + int (connections_made es) < 2 ^ 63"
    and "0 \<le> nextSessionId sm" "dom (sessions sm) = {1..nextSessionId sm}"
  shows "dom (sessions (Server_handles es sm)) = {1..nextSessionId sm + int (connections_made es)}"
  using assms
proof (induction es sm rule: Server_handles.induct)
  case (2 ip now es sm)
  note n = onNewConnection_adds[OF 2(2), of ip now]
  have b: "nextSessionId sm < 2 ^ 63 - 1" using 2(3) by simp
  have "{1..nextSessionId sm + 1} = insert (nextSessionId sm + 1) {1..nextSessionId sm}" using 2(4) by auto
  then show ?case using 2(1)[OF n(1)[OF b]] n(2,3)[OF b] 2(3-5) by (simp add: ac_simps)
qed (simp_all add: Server_onMessage_def Server_onConnectionClosed_def)

text \<open>
  No session is ever removed by the server: after any sequence of events there are as many as
  there were connections, numbered from one, whichever of them have closed.
\<close>

theorem Server_sessions_pile_up:
  assumes "connections_made es < 2 ^ 62"
  shows "dom (sessions (Server_handles es SessionManager_init)) = {1..int (connections_made es)} \<and>
    SessionManager_sessionCount (Server_handles es SessionManager_init) = connections_made es"
proof -
  have "dom (sessions (Server_handles es SessionManager_init)) = {1..int (connections_made es)}"
    using Server_handles_sessions[OF sm_start, of es] assms by (simp add: SessionManager_init_def)
  then show ?thesis by (simp add: SessionManager_sessionCount_def)
qed

theorem Server_sessions_pile_up_witness:
  "SessionManager_sessionCount
     (Server_handles [NewConnection ''10.0.0.1'' 5, ConnectionClosed] SessionManager_init) = 1"
  using Server_sessions_pile_up[of "[NewConnection ''10.0.0.1'' 5, ConnectionClosed]"] by simp

text \<open>
  The loop of \<^verbatim>\<open>foreachSession\<close>, in the order in which the hash map is iterated; the function
  changes the sessions it is given, and whatever else \<open>'w\<close> is.
\<close>

fun SessionManager_foreachSession ::
    "(session \<Rightarrow> 'w \<Rightarrow> session \<times> 'w) \<Rightarrow> int list \<Rightarrow> session_manager \<times> 'w \<Rightarrow> session_manager \<times> 'w" where
  "SessionManager_foreachSession f [] (sm, w) = (sm, w)"
| "SessionManager_foreachSession f (i # order) (sm, w) =
     (case sessions sm i of
        None \<Rightarrow> SessionManager_foreachSession f order (sm, w)
      | Some r \<Rightarrow> (let (s, w) = f (deref sm r) w
                  in SessionManager_foreachSession f order (set_object sm r s, w)))"

text \<open>A function that leaves the ids alone keeps the manager's tables in order.\<close>

lemma foreachSession_reach:
  assumes "sm_reach sm"
    and "\<And>s w s' w'. f s w = (s', w') \<Longrightarrow> sid s' = sid s \<and> playerId s' = playerId s \<and> roleId s' = roleId s"
  shows "sm_reach (fst (SessionManager_foreachSession f order (sm, w)))"
  using assms(1)
proof (induction order arbitrary: sm w)
  case (Cons i order)
  show ?case
  proof (cases "sessions sm i")
    case (Some r)
    obtain s' w' where f: "f (deref sm r) w = (s', w')" by fastforce
    have "r < length (objects sm)" by (rule sm_inv_pointer(1)[OF sm_reach_inv[OF Cons.prems] Some])
    then have "sm_reach (set_object sm r s')" using sm_write[OF Cons.prems] assms(2)[OF f] by blast
    then show ?thesis using Cons.IH[of "set_object sm r s'" w'] f Some by simp
  qed (use Cons in simp)
qed simp

end
