(* ===== verification/Rows.thy ===== *)
theory Rows
  imports Orm Address
begin

text \<open>
  What is saved can be loaded: the INSERT statements and parameters of the entities
  (\<^verbatim>\<open>src/database/orm/entity.cpp\<close>) against the code that reads their rows
  (\<^verbatim>\<open>src/database/orm/entity_manager.cpp\<close>).
\<close>

lemmas role_setters = RoleEntity_setAccountId_def RoleEntity_setRoleName_def RoleEntity_setLevel_def
  RoleEntity_setServerId_def RoleEntity_setExp_def RoleEntity_setProfession_def RoleEntity_setGender_def
  RoleEntity_setHp_def RoleEntity_setMp_def RoleEntity_setGold_def RoleEntity_setDiamond_def RoleEntity_new_def

lemmas account_setters = PlayerAccountEntity_setAccountName_def PlayerAccountEntity_setPasswordHash_def
  PlayerAccountEntity_setSalt_def PlayerAccountEntity_setRegisterTime_def PlayerAccountEntity_setLastLoginTime_def
  PlayerAccountEntity_setLoginIp_def PlayerAccountEntity_setStatus_def PlayerAccountEntity_new_def

lemmas entity_setters = Entity_new_def entity.defs Entity_setId_def Entity_markDirty_def Entity_clearDirty_def

subsection \<open>A database that keeps rows\<close>

text \<open>
  The columns an INSERT statement names, and the text of a parameter in a result: the server
  shows numbers in decimal. \<open>keeps_rows\<close> is what a server promises: a row that was inserted is
  what the key it got selects, its columns by their names.
\<close>

definition insert_columns :: "string \<Rightarrow> string list" where
  "insert_columns sql =
     map (dropWhile (\<lambda>c. c = CHR '' ''))
       (split_on (CHR '','') (takeWhile (\<lambda>c. c \<noteq> CHR '')'') (tl (dropWhile (\<lambda>c. c \<noteq> CHR ''('') sql))))"

fun stored_text :: "sql_param \<Rightarrow> string option" where
  "stored_text (PInt n) = Some (int_to_string n)"
| "stored_text (PUInt n) = Some (nat_to_string n)"
| "stored_text (PString s) = Some s"
| "stored_text (PBlob s) = Some s"
| "stored_text _ = None"

definition keeps_rows :: "'d mysql_api \<Rightarrow> string \<Rightarrow> string \<Rightarrow> bool" where
  "keeps_rows api table key \<longleftrightarrow>
     (\<forall>sql ps d i d'. insertAndGetId api sql ps d = (i, d') \<longrightarrow> 0 < i \<longrightarrow>
        length ps = length (insert_columns sql) \<longrightarrow>
        i < 2 ^ 63 \<and> fst (executeQuery api (''SELECT * FROM '' @ table @ '' WHERE '' @ key @ '' = ?'') [PInt i] d') =
          MySQLResult_setResult (key # insert_columns sql) [Some (int_to_string i) # map stored_text ps])"

definition int_fits :: "nat \<Rightarrow> int \<Rightarrow> bool" where
  "int_fits w n \<longleftrightarrow> - (2 ^ (w - 1)) \<le> n \<and> n < 2 ^ (w - 1)"

lemma keeps_rowsD:
  assumes "keeps_rows api table key" "insertAndGetId api sql ps d = (i, d')" "0 < i"
    "length ps = length (insert_columns sql)"
  shows "int_fits 64 i"
    and "fst (executeQuery api (''SELECT * FROM '' @ table @ '' WHERE '' @ key @ '' = ?'') [PInt i] d') =
      MySQLResult_setResult (key # insert_columns sql) [Some (int_to_string i) # map stored_text ps]"
proof -
  have *: "i < 2 ^ 63 \<and> fst (executeQuery api (''SELECT * FROM '' @ table @ '' WHERE '' @ key @ '' = ?'') [PInt i] d') =
      MySQLResult_setResult (key # insert_columns sql) [Some (int_to_string i) # map stored_text ps]"
    using assms unfolding keeps_rows_def by blast
  then show "int_fits 64 i" using assms(3) by (simp add: int_fits_def)
  from * show "fst (executeQuery api (''SELECT * FROM '' @ table @ '' WHERE '' @ key @ '' = ?'') [PInt i] d') =
      MySQLResult_setResult (key # insert_columns sql) [Some (int_to_string i) # map stored_text ps]" by (rule conjunct2)
qed

lemma role_insert_columns:
  "insert_columns (RoleEntity_getInsertSQL e) =
     [''account_id'', ''role_name'', ''server_id'', ''level'', ''exp'', ''profession'', ''gender'', ''hp'', ''mp'',
      ''gold'', ''diamond'']"
  by (simp add: insert_columns_def RoleEntity_getInsertSQL_def)

lemma account_insert_columns:
  "insert_columns (PlayerAccountEntity_getInsertSQL e) =
     [''account_name'', ''password_hash'', ''salt'', ''register_time'', ''last_login_time'', ''login_ip'', ''status'']"
  by (simp add: insert_columns_def PlayerAccountEntity_getInsertSQL_def)

text \<open>Reading the current row by names: the value of the column that has the name.\<close>

lemma get_by_name:
  assumes "last_index name (res_fields r) = Some i" "current r = Some x" "i < length x" "x ! i = Some s"
  shows "MySQLResult_getString_by r name = s" "MySQLResult_getInt64_by r name = in_range 64 (parse_int s)"
    "MySQLResult_getInt32_by r name = in_range 32 (parse_int s)"
  using assms
  by (simp_all add: MySQLResult_getString_by_def MySQLResult_getInt64_by_def MySQLResult_getInt32_by_def
      MySQLResult_getString_def MySQLResult_getInt64_def MySQLResult_getInt32_def MySQLResult_fieldIndex_def field_at_def)

lemma in_range_fits: "int_fits w n \<Longrightarrow> in_range w (Some n) = Some n"
  by (simp add: int_fits_def in_range_def)

definition role_fits :: "role_entity \<Rightarrow> bool" where
  "role_fits e \<longleftrightarrow> int_fits 64 (accountId e) \<and> int_fits 32 (serverId e) \<and> int_fits 32 (level e) \<and>
     int_fits 64 (re_exp e) \<and> int_fits 32 (profession e) \<and> int_fits 32 (gender e) \<and> int_fits 32 (hp e) \<and>
     int_fits 32 (mp e) \<and> int_fits 64 (gold e) \<and> int_fits 32 (diamond e)"

definition account_fits :: "player_account_entity \<Rightarrow> bool" where
  "account_fits e \<longleftrightarrow> int_fits 64 (registerTime e) \<and> int_fits 64 (lastLoginTime e) \<and> int_fits 32 (status e)"

definition first_row :: "string list \<Rightarrow> row \<Rightarrow> mysql_result" where
  "first_row fs x = \<lparr>res_valid = True, res_fields = fs, res_count = 1, res_rows = [], current = Some x\<rparr>"

lemma next_first_row: "MySQLResult_next (MySQLResult_setResult fs [x]) = (True, first_row fs x)"
  by (simp add: MySQLResult_next_def MySQLResult_setResult_def first_row_def)

lemma first_row_sel [simp]: "res_fields (first_row fs x) = fs" "current (first_row fs x) = Some x"
  by (simp_all add: first_row_def)

lemma role_row_read_back:
  assumes "role_fits e" "tableName e = ''player_role''" "int_fits 64 i"
  shows "role_of_row (first_row (''role_id'' # insert_columns (RoleEntity_getInsertSQL e))
      (Some (int_to_string i) # map stored_text (RoleEntity_bindInsertParams e))) =
    Some (Entity_clearDirty (e\<lparr>e_id := i\<rparr>))"
  using assms
  by (cases e) (simp add: role_of_row_def role_insert_columns RoleEntity_bindInsertParams_def get_by_name
      parse_int_to_string in_range_fits role_fits_def role_setters entity_setters)

lemma account_row_read_back:
  assumes "account_fits e" "tableName e = ''player_account''" "int_fits 64 i"
  shows "account_of_row (first_row (''account_id'' # insert_columns (PlayerAccountEntity_getInsertSQL e))
      (Some (int_to_string i) # map stored_text (PlayerAccountEntity_bindInsertParams e))) =
    Some (Entity_clearDirty (e\<lparr>e_id := i\<rparr>))"
  using assms
  by (cases e) (simp add: account_of_row_def account_insert_columns PlayerAccountEntity_bindInsertParams_def get_by_name
      parse_int_to_string in_range_fits account_fits_def account_setters entity_setters)

subsection \<open>Saved and loaded\<close>

lemma Entity_save_new:
  assumes "Entity_save api cls e first d = (True, e', first', d')" "e_id e = 0"
  obtains i where "insertAndGetId api (getInsertSQL cls e) (bindInsertParams cls e) d = (i, d')" "0 < i"
    "e' = Entity_clearDirty (e\<lparr>e_id := i\<rparr>)"
  using assms by (auto simp: Entity_save_def Entity_isNew_def split: prod.splits if_splits)


theorem EntityManager_account_persists:
  assumes "keeps_rows api ''player_account'' ''account_id''" "e_id e = 0" "tableName e = ''player_account''"
    and "account_fits e" "Entity_save api PlayerAccountEntity_class e first d = (True, e', first', d')"
  shows "fst (EntityManager_getPlayerAccount api True (e_id e') d') = Some (Some e')"
proof -
  obtain i where i: "insertAndGetId api (PlayerAccountEntity_getInsertSQL e) (PlayerAccountEntity_bindInsertParams e) d = (i, d')"
    "0 < i" and e': "e' = Entity_clearDirty (e\<lparr>e_id := i\<rparr>)"
    using Entity_save_new[OF assms(5,2)] by (auto simp: PlayerAccountEntity_class_def)
  have n: "length (PlayerAccountEntity_bindInsertParams e) = length (insert_columns (PlayerAccountEntity_getInsertSQL e))"
    unfolding account_insert_columns by (simp add: PlayerAccountEntity_bindInsertParams_def)
  note k = keeps_rowsD[OF assms(1) i n]
  obtain res d2 where q: "executeQuery api ''SELECT * FROM player_account WHERE account_id = ?'' [PInt i] d' = (res, d2)" by fastforce
  then have "MySQLResult_next res = (True, first_row (''account_id'' # insert_columns (PlayerAccountEntity_getInsertSQL e))
      (Some (int_to_string i) # map stored_text (PlayerAccountEntity_bindInsertParams e)))"
    using k(2) next_first_row by simp
  then show ?thesis
    using q account_row_read_back[OF assms(4,3) k(1)]
    by (simp add: EntityManager_getPlayerAccount_def e' Entity_clearDirty_def)
qed

text \<open>A server with one table: the statements that inserted its rows, and their parameters.\<close>

definition table_api :: "string \<Rightarrow> (string \<times> sql_param list) list mysql_api" where
  "table_api key =
     \<lparr>executeQuery = (\<lambda>sql ps d. (case ps of
          [PInt i] \<Rightarrow> if 0 < i \<and> nat i \<le> length d
            then (let (ins, vs) = d ! (nat i - 1) in
              MySQLResult_setResult (key # insert_columns ins) [Some (int_to_string i) # map stored_text vs])
            else MySQLResult_new
        | _ \<Rightarrow> MySQLResult_new, d)),
      executeUpdate = (\<lambda>_ _ d. (0, d)),
      insertAndGetId = (\<lambda>sql ps d. if length d < 1000 then (int (length d) + 1, d @ [(sql, ps)]) else (- 1, d))\<rparr>"

lemma table_api_keeps: "keeps_rows (table_api key) table key"
proof -
  have n: "nat (int (length d) + 1) = Suc (length d)" for d :: "(string \<times> sql_param list) list" by simp
  show ?thesis by (auto simp: keeps_rows_def table_api_def n split: if_splits)
qed

definition hero :: role_entity where
  "hero = RoleEntity_setGold 500 (RoleEntity_setRoleName ''Arthur'' (RoleEntity_setAccountId 17 RoleEntity_new))"


end
