(* ===== verification/ConfigFile.thy ===== *)
theory ConfigFile
  imports Server
begin

text \<open>
  What \<^verbatim>\<open>ServerConfig::load\<close> (\<^verbatim>\<open>src/core/server/server_config.cpp\<close>) makes of a whole document,
  and of the file the repository ships, \<^verbatim>\<open>config/server.yaml\<close>.
\<close>

subsection \<open>A document that sets everything\<close>

text \<open>The value under a key of a node, as text or as a number.\<close>

definition node_at :: "'y yaml \<Rightarrow> 'y \<Rightarrow> string \<Rightarrow> 'y \<Rightarrow> bool" where
  "node_at y n k m \<longleftrightarrow> y_at y n k = Some m \<and> y_defined y m"

definition text_at :: "'y yaml \<Rightarrow> 'y \<Rightarrow> string \<Rightarrow> string \<Rightarrow> bool" where
  "text_at y n k v \<longleftrightarrow> (\<exists>m. node_at y n k m \<and> y_string y m = Some v)"

definition port_at :: "'y yaml \<Rightarrow> 'y \<Rightarrow> string \<Rightarrow> uint16 \<Rightarrow> bool" where
  "port_at y n k v \<longleftrightarrow> (\<exists>m. node_at y n k m \<and> y_uint16 y m = Some v)"

definition int_at :: "'y yaml \<Rightarrow> 'y \<Rightarrow> string \<Rightarrow> int \<Rightarrow> bool" where
  "int_at y n k v \<longleftrightarrow> (\<exists>m. node_at y n k m \<and> y_int y m = Some v)"

definition server_section :: "'y yaml \<Rightarrow> 'y \<Rightarrow> server_config \<Rightarrow> bool" where
  "server_section y sv c \<longleftrightarrow>
     text_at y sv ''name'' (serverName c) \<and> text_at y sv ''version'' (serverVersion c) \<and>
     (\<exists>gw. node_at y sv ''gateway'' gw \<and> text_at y gw ''host'' (gatewayHost c) \<and>
        port_at y gw ''port'' (gatewayPort c) \<and> int_at y gw ''max_connections'' (cfg_maxConnections c)) \<and>
     (\<exists>gm. node_at y sv ''game'' gm \<and> text_at y gm ''host'' (gameHost c) \<and>
        port_at y gm ''port'' (gamePort c) \<and> int_at y gm ''max_players'' (maxPlayers c)) \<and>
     (\<exists>th. node_at y sv ''threads'' th \<and> int_at y th ''io_threads'' (ioThreads c) \<and>
        int_at y th ''logic_threads'' (logicThreads c) \<and> int_at y th ''db_threads'' (dbThreads c)) \<and>
     (\<exists>lg. node_at y sv ''log'' lg \<and> text_at y lg ''level'' (logLevel c) \<and> text_at y lg ''path'' (logPath c))"

definition database_section :: "'y yaml \<Rightarrow> 'y \<Rightarrow> server_config \<Rightarrow> bool" where
  "database_section y db c \<longleftrightarrow>
     (\<exists>my. node_at y db ''mysql'' my \<and> text_at y my ''host'' (mysqlHost c) \<and> port_at y my ''port'' (mysqlPort c) \<and>
        text_at y my ''user'' (mysqlUser c) \<and> text_at y my ''password'' (mysqlPassword c) \<and>
        text_at y my ''database'' (mysqlDatabase c) \<and> int_at y my ''pool_size'' (mysqlPoolSize c)) \<and>
     (\<exists>rd. node_at y db ''redis'' rd \<and> text_at y rd ''host'' (redisHost c) \<and> port_at y rd ''port'' (redisPort c) \<and>
        text_at y rd ''password'' (redisPassword c) \<and> int_at y rd ''db'' (redisDb c) \<and>
        int_at y rd ''pool_size'' (redisPoolSize c))"

definition says :: "'y yaml \<Rightarrow> 'y \<Rightarrow> server_config \<Rightarrow> bool" where
  "says y root c \<longleftrightarrow>
     (\<exists>sv. node_at y root ''server'' sv \<and> server_section y sv c) \<and>
     (\<exists>db. node_at y root ''database'' db \<and> database_section y db c) \<and>
     (\<exists>hb. node_at y root ''heartbeat'' hb \<and> int_at y hb ''interval'' (heartbeatInterval c) \<and>
        int_at y hb ''timeout'' (heartbeatTimeout c))"

text \<open>One field, one section: what was loaded is what stands there.\<close>

lemma load_text: "text_at y n k v \<Longrightarrow>
    load_fields y n ((k, as_string y upd) # fs) c = load_fields y n fs (upd (\<lambda>_. v) c)"
  by (auto simp: text_at_def node_at_def as_string_def)

lemma load_port: "port_at y n k v \<Longrightarrow>
    load_fields y n ((k, as_uint16 y upd) # fs) c = load_fields y n fs (upd (\<lambda>_. v) c)"
  by (auto simp: port_at_def node_at_def as_uint16_def)

lemma load_int: "int_at y n k v \<Longrightarrow>
    load_fields y n ((k, as_int y upd) # fs) c = load_fields y n fs (upd (\<lambda>_. v) c)"
  by (auto simp: int_at_def node_at_def as_int_def)

lemma find_node: "node_at y n k m \<Longrightarrow> find_section y n (k # ks) = find_section y m ks"
  by (simp add: node_at_def)

text \<open>
  C24: Every setting comes from its own place: when the document says of each of the 26 settings
  what it is in \<open>c\<close>, \<open>load\<close> succeeds and gives \<open>c\<close>, whatever was configured before.
\<close>

theorem ServerConfig_loads_what_is_said:
  assumes "y_load y filename = Some root" "says y root c"
  shows "ServerConfig_load y filename c0 = (True, c)"
proof -
  obtain sv db hb where r: "node_at y root ''server'' sv" "node_at y root ''database'' db" "node_at y root ''heartbeat'' hb"
    and s: "server_section y sv c" and d: "database_section y db c"
    and h: "int_at y hb ''interval'' (heartbeatInterval c)" "int_at y hb ''timeout'' (heartbeatTimeout c)"
    using assms(2) unfolding says_def by blast
  obtain gw gm th lg where n: "node_at y sv ''gateway'' gw" "node_at y sv ''game'' gm" "node_at y sv ''threads'' th"
      "node_at y sv ''log'' lg"
    and f: "text_at y sv ''name'' (serverName c)" "text_at y sv ''version'' (serverVersion c)"
      "text_at y gw ''host'' (gatewayHost c)" "port_at y gw ''port'' (gatewayPort c)"
      "int_at y gw ''max_connections'' (cfg_maxConnections c)" "text_at y gm ''host'' (gameHost c)"
      "port_at y gm ''port'' (gamePort c)" "int_at y gm ''max_players'' (maxPlayers c)"
      "int_at y th ''io_threads'' (ioThreads c)" "int_at y th ''logic_threads'' (logicThreads c)"
      "int_at y th ''db_threads'' (dbThreads c)" "text_at y lg ''level'' (logLevel c)" "text_at y lg ''path'' (logPath c)"
    using s unfolding server_section_def by blast
  obtain my rd where m: "node_at y db ''mysql'' my" "node_at y db ''redis'' rd"
    and g: "text_at y my ''host'' (mysqlHost c)" "port_at y my ''port'' (mysqlPort c)" "text_at y my ''user'' (mysqlUser c)"
      "text_at y my ''password'' (mysqlPassword c)" "text_at y my ''database'' (mysqlDatabase c)"
      "int_at y my ''pool_size'' (mysqlPoolSize c)" "text_at y rd ''host'' (redisHost c)"
      "port_at y rd ''port'' (redisPort c)" "text_at y rd ''password'' (redisPassword c)" "int_at y rd ''db'' (redisDb c)"
      "int_at y rd ''pool_size'' (redisPoolSize c)"
    using d unfolding database_section_def by blast
  note steps = f(1,2,3,6,12,13)[THEN load_text] g(1,3,4,5,7,9)[THEN load_text] f(4,7)[THEN load_port] g(2,8)[THEN load_port]
    f(5,8,9,10,11)[THEN load_int] g(6,10,11)[THEN load_int] h[THEN load_int] r[THEN find_node] n[THEN find_node]
    m[THEN find_node]
  have "load_sections y root (config_sections y) c0 = (True, c)"
    by (simp only: config_sections_def load_sections.simps steps find_section.simps(1) load_fields.simps(1)
        option.case prod.case Let_def if_True) simp
  then show ?thesis by (simp add: ServerConfig_load_def assms(1))
qed

text \<open>
  An exception leaves what was loaded before it: a port that is no number ends the loading with
  the name and the version of the document and everything else as it was.
\<close>

theorem ServerConfig_stops_at_bad_port:
  assumes "y_load y filename = Some root" "node_at y root ''server'' sv"
    and "text_at y sv ''name'' nm" "text_at y sv ''version'' vs" "node_at y sv ''gateway'' gw"
    and "text_at y gw ''host'' hst" "node_at y gw ''port'' p" "y_uint16 y p = None"
  shows "ServerConfig_load y filename c0 =
    (False, c0\<lparr>serverName := nm, serverVersion := vs, gatewayHost := hst\<rparr>)"
proof -
  have bad: "load_fields y gw ((''port'', as_uint16 y upd) # fs) c = (False, c)" for upd fs c
    using assms(7,8) by (simp add: node_at_def as_uint16_def)
  have "load_sections y root (config_sections y) c0 =
      (False, c0\<lparr>serverName := nm, serverVersion := vs, gatewayHost := hst\<rparr>)"
    by (simp only: config_sections_def load_sections.simps assms(3,4,6)[THEN load_text]
        assms(2,5)[THEN find_node] find_section.simps(1) load_fields.simps(1) bad
        option.case prod.case Let_def if_True if_False)
  then show ?thesis by (simp add: ServerConfig_load_def assms(1))
qed

subsection \<open>The shipped file\<close>

text \<open>A document as a tree, read as the library documents it, and the tree of the shipped file.\<close>

datatype ynode = YUndefined | YText string | YMap "(string \<times> ynode) list"

fun tree_at :: "ynode \<Rightarrow> string \<Rightarrow> ynode option" where
  "tree_at (YMap kvs) k = Some (case map_of kvs k of Some m \<Rightarrow> m | None \<Rightarrow> YUndefined)"
| "tree_at (YText s) k = None"
| "tree_at YUndefined k = None"

fun tree_text :: "ynode \<Rightarrow> string option" where
  "tree_text (YText s) = Some s"
| "tree_text _ = None"

definition tree_yaml :: "ynode \<Rightarrow> ynode yaml" where
  "tree_yaml root =
     \<lparr>y_load = (\<lambda>_. Some root), y_at = tree_at, y_defined = (\<lambda>n. n \<noteq> YUndefined), y_string = tree_text,
      y_uint16 = (\<lambda>n. case tree_text n of None \<Rightarrow> None | Some s \<Rightarrow>
        (case parse_int s of Some v \<Rightarrow> if 0 \<le> v \<and> v < 65536 then Some (of_int v) else None | None \<Rightarrow> None)),
      y_int = (\<lambda>n. case tree_text n of None \<Rightarrow> None | Some s \<Rightarrow> in_range 32 (parse_int s))\<rparr>"

definition shipped_file :: ynode where
  "shipped_file = YMap
     [(''server'', YMap
        [(''name'', YText ''LegendServer''), (''version'', YText ''1.0.0''),
         (''gateway'', YMap [(''host'', YText ''0.0.0.0''), (''port'', YText ''8888''),
            (''max_connections'', YText ''10000''), (''backlog'', YText ''1024'')]),
         (''game'', YMap [(''host'', YText ''0.0.0.0''), (''port'', YText ''8889''), (''max_players'', YText ''5000'')]),
         (''threads'', YMap [(''io_threads'', YText ''4''), (''logic_threads'', YText ''8''), (''db_threads'', YText ''2'')]),
         (''log'', YMap [(''level'', YText ''info''), (''path'', YText ''./logs''), (''max_size'', YText ''104857600''),
            (''max_files'', YText ''10''), (''async'', YText ''true'')])]),
      (''database'', YMap
        [(''mysql'', YMap [(''host'', YText ''127.0.0.1''), (''port'', YText ''3306''), (''user'', YText ''legend''),
            (''password'', YText ''legend123''), (''database'', YText ''legend_db''), (''pool_size'', YText ''20''),
            (''timeout'', YText ''5000'')]),
         (''redis'', YMap [(''host'', YText ''127.0.0.1''), (''port'', YText ''6379''), (''password'', YText ''''),
            (''db'', YText ''0''), (''pool_size'', YText ''10''), (''timeout'', YText ''3000'')])]),
      (''heartbeat'', YMap [(''interval'', YText ''30000''), (''timeout'', YText ''90000'')])]"

lemma shipped_file_says: "says (tree_yaml root) shipped_file ServerConfig_default"
  unfolding says_def server_section_def database_section_def shipped_file_def ServerConfig_default_def
  by (simp add: text_at_def int_at_def port_at_def node_at_def tree_yaml_def parse_int_def is_space_def
    is_digit_def in_range_def Let_def)

text \<open>
  The shipped file sets every setting to the value the program has built in, so a server started
  with it is configured as one whose file sets nothing.
\<close>

theorem ServerConfig_loads_what_is_said_witness:
  "ServerConfig_load (tree_yaml shipped_file) ''config/server.yaml'' (ServerConfig_default\<lparr>gatewayPort := 1\<rparr>) =
     (True, ServerConfig_default)"
  by (rule ServerConfig_loads_what_is_said[OF _ shipped_file_says]) (simp add: tree_yaml_def)

end
