(* ===== verification/ConnTasks.thy ===== *)
theory ConnTasks
  imports Connection "HOL-Library.Sublist"
begin

text \<open>
  A connection used from threads other than its loop's: \<^verbatim>\<open>send\<close> and
  \<^verbatim>\<open>shutdown\<close> of \<^verbatim>\<open>src/common/network/connection.cpp\<close> hand the work to
  the loop as functors (\<open>tasks\<close>), which run later, between the events of the descriptor, in the
  order they were queued.
\<close>

subsection \<open>The functors in the loop\<close>

text \<open>The loop runs the connection's oldest functor.\<close>

definition Connection_run_next :: "write_result \<Rightarrow> tcp_conn \<Rightarrow> tcp_conn option" where
  "Connection_run_next res c =
     (case tasks c of [] \<Rightarrow> Some c | t # ts \<Rightarrow> Connection_run_task res t (c\<lparr>tasks := ts\<rparr>))"

fun task_data :: "conn_task \<Rightarrow> byte list" where
  "task_data (SendTask data) = data"
| "task_data _ = []"

definition pending :: "tcp_conn \<Rightarrow> byte list" where
  "pending c = concat (map task_data (tasks c))"

text \<open>
  What the kernel answers a \<^verbatim>\<open>write\<close> of \<open>k\<close> bytes: at most that many are taken; once
  the write side is shut down the answer is \<^verbatim>\<open>EPIPE\<close>, and only then.
\<close>

definition answers :: "tcp_conn \<Rightarrow> write_result \<Rightarrow> nat \<Rightarrow> bool" where
  "answers c res k \<longleftrightarrow> fits res k \<and> (res = Reset \<longleftrightarrow> shut c)"

fun offered :: "tcp_conn \<Rightarrow> nat" where
  "offered c = (case tasks c of SendTask data # _ \<Rightarrow> length data | _ \<Rightarrow> 0)"

text \<open>
  A connection that other threads send on, shut down and force to close while its loop runs the
  functors and handles the events, in any order. \<open>acc\<close> are the bytes of the calls of \<open>send\<close> that
  found it connected, in the order of the calls.
\<close>

inductive off_loop :: "byte list \<Rightarrow> tcp_conn \<Rightarrow> bool" where
  ol_new: "off_loop [] (Connection_new i fd peer)"
| ol_established: "off_loop acc c \<Longrightarrow> Connection_connectEstablished c = Some c' \<Longrightarrow> off_loop acc c'"
| ol_send: "off_loop acc c \<Longrightarrow> c_state c = ConnConnected \<Longrightarrow> Connection_send False res data c = Some c' \<Longrightarrow>
    off_loop (acc @ data) c'"
| ol_refused: "off_loop acc c \<Longrightarrow> c_state c \<noteq> ConnConnected \<Longrightarrow> Connection_send False res data c = Some c' \<Longrightarrow>
    off_loop acc c'"
| ol_shutdown: "off_loop acc c \<Longrightarrow> off_loop acc (Connection_shutdown False c)"
| ol_force: "off_loop acc c \<Longrightarrow> off_loop acc (Connection_forceClose c)"
| ol_task: "off_loop acc c \<Longrightarrow> answers c res (offered c) \<Longrightarrow> Connection_run_next res c = Some c' \<Longrightarrow> off_loop acc c'"
| ol_read: "off_loop acc c \<Longrightarrow> Connection_handleRead f answer c = Some c' \<Longrightarrow> off_loop acc c'"
| ol_write: "off_loop acc c \<Longrightarrow> answers c res (length (Buffer_content (outputBuffer c))) \<Longrightarrow>
    Connection_handleWrite res c = Some c' \<Longrightarrow> off_loop acc c'"

subsection \<open>What the functors keep\<close>

text \<open>
  The part of the invariant that the order of the functors does not matter for (\<open>conn_inv\<close> of
  theory Connection, with the bytes that have left the queue), and the queue.
\<close>

definition queue_inv :: "byte list \<Rightarrow> tcp_conn \<Rightarrow> bool" where
  "queue_inv acc c \<longleftrightarrow> Buffer_inv (outputBuffer c) \<and>
     prefix (wrote c @ Buffer_content (outputBuffer c)) acc \<and>
     (c_state c \<noteq> ConnDisconnected \<and> \<not> shut c \<longrightarrow> wrote c @ Buffer_content (outputBuffer c) @ pending c = acc) \<and>
     (c_state c \<noteq> ConnDisconnected \<longrightarrow> (conn_isWriting c \<longleftrightarrow> Buffer_content (outputBuffer c) \<noteq> [])) \<and>
     (c_state c = ConnDisconnected \<longrightarrow> \<not> conn_isWriting c) \<and>
     (shut c \<and> c_state c \<noteq> ConnDisconnected \<longrightarrow> Buffer_content (outputBuffer c) = [])"

lemma pending_frame [simp]:
  "pending (add_task t c) = pending c @ task_data t" "pending (notify c) = pending c"
  "pending (conn_events f c) = pending c" "pending (c\<lparr>c_state := s\<rparr>) = pending c"
  "pending (c\<lparr>shut := x\<rparr>) = pending c" "pending (c\<lparr>wrote := w\<rparr>) = pending c"
  "pending (c\<lparr>outputBuffer := b\<rparr>) = pending c" "pending (c\<lparr>inputBuffer := b\<rparr>) = pending c"
  by (simp_all add: pending_def add_task_def notify_def conn_events_def)

lemma queue_inv_new: "queue_inv [] (Connection_new i fd peer)"
  by (simp add: queue_inv_def pending_def Connection_new_def isWriting_events Channel_new_def)

lemma queue_inv_established:
  "queue_inv acc c \<Longrightarrow> Connection_connectEstablished c = Some c' \<Longrightarrow> queue_inv acc c'"
  by (auto simp: queue_inv_def Connection_connectEstablished_def isWriting_events[symmetric] split: if_splits)

lemma queue_inv_close: "queue_inv acc c \<Longrightarrow> Connection_handleClose c = Some c' \<Longrightarrow> queue_inv acc c'"
  by (auto simp: queue_inv_def Connection_handleClose_def split: if_splits)

lemma queue_inv_send:
  "queue_inv acc c \<Longrightarrow> c_state c = ConnConnected \<Longrightarrow> Connection_send False res data c = Some c' \<Longrightarrow>
     queue_inv (acc @ data) c'"
  by (auto simp: queue_inv_def Connection_send_def)

lemma queue_inv_shutdown: "queue_inv acc c \<Longrightarrow> queue_inv acc (Connection_shutdown False c)"
  by (auto simp: queue_inv_def Connection_shutdown_def Let_def)

lemma queue_inv_force: "queue_inv acc c \<Longrightarrow> queue_inv acc (Connection_forceClose c)"
  by (auto simp: queue_inv_def Connection_forceClose_def)

lemma queue_inv_input [simp]: "queue_inv acc (c\<lparr>inputBuffer := b\<rparr>) = queue_inv acc c"
  by (simp add: queue_inv_def)

lemma queue_inv_read: "queue_inv acc c \<Longrightarrow> Connection_handleRead f answer c = Some c' \<Longrightarrow> queue_inv acc c'"
  by (auto simp: Connection_handleRead_def Let_def split: Option.bind_splits if_splits
      dest!: queue_inv_close[rotated])

lemma queue_inv_shutdownInLoop: "queue_inv acc c \<Longrightarrow> c_state c \<noteq> ConnDisconnected \<Longrightarrow> queue_inv acc (Connection_shutdownInLoop c)"
  by (auto simp: queue_inv_def Connection_shutdownInLoop_def)

lemma pop_frame [simp]:
  "conn_isWriting (c\<lparr>tasks := ts\<rparr>) = conn_isWriting c" "pending (c\<lparr>tasks := ts\<rparr>) = concat (map task_data ts)"
  by (simp_all add: conn_isWriting_def pending_def)

lemma queue_inv_sendInLoop:
  assumes inv: "queue_inv acc c" and t: "tasks c = SendTask data # ts" and res: "answers c res (length data)"
  shows "\<exists>c'. Connection_sendInLoop res data (c\<lparr>tasks := ts\<rparr>) = Some c' \<and> queue_inv acc c'"
proof -
  have b: "Buffer_inv (outputBuffer c)" using inv by (simp add: queue_inv_def)
  have r: "Buffer_readableBytes (outputBuffer c) = length (Buffer_content (outputBuffer c))" by (rule readableBytes_eq[OF b])
  show ?thesis
  proof (cases "c_state c = ConnDisconnected \<or> shut c")
    case True
    then show ?thesis using inv res
      by (cases "c_state c = ConnDisconnected")
        (auto simp: Connection_sendInLoop_def queue_inv_def answers_def r Let_def)
  next
    case False
    then have st: "c_state c \<noteq> ConnDisconnected" and ns: "\<not> shut c" by auto
    then have nr: "res \<noteq> Reset" and fit: "fits res (length data)" using res by (auto simp: answers_def)
    have p: "wrote c @ Buffer_content (outputBuffer c) @ data @ concat (map task_data ts) = acc"
      and w: "conn_isWriting c \<longleftrightarrow> Buffer_content (outputBuffer c) \<noteq> []"
      using inv st ns t by (auto simp: queue_inv_def pending_def)
    define n where "n = (if Buffer_content (outputBuffer c) = [] then (case res of Wrote n \<Rightarrow> n | _ \<Rightarrow> 0) else 0)"
    obtain out where out: "Buffer_append (outputBuffer c) (drop n data) = Some out" "Buffer_inv out"
      "Buffer_content out = Buffer_content (outputBuffer c) @ drop n data" using append_to_output[OF b] .
    have pre: "prefix (wrote c @ Buffer_content (outputBuffer c) @ data) acc" using p by (metis append.assoc prefixI)
    show ?thesis
    proof (cases "Buffer_content (outputBuffer c) = []")
      case True
      then show ?thesis using st ns b nr fit out p w pre
        by (cases res) (auto simp: Connection_sendInLoop_def r n_def queue_inv_def Let_def)
    next
      case False
      then have "n = 0" by (simp add: n_def)
      then show ?thesis using False st ns b out p w pre
        by (auto simp: Connection_sendInLoop_def r queue_inv_def Let_def)
    qed
  qed
qed

lemma queue_inv_other_task:
  "queue_inv acc c \<Longrightarrow> tasks c = t # ts \<Longrightarrow> task_data t = [] \<Longrightarrow> queue_inv acc (c\<lparr>tasks := ts\<rparr>)"
  by (auto simp: queue_inv_def pending_def)

lemma queue_inv_shut: "queue_inv acc c \<Longrightarrow> queue_inv acc (Connection_shutdownInLoop c)"
  by (auto simp: queue_inv_def Connection_shutdownInLoop_def)

lemma queue_inv_run_next:
  assumes "queue_inv acc c" "answers c res (offered c)" "Connection_run_next res c = Some c'"
  shows "queue_inv acc c'"
proof (cases "tasks c")
  case Nil
  then show ?thesis using assms by (simp add: Connection_run_next_def)
next
  case (Cons t ts)
  note q = queue_inv_other_task[OF assms(1) Cons]
  show ?thesis
  proof (cases t)
    case (SendTask data)
    then show ?thesis using queue_inv_sendInLoop[OF assms(1), of data ts res] assms(2,3) Cons
      by (auto simp: Connection_run_next_def Connection_run_task_def)
  next
    case ShutdownTask
    then show ?thesis using q queue_inv_shut assms(3) Cons
      by (auto simp: Connection_run_next_def Connection_run_task_def)
  qed (use q assms(3) Cons in \<open>auto simp: Connection_run_next_def Connection_run_task_def
        Connection_forceCloseInLoop_def intro: queue_inv_close split: if_splits\<close>)
qed

lemma queue_inv_handleWrite:
  assumes inv: "queue_inv acc c" and res: "answers c res (length (Buffer_content (outputBuffer c)))"
    and w: "Connection_handleWrite res c = Some c'"
  shows "queue_inv acc c'"
proof (cases "conn_isWriting c")
  case False
  then show ?thesis using inv w by (simp add: Connection_handleWrite_def)
next
  case True
  have b: "Buffer_inv (outputBuffer c)" using inv by (simp add: queue_inv_def)
  have r: "Buffer_readableBytes (outputBuffer c) = length (Buffer_content (outputBuffer c))" by (rule readableBytes_eq[OF b])
  have st: "c_state c \<noteq> ConnDisconnected" using inv True by (auto simp: queue_inv_def)
  then have ne: "Buffer_content (outputBuffer c) \<noteq> []" using inv True by (simp add: queue_inv_def)
  then have ns: "\<not> shut c" using inv st by (auto simp: queue_inv_def)
  have p: "Buffer_peek (outputBuffer c) (length (Buffer_content (outputBuffer c))) = Some (Buffer_content (outputBuffer c))"
    using peek_content[OF b, of "length (Buffer_content (outputBuffer c))"] by simp
  show ?thesis
  proof (cases res)
    case (Wrote n)
    define q where "q = Buffer_retrieve (outputBuffer c) n"
    have q: "Buffer_inv q" "Buffer_content q = drop n (Buffer_content (outputBuffer c))"
      using b by (simp_all add: q_def retrieve_inv retrieve_content)
    moreover have "Buffer_readableBytes q = length (Buffer_content q)" using q(1) by (rule readableBytes_eq)
    ultimately show ?thesis
      using True Wrote res inv st ne ns w
      by (auto simp: Connection_handleWrite_def r p queue_inv_def answers_def Connection_shutdownInLoop_def Let_def
          split: if_splits simp flip: q_def)
  qed (use inv p w in \<open>simp_all add: Connection_handleWrite_def r split: if_splits\<close>)
qed

lemma off_loop_inv: "off_loop acc c \<Longrightarrow> queue_inv acc c"
proof (induction rule: off_loop.induct)
  case (ol_refused acc c res data c')
  then show ?case by (simp add: Connection_send_def)
qed (auto simp: queue_inv_new queue_inv_shutdown queue_inv_force
    intro: queue_inv_established queue_inv_send queue_inv_run_next queue_inv_read queue_inv_handleWrite)

subsection \<open>What the peer gets\<close>


text \<open>
  The last condition is needed, and \<open>shutdown\<close> does not keep it. It changes the state at once,
  although the functors of earlier calls of \<open>send\<close> have not run yet. When the descriptor becomes
  writable before they do, \<open>handleWrite\<close> empties the buffer, finds the connection closing and
  shuts the write side down; the data of the functors that run then is refused and dropped.
\<close>

lemma handleWrite_last:
  assumes "Buffer_inv (outputBuffer d)" "conn_isWriting d" "c_state d = ConnDisconnecting" "\<not> has_writeComplete d"
    and "Buffer_content (outputBuffer d) \<noteq> []"
  shows "\<exists>e. Connection_handleWrite (Wrote (length (Buffer_content (outputBuffer d)))) d = Some e \<and> shut e \<and>
    \<not> conn_isWriting e \<and> wrote e = wrote d @ Buffer_content (outputBuffer d) \<and> Buffer_inv (outputBuffer e) \<and>
    Buffer_content (outputBuffer e) = [] \<and> tasks e = tasks d \<and> c_state e = ConnDisconnecting"
proof -
  let ?n = "length (Buffer_content (outputBuffer d))"
  have r: "Buffer_readableBytes (outputBuffer d) = ?n" by (rule readableBytes_eq[OF assms(1)])
  have p: "Buffer_peek (outputBuffer d) ?n = Some (Buffer_content (outputBuffer d))"
    using peek_content[OF assms(1), of ?n] by simp
  define q where "q = Buffer_retrieve (outputBuffer d) ?n"
  have q: "Buffer_inv q" "Buffer_content q = []" using assms(1) by (simp_all add: q_def retrieve_inv retrieve_content)
  then have "Buffer_readableBytes q = 0" by (simp add: readableBytes_eq)
  then show ?thesis using assms q
    by (auto simp: Connection_handleWrite_def Connection_shutdownInLoop_def r p conn_events_def isWriting_events Let_def
        simp flip: q_def)
qed

lemma refused_tasks:
  assumes "shut e" "\<not> conn_isWriting e" "Buffer_inv (outputBuffer e)" "Buffer_content (outputBuffer e) = []"
  shows "tasks e = SendTask data # ts \<Longrightarrow> Connection_run_next Reset e = Some (e\<lparr>tasks := ts\<rparr>)"
    and "tasks e = ShutdownTask # ts \<Longrightarrow> Connection_run_next Reset e = Some (e\<lparr>tasks := ts\<rparr>)"
proof -
  have r: "Buffer_readableBytes (outputBuffer e) = 0" using readableBytes_eq[OF assms(3)] assms(4) by simp
  show "tasks e = SendTask data # ts \<Longrightarrow> Connection_run_next Reset e = Some (e\<lparr>tasks := ts\<rparr>)"
    using assms(2) r by (simp add: Connection_run_next_def Connection_run_task_def Connection_sendInLoop_def Let_def)
  show "tasks e = ShutdownTask # ts \<Longrightarrow> Connection_run_next Reset e = Some (e\<lparr>tasks := ts\<rparr>)"
    using assms(1,2) by (simp add: Connection_run_next_def Connection_run_task_def Connection_shutdownInLoop_def)
qed

text \<open>
  C9: On a connection with bytes in its buffer and no functor queued, another thread that sends
  \<open>data\<close> and then shuts the connection down loses \<open>data\<close>, when the loop handles the event that
  empties the buffer before it runs the functors: at the end the write side is shut down, no
  functor is left, and the kernel has got only the bytes sent before.
\<close>

theorem Connection_send_then_shutdown_loses_data:
  assumes "off_loop acc c" "c_state c = ConnConnected" "tasks c = []" "\<not> has_writeComplete c"
    and "Buffer_content (outputBuffer c) \<noteq> []"
  shows "\<exists>c1 c2 c3 c4. Connection_send False res data c = Some c1 \<and>
    Connection_handleWrite (Wrote (length (Buffer_content (outputBuffer c)))) (Connection_shutdown False c1) = Some c2 \<and>
    Connection_run_next Reset c2 = Some c3 \<and> Connection_run_next Reset c3 = Some c4 \<and>
    off_loop (acc @ data) c4 \<and> shut c4 \<and> tasks c4 = [] \<and> Buffer_content (outputBuffer c4) = [] \<and> wrote c4 = acc"
proof -
  have i: "queue_inv acc c" by (rule off_loop_inv[OF assms(1)])
  have b: "Buffer_inv (outputBuffer c)" and w: "conn_isWriting c" and ns: "\<not> shut c"
    using i assms by (auto simp: queue_inv_def)
  have acc: "wrote c @ Buffer_content (outputBuffer c) = acc"
    using i ns assms(2,3) by (simp add: queue_inv_def pending_def)
  define d where "d = Connection_shutdown False (add_task (SendTask data) c)"
  have s: "Connection_send False res data c = Some (add_task (SendTask data) c)"
    using assms(2) by (simp add: Connection_send_def)
  have od: "off_loop (acc @ data) d" unfolding d_def by (rule ol_shutdown[OF ol_send[OF assms(1,2) s]])
  have d: "outputBuffer d = outputBuffer c" "conn_isWriting d" "c_state d = ConnDisconnecting" "\<not> shut d"
    "tasks d = [SendTask data, ShutdownTask]" "wrote d = wrote c" "\<not> has_writeComplete d"
    using assms(2-4) w ns by (simp_all add: d_def Connection_shutdown_def add_task_def conn_isWriting_def)
  obtain e where e: "Connection_handleWrite (Wrote (length (Buffer_content (outputBuffer c)))) d = Some e" "shut e"
    "\<not> conn_isWriting e" "wrote e = acc" "Buffer_inv (outputBuffer e)" "Buffer_content (outputBuffer e) = []"
    "tasks e = [SendTask data, ShutdownTask]"
    using handleWrite_last[of d] d b assms(5) acc by auto
  have oe: "off_loop (acc @ data) e" using ol_write[OF od _ e(1)[folded d(1)]] d(1,4) by (simp add: answers_def)
  let ?f = "e\<lparr>tasks := [ShutdownTask]\<rparr>" let ?g = "e\<lparr>tasks := []\<rparr>"
  have r1: "Connection_run_next Reset e = Some ?f" by (rule refused_tasks(1)[OF e(2,3,5,6,7)])
  have r2: "Connection_run_next Reset ?f = Some ?g" using refused_tasks(2)[of ?f "[]"] e by simp
  have "off_loop (acc @ data) ?g"
    using ol_task[OF ol_task[OF oe _ r1] _ r2] e(2) by (simp add: answers_def)
  then show ?thesis using s e r1 r2 by (auto simp: d_def)
qed

text \<open>Two bytes, of which the kernel takes one at first; then two more and a shutdown.\<close>

lemma off_loop_example:
  obtains c where "off_loop [1, 2] c" "c_state c = ConnConnected" "tasks c = []" "\<not> has_writeComplete c"
    "wrote c = [1]" "Buffer_content (outputBuffer c) = [2]" "Connection_run_next (Wrote 1) (add_task (SendTask [1, 2]) fresh_conn) = Some c"
proof -
  have o: "off_loop [] fresh_conn" using ol_established[OF ol_new, of 1 9 IPv4Address_default]
    by (simp add: Connection_connectEstablished_def fresh_conn_def Connection_new_def)
  have fresh: "tasks fresh_conn = []" "\<not> has_writeComplete fresh_conn" "\<not> shut fresh_conn" "\<not> has_highWater fresh_conn"
    by (simp_all add: fresh_conn_def Connection_new_def notify_def conn_events_def)
  have o1: "off_loop ([] @ [1, 2]) (add_task (SendTask [1, 2]) fresh_conn)"
    by (rule ol_send[OF o fresh_conn_reach(2), of Reset]) (simp add: Connection_send_def fresh_conn_reach(2))
  have inv: "conn_inv [] fresh_conn" by (rule conn_reach_inv[OF fresh_conn_reach(1)])
  obtain c where c: "Connection_sendInLoop (Wrote 1) [1, 2] fresh_conn = Some c" "conn_inv [1, 2] c" "c_state c = ConnConnected"
    using sendInLoop_inv[OF inv fresh_conn_reach(2), of "Wrote 1" "[1, 2]"] by auto
  have "(add_task (SendTask [1, 2]) fresh_conn)\<lparr>tasks := []\<rparr> = fresh_conn" using fresh by (simp add: add_task_def)
  then have p: "fresh_conn\<lparr>tasks := []\<rparr> = fresh_conn" by (simp add: add_task_def)
  have r: "Connection_run_next (Wrote 1) (add_task (SendTask [1, 2]) fresh_conn) = Some c"
    using c(1) fresh(1) by (simp add: Connection_run_next_def Connection_run_task_def add_task_def p)
  have "off_loop ([] @ [1, 2]) c"
    by (rule ol_task[OF o1 _ r]) (use fresh in \<open>simp add: answers_def add_task_def\<close>)
  moreover have "wrote c = [1]" "tasks c = []" "\<not> has_writeComplete c"
    using c(1) fresh fresh_conn_reach inv conn_inv_readable[OF inv]
    by (auto simp: Connection_sendInLoop_def conn_inv_def conn_events_def Let_def split: Option.bind_splits if_splits)
  ultimately show ?thesis using that[of c] c r by (auto simp: conn_inv_def)
qed


theorem Connection_send_then_shutdown_loses_data_witness:
  "\<exists>c. off_loop [1, 2, 3, 4] c \<and> shut c \<and> tasks c = [] \<and> Buffer_content (outputBuffer c) = [] \<and> wrote c = [1, 2]"
proof -
  obtain c where "off_loop [1, 2] c" "c_state c = ConnConnected" "tasks c = []" "\<not> has_writeComplete c"
    "Buffer_content (outputBuffer c) = [2]" by (rule off_loop_example)
  then show ?thesis using Connection_send_then_shutdown_loses_data[of "[1, 2]" c Reset "[3, 4]"] by auto
qed

end
