(* ===== verification/Broadcast.thy ===== *)
theory Broadcast
  imports Session Connection
begin

text \<open>
  Sessions over their connections: what \<^verbatim>\<open>Session::send\<close>, \<^verbatim>\<open>close\<close> and the
  destructor (\<^verbatim>\<open>src/core/session/session.cpp\<close>) ask of a connection is carried out by
  \<^verbatim>\<open>Connection\<close>, in the thread of its loop. \<^verbatim>\<open>SessionManager::broadcast\<close> is the
  composition of both.
\<close>

subsection \<open>Effects on connections\<close>

text \<open>
  \<open>h\<close> is the connection behind each pointer, \<open>res\<close> what the kernel answers when it is written to.
\<close>

fun run_effect ::
    "(nat \<Rightarrow> write_result) \<Rightarrow> conn_effect \<Rightarrow> (nat \<Rightarrow> tcp_conn) \<Rightarrow> (nat \<Rightarrow> tcp_conn) option" where
  "run_effect res (ConnSend k data) h = map_option (\<lambda>c. h(k := c)) (Connection_send True (res k) data (h k))"
| "run_effect res (ConnShutdown k) h = Some (h(k := Connection_shutdown True (h k)))"
| "run_effect res (ConnForceClose k) h = Some (h(k := Connection_forceClose (h k)))"

fun run_effects ::
    "(nat \<Rightarrow> write_result) \<Rightarrow> conn_effect list \<Rightarrow> (nat \<Rightarrow> tcp_conn) \<Rightarrow> (nat \<Rightarrow> tcp_conn) option" where
  "run_effects res [] h = Some h"
| "run_effects res (e # es) h = do { h \<leftarrow> run_effect res e h; run_effects res es h }"

text \<open>The connections a broadcast writes to, in the order of the table's iteration.\<close>

definition target :: "session_manager \<Rightarrow> int \<Rightarrow> nat option" where
  "target sm i =
     (case sessions sm i of
        None \<Rightarrow> None
      | Some r \<Rightarrow> if sstate (deref sm r) = kPlaying then connection (deref sm r) else None)"

lemma broadcast_effects:
  assumes "serialize cls msg Buffer_default = Some b" "Buffer_inv b"
  shows "SessionManager_broadcast cls sm msg order =
    Some (map (\<lambda>k. ConnSend k (Buffer_content b)) (List.map_filter (target sm) order))"
proof -
  have p: "Buffer_peek b (Buffer_readableBytes b) = Some (Buffer_content b)"
    using assms(2) by (simp add: readableBytes_eq peek_content)
  show ?thesis
    by (induction order)
      (auto simp: map_filter_simps target_def Session_send_def assms(1) p split: option.splits)
qed

lemma distinct_targets:
  assumes "distinct order" "inj_on (target sm) {i. target sm i \<noteq> None}"
  shows "distinct (List.map_filter (target sm) order)"
  using assms(1)
proof (induction order)
  case (Cons i order)
  show ?case
  proof (cases "target sm i")
    case (Some k)
    have "k \<notin> set (List.map_filter (target sm) order)"
    proof
      assume "k \<in> set (List.map_filter (target sm) order)"
      then obtain j where "j \<in> set order" "target sm j = Some k" by (auto simp: List.map_filter_def)
      then have "i = j" using inj_onD[OF assms(2), of i j] Some by simp
      then show False using Cons.prems \<open>j \<in> set order\<close> by simp
    qed
    then show ?thesis using Cons Some by (simp add: map_filter_simps)
  qed (use Cons in \<open>simp add: map_filter_simps\<close>)
qed (simp add: map_filter_simps)

subsection \<open>Sends to different connections\<close>

lemma conn_reach_send:
  assumes "conn_reach acc c" "fits res (length data)" "res \<noteq> Reset"
  obtains c' where "Connection_send True res data c = Some c'"
    "conn_reach (acc @ (if c_state c = ConnConnected then data else [])) c'"
proof (cases "c_state c = ConnConnected")
  case True
  obtain c' where "Connection_send True res data c = Some c'"
    using sendInLoop_inv[OF conn_reach_inv[OF assms(1)] True assms(2,3)] True by (auto simp: Connection_send_def)
  then show ?thesis using that cn_send[OF assms(1) True assms(2,3)] True by auto
next
  case False
  then have "Connection_send True res data c = Some c" by (simp add: Connection_send_def)
  then show ?thesis using that False cn_refused[OF assms(1) False, of True res data c] by auto
qed

lemma run_sends:
  assumes "distinct ks" "\<And>k. conn_reach (acc k) (h k)" "\<And>k. fits (res k) (length data)" "\<And>k. res k \<noteq> Reset"
  shows "\<exists>h'. run_effects res (map (\<lambda>k. ConnSend k data) ks) h = Some h' \<and>
    (\<forall>k. conn_reach (acc k @ (if k \<in> set ks \<and> c_state (h k) = ConnConnected then data else [])) (h' k))"
  using assms(1,2)
proof (induction ks arbitrary: h acc)
  case (Cons k ks)
  obtain c where c: "Connection_send True (res k) data (h k) = Some c"
    "conn_reach (acc k @ (if c_state (h k) = ConnConnected then data else [])) c"
    using conn_reach_send[OF Cons.prems(2) assms(3,4)] by blast
  define acc' where "acc' = acc(k := acc k @ (if c_state (h k) = ConnConnected then data else []))"
  have "conn_reach (acc' j) ((h(k := c)) j)" for j using c(2) Cons.prems(2) by (simp add: acc'_def)
  moreover have "distinct ks" using Cons.prems(1) by simp
  ultimately obtain h' where h': "run_effects res (map (\<lambda>k. ConnSend k data) ks) (h(k := c)) = Some h'"
    "\<forall>j. conn_reach (acc' j @ (if j \<in> set ks \<and> c_state ((h(k := c)) j) = ConnConnected then data else [])) (h' j)"
    using Cons.IH[of acc' "h(k := c)"] by blast
  have "conn_reach (acc j @ (if j \<in> set (k # ks) \<and> c_state (h j) = ConnConnected then data else [])) (h' j)" for j
    using h'(2)[rule_format, of j] Cons.prems(1) by (cases "j = k") (auto simp: acc'_def)
  then show ?case using c(1) h'(1) by auto
qed simp

subsection \<open>A broadcast\<close>

text \<open>
  C4: A broadcast reaches exactly the players in the game: when the table is iterated, each
  connected connection of a session that is playing is handed the bytes of the message once,
  after everything it was handed before, and no other connection is handed anything.
\<close>

theorem broadcast_reaches_players:
  assumes "distinct order" "set order = dom (sessions sm)" "inj_on (target sm) {i. target sm i \<noteq> None}"
    and "serialize cls msg Buffer_default = Some b" "Buffer_inv b"
    and "\<forall>k. conn_reach (acc k) (h k)" "\<forall>k. fits (res k) (length (Buffer_content b)) \<and> res k \<noteq> Reset"
  shows "\<exists>es h'. SessionManager_broadcast cls sm msg order = Some es \<and> run_effects res es h = Some h' \<and>
    (\<forall>k. wrote (h' k) @ Buffer_content (outputBuffer (h' k)) = acc k @
      (if c_state (h k) = ConnConnected \<and> (\<exists>i r. sessions sm i = Some r \<and>
          sstate (deref sm r) = kPlaying \<and> connection (deref sm r) = Some k)
       then Buffer_content b else []))"
proof -
  let ?ks = "List.map_filter (target sm) order"
  have t: "k \<in> set ?ks \<longleftrightarrow> (\<exists>i r. sessions sm i = Some r \<and> sstate (deref sm r) = kPlaying \<and>
      connection (deref sm r) = Some k)" for k
    using assms(2) by (auto simp: List.map_filter_def target_def dom_def split: option.splits if_splits; force)
  obtain h' where h': "run_effects res (map (\<lambda>k. ConnSend k (Buffer_content b)) ?ks) h = Some h'"
    "\<forall>k. conn_reach (acc k @ (if k \<in> set ?ks \<and> c_state (h k) = ConnConnected then Buffer_content b else [])) (h' k)"
    using run_sends[OF distinct_targets[OF assms(1,3)], of acc h res "Buffer_content b"] assms(6,7) by auto
  have "wrote (h' k) @ Buffer_content (outputBuffer (h' k)) =
      acc k @ (if k \<in> set ?ks \<and> c_state (h k) = ConnConnected then Buffer_content b else [])" for k
    using conn_reach_inv[OF h'(2)[rule_format]] by (simp add: conn_inv_def)
  then show ?thesis using broadcast_effects[OF assms(4,5), of sm order] h'(1) t by (auto simp: conj_commute)
qed

text \<open>Two sessions with a connection each, of which the first is playing.\<close>

definition one_player :: session_manager where
  "one_player = \<lparr>objects = [(Session_new 1 0)\<lparr>sstate := kPlaying, connection := Some 0\<rparr>, (Session_new 2 5)\<lparr>connection := Some 1\<rparr>],
     nextSessionId = 2, sessions = [1 \<mapsto> 0, 2 \<mapsto> 1], playerSessions = Map.empty, roleSessions = Map.empty\<rparr>"

theorem broadcast_reaches_players_witness:
  "\<exists>es h'. SessionManager_broadcast heartbeat_class one_player 7 [1, 2] = Some es \<and>
    run_effects (\<lambda>_. WouldBlock) es (\<lambda>_. fresh_conn) = Some h' \<and>
    wrote (h' 0) @ Buffer_content (outputBuffer (h' 0)) = be_bytes (7 :: uint32) \<and>
    wrote (h' 1) @ Buffer_content (outputBuffer (h' 1)) = []"
proof -
  from heartbeat_codec[of 7] obtain b where b: "serialize heartbeat_class 7 Buffer_default = Some b"
    "Buffer_inv b" "Buffer_content b = be_bytes (7 :: uint32)" by (rule codec_messageE)
  have t: "target one_player i = (if i = 1 then Some 0 else None)" for i
    by (simp add: target_def one_player_def deref_def Session_new_def)
  have "inj_on (target one_player) {i. target one_player i \<noteq> None}" by (auto simp: inj_on_def t)
  from broadcast_reaches_players[OF _ _ this b(1,2), of "[1, 2]" "\<lambda>_. []" "\<lambda>_. fresh_conn" "\<lambda>_. WouldBlock"]
  obtain es h' where h': "SessionManager_broadcast heartbeat_class one_player 7 [1, 2] = Some es"
    "run_effects (\<lambda>_. WouldBlock) es (\<lambda>_. fresh_conn) = Some h'"
    "\<forall>k. wrote (h' k) @ Buffer_content (outputBuffer (h' k)) =
      (if \<exists>i r. sessions one_player i = Some r \<and> sstate (deref one_player r) = kPlaying \<and>
          connection (deref one_player r) = Some k then Buffer_content b else [])"
    using fresh_conn_reach(1,2) by (auto simp: one_player_def)
  have p: "(\<exists>i r. sessions one_player i = Some r \<and> sstate (deref one_player r) = kPlaying \<and>
      connection (deref one_player r) = Some k) \<longleftrightarrow> k = 0" for k
    by (auto simp: one_player_def deref_def Session_new_def split: if_splits)
  show ?thesis using h' b(3) by (intro exI[of _ es] exI[of _ h']) (simp add: p)
qed

text \<open>
  The message goes out without the header that \<^verbatim>\<open>DefaultCodec\<close> reads: a peer that uses the
  codec takes a short message for the beginning of a header and waits for the rest.
\<close>

theorem broadcast_of_short_message_not_decoded:
  assumes "Buffer_inv b" "length (Buffer_content b) < 13"
  shows "DefaultCodec_decode cls fac b = Some (None, b)"
  using assms by (simp add: DefaultCodec_decode_def readableBytes_eq HEADER_SIZE_def)

theorem broadcast_of_short_message_not_decoded_witness:
  "\<exists>b. serialize heartbeat_class 7 Buffer_default = Some b \<and> DefaultCodec_decode heartbeat_class heartbeat_factory b = Some (None, b)"
proof -
  from heartbeat_codec[of 7] obtain b where b: "serialize heartbeat_class 7 Buffer_default = Some b"
    "Buffer_inv b" "Buffer_content b = be_bytes (7 :: uint32)" by (rule codec_messageE)
  then show ?thesis using broadcast_of_short_message_not_decoded[of b heartbeat_class heartbeat_factory] by auto
qed

end
