(* ===== verification/Md5Vector.thy ===== *)
theory Md5Vector
  imports Crypto
begin

text \<open>
  The first test vector of RFC 1321, the digest of the empty message, computed by the model of
  \<^verbatim>\<open>md5.cpp\<close>: all sixty-four steps with their constants and rotations, four at a time.
\<close>

unbundle bit_operations_syntax

text \<open>The only block: the end mark, zeros, and the length zero, as sixteen words.\<close>

definition empty_block :: "byte list" where
  "empty_block = 0x80 # replicate 63 0"

definition empty_words :: "uint32 list" where
  "empty_words = [0x80, 0, 0, 0, 0, 0, 0, 0, 0, 0, 0, 0, 0, 0, 0, 0]"

lemma replicate_63: "replicate 63 x = [x, x, x, x, x, x, x, x, x, x, x, x, x, x, x, x, x, x, x, x, x, x, x, x, x, x, x, x, x, x, x, x, x, x, x, x, x, x, x, x, x, x, x, x, x, x, x, x, x, x, x, x, x, x, x, x, x, x, x, x, x, x, x]"
  by (simp add: numeral_eq_Suc)

lemma empty_block_words: "MD5_words empty_block = empty_words"
  by (simp add: MD5_words_def empty_block_def replicate_63 empty_words_def upt_rec)

lemmas step_defs = MD5_step_def rotateLeft_def MD5_F_def MD5_G_def MD5_H_def MD5_I_def empty_words_def

lemma empty_1_1:
  "fold (MD5_step MD5_F empty_words) [(0, 7, 0xd76aa478), (1, 12, 0xe8c7b756), (2, 17, 0x242070db), (3, 22, 0xc1bdceee)]
     (0x67452301, 0xefcdab89, 0x98badcfe, 0x10325476) = (0xa5202774, 0x1b163203, 0xe7f06b23, 0xf59592dd)"
  by (simp add: step_defs)

lemma empty_1_2:
  "fold (MD5_step MD5_F empty_words) [(4, 7, 0xf57c0faf), (5, 12, 0x4787c62a), (6, 17, 0xa8304613), (7, 22, 0xfd469501)]
     (0xa5202774, 0x1b163203, 0xe7f06b23, 0xf59592dd) = (0x32033344, 0x9bc13ce9, 0xf5b158db, 0x2f35d494)"
  by (simp add: step_defs)

lemma empty_1_3:
  "fold (MD5_step MD5_F empty_words) [(8, 7, 0x698098d8), (9, 12, 0x8b44f7af), (10, 17, 0xffff5bb1), (11, 22, 0x895cd7be)]
     (0x32033344, 0x9bc13ce9, 0xf5b158db, 0x2f35d494) = (0x3893b991, 0x70768a29, 0xe1ef0576, 0xfce4a312)"
  by (simp add: step_defs)

lemma empty_1_4:
  "fold (MD5_step MD5_F empty_words) [(12, 7, 0x6b901122), (13, 12, 0xfd987193), (14, 17, 0xa679438e), (15, 22, 0x49b40821)]
     (0x3893b991, 0x70768a29, 0xe1ef0576, 0xfce4a312) = (0xf56c7cf1, 0xd6819c6a, 0x5aa53f75, 0x374943a7)"
  by (simp add: step_defs)

lemma empty_round1:
  "fold (MD5_step MD5_F empty_words) MD5_round1 (0x67452301, 0xefcdab89, 0x98badcfe, 0x10325476) = (0xf56c7cf1, 0xd6819c6a, 0x5aa53f75, 0x374943a7)"
proof -
  have r: "MD5_round1 = [(0, 7, 0xd76aa478), (1, 12, 0xe8c7b756), (2, 17, 0x242070db), (3, 22, 0xc1bdceee)] @
    [(4, 7, 0xf57c0faf), (5, 12, 0x4787c62a), (6, 17, 0xa8304613), (7, 22, 0xfd469501)] @
    [(8, 7, 0x698098d8), (9, 12, 0x8b44f7af), (10, 17, 0xffff5bb1), (11, 22, 0x895cd7be)] @
    [(12, 7, 0x6b901122), (13, 12, 0xfd987193), (14, 17, 0xa679438e), (15, 22, 0x49b40821)]"
    by (simp add: MD5_round1_def)
  show ?thesis unfolding r fold_append comp_apply empty_1_1 empty_1_2 empty_1_3 empty_1_4 ..
qed

lemma empty_2_1:
  "fold (MD5_step MD5_G empty_words) [(1, 5, 0xf61e2562), (6, 9, 0xc040b340), (11, 14, 0x265e5a51), (0, 20, 0xe9b6c7aa)]
     (0xf56c7cf1, 0xd6819c6a, 0x5aa53f75, 0x374943a7) = (0x1c7d7513, 0xbd782e17, 0xc095f13a, 0x7bd57a3a)"
  by (simp add: step_defs)

lemma empty_2_2:
  "fold (MD5_step MD5_G empty_words) [(5, 5, 0xd62f105d), (10, 9, 0x02441453), (15, 14, 0xd8a1e681), (4, 20, 0xe7d3fbc8)]
     (0x1c7d7513, 0xbd782e17, 0xc095f13a, 0x7bd57a3a) = (0x3d1e3e6c, 0xe422531a, 0xeb41643e, 0x68b7b3e3)"
  by (simp add: step_defs)

lemma empty_2_3:
  "fold (MD5_step MD5_G empty_words) [(9, 5, 0x21e1cde6), (14, 9, 0xc33707d6), (3, 14, 0xf4d50d87), (8, 20, 0x455a14ed)]
     (0x3d1e3e6c, 0xe422531a, 0xeb41643e, 0x68b7b3e3) = (0x306ec122, 0xa0572807, 0xa3c663da, 0xd28c77c2)"
  by (simp add: step_defs)

lemma empty_2_4:
  "fold (MD5_step MD5_G empty_words) [(13, 5, 0xa9e3e905), (2, 9, 0xfcefa3f8), (7, 14, 0x676f02d9), (12, 20, 0x8d2a4c8a)]
     (0x306ec122, 0xa0572807, 0xa3c663da, 0xd28c77c2) = (0x13707036, 0xa2205f1f, 0x1c31c384, 0xae7813db)"
  by (simp add: step_defs)

lemma empty_round2:
  "fold (MD5_step MD5_G empty_words) MD5_round2 (0xf56c7cf1, 0xd6819c6a, 0x5aa53f75, 0x374943a7) = (0x13707036, 0xa2205f1f, 0x1c31c384, 0xae7813db)"
proof -
  have r: "MD5_round2 = [(1, 5, 0xf61e2562), (6, 9, 0xc040b340), (11, 14, 0x265e5a51), (0, 20, 0xe9b6c7aa)] @
    [(5, 5, 0xd62f105d), (10, 9, 0x02441453), (15, 14, 0xd8a1e681), (4, 20, 0xe7d3fbc8)] @
    [(9, 5, 0x21e1cde6), (14, 9, 0xc33707d6), (3, 14, 0xf4d50d87), (8, 20, 0x455a14ed)] @
    [(13, 5, 0xa9e3e905), (2, 9, 0xfcefa3f8), (7, 14, 0x676f02d9), (12, 20, 0x8d2a4c8a)]"
    by (simp add: MD5_round2_def)
  show ?thesis unfolding r fold_append comp_apply empty_2_1 empty_2_2 empty_2_3 empty_2_4 ..
qed

lemma empty_3_1:
  "fold (MD5_step MD5_H empty_words) [(5, 4, 0xfffa3942), (8, 11, 0x8771f681), (11, 16, 0x6d9d6122), (14, 23, 0xfde5380c)]
     (0x13707036, 0xa2205f1f, 0x1c31c384, 0xae7813db) = (0xdf63eaa1, 0x004b6669, 0x12f3e755, 0xc3689f5b)"
  by (simp add: step_defs)

lemma empty_3_2:
  "fold (MD5_step MD5_H empty_words) [(1, 4, 0xa4beea44), (4, 11, 0x4bdecfa9), (7, 16, 0xf6bb4b60), (10, 23, 0xbebfbc70)]
     (0xdf63eaa1, 0x004b6669, 0x12f3e755, 0xc3689f5b) = (0x5f7a9b2e, 0xc5dc8c15, 0x91ca4cb7, 0xabc34e16)"
  by (simp add: step_defs)

lemma empty_3_3:
  "fold (MD5_step MD5_H empty_words) [(13, 4, 0x289b7ec6), (0, 11, 0xeaa127fa), (3, 16, 0xd4ef3085), (6, 23, 0x04881d05)]
     (0x5f7a9b2e, 0xc5dc8c15, 0x91ca4cb7, 0xabc34e16) = (0x4497169d, 0x0fe32453, 0xfd95f243, 0x76fd93d4)"
  by (simp add: step_defs)

lemma empty_3_4:
  "fold (MD5_step MD5_H empty_words) [(9, 4, 0xd9d4d039), (12, 11, 0xe6db99e5), (15, 16, 0x1fa27cf8), (2, 23, 0xc4ac5665)]
     (0x4497169d, 0x0fe32453, 0xfd95f243, 0x76fd93d4) = (0x3f55edfd, 0xca7d2dbd, 0x68d84ea2, 0x22a31f54)"
  by (simp add: step_defs)

lemma empty_round3:
  "fold (MD5_step MD5_H empty_words) MD5_round3 (0x13707036, 0xa2205f1f, 0x1c31c384, 0xae7813db) = (0x3f55edfd, 0xca7d2dbd, 0x68d84ea2, 0x22a31f54)"
proof -
  have r: "MD5_round3 = [(5, 4, 0xfffa3942), (8, 11, 0x8771f681), (11, 16, 0x6d9d6122), (14, 23, 0xfde5380c)] @
    [(1, 4, 0xa4beea44), (4, 11, 0x4bdecfa9), (7, 16, 0xf6bb4b60), (10, 23, 0xbebfbc70)] @
    [(13, 4, 0x289b7ec6), (0, 11, 0xeaa127fa), (3, 16, 0xd4ef3085), (6, 23, 0x04881d05)] @
    [(9, 4, 0xd9d4d039), (12, 11, 0xe6db99e5), (15, 16, 0x1fa27cf8), (2, 23, 0xc4ac5665)]"
    by (simp add: MD5_round3_def)
  show ?thesis unfolding r fold_append comp_apply empty_3_1 empty_3_2 empty_3_3 empty_3_4 ..
qed

lemma empty_4_1:
  "fold (MD5_step MD5_I empty_words) [(0, 6, 0xf4292244), (7, 10, 0x432aff97), (14, 15, 0xab9423a7), (5, 21, 0xfc93a039)]
     (0x3f55edfd, 0xca7d2dbd, 0x68d84ea2, 0x22a31f54) = (0x93aa2577, 0x561e0689, 0xcd85b8cb, 0x1688dc85)"
  by (simp add: step_defs)

lemma empty_4_2:
  "fold (MD5_step MD5_I empty_words) [(12, 6, 0x655b59c3), (3, 10, 0x8f0ccc92), (10, 15, 0xffeff47d), (1, 21, 0x85845dd1)]
     (0x93aa2577, 0x561e0689, 0xcd85b8cb, 0x1688dc85) = (0x5625a114, 0x1e77fa61, 0x392ad0d0, 0x3450f42b)"
  by (simp add: step_defs)

lemma empty_4_3:
  "fold (MD5_step MD5_I empty_words) [(8, 6, 0x6fa87e4f), (15, 10, 0xfe2ce6e0), (6, 15, 0xa3014314), (13, 21, 0x4e0811a1)]
     (0x5625a114, 0x1e77fa61, 0x392ad0d0, 0x3450f42b) = (0x474a9c8c, 0x30130182, 0x36594b14, 0xdfce00bc)"
  by (simp add: step_defs)

lemma empty_4_4:
  "fold (MD5_step MD5_I empty_words) [(4, 6, 0xf7537e82), (11, 10, 0xbd3af235), (2, 15, 0x2ad7d2bb), (9, 21, 0xeb86d391)]
     (0x474a9c8c, 0x30130182, 0x36594b14, 0xdfce00bc) = (0x7246fad3, 0x14e45506, 0xff4ea3eb, 0x6e10a476)"
  by (simp add: step_defs)

lemma empty_round4:
  "fold (MD5_step MD5_I empty_words) MD5_round4 (0x3f55edfd, 0xca7d2dbd, 0x68d84ea2, 0x22a31f54) = (0x7246fad3, 0x14e45506, 0xff4ea3eb, 0x6e10a476)"
proof -
  have r: "MD5_round4 = [(0, 6, 0xf4292244), (7, 10, 0x432aff97), (14, 15, 0xab9423a7), (5, 21, 0xfc93a039)] @
    [(12, 6, 0x655b59c3), (3, 10, 0x8f0ccc92), (10, 15, 0xffeff47d), (1, 21, 0x85845dd1)] @
    [(8, 6, 0x6fa87e4f), (15, 10, 0xfe2ce6e0), (6, 15, 0xa3014314), (13, 21, 0x4e0811a1)] @
    [(4, 6, 0xf7537e82), (11, 10, 0xbd3af235), (2, 15, 0x2ad7d2bb), (9, 21, 0xeb86d391)]"
    by (simp add: MD5_round4_def)
  show ?thesis unfolding r fold_append comp_apply empty_4_1 empty_4_2 empty_4_3 empty_4_4 ..
qed

lemma empty_transform: "MD5_transform MD5_start empty_block = (0xd98c1dd4, 0x04b2008f, 0x980980e9, 0x7e42f8ec)"
  unfolding MD5_transform_def empty_block_words MD5_start_def Let_def empty_round1 empty_round2 empty_round3 empty_round4
  by simp

lemma md5_reference_empty: "md5_reference [] = md5_digest_bytes (0xd98c1dd4, 0x04b2008f, 0x980980e9, 0x7e42f8ec)"
proof -
  have z: "le_bytes (0 :: uint32) = replicate 4 0" by (rule nth_equalityI) (simp_all add: le_bytes_def)
  have "md5_padding 0 = 0x80 # replicate 55 0" by (simp add: md5_padding_def)
  then have "[] @ md5_padding 0 @ le_bytes (0 :: uint32) @ le_bytes (0 :: uint32) = empty_block"
    by (simp add: empty_block_def z flip: replicate_add)
  moreover have "MD5_blocks MD5_start empty_block = (MD5_transform MD5_start empty_block, [])"
    by (subst MD5_blocks.simps, subst MD5_blocks.simps) (simp add: empty_block_def)
  ultimately show ?thesis by (simp add: md5_reference_def empty_transform)
qed

theorem MD5_empty_message: "MD5_hexDigest_string md5_zeros [] = ''d41d8cd98f00b204e9800998ecf8427e''"
proof -
  have "md5_digest_bytes (0xd98c1dd4, 0x04b2008f, 0x980980e9, 0x7e42f8ec) =
      [0xd4, 0x1d, 0x8c, 0xd9, 0x8f, 0x00, 0xb2, 0x04, 0xe9, 0x80, 0x09, 0x98, 0xec, 0xf8, 0x42, 0x7e]"
    by (simp add: md5_digest_bytes_def upt_rec)
  then show ?thesis
    by (simp add: MD5_hexDigest_string_eq string_bytes_def MD5_hexDigest_bytes_reference md5_zeros_def
      md5_reference_empty hex_digit_def)
qed

end
