(* ===== verification/Spec2Isabelle.thy ===== *)
theory Spec2Isabelle
  imports Prelude Buffer BufferStream Codec Registry Session Queues TimerWheel Timers ThreadPools Scene
    Database Social ConnPools MySQL Orm Redis Crypto Accounts Battle Address Reactor Connection Server Gateway
    Threads Lua Locks PoolGuards Handles ThreadStart Floats Randoms LoopTimers Sockets LuaBind Lifecycle
    Progress Types LibraryCalls Rules Rows ConfigFile ConnTasks Broadcast Md5Vector
begin

text \<open>
  A model of LegendServer, a game server in C++ (\<^verbatim>\<open>src/src\<close>), and what it does.

  The program. A reactor (event loop, poller, channels) drives TCP connections with an input
  and an output buffer; codecs cut the byte stream into messages, a dispatcher and the
  gateway's router call handlers by message id; sessions tie connections to players and roles;
  game modules (login, roles, teams, friends, chat, battles, scenes) work on tables in memory
  and on MySQL and Redis, which they reach through connection pools; timers, queues and a
  thread pool run deferred work; \<^verbatim>\<open>main\<close> loads a configuration and starts a server.

  Conventions (theory Prelude). A class is a record of its members, a method a definition named
  \<open>Class_method\<close> that takes the object and returns it changed. Objects behind shared
  pointers live in a list that stands for the heap, a pointer being an index. Maps are partial
  functions, or association lists where the order of iteration shows. \<open>None\<close> at the outside
  of a result is what each theory says of it: undefined behaviour, a failed assertion, an
  exception nobody catches, or a thread that blocks for ever. Answers of the kernel, the clock,
  random numbers and the client libraries are arguments; what is documented of them and needed
  is a named predicate that the theorems assume (\<open>redis_keeps\<close>, \<open>inet_ok\<close>,
  \<open>metadata_without_rows\<close>, \<open>lua_ok\<close>, \<open>lua_iter_ok\<close>, \<open>rounds\<close>, \<open>rng_ok\<close>, \<open>sets_flags\<close>,
  \<open>escapes_in_place\<close>, \<open>keeps_rows\<close>), each
  satisfied by an instance in a witness. Integers whose bits or wrap-around matter are words; counters wrap by \<open>wrap64\<close>; a number that is only
  stored and compared is an \<open>int\<close>.

  Theories and the code they model:
  \<^item> Buffer, BufferStream: \<^verbatim>\<open>common/base/buffer\<close>, \<^verbatim>\<open>common/network/buffer_stream\<close>. The vector with
    its two indices; the operations are described by what they do to \<open>Buffer_content\<close>.
  \<^item> Codec, Registry: \<^verbatim>\<open>core/message\<close>, \<^verbatim>\<open>gateway/message_router\<close>. Headers, factory, both codecs;
    the contracts \<open>keyed_store\<close> and \<open>object_cache\<close>, which the dispatcher, the router, the role
    manager and others provide by interpretation.
  \<^item> Types: \<^verbatim>\<open>common/base/types.h\<close>. Error codes, message identifiers with their order, the clock.
  \<^item> Session: \<^verbatim>\<open>core/session\<close>, \<open>Server::onNewConnection\<close>. Three tables over session objects.
  \<^item> Queues, ThreadPools, Threads: \<^verbatim>\<open>common/thread\<close>, \<^verbatim>\<open>core/message/message_queue\<close>. Each operation is
    split where its thread gives the mutex away; the lemmas hold for every interleaving. Thread
    objects and the handles they own; what both pools share is the contract \<open>task_steps\<close>.
  \<^item> Progress: that the workers of both pools end with all the work done, and that \<open>stop\<close> returns,
    under every schedule; a measure of the work left and the contract \<open>draining\<close>.
  \<^item> Locks, Handles, ThreadStart: \<^verbatim>\<open>common/thread/mutex.h\<close>, \<^verbatim>\<open>common/base/singleton.h\<close>, the move-only
    owners (threads, Redis replies), \<^verbatim>\<open>Thread::start\<close>. The contracts \<open>scoped_lock\<close> (both locks with their
    guards) and \<open>owner\<close>; the handshake between a thread and the thread that starts it.
  \<^item> TimerWheel, Timers: \<^verbatim>\<open>common/timer\<close>. The wheel against a countdown per timer; the ordered
    set of timers with callbacks that add and cancel timers while a batch runs.
  \<^item> Scene: \<^verbatim>\<open>game/scene\<close>. The area-of-interest grid, scenes and their manager.
  \<^item> Database, MySQL, ConnPools, PoolGuards, Redis: \<^verbatim>\<open>database/mysql\<close>, \<^verbatim>\<open>database/redis\<close>. Results,
    statements, transactions, the pools' accounting with the callers that wait on their condition
    variable, and their guards; replies with the frees of their temporaries.
  \<^item> Orm, Rows: \<^verbatim>\<open>database/orm\<close>. Dirty fields, statements and parameters of the entities, the
    query builder, the entity manager's cache; what is saved against what is loaded.
  \<^item> Social, Accounts, Battle, Rules: \<^verbatim>\<open>game/modules\<close>, \<^verbatim>\<open>game/game_config.h\<close>. Teams, friends, chat;
    login and roles; battles; the configured rules, and the sessions of a server.
  \<^item> Crypto, Md5Vector, Randoms: \<^verbatim>\<open>common/crypto\<close>. MD5 and AES at machine width, padding, the random
    identifier; a test vector of RFC 1321, computed in the logic; random numbers, strings and keys
    over an engine.
  \<^item> LibraryCalls: the remaining calls into the client library of MySQL and into the kernel.
  \<^item> Floats: the floating-point operations of the battle module, the result sets and the sorted
    sets of Redis, for every way to round the real numbers.
  \<^item> Address, Sockets, Reactor, LoopTimers, Connection: \<^verbatim>\<open>common/network\<close>, \<^verbatim>\<open>core/reactor\<close>. Addresses;
    options and flags of a socket; the poller as the sequence of its \<^verbatim>\<open>epoll_ctl\<close> calls against the
    kernel's interest list; the loop's passes, with its timers and its own channel; a connection's
    states, buffers, write interest and queued functors.
  \<^item> ConnTasks, Broadcast: \<^verbatim>\<open>common/network/connection\<close> used from other threads than its loop's, with
    the functors run one by one between the events; \<^verbatim>\<open>core/session\<close> sending over the connections.
  \<^item> Server, ConfigFile, Gateway, Lifecycle: \<^verbatim>\<open>core/server\<close>, \<^verbatim>\<open>common/network/socket\<close>, \<^verbatim>\<open>game/game_server\<close>, \<^verbatim>\<open>main.cpp\<close>,
    \<^verbatim>\<open>gateway\<close>. Descriptors got and closed, loading a
    configuration and the shipped one, the flow of \<^verbatim>\<open>main\<close>; the
    gateway's table of connections with their references and destructors; the whole of \<^verbatim>\<open>main\<close> with
    what it prints and the signal that ends it, and the destructors.
  \<^item> Lua, LuaBind: \<^verbatim>\<open>src/lua\<close>. The engine over the library's stack, the table wrapper with its
    iteration, the class registrar, the function binders, the module loader.
  This theory composes them: messages across a connection, and the modules over the code's own
  database class.

  What the lemmas show. Each theory proves an invariant of its reachable states (an inductive
  predicate over its operations) or what the operations do to an abstract view, and states its
  properties over them; those of the manifest carry an id C\<open>n\<close>. A number of theorems show
  that the code does not do what it means to, among them: a partial frame is destroyed by the
  decoder, no prepared query returns a row (so nobody can log in), the gateway drops each
  connection it accepts, a shutdown from another thread can lose data sent before it, a broadcast
  is not what the peer's codec reads, AES cannot be decrypted, a Redis list is freed twice.

  Bounds and fuel. Loops over lists recurse on the list; the rows of a result bound the loops over
  it, and the thirty rounds of a battle its loop (\<open>battle_outcome\<close> shows that they suffice).
  Blocking is a result, not a loop: a caller that must wait is told so. \<open>ThreadPool_work\<close> bounds the
  steps of a pool's workers.

  Not modelled, and why: infinities and NaNs (theory Floats takes the real numbers with a
  rounding); what an operating system lock does beyond exclusion (fairness, priorities); accessors
  that only return a member, which are the selectors of the records; the deleted copies of
  \<open>NonCopyable\<close> and the type aliases, which compute nothing.
\<close>

section \<open>Messages over a connection\<close>

text \<open>
  The receiver reads what the kernel delivers, chunk by chunk, into its input buffer; its
  message callback decodes once everything has arrived.
\<close>

fun receive_all :: "byte list list \<Rightarrow> tcp_conn \<Rightarrow> tcp_conn option" where
  "receive_all [] c = Some c"
| "receive_all (bs # chunks) c = do { c \<leftarrow> Connection_handleRead (\<lambda>b. b) (Inr bs) c; receive_all chunks c }"

lemma handleRead_appends:
  assumes "Buffer_inv (inputBuffer c)" "bs \<noteq> []"
  obtains c' where "Connection_handleRead (\<lambda>b. b) (Inr bs) c = Some c'" "Buffer_inv (inputBuffer c')"
    "Buffer_content (inputBuffer c') = Buffer_content (inputBuffer c) @ bs"
proof -
  obtain b where b: "Buffer_readFd (inputBuffer c) (Inr bs) = Some (b, int (length bs), None)"
    "Buffer_inv b" "Buffer_content b = Buffer_content (inputBuffer c) @ bs"
    using readFd_content[OF assms(1), of bs] by auto
  then show ?thesis
    using assms(2) that[of "c\<lparr>inputBuffer := b\<rparr>"] by (simp add: Connection_handleRead_def Let_def)
qed

lemma receive_all_appends:
  assumes "Buffer_inv (inputBuffer c)" "[] \<notin> set chunks"
  shows "\<exists>c'. receive_all chunks c = Some c' \<and> Buffer_inv (inputBuffer c') \<and>
    Buffer_content (inputBuffer c') = Buffer_content (inputBuffer c) @ concat chunks"
  using assms
proof (induction chunks arbitrary: c)
  case (Cons bs chunks)
  from Cons.prems have "bs \<noteq> []" by auto
  then obtain d where "Connection_handleRead (\<lambda>b. b) (Inr bs) c = Some d" "Buffer_inv (inputBuffer d)"
    "Buffer_content (inputBuffer d) = Buffer_content (inputBuffer c) @ bs"
    using handleRead_appends[OF Cons.prems(1)] by blast
  then show ?case using Cons.IH[of d] Cons.prems(2) by auto
qed simp

lemma conn_shut_wrote: "conn_reach acc c \<Longrightarrow> shut c \<Longrightarrow> wrote c = acc"
  using conn_reach_inv[of acc c] by (auto simp: conn_inv_def)


lemma whole_send:
  "Connection_sendInLoop (Wrote (length data)) data fresh_conn = Some (fresh_conn\<lparr>wrote := data\<rparr>)"
  "\<not> conn_isWriting fresh_conn"
proof -
  have inv: "conn_inv [] fresh_conn" by (rule conn_reach_inv[OF fresh_conn_reach(1)])
  show w: "\<not> conn_isWriting fresh_conn" using inv fresh_conn_reach by (simp add: conn_inv_def)
  have "\<not> has_writeComplete fresh_conn" by (simp add: fresh_conn_def Connection_new_def notify_def)
  then show "Connection_sendInLoop (Wrote (length data)) data fresh_conn = Some (fresh_conn\<lparr>wrote := data\<rparr>)"
    using w fresh_conn_reach conn_inv_readable[OF inv] by (simp add: Connection_sendInLoop_def Let_def)
qed

lemma sent_and_shut:
  "conn_reach data (Connection_shutdown True (fresh_conn\<lparr>wrote := data\<rparr>))"
  "shut (Connection_shutdown True (fresh_conn\<lparr>wrote := data\<rparr>))"
  "wrote (Connection_shutdown True (fresh_conn\<lparr>wrote := data\<rparr>)) = data"
proof -
  have "conn_reach ([] @ data) (fresh_conn\<lparr>wrote := data\<rparr>)"
    by (rule cn_send[OF fresh_conn_reach(1,2), of "Wrote (length data)"])
      (simp_all add: Connection_send_def fresh_conn_reach whole_send)
  then show "conn_reach data (Connection_shutdown True (fresh_conn\<lparr>wrote := data\<rparr>))" by (simp add: cn_shutdown)
  show "shut (Connection_shutdown True (fresh_conn\<lparr>wrote := data\<rparr>))"
    "wrote (Connection_shutdown True (fresh_conn\<lparr>wrote := data\<rparr>)) = data"
    using whole_send(2) fresh_conn_reach(2)
    by (simp_all add: Connection_shutdown_def Connection_shutdownInLoop_def Let_def)
qed


section \<open>The database behind the modules\<close>

text \<open>
  C18: What the modules can learn from the database when they run on the code's own connection
  class. A prepared query never returns a row, so no account logs in, no role that is not in
  the cache is selected, the list of friends is empty and no team can be joined, whatever the
  tables hold.
\<close>

theorem modules_read_nothing:
  assumes "metadata_without_rows c"
  shows "(\<exists>d'. LoginModule_handleLogin (MySQLConnection_api c) srv conn rc uuid now1 now2 s account password (d, r) = Some (s, d', r)) \<and>
    (\<exists>d'. FriendModule_getFriendList (MySQLConnection_api c) conn i d = (Some [], d')) \<and>
    (\<exists>d'. TeamModule_joinTeam (MySQLConnection_api c) conn s t (tm, d) = Some (False, tm, d')) \<and>
    (rw_cache w j = None \<longrightarrow> (\<exists>d'. RoleModule_selectRole (MySQLConnection_api c) conn s j (w, d) = Some (False, s, w, d')))"
proof -
  have rows: "res_rows res = []" if "MySQLConnection_executeQuery c sql ps d = (res, d')" for sql ps d res d'
    using MySQLConnection_executeQuery_rows(1)[OF assms, of sql ps d] that by simp
  have nxt: "\<not> found" if "MySQLResult_next res = (found, res')" "res_rows res = []" for res found res'
    using that by (auto simp: MySQLResult_next_def split: if_splits)
  show ?thesis
    by (intro conjI)
      (auto simp: LoginModule_handleLogin_def FriendModule_getFriendList_def TeamModule_joinTeam_def
        RoleModule_selectRole_def RoleModule_getRole_def RoleManager_getRole_def dest!: rows nxt
        split: prod.splits)
qed

theorem modules_read_nothing_witness:
  "\<exists>d'. FriendModule_getFriendList (MySQLConnection_api (recording_client 1)) True 5 [] = (Some [], d')"
  by (rule conjunct1[OF conjunct2[OF modules_read_nothing[OF recording_metadata]]])

end
